(* ===== verification/Prelude.thy ===== *)
theory Prelude
  imports Main "HOL-Library.Word" "HOL-Library.Signed_Division" "HOL-Library.Product_Lexorder"
    "HOL-Library.Multiset" "HOL-Library.Sublist"
begin

text \<open>
  Shared vocabulary of the development: Go's integers, durations and instants, the identifiers
  and result values the services exchange, stable sorting with a comparator, small facts on
  lists and sums, and the locale of operation systems, whose invariant lemma every component
  with a stream of operations instantiates.
\<close>

section \<open>Collections of facts\<close>

named_theorems go_arith \<open>Go integer and time operations, unfolded\<close>
named_theorems frame_simps \<open>what an operation leaves unchanged\<close>

section \<open>Machine integers\<close>

text \<open>
  A Go \<open>int64\<close> is an integer with the wrap-around written out: every operation that can
  leave the range is followed by \<open>i64\<close>. Division and remainder truncate towards zero
  (\<open>sdiv\<close> and \<open>smod\<close> of the library).
\<close>

type_synonym int64 = int

definition i64 :: "int \<Rightarrow> int64" where
  "i64 x = (x + 2 ^ 63) mod 2 ^ 64 - 2 ^ 63"

definition in_i64 :: "int \<Rightarrow> bool" where
  "in_i64 x \<longleftrightarrow> - (2 ^ 63) \<le> x \<and> x < 2 ^ 63"

lemma i64_id: "in_i64 x \<Longrightarrow> i64 x = x"
  by (simp add: i64_def in_i64_def)

lemma in_i64_i64 [simp]: "in_i64 (i64 x)"
  by (simp add: i64_def in_i64_def)

lemma i64_small: "\<bar>x\<bar> < 2 ^ 63 \<Longrightarrow> i64 x = x"
  by (rule i64_id) (auto simp: in_i64_def)

section \<open>Durations and instants\<close>

text \<open>
  A \<open>time.Duration\<close> is an \<open>int64\<close> number of nanoseconds. A \<open>time.Time\<close> is the number of
  nanoseconds since the zero instant of Go's \<open>time\<close> package, so that \<open>IsZero\<close> is equality
  with 0, \<open>Before\<close> and \<open>After\<close> are \<open><\<close> and \<open>>\<close>, and \<open>Add\<close> is addition.
  \<open>Sub\<close> saturates at the ends of the duration range.
\<close>

type_synonym duration = int
type_synonym gotime = int

definition Second :: duration where "Second = 1000000000"
definition Minute :: duration where "Minute = 60 * Second"
definition Hour :: duration where "Hour = 60 * Minute"

lemmas duration_defs = Second_def Minute_def Hour_def

definition zero_time :: gotime where "zero_time = 0"

abbreviation is_zero :: "gotime \<Rightarrow> bool" where "is_zero t \<equiv> t = zero_time"

definition time_sub :: "gotime \<Rightarrow> gotime \<Rightarrow> duration" where
  "time_sub t u =
     (let d = t - u in if d \<ge> 2 ^ 63 then 2 ^ 63 - 1 else if d < - (2 ^ 63) then - (2 ^ 63) else d)"

lemma time_sub_exact: "in_i64 (t - u) \<Longrightarrow> time_sub t u = t - u"
  by (simp add: time_sub_def in_i64_def)

lemma in_i64_time_sub: "in_i64 (time_sub t u)"
  by (simp add: time_sub_def in_i64_def Let_def)

section \<open>Identifiers and results\<close>

text \<open>A UUID is its 128 bits; \<open>uuid.Nil\<close> is 0, and the order is that of the database.\<close>

type_synonym uuid = "128 word"

abbreviation uuid_nil :: uuid where "uuid_nil \<equiv> 0"

abbreviation is_ok :: "'e + 'a \<Rightarrow> bool" where "is_ok r \<equiv> \<not> isl r"

lemma is_okE: "is_ok r \<Longrightarrow> (\<And>x. r = Inr x \<Longrightarrow> P) \<Longrightarrow> P"
  by (cases r) auto

section \<open>Stable sorting with a comparator\<close>

text \<open>
  \<open>sort.SliceStable\<close> with its \<open>less\<close> function: the insertion sort that keeps elements
  the comparator does not separate in their order.
\<close>

fun insert_by :: "('a \<Rightarrow> 'a \<Rightarrow> bool) \<Rightarrow> 'a \<Rightarrow> 'a list \<Rightarrow> 'a list" where
  "insert_by lt x [] = [x]"
| "insert_by lt x (y # ys) = (if lt y x then y # insert_by lt x ys else x # y # ys)"

definition slice_stable :: "('a \<Rightarrow> 'a \<Rightarrow> bool) \<Rightarrow> 'a list \<Rightarrow> 'a list" where
  "slice_stable lt xs = foldr (insert_by lt) xs []"

lemma insert_by_key:
  fixes f :: "'a \<Rightarrow> 'k::linorder"
  assumes "\<And>x y. lt x y \<longleftrightarrow> f x < f y"
  shows "insert_by lt x ys = insort_key f x ys"
  by (induction ys) (auto simp: assms)

lemma slice_stable_key:
  fixes f :: "'a \<Rightarrow> 'k::linorder"
  assumes "\<And>x y. lt x y \<longleftrightarrow> f x < f y"
  shows "slice_stable lt xs = sort_key f xs"
  by (induction xs) (simp_all add: slice_stable_def sort_key_def insert_by_key [OF assms])

lemma mset_insert_by [simp]: "mset (insert_by lt x ys) = add_mset x (mset ys)"
  by (induction ys) auto

lemma mset_slice_stable [simp]: "mset (slice_stable lt xs) = mset xs"
  by (induction xs) (auto simp: slice_stable_def)

lemma set_slice_stable [simp]: "set (slice_stable lt xs) = set xs"
  by (metis mset_slice_stable set_mset_mset)

lemma distinct_slice_stable [simp]: "distinct (slice_stable lt xs) = distinct xs"
  by (metis mset_slice_stable mset_eq_imp_distinct_iff)

lemma sort_key_append_ordered:
  fixes f :: "'a \<Rightarrow> 'k::linorder"
  assumes less: "\<And>x y. x \<in> set xs \<Longrightarrow> y \<in> set ys \<Longrightarrow> f x < f y"
  shows "sort_key f (xs @ ys) = sort_key f xs @ sort_key f ys"
proof (rule properties_for_sort_key)
  show "mset (sort_key f xs @ sort_key f ys) = mset (xs @ ys)" by simp
next
  fix k assume "k \<in> set (sort_key f xs @ sort_key f ys)"
  show "filter (\<lambda>x. f k = f x) (sort_key f xs @ sort_key f ys) = filter (\<lambda>x. f k = f x) (xs @ ys)"
    by (simp add: sort_key_stable eq_commute [of "f k"])
next
  show "sorted (map f (sort_key f xs @ sort_key f ys))"
    using less by (fastforce simp: sorted_append)
qed

section \<open>Lists and sums\<close>

lemma sum_list_update_int:
  fixes f :: "'a \<Rightarrow> int"
  assumes "i < length xs"
  shows "sum_list (map f (xs[i := x])) = sum_list (map f xs) - f (xs ! i) + f x"
  using assms
proof (induction xs arbitrary: i)
  case Nil
  then show ?case by simp
next
  case (Cons a xs)
  then show ?case by (cases i) auto
qed

lemma sum_list_filter_split:
  fixes f :: "'a \<Rightarrow> int"
  shows "sum_list (map f xs) = sum_list (map f (filter P xs)) + sum_list (map f (filter (\<lambda>x. \<not> P x) xs))"
  by (induction xs) auto

lemma sum_list_nonneg_int:
  fixes f :: "'a \<Rightarrow> int"
  shows "(\<And>x. x \<in> set xs \<Longrightarrow> 0 \<le> f x) \<Longrightarrow> 0 \<le> sum_list (map f xs)"
  by (induction xs) auto

lemma sum_list_zero_int:
  fixes f :: "'a \<Rightarrow> int"
  shows "(\<And>x. x \<in> set xs \<Longrightarrow> f x = 0) \<Longrightarrow> sum_list (map f xs) = 0"
  by (induction xs) auto

lemma sum_list_mset_cong:
  fixes f :: "'a \<Rightarrow> int"
  shows "mset xs = mset ys \<Longrightarrow> sum_list (map f xs) = sum_list (map f ys)"
  by (metis mset_map sum_mset_sum_list)

lemma subseq_setD: "subseq xs ys \<Longrightarrow> set xs \<subseteq> set ys"
  by (induction rule: list_emb.induct) auto

lemma subseq_distinctD: "subseq xs ys \<Longrightarrow> distinct ys \<Longrightarrow> distinct xs"
  by (induction rule: list_emb.induct) (auto dest: subseq_setD)

text \<open>Updating the rows with one key, as an \<open>UPDATE ... WHERE id = ?\<close> does.\<close>

lemma find_map_update:
  assumes "\<And>x. key (f x) = key x"
  shows "find (\<lambda>x. key x = j) (map (\<lambda>x. if key x = i then f x else x) xs) =
    (if j = i then map_option f (find (\<lambda>x. key x = j) xs) else find (\<lambda>x. key x = j) xs)"
  by (induction xs) (auto simp: assms)

lemma find_SomeD: "find P xs = Some x \<Longrightarrow> x \<in> set xs \<and> P x"
  by (induction xs) (auto split: if_splits)

section \<open>Operation systems\<close>

text \<open>
  A component that serves a stream of operations: \<open>exec\<close> is one operation, total, with a
  failed operation leaving the state as its error path leaves it. An invariant kept by every
  operation holds after every stream, and a quantity no operation decreases never decreases.
\<close>

fun run_ops :: "('o \<Rightarrow> 's \<Rightarrow> 's) \<Rightarrow> 'o list \<Rightarrow> 's \<Rightarrow> 's" where
  "run_ops ex [] s = s"
| "run_ops ex (x # xs) s = run_ops ex xs (ex x s)"

lemma run_ops_append [simp]: "run_ops ex (xs @ ys) s = run_ops ex ys (run_ops ex xs s)"
  by (induction xs arbitrary: s) auto

locale op_system =
  fixes exec :: "'o \<Rightarrow> 's \<Rightarrow> 's"
    and inv :: "'s \<Rightarrow> bool"
  assumes inv_exec: "inv s \<Longrightarrow> inv (exec x s)"
begin

lemma inv_run: "inv s \<Longrightarrow> inv (run_ops exec xs s)"
  by (induction xs arbitrary: s) (auto intro: inv_exec)

lemma inv_run_prefix: "inv s \<Longrightarrow> inv (run_ops exec (take n xs) s)"
  by (rule inv_run)

end

end
