(* ===== verification/Strs.thy ===== *)
theory Strs
  imports Prelude
begin

text \<open>
  Go strings as lists of bytes: decimal printing, substring search, prefixes, trimming,
  splitting and joining, each as the standard library's function the source calls, with the
  laws the components use.
\<close>

section \<open>Decimal printing\<close>

definition digit_char :: "nat \<Rightarrow> char" where
  "digit_char d = char_of (48 + d)"

fun show_nat :: "nat \<Rightarrow> string" where
  "show_nat n = (if n < 10 then [digit_char n] else show_nat (n div 10) @ [digit_char (n mod 10)])"

declare show_nat.simps [simp del]

definition show_int :: "int \<Rightarrow> string" where
  "show_int i = (if i < 0 then CHR ''-'' # show_nat (nat (- i)) else show_nat (nat i))"

definition is_digit :: "char \<Rightarrow> bool" where
  "is_digit c \<longleftrightarrow> 48 \<le> (of_char c :: nat) \<and> (of_char c :: nat) \<le> 57"

definition digit_val :: "char \<Rightarrow> nat" where
  "digit_val c = of_char c - 48"

fun read_digits :: "nat \<Rightarrow> string \<Rightarrow> nat option" where
  "read_digits acc [] = Some acc"
| "read_digits acc (c # cs) = (if is_digit c then read_digits (10 * acc + digit_val c) cs else None)"

lemma is_digit_digit_char [simp]: "d < 10 \<Longrightarrow> is_digit (digit_char d)"
  by (simp add: is_digit_def digit_char_def)

lemma digit_val_digit_char [simp]: "d < 10 \<Longrightarrow> digit_val (digit_char d) = d"
  by (simp add: digit_val_def digit_char_def)

lemma read_digits_append:
  "read_digits a (xs @ ys) = (case read_digits a xs of None \<Rightarrow> None | Some b \<Rightarrow> read_digits b ys)"
  by (induction xs arbitrary: a) auto

lemma show_nat_nonempty [simp]: "show_nat n \<noteq> []"
  by (subst show_nat.simps) simp

lemma show_nat_digits: "list_all is_digit (show_nat n)"
proof (induction n rule: show_nat.induct)
  case (1 n)
  then show ?case by (subst show_nat.simps) auto
qed

lemma read_show_nat: "read_digits 0 (show_nat n) = Some n"
proof (induction n rule: show_nat.induct)
  case (1 n)
  show ?case
  proof (cases "n < 10")
    case True
    then show ?thesis by (subst show_nat.simps) simp
  next
    case False
    with 1 have "read_digits 0 (show_nat (n div 10)) = Some (n div 10)" by simp
    with False show ?thesis by (subst show_nat.simps) (simp add: read_digits_append)
  qed
qed

lemma show_nat_inj: "show_nat m = show_nat n \<Longrightarrow> m = n"
  by (metis option.inject read_show_nat)

text \<open>
  \<open>strconv.Atoi\<close>: an optional sign, at least one digit, digits only, a value in the range of
  \<open>int\<close>.
\<close>

definition atoi_nat :: "string \<Rightarrow> nat option" where
  "atoi_nat s = (if s = [] then None else read_digits 0 s)"

definition atoi :: "string \<Rightarrow> int option" where
  "atoi s =
     (case (case s of
              [] \<Rightarrow> None
            | c # cs \<Rightarrow>
                if c = CHR ''-'' then map_option (\<lambda>n. - int n) (atoi_nat cs)
                else if c = CHR ''+'' then map_option int (atoi_nat cs)
                else map_option int (atoi_nat s)) of
        None \<Rightarrow> None
      | Some i \<Rightarrow> if in_i64 i then Some i else None)"

lemma digit_not_sign: "is_digit c \<Longrightarrow> c \<noteq> CHR ''-'' \<and> c \<noteq> CHR ''+''"
  by (auto simp: is_digit_def)

lemma atoi_show_nat: "int n < 2 ^ 63 \<Longrightarrow> atoi (show_nat n) = Some (int n)"
proof -
  assume n: "int n < 2 ^ 63"
  obtain c cs where s: "show_nat n = c # cs" by (cases "show_nat n") auto
  with show_nat_digits [of n] have "is_digit c" by simp
  then have "c \<noteq> CHR ''-''" and "c \<noteq> CHR ''+''" using digit_not_sign by blast+
  then show ?thesis
    using n read_show_nat [of n] by (simp add: atoi_def s atoi_nat_def in_i64_def)
qed

section \<open>Searching\<close>

definition str_contains :: "string \<Rightarrow> string \<Rightarrow> bool" where
  "str_contains s sub \<longleftrightarrow> list_ex (\<lambda>i. take (length sub) (drop i s) = sub) [0..<Suc (length s)]"

lemma take_drop_sublist: "take (length n) (drop i s) = n \<Longrightarrow> sublist n s"
  by (metis append_take_drop_id sublist_appendI)

lemma sublist_take_drop: "sublist n s \<longleftrightarrow> (\<exists>i \<le> length s. take (length n) (drop i s) = n)"
proof
  assume "sublist n s"
  then obtain ps ss where s: "s = ps @ n @ ss" by (auto simp: sublist_def)
  then have "take (length n) (drop (length ps) s) = n" by simp
  with s show "\<exists>i \<le> length s. take (length n) (drop i s) = n"
    by (intro exI [of _ "length ps"]) simp
qed (auto dest: take_drop_sublist)

lemma str_contains_sublist: "str_contains s sub \<longleftrightarrow> sublist sub s"
  unfolding str_contains_def sublist_take_drop list_ex_iff set_upt
  by (metis atLeastLessThan_iff less_Suc_eq_le zero_le)

definition has_prefix :: "string \<Rightarrow> string \<Rightarrow> bool" where
  "has_prefix s p \<longleftrightarrow> take (length p) s = p"

definition has_suffix :: "string \<Rightarrow> string \<Rightarrow> bool" where
  "has_suffix s p \<longleftrightarrow> length p \<le> length s \<and> drop (length s - length p) s = p"

section \<open>Trimming\<close>

text \<open>\<open>strings.TrimSpace\<close> on ASCII text.\<close>

definition is_space :: "char \<Rightarrow> bool" where
  "is_space c \<longleftrightarrow> c \<in> {CHR '' '', CHR 0x09, CHR 0x0A, CHR 0x0B, CHR 0x0C, CHR 0x0D}"

definition trim_left :: "(char \<Rightarrow> bool) \<Rightarrow> string \<Rightarrow> string" where
  "trim_left p s = dropWhile p s"

definition trim_right :: "(char \<Rightarrow> bool) \<Rightarrow> string \<Rightarrow> string" where
  "trim_right p s = rev (dropWhile p (rev s))"

definition trim_space :: "string \<Rightarrow> string" where
  "trim_space s = trim_right is_space (trim_left is_space s)"

lemma trim_right_unchanged: "s = [] \<or> \<not> p (last s) \<Longrightarrow> trim_right p s = s"
  by (cases s rule: rev_cases) (auto simp: trim_right_def)

lemma trim_space_unchanged:
  "s = [] \<or> (\<not> is_space (hd s) \<and> \<not> is_space (last s)) \<Longrightarrow> trim_space s = s"
  by (cases s) (auto simp: trim_space_def trim_left_def intro: trim_right_unchanged)

lemma trim_space_last: "trim_space s = [] \<or> \<not> is_space (last (trim_space s))"
proof -
  let ?r = "dropWhile is_space (rev (trim_left is_space s))"
  have "?r = [] \<or> \<not> is_space (hd ?r)" using hd_dropWhile by blast
  then show ?thesis by (auto simp: trim_space_def trim_right_def last_rev)
qed

lemma trim_right_prefix: "\<exists>t. s = trim_right p s @ t"
  by (metis rev_append rev_rev_ident takeWhile_dropWhile_id trim_right_def)

lemma trim_space_hd: "trim_space s = [] \<or> \<not> is_space (hd (trim_space s))"
proof -
  obtain t where t: "trim_left is_space s = trim_space s @ t"
    using trim_right_prefix [of "trim_left is_space s" is_space] by (auto simp: trim_space_def)
  show ?thesis
  proof (cases "trim_space s")
    case (Cons c cs)
    with t have "hd (dropWhile is_space s) = c" and "dropWhile is_space s \<noteq> []"
      by (simp_all add: trim_left_def)
    then show ?thesis using Cons hd_dropWhile [of is_space s] by simp
  qed simp
qed

lemma trim_space_idem [simp]: "trim_space (trim_space s) = trim_space s"
  by (rule trim_space_unchanged) (use trim_space_hd trim_space_last in blast)

section \<open>Splitting and joining\<close>

text \<open>
  \<open>strings.Split\<close> with a one-byte separator, \<open>strings.SplitN\<close> with a one-byte separator, and
  \<open>strings.Join\<close>.
\<close>

fun split_on :: "char \<Rightarrow> string \<Rightarrow> string list" where
  "split_on sep [] = [[]]"
| "split_on sep (c # cs) =
     (if c = sep then [] # split_on sep cs
      else (case split_on sep cs of [] \<Rightarrow> [[c]] | w # ws \<Rightarrow> (c # w) # ws))"

fun str_join :: "string \<Rightarrow> string list \<Rightarrow> string" where
  "str_join sep [] = []"
| "str_join sep [w] = w"
| "str_join sep (w # ws) = w @ sep @ str_join sep ws"

lemma split_on_nonempty [simp]: "split_on sep s \<noteq> []"
  by (induction s) (auto split: list.splits)

lemma str_join_Cons: "ws \<noteq> [] \<Longrightarrow> str_join sep (w # ws) = w @ sep @ str_join sep ws"
  by (cases ws) auto

lemma join_split_on: "str_join [sep] (split_on sep s) = s"
proof (induction s)
  case (Cons c cs)
  then show ?case
    by (cases "split_on sep cs"; cases "tl (split_on sep cs)") (auto simp: str_join_Cons)
qed simp

lemma split_on_no_sep: "sep \<notin> set w \<Longrightarrow> split_on sep w = [w]"
  by (induction w) auto

lemma split_on_append_sep: "sep \<notin> set w \<Longrightarrow> split_on sep (w @ sep # s) = w # split_on sep s"
  by (induction w) auto

lemma split_on_join:
  "ws \<noteq> [] \<Longrightarrow> (\<And>w. w \<in> set ws \<Longrightarrow> sep \<notin> set w) \<Longrightarrow> split_on sep (str_join [sep] ws) = ws"
proof (induction ws)
  case (Cons w ws)
  then show ?case
    by (cases "ws = []") (auto simp: str_join_Cons split_on_no_sep split_on_append_sep)
qed simp

fun splitn_on :: "nat \<Rightarrow> char \<Rightarrow> string \<Rightarrow> string list" where
  "splitn_on 0 sep s = []"
| "splitn_on (Suc 0) sep s = [s]"
| "splitn_on (Suc (Suc n)) sep s =
     (case dropWhile (\<lambda>c. c \<noteq> sep) s of
        [] \<Rightarrow> [s]
      | _ # rest \<Rightarrow> takeWhile (\<lambda>c. c \<noteq> sep) s # splitn_on (Suc n) sep rest)"

lemma splitn_on_length: "length (splitn_on n sep s) \<le> n"
  by (induction n sep s rule: splitn_on.induct) (auto split: list.splits)

end
