(* ===== verification/Ledger.thy ===== *)
theory Ledger
  imports Strs
begin

text \<open>
  The append-only credit ledger: \<open>internal/billing/credits.go\<close>, \<open>credits_idempotency.go\<close>,
  \<open>credits_buckets.go\<close> and the row types \<open>internal/model/credit_ledger.go\<close> and
  \<open>internal/model/org.go\<close>. The database is a record of tables in insertion order; a transaction
  is one operation, which returns an error and leaves the tables alone, or returns the new
  tables. The row lock on the organisation serialises spends and sweeps, so operations on one
  organisation are steps of a sequence.
\<close>

section \<open>Constants and rows\<close>

definition ReasonPlanGrant :: string where "ReasonPlanGrant = ''plan_grant''"
definition ReasonTopup :: string where "ReasonTopup = ''topup''"
definition ReasonAdjustment :: string where "ReasonAdjustment = ''adjustment''"
definition ReasonRefund :: string where "ReasonRefund = ''refund''"
definition ReasonAgentRun :: string where "ReasonAgentRun = ''agent_run''"
definition ReasonLLMTokens :: string where "ReasonLLMTokens = ''llm_tokens''"
definition ReasonExpiry :: string where "ReasonExpiry = ''expiry''"
definition ReasonWelcomeGrant :: string where "ReasonWelcomeGrant = ''welcome_grant''"
definition RefTypeExpiredGrant :: string where "RefTypeExpiredGrant = ''expired_grant''"
definition FreePlanSlug :: string where "FreePlanSlug = ''free''"
definition PlanGrantGracePeriod :: duration where "PlanGrantGracePeriod = 3 * 24 * Hour"

lemmas ledger_consts = ReasonPlanGrant_def ReasonTopup_def ReasonAdjustment_def ReasonRefund_def
  ReasonAgentRun_def ReasonLLMTokens_def ReasonExpiry_def ReasonWelcomeGrant_def
  RefTypeExpiredGrant_def FreePlanSlug_def

record org =
  org_id :: uuid
  org_plan_slug :: string

record credit_ledger_entry =
  le_id :: uuid
  le_org :: uuid
  le_amount :: int64
  le_reason :: string
  le_ref_type :: string
  le_ref_id :: string
  le_expires_at :: "gotime option"
  le_created_at :: gotime

text \<open>
  \<open>db_gen\<close> is the sequence of values \<open>gen_random_uuid()\<close> returns, \<open>db_drawn\<close> how many of
  them were drawn, \<open>db_now\<close> the wall clock that \<open>time.Now\<close> and the \<open>created_at\<close> column read.
\<close>

record db =
  db_orgs :: "org list"
  db_ledger :: "credit_ledger_entry list"
  db_gen :: "nat \<Rightarrow> uuid"
  db_drawn :: nat
  db_now :: gotime

datatype billing_error =
    ErrInsufficientCredits
  | ErrAlreadyRecorded
  | ErrGrantAmount int64
  | ErrSpendAmount int64
  | ErrLockOrg
  | ErrBalanceRange
  | ErrDB string

section \<open>Database error texts\<close>

fun billing_error_text :: "billing_error \<Rightarrow> string" where
  "billing_error_text ErrInsufficientCredits = ''billing: insufficient credits''"
| "billing_error_text ErrAlreadyRecorded = ''billing: spend already recorded (idempotent replay)''"
| "billing_error_text (ErrGrantAmount n) = ''grant amount must be positive (got '' @ show_int n @ '')''"
| "billing_error_text (ErrSpendAmount n) = ''spend amount must be positive (got '' @ show_int n @ '')''"
| "billing_error_text ErrLockOrg = ''lock org: record not found''"
| "billing_error_text ErrBalanceRange = ''compute balance: value out of range''"
| "billing_error_text (ErrDB msg) = msg"

definition unique_violation_text :: string where
  "unique_violation_text =
     ''ERROR: duplicate key value violates unique constraint (SQLSTATE 23505)''"

text \<open>The two nested scans of \<open>containsAny\<close>: over the needles, then over the start positions.\<close>

fun scan_from :: "string \<Rightarrow> string \<Rightarrow> nat \<Rightarrow> nat \<Rightarrow> bool" where
  "scan_from haystack n i 0 = False"
| "scan_from haystack n i (Suc k) =
     (if take (length n) (drop i haystack) = n then True else scan_from haystack n (Suc i) k)"

fun containsAny :: "string \<Rightarrow> string list \<Rightarrow> bool" where
  "containsAny haystack [] = False"
| "containsAny haystack (n # ns) =
     (if length haystack \<ge> length n \<and> scan_from haystack n 0 (length haystack - length n + 1)
      then True else containsAny haystack ns)"

definition isUniqueViolation :: "billing_error \<Rightarrow> bool" where
  "isUniqueViolation err =
     containsAny (billing_error_text err)
       [''SQLSTATE 23505'', ''duplicate key value violates unique constraint'']"

section \<open>Reading and appending\<close>

definition org_entries :: "uuid \<Rightarrow> credit_ledger_entry list \<Rightarrow> credit_ledger_entry list" where
  "org_entries org es = filter (\<lambda>e. le_org e = org) es"

definition ledger_sum :: "'a db_scheme \<Rightarrow> uuid \<Rightarrow> int" where
  "ledger_sum d org = sum_list (map le_amount (org_entries org (db_ledger d)))"

definition sumBalance :: "'a db_scheme \<Rightarrow> uuid \<Rightarrow> billing_error + int64" where
  "sumBalance d org =
     (let total = ledger_sum d org in if in_i64 total then Inr total else Inl ErrBalanceRange)"

definition ledgerEntryExists ::
  "'a db_scheme \<Rightarrow> uuid \<Rightarrow> string \<Rightarrow> string \<Rightarrow> string \<Rightarrow> bool" where
  "ledgerEntryExists d org reason refType refID =
     (if refID = [] then False
      else list_ex (\<lambda>e. le_org e = org \<and> le_reason e = reason \<and> le_ref_type e = refType
              \<and> le_ref_id e = refID) (db_ledger d))"

definition org_exists :: "'a db_scheme \<Rightarrow> uuid \<Rightarrow> bool" where
  "org_exists d org = list_ex (\<lambda>r. org_id r = org) (db_orgs d)"

definition draw_id :: "'a db_scheme \<Rightarrow> 'a db_scheme" where
  "draw_id d = d\<lparr>db_drawn := Suc (db_drawn d)\<rparr>"

text \<open>
  \<open>tx.Create\<close>: the row gets a generated identifier and the current time; the primary key refuses
  an identifier the table already holds.
\<close>

definition create_entry ::
  "'a db_scheme \<Rightarrow> uuid \<Rightarrow> int64 \<Rightarrow> string \<Rightarrow> string \<Rightarrow> string \<Rightarrow> gotime option
     \<Rightarrow> billing_error + 'a db_scheme" where
  "create_entry d org amount reason refType refID expiresAt =
     (let i = db_gen d (db_drawn d) in
      if i \<in> le_id ` set (db_ledger d) then Inl (ErrDB unique_violation_text)
      else Inr ((draw_id d)\<lparr>db_ledger := db_ledger d @
             [\<lparr>le_id = i, le_org = org, le_amount = amount, le_reason = reason,
               le_ref_type = refType, le_ref_id = refID, le_expires_at = expiresAt,
               le_created_at = db_now d\<rparr>]\<rparr>))"

section \<open>Grants and spends\<close>

definition Balance :: "'a db_scheme \<Rightarrow> uuid \<Rightarrow> billing_error + int64" where
  "Balance d org = sumBalance d org"

definition GrantWithTx ::
  "'a db_scheme \<Rightarrow> uuid \<Rightarrow> int64 \<Rightarrow> string \<Rightarrow> string \<Rightarrow> string \<Rightarrow> gotime option
     \<Rightarrow> billing_error + 'a db_scheme" where
  "GrantWithTx d org amount reason refType refID expiresAt =
     (if amount \<le> 0 then Inl (ErrGrantAmount amount)
      else if ledgerEntryExists d org reason refType refID then Inl ErrAlreadyRecorded
      else create_entry d org amount reason refType refID expiresAt)"

definition Grant ::
  "'a db_scheme \<Rightarrow> uuid \<Rightarrow> int64 \<Rightarrow> string \<Rightarrow> string \<Rightarrow> string \<Rightarrow> gotime option
     \<Rightarrow> billing_error + 'a db_scheme" where
  "Grant d org amount reason refType refID expiresAt =
     GrantWithTx d org amount reason refType refID expiresAt"

definition SpendWithTx ::
  "'a db_scheme \<Rightarrow> uuid \<Rightarrow> int64 \<Rightarrow> string \<Rightarrow> string \<Rightarrow> string \<Rightarrow> billing_error + 'a db_scheme"
where
  "SpendWithTx d org amount reason refType refID =
     (if amount \<le> 0 then Inl (ErrSpendAmount amount)
      else if \<not> org_exists d org then Inl ErrLockOrg
      else case sumBalance d org of
        Inl e \<Rightarrow> Inl e
      | Inr current \<Rightarrow>
          if current < amount then Inl ErrInsufficientCredits
          else if ledgerEntryExists d org reason refType refID then Inl ErrAlreadyRecorded
          else create_entry d org (- amount) reason refType refID None)"

definition Spend ::
  "'a db_scheme \<Rightarrow> uuid \<Rightarrow> int64 \<Rightarrow> string \<Rightarrow> string \<Rightarrow> string \<Rightarrow> billing_error + 'a db_scheme"
where
  "Spend d org amount reason refType refID =
     (case SpendWithTx d org amount reason refType refID of
        Inl e \<Rightarrow> if isUniqueViolation e then Inl ErrAlreadyRecorded else Inl e
      | Inr d' \<Rightarrow> Inr d')"

end
