(* ===== verification/Buckets.thy ===== *)
theory Buckets
  imports Ledger
begin

text \<open>
  Attribution of spends to grants: \<open>internal/billing/credits_buckets.go\<close>. The Go code keeps a
  slice of pointers to buckets and shares them with a map and with the sorted slice of eligible
  buckets; here the buckets are a list and the shared pointers are indices into it, so that an
  update through one of them is seen by all.
\<close>

section \<open>Buckets and their order\<close>

record bucket =
  bk_id :: uuid
  bk_expires_at :: "gotime option"
  bk_remaining :: int64
  bk_created_at :: gotime

definition bucket_less :: "bucket \<Rightarrow> bucket \<Rightarrow> bool" where
  "bucket_less a b =
     (case (bk_expires_at a, bk_expires_at b) of
        (Some x, None) \<Rightarrow> True
      | (None, Some y) \<Rightarrow> False
      | (Some x, Some y) \<Rightarrow> if x \<noteq> y then x < y else bk_created_at a < bk_created_at b
      | (None, None) \<Rightarrow> bk_created_at a < bk_created_at b)"

definition bucket_key :: "bucket \<Rightarrow> (nat \<times> gotime) \<times> gotime" where
  "bucket_key b =
     ((case bk_expires_at b of Some t \<Rightarrow> (0, t) | None \<Rightarrow> (1, 0)), bk_created_at b)"

lemma bucket_less_key: "bucket_less a b \<longleftrightarrow> bucket_key a < bucket_key b"
  by (auto simp: bucket_less_def bucket_key_def less_prod_def split: option.splits)

section \<open>Deducting a spend\<close>

fun deduct_loop :: "bucket list \<Rightarrow> nat list \<Rightarrow> int64 \<Rightarrow> bucket list" where
  "deduct_loop bs [] lft = bs"
| "deduct_loop bs (i # is) lft =
     (if lft = 0 then bs
      else let b = bs ! i;
               tk = (if bk_remaining b > lft then lft else bk_remaining b)
           in deduct_loop (bs[i := b\<lparr>bk_remaining := bk_remaining b - tk\<rparr>]) is (lft - tk))"

definition eligible :: "bucket list \<Rightarrow> nat list" where
  "eligible bs =
     slice_stable (\<lambda>i j. bucket_less (bs ! i) (bs ! j))
       (filter (\<lambda>i. bk_remaining (bs ! i) > 0) [0..<length bs])"

definition deductSpend :: "bucket list \<Rightarrow> int64 \<Rightarrow> bucket list" where
  "deductSpend bs amount = (if amount \<le> 0 then bs else deduct_loop bs (eligible bs) amount)"

section \<open>Replaying the ledger\<close>

type_synonym replay_state = "bucket list \<times> (uuid \<rightharpoonup> nat)"

definition bucket_of :: "credit_ledger_entry \<Rightarrow> bucket" where
  "bucket_of e = \<lparr>bk_id = le_id e, bk_expires_at = le_expires_at e, bk_remaining = le_amount e,
     bk_created_at = le_created_at e\<rparr>"

definition is_expiry :: "credit_ledger_entry \<Rightarrow> bool" where
  "is_expiry e \<longleftrightarrow> le_amount e < 0 \<and> le_reason e = ReasonExpiry \<and> le_ref_type e = RefTypeExpiredGrant"

fun replay_step :: "(string \<Rightarrow> uuid option) \<Rightarrow> replay_state \<Rightarrow> credit_ledger_entry \<Rightarrow> replay_state"
where
  "replay_step uparse (bs, byID) e =
     (if le_amount e > 0 then (bs @ [bucket_of e], byID(le_id e \<mapsto> length bs))
      else if is_expiry e then
        (case uparse (le_ref_id e) of
           None \<Rightarrow> (bs, byID)
         | Some r \<Rightarrow>
             (case byID r of
                None \<Rightarrow> (bs, byID)
              | Some i \<Rightarrow>
                  let b = bs ! i; rem = i64 (bk_remaining b + le_amount e)
                  in (bs[i := b\<lparr>bk_remaining := if rem < 0 then 0 else rem\<rparr>], byID)))
      else if le_amount e < 0 then (deductSpend bs (i64 (- le_amount e)), byID)
      else (bs, byID))"

definition replay_state ::
  "(string \<Rightarrow> uuid option) \<Rightarrow> credit_ledger_entry list \<Rightarrow> replay_state" where
  "replay_state uparse es = foldl (replay_step uparse) ([], Map.empty) es"

definition replayBuckets :: "(string \<Rightarrow> uuid option) \<Rightarrow> credit_ledger_entry list \<Rightarrow> bucket list" where
  "replayBuckets uparse es = fst (replay_state uparse es)"

lemmas replay_step_simps = replay_step.simps

declare replay_step.simps [simp del]

section \<open>What a deduction does\<close>

definition total_rem :: "bucket list \<Rightarrow> int" where
  "total_rem bs = sum_list (map bk_remaining bs)"

definition all_nonneg :: "bucket list \<Rightarrow> bool" where
  "all_nonneg bs \<longleftrightarrow> (\<forall>b \<in> set bs. 0 \<le> bk_remaining b)"

text \<open>The part of a bucket that no attribution changes.\<close>

definition bucket_frame :: "bucket \<Rightarrow> uuid \<times> gotime option \<times> gotime" where
  "bucket_frame b = (bk_id b, bk_expires_at b, bk_created_at b)"

lemma total_rem_simps [simp]:
  "total_rem [] = 0" "total_rem (bs @ cs) = total_rem bs + total_rem cs"
  "total_rem (b # bs) = bk_remaining b + total_rem bs"
  by (simp_all add: total_rem_def)

lemma all_nonneg_simps [simp]:
  "all_nonneg []" "all_nonneg (bs @ cs) = (all_nonneg bs \<and> all_nonneg cs)"
  "all_nonneg (b # bs) = (0 \<le> bk_remaining b \<and> all_nonneg bs)"
  by (auto simp: all_nonneg_def)

lemma all_nonneg_nth: "all_nonneg bs \<Longrightarrow> i < length bs \<Longrightarrow> 0 \<le> bk_remaining (bs ! i)"
  by (simp add: all_nonneg_def)

lemma total_rem_nonneg: "all_nonneg bs \<Longrightarrow> 0 \<le> total_rem bs"
  unfolding total_rem_def by (rule sum_list_nonneg_int) (simp add: all_nonneg_def)

lemma total_rem_update:
  "i < length bs \<Longrightarrow> total_rem (bs[i := b]) = total_rem bs - bk_remaining (bs ! i) + bk_remaining b"
  unfolding total_rem_def by (rule sum_list_update_int)

lemma all_nonneg_update: "all_nonneg bs \<Longrightarrow> 0 \<le> bk_remaining b \<Longrightarrow> all_nonneg (bs[i := b])"
  using set_update_subset_insert [of bs i b] by (auto simp: all_nonneg_def)

lemma frame_update [simp]:
  "i < length bs \<Longrightarrow>
     map bucket_frame (bs[i := (bs ! i)\<lparr>bk_remaining := r\<rparr>]) = map bucket_frame bs"
  by (rule nth_equalityI) (auto simp: nth_list_update bucket_frame_def)

lemma length_deduct_loop [simp]: "length (deduct_loop bs is lft) = length bs"
  by (induction bs "is" lft rule: deduct_loop.induct) (auto simp: Let_def)

lemma frame_deduct_loop:
  "\<forall>i \<in> set is. i < length bs \<Longrightarrow> map bucket_frame (deduct_loop bs is lft) = map bucket_frame bs"
  by (induction bs "is" lft rule: deduct_loop.induct) (auto simp: Let_def)

lemma deduct_loop_other: "k \<notin> set is \<Longrightarrow> deduct_loop bs is lft ! k = bs ! k"
  by (induction bs "is" lft rule: deduct_loop.induct) (auto simp: Let_def)

lemma all_nonneg_take:
  "all_nonneg bs \<Longrightarrow> tk \<le> bk_remaining (bs ! i) \<Longrightarrow>
     all_nonneg (bs[i := (bs ! i)\<lparr>bk_remaining := bk_remaining (bs ! i) - tk\<rparr>])"
  by (rule all_nonneg_update) simp_all

lemma deduct_loop_nonneg:
  "all_nonneg bs \<Longrightarrow> \<forall>i \<in> set is. i < length bs \<Longrightarrow> all_nonneg (deduct_loop bs is lft)"
proof (induction bs "is" lft rule: deduct_loop.induct)
  case (2 bs i "is" lft)
  define tk where "tk = (if bk_remaining (bs ! i) > lft then lft else bk_remaining (bs ! i))"
  have "tk \<le> bk_remaining (bs ! i)" by (simp add: tk_def)
  then show ?case using "2.IH" [OF _ refl tk_def] "2.prems"
    by (simp add: Let_def tk_def [symmetric] all_nonneg_take)
qed simp

lemma sum_rem_update_other:
  "i \<notin> set is \<Longrightarrow>
     sum_list (map (\<lambda>k. bk_remaining (bs[i := b] ! k)) is) = sum_list (map (\<lambda>k. bk_remaining (bs ! k)) is)"
  by (intro arg_cong [where f = sum_list] map_cong refl) (metis nth_list_update_neq)

lemma total_rem_deduct_loop:
  "all_nonneg bs \<Longrightarrow> 0 \<le> lft \<Longrightarrow> distinct is \<Longrightarrow> \<forall>i \<in> set is. i < length bs \<Longrightarrow>
     total_rem (deduct_loop bs is lft) =
       total_rem bs - min lft (sum_list (map (\<lambda>i. bk_remaining (bs ! i)) is))"
proof (induction bs "is" lft rule: deduct_loop.induct)
  case (1 bs lft)
  then show ?case by simp
next
  case (2 bs i "is" lft)
  let ?b = "bs ! i"
  define tk where "tk = (if bk_remaining ?b > lft then lft else bk_remaining ?b)"
  let ?bs' = "bs[i := ?b\<lparr>bk_remaining := bk_remaining ?b - tk\<rparr>]"
  let ?S = "sum_list (map (\<lambda>i. bk_remaining (bs ! i)) is)"
  have rem: "0 \<le> bk_remaining ?b" using "2.prems" by (auto intro: all_nonneg_nth)
  have S: "0 \<le> ?S" using "2.prems" by (intro sum_list_nonneg_int) (auto intro: all_nonneg_nth)
  show ?case
  proof (cases "lft = 0")
    case True
    then show ?thesis using S rem by simp
  next
    case False
    have tk: "0 \<le> tk" "tk \<le> lft" "tk \<le> bk_remaining ?b"
      using rem "2.prems"(2) by (auto simp: tk_def)
    have "total_rem (deduct_loop ?bs' is (lft - tk)) =
        total_rem ?bs' - min (lft - tk) (sum_list (map (\<lambda>k. bk_remaining (?bs' ! k)) is))"
      using "2.IH" [OF False refl tk_def] "2.prems" tk by (simp add: all_nonneg_take)
    also have "sum_list (map (\<lambda>k. bk_remaining (?bs' ! k)) is) = ?S"
      using "2.prems" by (intro sum_rem_update_other) auto
    also have "total_rem ?bs' = total_rem bs - tk"
      using "2.prems" by (simp add: total_rem_update)
    also have "total_rem bs - tk - min (lft - tk) ?S = total_rem bs - min lft (bk_remaining ?b + ?S)"
      using S rem "2.prems"(2) by (auto simp: tk_def)
    finally show ?thesis using False by (simp add: Let_def tk_def)
  qed
qed

text \<open>The buckets are drained in order: a later one is touched only when the earlier are empty.\<close>

lemma deduct_loop_order:
  "all_nonneg bs \<Longrightarrow> 0 \<le> lft \<Longrightarrow> distinct is \<Longrightarrow> \<forall>i \<in> set is. i < length bs \<Longrightarrow>
     p < q \<Longrightarrow> q < length is \<Longrightarrow>
     bk_remaining (deduct_loop bs is lft ! (is ! q)) < bk_remaining (bs ! (is ! q)) \<Longrightarrow>
     bk_remaining (deduct_loop bs is lft ! (is ! p)) = 0"
proof (induction bs "is" lft arbitrary: p q rule: deduct_loop.induct)
  case (1 bs lft)
  then show ?case by simp
next
  case (2 bs i "is" lft)
  let ?b = "bs ! i"
  define tk where "tk = (if bk_remaining ?b > lft then lft else bk_remaining ?b)"
  let ?bs' = "bs[i := ?b\<lparr>bk_remaining := bk_remaining ?b - tk\<rparr>]"
  from "2.prems" have False': "lft \<noteq> 0" by auto
  have unf: "deduct_loop bs (i # is) lft = deduct_loop ?bs' is (lft - tk)"
    using False' by (simp add: Let_def tk_def)
  obtain q' where q: "q = Suc q'" using "2.prems"(5) by (cases q) auto
  have qi: "is ! q' \<noteq> i" "is ! q' \<in> set is" using "2.prems" q by auto
  have rem: "0 \<le> bk_remaining ?b" using "2.prems" by (auto intro: all_nonneg_nth)
  show ?case
  proof (cases p)
    case 0
    have "bk_remaining ?b \<le> lft"
    proof (rule ccontr)
      assume "\<not> ?thesis"
      then have "tk = lft" by (simp add: tk_def)
      then have "deduct_loop bs (i # is) lft = ?bs'" unfolding unf by (cases "is") auto
      with "2.prems"(7) q qi show False by simp
    qed
    then have "bk_remaining (?bs' ! i) = 0" using "2.prems" by (simp add: tk_def)
    then show ?thesis unfolding unf using 0 "2.prems"(3) by (simp add: deduct_loop_other)
  next
    case (Suc p')
    have "bk_remaining (deduct_loop ?bs' is (lft - tk) ! (is ! p')) = 0"
    proof (rule "2.IH" [OF False' refl tk_def, of p' q'])
      show "all_nonneg ?bs'" using "2.prems"(1) by (rule all_nonneg_take) (simp add: tk_def)
      show "0 \<le> lft - tk" by (simp add: tk_def)
      show "bk_remaining (deduct_loop ?bs' is (lft - tk) ! (is ! q')) < bk_remaining (?bs' ! (is ! q'))"
        using "2.prems"(7) q qi unfolding unf by simp
    qed (use "2.prems" q Suc in auto)
    then show ?thesis unfolding unf using Suc by simp
  qed
qed

section \<open>The eligible buckets\<close>

lemma set_eligible: "set (eligible bs) = {i. i < length bs \<and> 0 < bk_remaining (bs ! i)}"
  by (auto simp: eligible_def)

lemma distinct_eligible [simp]: "distinct (eligible bs)"
  by (simp add: eligible_def)

lemma eligible_bound: "\<forall>i \<in> set (eligible bs). i < length bs"
  by (simp add: set_eligible)

lemma eligible_sort_key:
  "eligible bs = sort_key (\<lambda>i. bucket_key (bs ! i))
     (filter (\<lambda>i. bk_remaining (bs ! i) > 0) [0..<length bs])"
  unfolding eligible_def by (rule slice_stable_key) (rule bucket_less_key)

lemma sorted_eligible: "sorted (map (\<lambda>i. bucket_key (bs ! i)) (eligible bs))"
  by (simp add: eligible_sort_key)

lemma sum_eligible:
  assumes "all_nonneg bs"
  shows "sum_list (map (\<lambda>i. bk_remaining (bs ! i)) (eligible bs)) = total_rem bs"
proof -
  let ?f = "\<lambda>i. bk_remaining (bs ! i)" and ?P = "\<lambda>i. 0 < bk_remaining (bs ! i)"
  have "mset (eligible bs) = mset (filter ?P [0..<length bs])"
    by (simp add: eligible_def)
  then have "sum_list (map ?f (eligible bs)) = sum_list (map ?f (filter ?P [0..<length bs]))"
    by (rule sum_list_mset_cong)
  also have "\<dots> = sum_list (map ?f [0..<length bs])"
  proof -
    have "sum_list (map ?f (filter (\<lambda>i. \<not> ?P i) [0..<length bs])) = 0"
      by (rule sum_list_zero_int) (auto dest: all_nonneg_nth [OF assms])
    then show ?thesis using sum_list_filter_split [of ?f "[0..<length bs]" ?P] by simp
  qed
  also have "\<dots> = total_rem bs"
  proof -
    have "map ?f [0..<length bs] = map bk_remaining bs" by (rule nth_equalityI) auto
    then show ?thesis by (simp add: total_rem_def)
  qed
  finally show ?thesis .
qed

section \<open>What a spend does to the buckets\<close>

lemma length_deductSpend [simp]: "length (deductSpend bs a) = length bs"
  by (simp add: deductSpend_def)

lemma frame_deductSpend [simp]: "map bucket_frame (deductSpend bs a) = map bucket_frame bs"
  by (simp add: deductSpend_def frame_deduct_loop eligible_bound)

lemma all_nonneg_deductSpend: "all_nonneg bs \<Longrightarrow> all_nonneg (deductSpend bs a)"
  by (simp add: deductSpend_def deduct_loop_nonneg eligible_bound)

lemma total_rem_deductSpend:
  "all_nonneg bs \<Longrightarrow> 0 \<le> a \<Longrightarrow> total_rem (deductSpend bs a) = total_rem bs - min a (total_rem bs)"
  using total_rem_nonneg [of bs]
  by (auto simp: deductSpend_def total_rem_deduct_loop eligible_bound sum_eligible)

lemma deductSpend_le: "all_nonneg bs \<Longrightarrow> k < length bs \<Longrightarrow> 0 \<le> bk_remaining (deductSpend bs a ! k)"
  by (rule all_nonneg_nth) (simp_all add: all_nonneg_deductSpend)

lemma deductSpend_priority:
  assumes bs: "all_nonneg bs"
    and ij: "i < length bs" "j < length bs" "bucket_less (bs ! i) (bs ! j)"
    and touched: "bk_remaining (deductSpend bs a ! j) < bk_remaining (bs ! j)"
  shows "bk_remaining (deductSpend bs a ! i) = 0"
proof -
  let ?el = "eligible bs" and ?key = "\<lambda>i. bucket_key (bs ! i)"
  have a: "0 < a" using touched by (auto simp: deductSpend_def split: if_splits)
  have j: "j \<in> set ?el"
    using touched deduct_loop_other [of j ?el bs a] a
    by (cases "j \<in> set ?el") (simp_all add: deductSpend_def)
  show ?thesis
  proof (cases "i \<in> set ?el")
    case False
    then have "bk_remaining (bs ! i) = 0"
      using all_nonneg_nth [OF bs ij(1)] ij(1) by (simp add: set_eligible)
    then show ?thesis using False a by (simp add: deductSpend_def deduct_loop_other)
  next
    case True
    then obtain p where p: "p < length ?el" "?el ! p = i" by (auto simp: in_set_conv_nth)
    obtain q where q: "q < length ?el" "?el ! q = j" using j by (auto simp: in_set_conv_nth)
    have "p < q"
    proof (rule ccontr)
      assume "\<not> p < q"
      then have "?key j \<le> ?key i"
        using sorted_nth_mono [OF sorted_eligible, of q p bs] p q by simp
      with ij(3) show False by (simp add: bucket_less_key)
    qed
    then have "bk_remaining (deduct_loop bs ?el a ! (?el ! p)) = 0"
      using deduct_loop_order [OF bs, of a ?el p q] a eligible_bound touched p q
      by (simp add: deductSpend_def)
    then show ?thesis using p a by (simp add: deductSpend_def)
  qed
qed

section \<open>Replay, one entry at a time\<close>

lemma replay_state_append:
  "replay_state uparse (es @ fs) = foldl (replay_step uparse) (replay_state uparse es) fs"
  by (simp add: replay_state_def)

lemma replay_step_grant:
  "0 < le_amount e \<Longrightarrow>
     replay_step uparse (bs, m) e = (bs @ [bucket_of e], m(le_id e \<mapsto> length bs))"
  by (simp add: replay_step_simps)

lemma replay_step_spend:
  "le_amount e < 0 \<Longrightarrow> \<not> is_expiry e \<Longrightarrow> in_i64 (- le_amount e) \<Longrightarrow>
     replay_step uparse (bs, m) e = (deductSpend bs (- le_amount e), m)"
  by (simp add: replay_step_simps i64_id)

lemma replay_step_expiry_exact:
  "is_expiry e \<Longrightarrow> uparse (le_ref_id e) = Some r \<Longrightarrow> m r = Some i \<Longrightarrow>
     le_amount e = - bk_remaining (bs ! i) \<Longrightarrow>
     replay_step uparse (bs, m) e = (bs[i := (bs ! i)\<lparr>bk_remaining := 0\<rparr>], m)"
  by (auto simp: replay_step_simps is_expiry_def i64_def Let_def)

text \<open>
  The identifiers of the buckets are those of the positive entries, and the map sends an
  identifier to the position of its bucket.
\<close>

definition replay_wf :: "replay_state \<Rightarrow> bool" where
  "replay_wf s \<longleftrightarrow> (\<forall>i < length (fst s). snd s (bk_id (fst s ! i)) = Some i)
     \<and> (\<forall>r i. snd s r = Some i \<longrightarrow> i < length (fst s) \<and> bk_id (fst s ! i) = r)"

lemma replay_wf_id: "replay_wf (bs, m) \<Longrightarrow> i < length bs \<Longrightarrow> m (bk_id (bs ! i)) = Some i"
  by (simp add: replay_wf_def)

lemma replay_wf_distinct:
  assumes "replay_wf (bs, m)" shows "distinct (map bk_id bs)"
proof -
  have "map m (map bk_id bs) = map Some [0..<length bs]"
    by (rule nth_equalityI) (use assms in \<open>simp_all add: replay_wf_def\<close>)
  moreover have "distinct (map Some [0..<length bs])" by (simp add: distinct_map)
  ultimately have "distinct (map m (map bk_id bs))" by simp
  then show ?thesis unfolding distinct_map [of m] by (rule conjunct1)
qed

lemma bk_id_of_frame: "map bucket_frame cs = map bucket_frame bs \<Longrightarrow> map bk_id cs = map bk_id bs"
proof -
  assume "map bucket_frame cs = map bucket_frame bs"
  then have "map fst (map bucket_frame cs) = map fst (map bucket_frame bs)" by (rule arg_cong)
  then show ?thesis by (simp add: comp_def bucket_frame_def)
qed

lemma replay_wf_frame:
  assumes "map bucket_frame cs = map bucket_frame bs" and "replay_wf (bs, m)"
  shows "replay_wf (cs, m)"
proof -
  have len: "length cs = length bs" using assms(1) by (metis length_map)
  have "\<And>i. i < length bs \<Longrightarrow> bk_id (cs ! i) = bk_id (bs ! i)"
    using bk_id_of_frame [OF assms(1)] len by (metis nth_map)
  then show ?thesis using assms(2) len by (auto simp: replay_wf_def)
qed

lemma replay_wf_push:
  assumes wf: "replay_wf (bs, m)" and new: "bk_id b \<notin> set (map bk_id bs)"
  shows "replay_wf (bs @ [b], m(bk_id b \<mapsto> length bs))"
proof -
  have ne: "bk_id (bs ! i) \<noteq> bk_id b" if "i < length bs" for i
    using that new by (metis length_map nth_map nth_mem)
  show ?thesis
    using wf ne by (simp add: replay_wf_def nth_append less_Suc_eq)
qed

end
