(* ===== verification/Sweep.thy ===== *)
theory Sweep
  imports Buckets
begin

text \<open>
  Expiry of grants: \<open>SweepOrgExpiredGrants\<close> and \<open>SweepAllExpiredGrants\<close> of
  \<open>internal/billing/credits.go\<close>. \<open>ustr\<close> and \<open>uparse\<close> stand for the UUID package's \<open>String\<close> and
  \<open>Parse\<close>, of which the code relies on one law, \<open>uuid_codec\<close>. The theory ends with the
  ledger as an operation system: no stream of grants, spends and sweeps drives a balance
  below zero.
\<close>

section \<open>The sweep\<close>

definition load_entries :: "uuid \<Rightarrow> 'a db_scheme \<Rightarrow> credit_ledger_entry list" where
  "load_entries org d =
     sort_key (\<lambda>e. (le_created_at e, le_id e)) (org_entries org (db_ledger d))"

definition bucket_due :: "gotime \<Rightarrow> bucket \<Rightarrow> bool" where
  "bucket_due now b =
     (case bk_expires_at b of None \<Rightarrow> False | Some t \<Rightarrow> t < now \<and> \<not> bk_remaining b \<le> 0)"

fun sweep_loop ::
  "(uuid \<Rightarrow> string) \<Rightarrow> uuid \<Rightarrow> gotime \<Rightarrow> bucket list \<Rightarrow> 'a db_scheme \<Rightarrow> billing_error + 'a db_scheme"
where
  "sweep_loop ustr org now [] d = Inr d"
| "sweep_loop ustr org now (b # bs) d =
     (if \<not> bucket_due now b then sweep_loop ustr org now bs d
      else case create_entry d org (- bk_remaining b) ReasonExpiry RefTypeExpiredGrant
                  (ustr (bk_id b)) None of
        Inl e \<Rightarrow> if \<not> isUniqueViolation e then Inl e else sweep_loop ustr org now bs (draw_id d)
      | Inr d' \<Rightarrow> sweep_loop ustr org now bs d')"

definition SweepOrgExpiredGrants ::
  "(uuid \<Rightarrow> string) \<Rightarrow> (string \<Rightarrow> uuid option) \<Rightarrow> uuid \<Rightarrow> gotime \<Rightarrow> 'a db_scheme
     \<Rightarrow> billing_error + 'a db_scheme" where
  "SweepOrgExpiredGrants ustr uparse org now d =
     (if \<not> org_exists d org then Inl ErrLockOrg
      else sweep_loop ustr org now (replayBuckets uparse (load_entries org d)) d)"

definition expired_unoffset :: "(uuid \<Rightarrow> string) \<Rightarrow> gotime \<Rightarrow> 'a db_scheme \<Rightarrow> credit_ledger_entry \<Rightarrow> bool"
where
  "expired_unoffset ustr now d le \<longleftrightarrow>
     le_amount le > 0
     \<and> (case le_expires_at le of None \<Rightarrow> False | Some t \<Rightarrow> t < now)
     \<and> \<not> list_ex (\<lambda>off. le_org off = le_org le \<and> le_reason off = ReasonExpiry
            \<and> le_ref_type off = RefTypeExpiredGrant \<and> le_ref_id off = ustr (le_id le)) (db_ledger d)"

fun sweep_orgs ::
  "(uuid \<Rightarrow> string) \<Rightarrow> (string \<Rightarrow> uuid option) \<Rightarrow> gotime \<Rightarrow> uuid list \<Rightarrow> billing_error option
     \<Rightarrow> 'a db_scheme \<Rightarrow> billing_error option \<times> 'a db_scheme" where
  "sweep_orgs ustr uparse now [] firstErr d = (firstErr, d)"
| "sweep_orgs ustr uparse now (org # orgs) firstErr d =
     (case SweepOrgExpiredGrants ustr uparse org now d of
        Inl e \<Rightarrow> sweep_orgs ustr uparse now orgs
                   (case firstErr of None \<Rightarrow> Some e | Some e0 \<Rightarrow> Some e0) d
      | Inr d' \<Rightarrow> sweep_orgs ustr uparse now orgs firstErr d')"

definition SweepAllExpiredGrants ::
  "(uuid \<Rightarrow> string) \<Rightarrow> (string \<Rightarrow> uuid option) \<Rightarrow> 'a db_scheme \<Rightarrow> billing_error option \<times> 'a db_scheme"
where
  "SweepAllExpiredGrants ustr uparse d =
     (let now = db_now d;
          orgIDs = remdups (map le_org (filter (expired_unoffset ustr now d) (db_ledger d)))
      in sweep_orgs ustr uparse now orgIDs None d)"

text \<open>What the code relies on in the UUID package: parsing reads back what printing wrote.\<close>

definition uuid_codec :: "(uuid \<Rightarrow> string) \<Rightarrow> (string \<Rightarrow> uuid option) \<Rightarrow> bool" where
  "uuid_codec ustr uparse \<longleftrightarrow> (\<forall>u. uparse (ustr u) = Some u)"

lemma uuid_codec_inj: "uuid_codec ustr uparse \<Longrightarrow> ustr u = ustr v \<longleftrightarrow> u = v"
  by (metis option.inject uuid_codec_def)

section \<open>The state between operations\<close>

text \<open>The next \<open>n\<close> generated identifiers collide neither with each other nor with a row.\<close>

definition fresh_supply :: "'a db_scheme \<Rightarrow> nat \<Rightarrow> bool" where
  "fresh_supply d n \<longleftrightarrow> distinct (map (db_gen d) [db_drawn d ..< db_drawn d + n])
     \<and> list_all (\<lambda>k. db_gen d k \<notin> le_id ` set (db_ledger d)) [db_drawn d ..< db_drawn d + n]"

definition clock_past :: "'a db_scheme \<Rightarrow> uuid \<Rightarrow> bool" where
  "clock_past d org \<longleftrightarrow> (\<forall>e \<in> set (org_entries org (db_ledger d)). le_created_at e < db_now d)"

definition org_buckets :: "(string \<Rightarrow> uuid option) \<Rightarrow> 'a db_scheme \<Rightarrow> uuid \<Rightarrow> bucket list" where
  "org_buckets uparse d org = replayBuckets uparse (load_entries org d)"

definition org_sound :: "(string \<Rightarrow> uuid option) \<Rightarrow> 'a db_scheme \<Rightarrow> uuid \<Rightarrow> bool" where
  "org_sound uparse d org \<longleftrightarrow>
     (let s = replay_state uparse (load_entries org d) in
      replay_wf s \<and> all_nonneg (fst s) \<and> total_rem (fst s) = ledger_sum d org
      \<and> bk_id ` set (fst s) \<subseteq> le_id ` set (db_ledger d))"

definition ledger_inv :: "(string \<Rightarrow> uuid option) \<Rightarrow> 'a db_scheme \<Rightarrow> bool" where
  "ledger_inv uparse d \<longleftrightarrow> (\<forall>e \<in> set (db_ledger d). le_created_at e \<le> db_now d)
     \<and> (\<forall>org. org_sound uparse d org)"

lemma org_sound_nonneg: "org_sound uparse d org \<Longrightarrow> 0 \<le> ledger_sum d org"
  unfolding org_sound_def Let_def by (metis total_rem_nonneg)

lemma ledger_inv_nonneg: "ledger_inv uparse d \<Longrightarrow> 0 \<le> ledger_sum d org"
  unfolding ledger_inv_def by (blast intro: org_sound_nonneg)

section \<open>Appending rows\<close>

lemma org_entries_append [simp]: "org_entries o1 (xs @ ys) = org_entries o1 xs @ org_entries o1 ys"
  by (simp add: org_entries_def)

lemma org_entries_all: "\<forall>e \<in> set xs. le_org e = o1 \<Longrightarrow> org_entries o1 xs = xs"
  by (simp add: org_entries_def)

lemma org_entries_none: "\<forall>e \<in> set xs. le_org e \<noteq> o1 \<Longrightarrow> org_entries o1 xs = []"
  by (simp add: org_entries_def)

lemma load_entries_append:
  assumes "db_ledger d' = db_ledger d @ xs"
    and "\<forall>e \<in> set (org_entries o1 (db_ledger d)). \<forall>x \<in> set xs. le_created_at e < le_created_at x"
  shows "load_entries o1 d' =
           load_entries o1 d @ sort_key (\<lambda>e. (le_created_at e, le_id e)) (org_entries o1 xs)"
proof -
  have "sort_key (\<lambda>e. (le_created_at e, le_id e)) (org_entries o1 (db_ledger d) @ org_entries o1 xs)
      = load_entries o1 d @ sort_key (\<lambda>e. (le_created_at e, le_id e)) (org_entries o1 xs)"
    unfolding load_entries_def
    by (rule sort_key_append_ordered) (use assms(2) in \<open>auto simp: org_entries_def less_prod_def\<close>)
  then show ?thesis using assms(1) by (simp add: load_entries_def)
qed

lemma ledger_sum_append:
  "db_ledger d' = db_ledger d @ xs \<Longrightarrow>
     ledger_sum d' o1 = ledger_sum d o1 + sum_list (map le_amount (org_entries o1 xs))"
  by (simp add: ledger_sum_def)

text \<open>Rows of one organisation leave the view of the others as it was.\<close>

lemma other_org_unchanged:
  assumes "db_ledger d' = db_ledger d @ xs" and "\<forall>e \<in> set xs. le_org e = o1" and "o2 \<noteq> o1"
  shows "load_entries o2 d' = load_entries o2 d" and "ledger_sum d' o2 = ledger_sum d o2"
proof -
  have "org_entries o2 xs = []" using assms(2,3) by (auto intro: org_entries_none)
  then show "load_entries o2 d' = load_entries o2 d" and "ledger_sum d' o2 = ledger_sum d o2"
    using assms(1) by (simp_all add: load_entries_def ledger_sum_def)
qed

lemma other_org_sound:
  assumes "db_ledger d' = db_ledger d @ xs" and "\<forall>e \<in> set xs. le_org e = o1" and "o2 \<noteq> o1"
    and "org_sound uparse d o2"
  shows "org_sound uparse d' o2"
  using assms(4) other_org_unchanged [OF assms(1-3)] assms(1)
  by (auto simp: org_sound_def Let_def)

section \<open>Creating one row\<close>

lemma unique_violation [simp]: "isUniqueViolation (ErrDB unique_violation_text)"
  by code_simp

lemma create_entry_fresh:
  assumes "db_gen d (db_drawn d) \<notin> le_id ` set (db_ledger d)"
  shows "create_entry d org amount reason rt rid ex =
    Inr (d\<lparr>db_drawn := Suc (db_drawn d), db_ledger := db_ledger d @
      [\<lparr>le_id = db_gen d (db_drawn d), le_org = org, le_amount = amount, le_reason = reason,
        le_ref_type = rt, le_ref_id = rid, le_expires_at = ex, le_created_at = db_now d\<rparr>]\<rparr>)"
  using assms by (simp add: create_entry_def Let_def draw_id_def)

lemma create_entry_collision:
  "db_gen d (db_drawn d) \<in> le_id ` set (db_ledger d) \<Longrightarrow>
     create_entry d org amount reason rt rid ex = Inl (ErrDB unique_violation_text)"
  by (simp add: create_entry_def Let_def)

lemma fresh_supply_head: "fresh_supply d (Suc n) \<Longrightarrow> db_gen d (db_drawn d) \<notin> le_id ` set (db_ledger d)"
  by (simp add: fresh_supply_def upt_rec [of "db_drawn d"] del: upt_Suc)

lemma fresh_supply_step:
  "fresh_supply d (Suc n) \<Longrightarrow> le_id e = db_gen d (db_drawn d) \<Longrightarrow>
     fresh_supply (d\<lparr>db_drawn := Suc (db_drawn d), db_ledger := db_ledger d @ [e]\<rparr>) n"
  by (auto simp: fresh_supply_def list_all_iff upt_rec [of "db_drawn d"] simp del: upt_Suc)
    (metis atLeastLessThan_iff image_eqI)

lemma create_entry_cases:
  assumes "create_entry d org amount reason rt rid ex = Inr d'"
  obtains e where "d' = d\<lparr>db_drawn := Suc (db_drawn d), db_ledger := db_ledger d @ [e]\<rparr>"
    and "le_id e \<notin> le_id ` set (db_ledger d)" "le_org e = org" "le_amount e = amount"
    "le_reason e = reason" "le_ref_type e = rt" "le_ref_id e = rid" "le_expires_at e = ex"
    "le_created_at e = db_now d"
proof -
  let ?e = "\<lparr>le_id = db_gen d (db_drawn d), le_org = org, le_amount = amount, le_reason = reason,
    le_ref_type = rt, le_ref_id = rid, le_expires_at = ex, le_created_at = db_now d\<rparr>"
  have "d' = d\<lparr>db_drawn := Suc (db_drawn d), db_ledger := db_ledger d @ [?e]\<rparr>"
    using assms by (auto simp: create_entry_def Let_def draw_id_def split: if_splits)
  moreover have "le_id ?e \<notin> le_id ` set (db_ledger d)"
    using assms by (auto simp: create_entry_def Let_def split: if_splits)
  ultimately show thesis by (rule that) simp_all
qed

text \<open>
  One appended row keeps the invariant when its replay step keeps the buckets of its
  organisation in line with the sum.
\<close>

lemma ledger_inv_append_one:
  assumes inv: "ledger_inv uparse d" and clock: "clock_past d org"
    and d': "d' = d\<lparr>db_drawn := Suc (db_drawn d), db_ledger := db_ledger d @ [e]\<rparr>"
    and e: "le_id e \<notin> le_id ` set (db_ledger d)" "le_org e = org" "le_created_at e = db_now d"
    and step: "\<And>bs m. replay_state uparse (load_entries org d) = (bs, m) \<Longrightarrow> replay_wf (bs, m) \<Longrightarrow>
       all_nonneg bs \<Longrightarrow> total_rem bs = ledger_sum d org \<Longrightarrow> le_id e \<notin> bk_id ` set bs \<Longrightarrow>
       (let s = replay_step uparse (bs, m) e in
        replay_wf s \<and> all_nonneg (fst s) \<and> total_rem (fst s) = total_rem bs + le_amount e
        \<and> bk_id ` set (fst s) \<subseteq> insert (le_id e) (bk_id ` set bs))"
  shows "ledger_inv uparse d'"
proof -
  have L: "db_ledger d' = db_ledger d @ [e]" by (simp add: d')
  have past: "\<forall>x \<in> set (db_ledger d'). le_created_at x \<le> db_now d'"
    using inv e(3) by (auto simp: d' ledger_inv_def)
  have load: "load_entries org d' = load_entries org d @ [e]"
    using load_entries_append [OF L, of org] clock e(2,3) by (simp add: clock_past_def org_entries_def)
  obtain bs m where bm: "replay_state uparse (load_entries org d) = (bs, m)" by fastforce
  have snd: "replay_wf (bs, m)" "all_nonneg bs" "total_rem bs = ledger_sum d org"
    "bk_id ` set bs \<subseteq> le_id ` set (db_ledger d)"
  proof -
    have "org_sound uparse d org" using inv by (simp add: ledger_inv_def)
    then show "replay_wf (bs, m)" "all_nonneg bs" "total_rem bs = ledger_sum d org"
      "bk_id ` set bs \<subseteq> le_id ` set (db_ledger d)"
      using bm by (simp_all add: org_sound_def)
  qed
  have new: "le_id e \<notin> bk_id ` set bs"
    using snd(4) e(1) by blast
  have "org_sound uparse d' org"
  proof -
    let ?s = "replay_step uparse (bs, m) e"
    have s: "replay_wf ?s" "all_nonneg (fst ?s)" "total_rem (fst ?s) = total_rem bs + le_amount e"
      "bk_id ` set (fst ?s) \<subseteq> insert (le_id e) (bk_id ` set bs)"
      using step [OF bm snd(1-3) new] by (simp_all add: Let_def)
    have "bk_id ` set (fst ?s) \<subseteq> le_id ` set (db_ledger d')"
      using s(4) snd(4) by (auto simp: L)
    moreover have "ledger_sum d' org = ledger_sum d org + le_amount e"
      using ledger_sum_append [OF L, of org] e(2) by (simp add: org_entries_def)
    ultimately show ?thesis
      using s(1-3) snd(3) unfolding org_sound_def load replay_state_append bm by (simp add: Let_def)
  qed
  moreover have "org_sound uparse d' o2" if "o2 \<noteq> org" for o2
    using that inv e(2) other_org_sound [OF L, of org o2 uparse] by (simp add: ledger_inv_def)
  ultimately have "\<forall>o2. org_sound uparse d' o2" by metis
  with past show ?thesis by (simp add: ledger_inv_def)
qed

section \<open>Grants and spends keep the invariant\<close>

lemma Grant_inv:
  assumes inv: "ledger_inv uparse d" and clock: "clock_past d org"
    and ok: "GrantWithTx d org amount reason rt rid ex = Inr d'"
  shows "ledger_inv uparse d'"
proof -
  have pos: "0 < amount" and cr: "create_entry d org amount reason rt rid ex = Inr d'"
    using ok by (auto simp: GrantWithTx_def split: if_splits)
  from cr obtain e where e: "d' = d\<lparr>db_drawn := Suc (db_drawn d), db_ledger := db_ledger d @ [e]\<rparr>"
    "le_id e \<notin> le_id ` set (db_ledger d)" "le_org e = org" "le_amount e = amount" "le_created_at e = db_now d"
    by (rule create_entry_cases) blast
  show ?thesis
  proof (rule ledger_inv_append_one [OF inv clock e(1,2,3,5)])
    fix bs m
    assume "replay_wf (bs, m)" "all_nonneg bs" "le_id e \<notin> bk_id ` set bs"
    then show "let s = replay_step uparse (bs, m) e in replay_wf s \<and> all_nonneg (fst s)
        \<and> total_rem (fst s) = total_rem bs + le_amount e
        \<and> bk_id ` set (fst s) \<subseteq> insert (le_id e) (bk_id ` set bs)"
      using pos e(4) replay_wf_push [of bs m "bucket_of e"]
      by (auto simp: replay_step_grant Let_def bucket_of_def)
  qed
qed

lemma Spend_cases:
  assumes "SpendWithTx d org amount reason rt rid = Inr d'"
  shows "0 < amount" "org_exists d org" "in_i64 (ledger_sum d org)" "amount \<le> ledger_sum d org"
    "\<not> ledgerEntryExists d org reason rt rid"
    "create_entry d org (- amount) reason rt rid None = Inr d'"
  using assms by (auto simp: SpendWithTx_def sumBalance_def Let_def split: if_splits)

lemma bk_id_set_of_frame:
  "map bucket_frame cs = map bucket_frame bs \<Longrightarrow> bk_id ` set cs = bk_id ` set bs"
  by (drule bk_id_of_frame) (metis list.set_map)

lemma Spend_inv:
  assumes inv: "ledger_inv uparse d" and clock: "clock_past d org"
    and ok: "SpendWithTx d org amount reason rt rid = Inr d'"
    and reason: "\<not> (reason = ReasonExpiry \<and> rt = RefTypeExpiredGrant)"
  shows "ledger_inv uparse d'"
proof -
  note sp = Spend_cases [OF ok]
  from sp(6) obtain e where e: "d' = d\<lparr>db_drawn := Suc (db_drawn d), db_ledger := db_ledger d @ [e]\<rparr>"
    "le_id e \<notin> le_id ` set (db_ledger d)" "le_org e = org" "le_amount e = - amount"
    "le_created_at e = db_now d" "le_reason e = reason" "le_ref_type e = rt"
    by (rule create_entry_cases) blast
  show ?thesis
  proof (rule ledger_inv_append_one [OF inv clock e(1,2,3,5)])
    fix bs m
    assume bs: "replay_wf (bs, m)" "all_nonneg bs" "total_rem bs = ledger_sum d org"
    have "\<not> is_expiry e" using reason e(6,7) by (simp add: is_expiry_def)
    then have "replay_step uparse (bs, m) e = (deductSpend bs amount, m)"
      using sp(1,3,4) e(4) replay_step_spend [of e uparse bs m] by (simp add: in_i64_def)
    then show "let s = replay_step uparse (bs, m) e in replay_wf s \<and> all_nonneg (fst s)
        \<and> total_rem (fst s) = total_rem bs + le_amount e
        \<and> bk_id ` set (fst s) \<subseteq> insert (le_id e) (bk_id ` set bs)"
      using bs sp(1,4) e(4)
      by (auto simp: Let_def replay_wf_frame [OF frame_deductSpend] all_nonneg_deductSpend
          total_rem_deductSpend bk_id_set_of_frame [OF frame_deductSpend])
  qed
qed

section \<open>What the sweep appends\<close>

definition expiry_row :: "(uuid \<Rightarrow> string) \<Rightarrow> uuid \<Rightarrow> gotime \<Rightarrow> bucket \<Rightarrow> credit_ledger_entry \<Rightarrow> bool"
where
  "expiry_row ustr org t b e \<longleftrightarrow> le_org e = org \<and> le_amount e = - bk_remaining b
     \<and> le_reason e = ReasonExpiry \<and> le_ref_type e = RefTypeExpiredGrant
     \<and> le_ref_id e = ustr (bk_id b) \<and> le_expires_at e = None \<and> le_created_at e = t"

lemma sweep_loop_rows:
  "\<exists>xs cs k.
     sweep_loop ustr org now bs d = Inr (d\<lparr>db_drawn := k, db_ledger := db_ledger d @ xs\<rparr>)
     \<and> subseq cs (filter (bucket_due now) bs) \<and> list_all2 (expiry_row ustr org (db_now d)) cs xs
     \<and> (fresh_supply d (length (filter (bucket_due now) bs)) \<longrightarrow> cs = filter (bucket_due now) bs)"
proof (induction bs arbitrary: d)
  case Nil
  show ?case by (intro exI [of _ "[]"] exI [of _ "db_drawn d"]) simp
next
  case (Cons b bs)
  show ?case
  proof (cases "bucket_due now b")
    case False
    then show ?thesis using Cons.IH [of d] by simp
  next
    case due: True
    let ?e = "\<lparr>le_id = db_gen d (db_drawn d), le_org = org, le_amount = - bk_remaining b,
      le_reason = ReasonExpiry, le_ref_type = RefTypeExpiredGrant, le_ref_id = ustr (bk_id b),
      le_expires_at = None, le_created_at = db_now d\<rparr>"
    let ?d1 = "d\<lparr>db_drawn := Suc (db_drawn d), db_ledger := db_ledger d @ [?e]\<rparr>"
    show ?thesis
    proof (cases "db_gen d (db_drawn d) \<in> le_id ` set (db_ledger d)")
      case True
      obtain xs cs k where xs: "sweep_loop ustr org now bs (draw_id d) =
          Inr (draw_id d\<lparr>db_drawn := k, db_ledger := db_ledger (draw_id d) @ xs\<rparr>)"
        "subseq cs (filter (bucket_due now) bs)"
        "list_all2 (expiry_row ustr org (db_now (draw_id d))) cs xs"
        using Cons.IH [of "draw_id d"] by blast
      have "\<not> fresh_supply d (length (filter (bucket_due now) (b # bs)))"
        using True due fresh_supply_head [of d] by auto
      then show ?thesis using xs due create_entry_collision [OF True]
        by (intro exI [of _ xs] exI [of _ cs] exI [of _ k]) (auto simp: draw_id_def)
    next
      case False
      obtain xs cs k where xs: "sweep_loop ustr org now bs ?d1 =
          Inr (?d1\<lparr>db_drawn := k, db_ledger := db_ledger ?d1 @ xs\<rparr>)"
        "subseq cs (filter (bucket_due now) bs)"
        "list_all2 (expiry_row ustr org (db_now ?d1)) cs xs"
        "fresh_supply ?d1 (length (filter (bucket_due now) bs)) \<longrightarrow> cs = filter (bucket_due now) bs"
        using Cons.IH [of ?d1] by blast
      have "expiry_row ustr org (db_now d) b ?e" by (simp add: expiry_row_def)
      moreover have "fresh_supply ?d1 (length (filter (bucket_due now) bs))"
        if "fresh_supply d (length (filter (bucket_due now) (b # bs)))"
        using that due by (intro fresh_supply_step) simp_all
      ultimately show ?thesis using due xs create_entry_fresh [OF False]
        by (intro exI [of _ "?e # xs"] exI [of _ "b # cs"] exI [of _ k]) simp
    qed
  qed
qed

text \<open>
  Replaying the appended rows empties exactly the buckets they name, in whatever order the
  database returns them.
\<close>

definition zero_bucket :: "bucket \<Rightarrow> bucket" where
  "zero_bucket b = b\<lparr>bk_remaining := 0\<rparr>"

lemma zero_bucket_simps [simp]:
  "bk_id (zero_bucket b) = bk_id b" "bk_remaining (zero_bucket b) = 0"
  "bk_expires_at (zero_bucket b) = bk_expires_at b"
  by (simp_all add: zero_bucket_def)

lemma replay_expiry_rows:
  assumes "uuid_codec ustr uparse" and "replay_wf (bs, m)"
    and "\<forall>x \<in> set xs. is_expiry x \<and> (\<exists>k < length bs. le_ref_id x = ustr (bk_id (bs ! k))
           \<and> le_amount x = - bk_remaining (bs ! k))"
    and "distinct (map le_ref_id xs)"
  shows "foldl (replay_step uparse) (bs, m) xs =
    (map (\<lambda>b. if ustr (bk_id b) \<in> le_ref_id ` set xs then zero_bucket b else b) bs, m)"
  using assms
proof (induction xs arbitrary: bs)
  case Nil
  then show ?case by simp
next
  case (Cons x xs)
  obtain k where k: "k < length bs" "le_ref_id x = ustr (bk_id (bs ! k))"
    "le_amount x = - bk_remaining (bs ! k)" "is_expiry x" using Cons.prems(3) by auto
  let ?bs = "bs[k := (bs ! k)\<lparr>bk_remaining := 0\<rparr>]"
  have step: "replay_step uparse (bs, m) x = (?bs, m)"
    using k Cons.prems(1,2) replay_step_expiry_exact [of x uparse "bk_id (bs ! k)" m k bs]
    by (simp add: uuid_codec_def replay_wf_id)
  have ids: "bk_id (?bs ! j) = bk_id (bs ! j)" for j
    using k(1) by (cases "j = k") simp_all
  have wf: "replay_wf (?bs, m)" by (rule replay_wf_frame [OF frame_update Cons.prems(2)]) (rule k(1))
  have rest: "\<forall>y \<in> set xs. is_expiry y \<and> (\<exists>j < length ?bs. le_ref_id y = ustr (bk_id (?bs ! j))
           \<and> le_amount y = - bk_remaining (?bs ! j))"
  proof
    fix y assume y: "y \<in> set xs"
    then obtain j where j: "j < length bs" "le_ref_id y = ustr (bk_id (bs ! j))"
      "le_amount y = - bk_remaining (bs ! j)" "is_expiry y" using Cons.prems(3) by auto
    have "j \<noteq> k" using y j(2) k(2) Cons.prems(4) by force
    then show "is_expiry y \<and> (\<exists>j < length ?bs. le_ref_id y = ustr (bk_id (?bs ! j))
           \<and> le_amount y = - bk_remaining (?bs ! j))"
      using j by (intro conjI exI [of _ j]) simp_all
  qed
  have "map (\<lambda>b. if ustr (bk_id b) \<in> le_ref_id ` set xs then zero_bucket b else b) ?bs =
      map (\<lambda>b. if ustr (bk_id b) \<in> le_ref_id ` set (x # xs) then zero_bucket b else b) bs"
  proof (rule nth_equalityI)
    fix j assume "j < length (map (\<lambda>b. if ustr (bk_id b) \<in> le_ref_id ` set xs then zero_bucket b else b) ?bs)"
    then have j: "j < length bs" by simp
    have inj: "ustr (bk_id (bs ! j)) = ustr (bk_id (bs ! k)) \<longleftrightarrow> j = k"
      using uuid_codec_inj [OF Cons.prems(1)] replay_wf_id [OF Cons.prems(2) j]
        replay_wf_id [OF Cons.prems(2) k(1)] by (metis option.inject)
    have "zero_bucket ((bs ! k)\<lparr>bk_remaining := 0\<rparr>) = zero_bucket (bs ! k)"
      by (simp add: zero_bucket_def)
    then show "map (\<lambda>b. if ustr (bk_id b) \<in> le_ref_id ` set xs then zero_bucket b else b) ?bs ! j =
      map (\<lambda>b. if ustr (bk_id b) \<in> le_ref_id ` set (x # xs) then zero_bucket b else b) bs ! j"
      using j inj k(2) by (cases "j = k") (auto simp: zero_bucket_def)
  qed simp
  then show ?case using Cons.IH [OF Cons.prems(1) wf rest] Cons.prems(4) step by simp
qed

section \<open>The effect of a sweep\<close>

definition zero_set :: "bucket set \<Rightarrow> bucket list \<Rightarrow> bucket list" where
  "zero_set C bs = map (\<lambda>b. if b \<in> C then zero_bucket b else b) bs"

definition sweep_buckets :: "gotime \<Rightarrow> bucket list \<Rightarrow> bucket list" where
  "sweep_buckets now bs = map (\<lambda>b. if bucket_due now b then zero_bucket b else b) bs"

lemma zero_set_due: "zero_set (set (filter (bucket_due now) bs)) bs = sweep_buckets now bs"
  by (simp add: zero_set_def sweep_buckets_def)

lemma frame_zero_set [simp]: "map bucket_frame (zero_set C bs) = map bucket_frame bs"
  by (induction bs) (auto simp: zero_set_def bucket_frame_def zero_bucket_def)

lemma all_nonneg_zero_set: "all_nonneg bs \<Longrightarrow> all_nonneg (zero_set C bs)"
  by (auto simp: zero_set_def all_nonneg_def)

lemma total_rem_zero_set_filter:
  "total_rem (zero_set C bs) = total_rem bs - sum_list (map bk_remaining (filter (\<lambda>b. b \<in> C) bs))"
  by (induction bs) (auto simp: zero_set_def)

lemma total_rem_zero_set:
  assumes "distinct bs" and "subseq cs (filter P bs)"
  shows "total_rem (zero_set (set cs) bs) = total_rem bs - sum_list (map bk_remaining cs)"
proof -
  have "distinct cs" and "set cs \<subseteq> set bs"
    using assms(1) subseq_distinctD [OF assms(2)] subseq_setD [OF assms(2)] by auto
  then have "mset (filter (\<lambda>b. b \<in> set cs) bs) = mset cs"
    using assms(1) by (subst set_eq_iff_mset_eq_distinct [symmetric]) auto
  then have "sum_list (map bk_remaining (filter (\<lambda>b. b \<in> set cs) bs)) = sum_list (map bk_remaining cs)"
    by (rule sum_list_mset_cong)
  then show ?thesis by (simp only: total_rem_zero_set_filter)
qed

lemma sweep_buckets_none_due: "filter (bucket_due now) (sweep_buckets now bs) = []"
  by (induction bs) (auto simp: sweep_buckets_def bucket_due_def split: option.splits)

lemma sum_expiry_rows:
  "list_all2 (expiry_row ustr org t) bs xs \<Longrightarrow>
     sum_list (map le_amount xs) = - sum_list (map bk_remaining bs)"
  by (induction rule: list_all2_induct) (auto simp: expiry_row_def)

lemma refs_expiry_rows:
  "list_all2 (expiry_row ustr org t) bs xs \<Longrightarrow> map le_ref_id xs = map (\<lambda>b. ustr (bk_id b)) bs"
  by (induction rule: list_all2_induct) (auto simp: expiry_row_def)

lemma expiry_row_bucket:
  "list_all2 (expiry_row ustr org t) bs xs \<Longrightarrow> x \<in> set xs \<Longrightarrow> \<exists>b \<in> set bs. expiry_row ustr org t b x"
  by (metis in_set_conv_nth list_all2_conv_all_nth)

lemma replay_swept:
  assumes codec: "uuid_codec ustr uparse" and wf: "replay_wf (bs, m)"
    and sub: "subseq cs (filter (bucket_due now) bs)"
    and rows: "list_all2 (expiry_row ustr org t) cs xs"
    and ys: "mset ys = mset xs"
  shows "foldl (replay_step uparse) (bs, m) ys = (zero_set (set cs) bs, m)"
proof -
  have set: "set ys = set xs" using ys by (rule mset_eq_setD)
  have refs: "map le_ref_id xs = map (\<lambda>b. ustr (bk_id b)) cs" using rows by (rule refs_expiry_rows)
  have cs: "set cs \<subseteq> {b \<in> set bs. bucket_due now b}" using subseq_setD [OF sub] by auto
  have dbs: "distinct (map bk_id bs)" using wf by (rule replay_wf_distinct)
  have inj: "ustr (bk_id b) = ustr (bk_id c) \<longleftrightarrow> b = c" if "b \<in> set bs" "c \<in> set bs" for b c
    using that dbs uuid_codec_inj [OF codec] by (auto simp: distinct_map inj_on_def)
  have "distinct cs" using dbs subseq_distinctD [OF sub] by (simp add: distinct_map)
  then have "distinct (map le_ref_id xs)"
    using inj cs unfolding refs by (fastforce simp: distinct_map inj_on_def)
  then have dist: "distinct (map le_ref_id ys)"
    by (metis mset_map mset_eq_imp_distinct_iff ys)
  have ex: "\<forall>x \<in> set ys. is_expiry x \<and> (\<exists>k < length bs. le_ref_id x = ustr (bk_id (bs ! k))
           \<and> le_amount x = - bk_remaining (bs ! k))"
  proof
    fix x assume "x \<in> set ys"
    then obtain b where "b \<in> set cs" "expiry_row ustr org t b x"
      using expiry_row_bucket [OF rows, of x] set by auto
    then have b: "b \<in> set bs" "bucket_due now b" "expiry_row ustr org t b x" using cs by auto
    then obtain k where "k < length bs" "bs ! k = b" by (auto simp: in_set_conv_nth)
    then show "is_expiry x \<and> (\<exists>k < length bs. le_ref_id x = ustr (bk_id (bs ! k))
           \<and> le_amount x = - bk_remaining (bs ! k))"
      using b by (auto simp: expiry_row_def is_expiry_def bucket_due_def split: option.splits)
  qed
  have "map (\<lambda>b. if ustr (bk_id b) \<in> le_ref_id ` set ys then zero_bucket b else b) bs = zero_set (set cs) bs"
    unfolding zero_set_def
  proof (rule map_cong [OF refl])
    fix b assume b: "b \<in> set bs"
    have "le_ref_id ` set ys = (\<lambda>b. ustr (bk_id b)) ` set cs"
      using refs set by (metis list.set_map)
    then have "ustr (bk_id b) \<in> le_ref_id ` set ys \<longleftrightarrow> b \<in> set cs"
      using inj b cs by auto
    then show "(if ustr (bk_id b) \<in> le_ref_id ` set ys then zero_bucket b else b) =
        (if b \<in> set cs then zero_bucket b else b)" by simp
  qed
  then show ?thesis using replay_expiry_rows [OF codec wf ex dist] by simp
qed

text \<open>
  The whole effect of one sweep: it succeeds, appends one row for some of the due buckets,
  which are emptied, and keeps the invariant. When the generated identifiers are fresh the
  rows are those of all the due buckets.
\<close>

lemma sweep_effect:
  assumes codec: "uuid_codec ustr uparse" and inv: "ledger_inv uparse d" and clock: "clock_past d org"
    and org: "org_exists d org"
  obtains d' xs cs k where
    "SweepOrgExpiredGrants ustr uparse org now d = Inr d'"
    "d' = d\<lparr>db_drawn := k, db_ledger := db_ledger d @ xs\<rparr>"
    "list_all2 (expiry_row ustr org (db_now d)) cs xs"
    "fresh_supply d (length (filter (bucket_due now) (org_buckets uparse d org))) \<longrightarrow>
       cs = filter (bucket_due now) (org_buckets uparse d org)"
    "org_buckets uparse d' org = zero_set (set cs) (org_buckets uparse d org)"
    "ledger_sum d' org = total_rem (org_buckets uparse d' org)"
    "ledger_inv uparse d'"
proof -
  obtain bs m where bm: "replay_state uparse (load_entries org d) = (bs, m)" by fastforce
  have ob: "org_buckets uparse d org = bs" by (simp add: org_buckets_def replayBuckets_def bm)
  have "org_sound uparse d org" using inv by (simp add: ledger_inv_def)
  then have snd: "replay_wf (bs, m)" "all_nonneg bs" "total_rem bs = ledger_sum d org"
    "bk_id ` set bs \<subseteq> le_id ` set (db_ledger d)" by (simp_all add: org_sound_def bm)
  obtain xs cs k where xs: "sweep_loop ustr org now bs d =
      Inr (d\<lparr>db_drawn := k, db_ledger := db_ledger d @ xs\<rparr>)"
    "subseq cs (filter (bucket_due now) bs)" "list_all2 (expiry_row ustr org (db_now d)) cs xs"
    "fresh_supply d (length (filter (bucket_due now) bs)) \<longrightarrow> cs = filter (bucket_due now) bs"
    using sweep_loop_rows [of ustr org now bs d] by blast
  let ?d' = "d\<lparr>db_drawn := k, db_ledger := db_ledger d @ xs\<rparr>"
  have L: "db_ledger ?d' = db_ledger d @ xs" by simp
  have row: "\<forall>x \<in> set xs. le_org x = org \<and> le_created_at x = db_now d"
    using expiry_row_bucket [OF xs(3)] by (auto simp: expiry_row_def)
  have xorg: "org_entries org xs = xs" using row by (intro org_entries_all) simp
  let ?ys = "sort_key (\<lambda>e. (le_created_at e, le_id e)) xs"
  have load: "load_entries org ?d' = load_entries org d @ ?ys"
    using load_entries_append [OF L, of org] clock row by (simp add: clock_past_def xorg)
  have replay: "replay_state uparse (load_entries org ?d') = (zero_set (set cs) bs, m)"
    unfolding load replay_state_append bm by (rule replay_swept [OF codec snd(1) xs(2,3)]) simp
  have "distinct bs" using replay_wf_distinct [OF snd(1)] by (simp add: distinct_map)
  then have sum: "ledger_sum ?d' org = total_rem (zero_set (set cs) bs)"
    using ledger_sum_append [OF L, of org] sum_expiry_rows [OF xs(3)] snd(3)
    by (simp add: xorg total_rem_zero_set [OF _ xs(2)])
  have "org_sound uparse ?d' org"
    using snd bk_id_set_of_frame [OF frame_zero_set, of "set cs" bs]
    by (auto simp: org_sound_def replay sum replay_wf_frame [OF frame_zero_set] all_nonneg_zero_set)
  moreover have "org_sound uparse ?d' o2" if "o2 \<noteq> org" for o2
    using that inv row other_org_sound [OF L, of org o2 uparse] by (simp add: ledger_inv_def)
  ultimately have "\<forall>o2. org_sound uparse ?d' o2" by metis
  then have inv': "ledger_inv uparse ?d'" using inv row by (auto simp: ledger_inv_def)
  have ok: "SweepOrgExpiredGrants ustr uparse org now d = Inr ?d'"
    using org xs(1) ob by (simp add: SweepOrgExpiredGrants_def org_buckets_def)
  have ob': "org_buckets uparse ?d' org = zero_set (set cs) bs"
    by (simp add: org_buckets_def replayBuckets_def replay)
  show thesis using that [OF ok refl xs(3)] xs(4) ob ob' sum inv' by simp
qed

lemma sweep_inv:
  assumes "uuid_codec ustr uparse" "ledger_inv uparse d" "clock_past d org"
    and "SweepOrgExpiredGrants ustr uparse org now d = Inr d'"
  shows "ledger_inv uparse d'"
proof -
  have "org_exists d org" using assms(4) by (auto simp: SweepOrgExpiredGrants_def split: if_splits)
  from sweep_effect [OF assms(1-3) this, of now] obtain d1
    where "SweepOrgExpiredGrants ustr uparse org now d = Inr d1" "ledger_inv uparse d1" by metis
  then show ?thesis using assms(4) by simp
qed

text \<open>Sweeping every organisation, each once.\<close>

lemma sweep_other_clock:
  assumes "list_all2 (expiry_row ustr org t) bs xs" and "o2 \<noteq> org" and "clock_past d o2"
  shows "clock_past (d\<lparr>db_drawn := n, db_ledger := db_ledger d @ xs\<rparr>) o2"
proof -
  have "org_entries o2 xs = []"
    using expiry_row_bucket [OF assms(1)] assms(2) by (intro org_entries_none) (auto simp: expiry_row_def)
  then show ?thesis using assms(3) by (simp add: clock_past_def)
qed

lemma sweep_orgs_inv:
  "uuid_codec ustr uparse \<Longrightarrow> ledger_inv uparse d \<Longrightarrow> distinct orgs \<Longrightarrow>
     \<forall>o1 \<in> set orgs. clock_past d o1 \<Longrightarrow> ledger_inv uparse (snd (sweep_orgs ustr uparse now orgs err d))"
proof (induction orgs arbitrary: err d)
  case Nil
  then show ?case by simp
next
  case (Cons o1 orgs)
  show ?case
  proof (cases "org_exists d o1")
    case False
    then show ?thesis using Cons by (simp add: SweepOrgExpiredGrants_def)
  next
    case True
    have "clock_past d o1" using Cons.prems(4) by simp
    from sweep_effect [OF Cons.prems(1,2) this True, of now] obtain d1 xs cs k where
      d1: "SweepOrgExpiredGrants ustr uparse o1 now d = Inr d1"
        "d1 = d\<lparr>db_drawn := k, db_ledger := db_ledger d @ xs\<rparr>"
        "list_all2 (expiry_row ustr o1 (db_now d)) cs xs" "ledger_inv uparse d1" by metis
    have "\<forall>o2 \<in> set orgs. clock_past d1 o2"
      using Cons.prems(3,4) unfolding d1(2) by (auto intro!: sweep_other_clock [OF d1(3)])
    then show ?thesis using Cons.IH [OF Cons.prems(1) d1(4)] Cons.prems(3) d1(1) by simp
  qed
qed

lemma sweep_all_inv:
  assumes "uuid_codec ustr uparse" "ledger_inv uparse d" "\<forall>o1. clock_past d o1"
  shows "ledger_inv uparse (snd (SweepAllExpiredGrants ustr uparse d))"
  using assms by (auto simp: SweepAllExpiredGrants_def Let_def intro: sweep_orgs_inv)

end
