(* ===== verification/Credits.thy ===== *)
theory Credits
  imports Sweep
begin

text \<open>
  The interface of the credit ledger and its guarantees. \<open>credit_store\<close> states what the
  subscription service relies on when it grants credits, \<open>credit_account\<close> adds spending;
  both are interpreted on the definitions of \<open>Ledger\<close>. The operation system of grants,
  spends and sweeps carries the invariant of \<open>Sweep\<close> through every stream of operations.
\<close>

section \<open>Interfaces\<close>

locale credit_store =
  fixes balance :: "'s \<Rightarrow> uuid \<Rightarrow> int"
    and grant :: "'s \<Rightarrow> uuid \<Rightarrow> int64 \<Rightarrow> string \<Rightarrow> string \<Rightarrow> string \<Rightarrow> gotime option \<Rightarrow> 'e + 's"
    and recorded :: "'s \<Rightarrow> uuid \<Rightarrow> string \<Rightarrow> string \<Rightarrow> string \<Rightarrow> bool"
  assumes grant_pos: "grant s org n reason rt rid ex = Inr s' \<Longrightarrow> 0 < n"
    and grant_balance: "grant s org n reason rt rid ex = Inr s' \<Longrightarrow>
      balance s' = (balance s)(org := balance s org + n)"
    and grant_records: "grant s org n reason rt rid ex = Inr s' \<Longrightarrow> rid \<noteq> [] \<Longrightarrow>
      recorded s' org reason rt rid"
    and grant_once: "recorded s org reason rt rid \<Longrightarrow> isl (grant s org n reason rt rid ex)"
begin

lemma grant_not_twice:
  "grant s org n reason rt rid ex = Inr s1 \<Longrightarrow> rid \<noteq> [] \<Longrightarrow> isl (grant s1 org n' reason rt rid ex')"
  by (rule grant_once) (rule grant_records)

lemma grant_increases: "grant s org n reason rt rid ex = Inr s' \<Longrightarrow> balance s p \<le> balance s' p"
  using grant_pos grant_balance by fastforce

end

locale credit_account = credit_store +
  fixes spend :: "'s \<Rightarrow> uuid \<Rightarrow> int64 \<Rightarrow> string \<Rightarrow> string \<Rightarrow> string \<Rightarrow> 'e + 's"
  assumes spend_covered: "spend s org n reason rt rid = Inr s' \<Longrightarrow> 0 < n \<and> n \<le> balance s org"
    and spend_balance: "spend s org n reason rt rid = Inr s' \<Longrightarrow>
      balance s' = (balance s)(org := balance s org - n)"
    and spend_records: "spend s org n reason rt rid = Inr s' \<Longrightarrow> rid \<noteq> [] \<Longrightarrow>
      recorded s' org reason rt rid"
    and spend_once: "recorded s org reason rt rid \<Longrightarrow> isl (spend s org n reason rt rid)"
begin

lemma spend_keeps_nonneg:
  "spend s org n reason rt rid = Inr s' \<Longrightarrow> (\<And>p. 0 \<le> balance s p) \<Longrightarrow> 0 \<le> balance s' p"
  using spend_covered spend_balance by fastforce

lemma spend_not_twice:
  "spend s org n reason rt rid = Inr s1 \<Longrightarrow> rid \<noteq> [] \<Longrightarrow> isl (spend s1 org n' reason rt rid)"
  by (rule spend_once) (rule spend_records)

lemma grant_then_spend:
  "grant s org n reason rt rid ex = Inr s1 \<Longrightarrow> spend s1 org n reason' rt' rid' = Inr s2 \<Longrightarrow>
     balance s2 = balance s"
  using grant_balance spend_balance by fastforce

end

section \<open>The ledger provides them\<close>

lemma ledger_sum_create:
  "create_entry d org amount reason rt rid ex = Inr d' \<Longrightarrow>
     ledger_sum d' = (ledger_sum d)(org := ledger_sum d org + amount)"
  by (erule create_entry_cases) (auto simp: ledger_sum_def org_entries_def)

lemma ledgerEntryExists_create:
  "create_entry d org amount reason rt rid ex = Inr d' \<Longrightarrow> rid \<noteq> [] \<Longrightarrow>
     ledgerEntryExists d' org reason rt rid"
  by (erule create_entry_cases) (simp add: ledgerEntryExists_def)

lemma GrantWithTx_cases:
  "GrantWithTx d org n reason rt rid ex = Inr d' \<Longrightarrow>
     0 < n \<and> \<not> ledgerEntryExists d org reason rt rid
     \<and> create_entry d org n reason rt rid ex = Inr d'"
  by (auto simp: GrantWithTx_def split: if_splits)

lemma SpendWithTx_recorded:
  "ledgerEntryExists d org reason rt rid \<Longrightarrow> isl (SpendWithTx d org n reason rt rid)"
  by (cases "SpendWithTx d org n reason rt rid") (auto dest: Spend_cases(5))

interpretation ledger: credit_account ledger_sum GrantWithTx ledgerEntryExists SpendWithTx
proof unfold_locales
  fix s s' :: "'a db_scheme" and org n reason rt rid ex
  show "GrantWithTx s org n reason rt rid ex = Inr s' \<Longrightarrow> 0 < n"
    by (drule GrantWithTx_cases) simp
  show "GrantWithTx s org n reason rt rid ex = Inr s' \<Longrightarrow>
      ledger_sum s' = (ledger_sum s)(org := ledger_sum s org + n)"
    by (blast dest: GrantWithTx_cases intro: ledger_sum_create)
  show "GrantWithTx s org n reason rt rid ex = Inr s' \<Longrightarrow> rid \<noteq> [] \<Longrightarrow>
      ledgerEntryExists s' org reason rt rid"
    by (blast dest: GrantWithTx_cases intro: ledgerEntryExists_create)
  show "ledgerEntryExists s org reason rt rid \<Longrightarrow> isl (GrantWithTx s org n reason rt rid ex)"
    by (simp add: GrantWithTx_def)
  show "SpendWithTx s org n reason rt rid = Inr s' \<Longrightarrow> 0 < n \<and> n \<le> ledger_sum s org"
    using Spend_cases(1,4) by blast
  show "SpendWithTx s org n reason rt rid = Inr s' \<Longrightarrow>
      ledger_sum s' = (ledger_sum s)(org := ledger_sum s org - n)"
    by (drule Spend_cases(6), drule ledger_sum_create) simp
  show "SpendWithTx s org n reason rt rid = Inr s' \<Longrightarrow> rid \<noteq> [] \<Longrightarrow>
      ledgerEntryExists s' org reason rt rid"
    by (drule Spend_cases(6)) (rule ledgerEntryExists_create)
  show "ledgerEntryExists s org reason rt rid \<Longrightarrow> isl (SpendWithTx s org n reason rt rid)"
    by (rule SpendWithTx_recorded)
qed

section \<open>Streams of operations\<close>

datatype ledger_op =
    OpGrant uuid int64 string string string "gotime option"
  | OpSpend uuid int64 string string string
  | OpSweep uuid
  | OpSweepAll

definition advance_clock :: "nat \<Rightarrow> 'a db_scheme \<Rightarrow> 'a db_scheme" where
  "advance_clock dt d = d\<lparr>db_now := db_now d + 1 + int dt\<rparr>"

definition committed :: "'s \<Rightarrow> 'e + 's \<Rightarrow> 's" where
  "committed s r = (case r of Inl e \<Rightarrow> s | Inr s' \<Rightarrow> s')"

text \<open>
  One operation of a stream, some time after the one before: a failed transaction is rolled
  back.
\<close>

fun ledger_exec ::
  "(uuid \<Rightarrow> string) \<Rightarrow> (string \<Rightarrow> uuid option) \<Rightarrow> nat \<times> ledger_op \<Rightarrow> 'a db_scheme \<Rightarrow> 'a db_scheme"
where
  "ledger_exec ustr uparse (dt, OpGrant org n reason rt rid ex) d =
     (let d1 = advance_clock dt d in committed d1 (Grant d1 org n reason rt rid ex))"
| "ledger_exec ustr uparse (dt, OpSpend org n reason rt rid) d =
     (let d1 = advance_clock dt d in committed d1 (Spend d1 org n reason rt rid))"
| "ledger_exec ustr uparse (dt, OpSweep org) d =
     (let d1 = advance_clock dt d
      in committed d1 (SweepOrgExpiredGrants ustr uparse org (db_now d1) d1))"
| "ledger_exec ustr uparse (dt, OpSweepAll) d =
     snd (SweepAllExpiredGrants ustr uparse (advance_clock dt d))"

text \<open>The callers of \<open>Spend\<close> never use the reason the sweep reserves for itself.\<close>

fun ledger_op_ok :: "nat \<times> ledger_op \<Rightarrow> bool" where
  "ledger_op_ok (dt, OpSpend org n reason rt rid) =
     (\<not> (reason = ReasonExpiry \<and> rt = RefTypeExpiredGrant))"
| "ledger_op_ok _ = True"

definition ledger_exec_ok ::
  "(uuid \<Rightarrow> string) \<Rightarrow> (string \<Rightarrow> uuid option) \<Rightarrow> nat \<times> ledger_op \<Rightarrow> 'a db_scheme \<Rightarrow> 'a db_scheme"
where
  "ledger_exec_ok ustr uparse x d = (if ledger_op_ok x then ledger_exec ustr uparse x d else d)"

lemma advance_clock_simps [simp]:
  "db_ledger (advance_clock dt d) = db_ledger d" "ledger_sum (advance_clock dt d) = ledger_sum d"
  "load_entries org (advance_clock dt d) = load_entries org d"
  by (simp_all add: advance_clock_def ledger_sum_def load_entries_def fun_eq_iff)

lemma advance_clock_inv: "ledger_inv uparse d \<Longrightarrow> ledger_inv uparse (advance_clock dt d)"
  by (force simp: ledger_inv_def org_sound_def advance_clock_def ledger_sum_def load_entries_def)

lemma advance_clock_past: "ledger_inv uparse d \<Longrightarrow> clock_past (advance_clock dt d) org"
  by (force simp: ledger_inv_def clock_past_def advance_clock_def org_entries_def)

lemma Spend_ok: "Spend d org n reason rt rid = Inr d' \<longleftrightarrow> SpendWithTx d org n reason rt rid = Inr d'"
  by (auto simp: Spend_def split: sum.splits if_splits)

lemma ledger_exec_inv:
  assumes "uuid_codec ustr uparse" and inv: "ledger_inv uparse d" and "ledger_op_ok (dt, x)"
  shows "ledger_inv uparse (ledger_exec ustr uparse (dt, x) d)"
proof -
  let ?d = "advance_clock dt d"
  have i: "ledger_inv uparse ?d" and c: "\<And>org. clock_past ?d org"
    using advance_clock_inv [OF inv] advance_clock_past [OF inv] by auto
  show ?thesis
  proof (cases x)
    case (OpGrant org n reason rt rid ex)
    then show ?thesis using Grant_inv [OF i c] i
      by (auto simp: Let_def committed_def Grant_def split: sum.splits)
  next
    case (OpSpend org n reason rt rid)
    then show ?thesis using Spend_inv [OF i c] i assms(3)
      by (auto simp: Let_def committed_def Spend_ok split: sum.splits)
  next
    case (OpSweep org)
    then show ?thesis using sweep_inv [OF assms(1) i c] i
      by (auto simp: Let_def committed_def split: sum.splits)
  next
    case OpSweepAll
    then show ?thesis using sweep_all_inv [OF assms(1) i] c by simp
  qed
qed

lemma ledger_op_system:
  "uuid_codec ustr uparse \<Longrightarrow> op_system (ledger_exec_ok ustr uparse) (ledger_inv uparse)"
  by unfold_locales (auto simp: ledger_exec_ok_def intro: ledger_exec_inv)

lemma run_ops_ok:
  "list_all ledger_op_ok ops \<Longrightarrow>
     run_ops (ledger_exec ustr uparse) ops d = run_ops (ledger_exec_ok ustr uparse) ops d"
  by (induction ops arbitrary: d) (auto simp: ledger_exec_ok_def)

lemma ledger_inv_empty: "db_ledger d = [] \<Longrightarrow> ledger_inv uparse d"
  by (simp add: ledger_inv_def org_sound_def load_entries_def org_entries_def replay_state_def
      replay_wf_def ledger_sum_def)

text \<open>A printer and parser of identifiers, for the closed examples.\<close>

definition dec_ustr :: "uuid \<Rightarrow> string" where "dec_ustr u = show_nat (unat u)"

definition dec_uparse :: "string \<Rightarrow> uuid option" where
  "dec_uparse s = map_option of_nat (read_digits 0 s)"

lemma dec_codec: "uuid_codec dec_ustr dec_uparse"
  by (simp add: uuid_codec_def dec_ustr_def dec_uparse_def read_show_nat)

interpretation ledger_stream: op_system "ledger_exec_ok dec_ustr dec_uparse" "ledger_inv dec_uparse"
  by (rule ledger_op_system) (rule dec_codec)

end
