(* ===== verification/LedgerProps.thy ===== *)
theory LedgerProps
  imports Credits
begin

text \<open>
  What the credit ledger guarantees: the properties of \<open>Ledger\<close>, \<open>Buckets\<close>, \<open>Sweep\<close> and
  \<open>Credits\<close>, each with a closed example where it has hypotheses.
\<close>

section \<open>Examples\<close>

definition demo_ledger :: "credit_ledger_entry list \<Rightarrow> db" where
  "demo_ledger es = \<lparr>db_orgs = [\<lparr>org_id = 7, org_plan_slug = FreePlanSlug\<rparr>], db_ledger = es,
     db_gen = (\<lambda>n. of_nat (100 + n)), db_drawn = 0, db_now = 1000\<rparr>"

definition demo_row :: "uuid \<Rightarrow> int64 \<Rightarrow> gotime option \<Rightarrow> gotime \<Rightarrow> credit_ledger_entry" where
  "demo_row i n ex t = \<lparr>le_id = i, le_org = 7, le_amount = n,
     le_reason = (if 0 < n then ReasonPlanGrant else ReasonAgentRun), le_ref_type = ''run'',
     le_ref_id = dec_ustr i, le_expires_at = ex, le_created_at = t\<rparr>"

definition demo_ops :: "(nat \<times> ledger_op) list" where
  "demo_ops = [(5, OpGrant 7 10 ReasonPlanGrant ''p'' ''a'' (Some 1010)),
     (5, OpSpend 7 4 ReasonAgentRun ''run'' ''r1''), (50, OpSweepAll)]"

definition demo_spent :: db where
  "demo_spent = run_ops (ledger_exec dec_ustr dec_uparse) (take 2 demo_ops) (demo_ledger [])"

definition demo_expired :: db where
  "demo_expired = advance_clock 1000 demo_spent"

text \<open>A grant recorded at time 500 and the spend of it, committed later, recorded at 499.\<close>

definition demo_skewed :: db where
  "demo_skewed = demo_ledger [demo_row 1 10 (Some 600) 500, demo_row 2 (- 10) None 499]"

definition account_spend :: "(uuid \<Rightarrow> int) \<Rightarrow> uuid \<Rightarrow> int \<Rightarrow> (uuid \<Rightarrow> int) option" where
  "account_spend b org n = (if 0 < n \<and> n \<le> b org then Some (b(org := b org - n)) else None)"

lemmas demo_defs = demo_ledger_def demo_row_def demo_ops_def ledger_consts

section \<open>Properties\<close>

text \<open>
  C1: starting from an empty ledger, no sequence of grants, spends, per-organisation sweeps and
  global sweeps, successful or refused, in any order and with any clock advances, makes an
  organisation's balance negative.
\<close>

theorem credits_never_negative:
  assumes "uuid_codec ustr uparse" and "db_ledger d = []" and "list_all ledger_op_ok ops"
  shows "0 \<le> ledger_sum (run_ops (ledger_exec ustr uparse) ops d) org"
proof -
  have "ledger_inv uparse (run_ops (ledger_exec_ok ustr uparse) ops d)"
    by (rule op_system.inv_run [OF ledger_op_system [OF assms(1)] ledger_inv_empty [OF assms(2)]])
  then show ?thesis using assms(3) by (simp add: run_ops_ok ledger_inv_nonneg)
qed

theorem credits_never_negative_witness:
  "list_all ledger_op_ok demo_ops
   \<and> 0 \<le> ledger_sum (run_ops (ledger_exec dec_ustr dec_uparse) demo_ops (demo_ledger [])) 7"
proof
  show "list_all ledger_op_ok demo_ops" by (simp add: demo_defs)
  then show "0 \<le> ledger_sum (run_ops (ledger_exec dec_ustr dec_uparse) demo_ops (demo_ledger [])) 7"
    by (intro credits_never_negative dec_codec) (simp_all add: demo_ledger_def)
qed

text \<open>
  C16: on a consistent ledger a sweep of an existing organisation succeeds; it empties exactly
  the buckets whose expiry has passed and keeps all others, the new balance is the total of what
  the remaining buckets hold, other organisations keep their balance, and a second sweep at the
  same instant writes nothing.
\<close>

theorem sweep_settles:
  assumes "uuid_codec ustr uparse" and "ledger_inv uparse d" and "clock_past d org"
    and "org_exists d org"
    and "fresh_supply d (length (filter (bucket_due now) (org_buckets uparse d org)))"
  shows "\<exists>d'. SweepOrgExpiredGrants ustr uparse org now d = Inr d'
    \<and> org_buckets uparse d' org = sweep_buckets now (org_buckets uparse d org)
    \<and> ledger_sum d' = (ledger_sum d)(org := total_rem (sweep_buckets now (org_buckets uparse d org)))
    \<and> SweepOrgExpiredGrants ustr uparse org now d' = Inr d'"
proof -
  let ?bs = "org_buckets uparse d org"
  from sweep_effect [OF assms(1-4), of now] assms(5) obtain d' xs k where
    d': "SweepOrgExpiredGrants ustr uparse org now d = Inr d'"
      "d' = d\<lparr>db_drawn := k, db_ledger := db_ledger d @ xs\<rparr>"
      "list_all2 (expiry_row ustr org (db_now d)) (filter (bucket_due now) ?bs) xs"
      "org_buckets uparse d' org = zero_set (set (filter (bucket_due now) ?bs)) ?bs"
      "ledger_sum d' org = total_rem (org_buckets uparse d' org)" by metis
  have b: "org_buckets uparse d' org = sweep_buckets now ?bs" using d'(4) by (simp only: zero_set_due)
  have "\<forall>e \<in> set xs. le_org e = org" using expiry_row_bucket [OF d'(3)] by (auto simp: expiry_row_def)
  then have "ledger_sum d' p = ledger_sum d p" if "p \<noteq> org" for p
    using that other_org_unchanged(2) [of d' d xs org p] by (simp add: d'(2))
  then have sum: "ledger_sum d' = (ledger_sum d)(org := total_rem (sweep_buckets now ?bs))"
    using d'(5) b by auto
  have "sweep_loop ustr org now cs e = Inr e" if "filter (bucket_due now) cs = []" for cs and e :: "'a db_scheme"
    using that by (induction cs) (auto split: if_splits)
  then have "SweepOrgExpiredGrants ustr uparse org now d' = Inr d'"
    using b sweep_buckets_none_due [of now ?bs] assms(4)
    by (simp add: SweepOrgExpiredGrants_def org_buckets_def [symmetric] d'(2) org_exists_def)
  with d'(1) b sum show ?thesis by blast
qed

theorem sweep_settles_witness:
  "length (filter (bucket_due 2000) (org_buckets dec_uparse demo_expired 7)) = 1
   \<and> (\<exists>d'. SweepOrgExpiredGrants dec_ustr dec_uparse 7 2000 demo_expired = Inr d'
    \<and> org_buckets dec_uparse d' 7 = sweep_buckets 2000 (org_buckets dec_uparse demo_expired 7)
    \<and> ledger_sum d' = (ledger_sum demo_expired)(7 :=
         total_rem (sweep_buckets 2000 (org_buckets dec_uparse demo_expired 7)))
    \<and> SweepOrgExpiredGrants dec_ustr dec_uparse 7 2000 d' = Inr d')"
proof
  show due: "length (filter (bucket_due 2000) (org_buckets dec_uparse demo_expired 7)) = 1"
    by code_simp
  have "ledger_inv dec_uparse demo_spent"
    unfolding demo_spent_def
    by (subst run_ops_ok, simp add: demo_ops_def ledger_consts)
      (rule ledger_stream.inv_run, rule ledger_inv_empty, simp add: demo_ledger_def)
  then have inv: "ledger_inv dec_uparse demo_expired" and past: "clock_past demo_expired 7"
    unfolding demo_expired_def by (rule advance_clock_inv, rule advance_clock_past)
  have "org_exists demo_expired 7" "fresh_supply demo_expired 1" by code_simp+
  then show "\<exists>d'. SweepOrgExpiredGrants dec_ustr dec_uparse 7 2000 demo_expired = Inr d'
    \<and> org_buckets dec_uparse d' 7 = sweep_buckets 2000 (org_buckets dec_uparse demo_expired 7)
    \<and> ledger_sum d' = (ledger_sum demo_expired)(7 :=
         total_rem (sweep_buckets 2000 (org_buckets dec_uparse demo_expired 7)))
    \<and> SweepOrgExpiredGrants dec_ustr dec_uparse 7 2000 d' = Inr d'"
    using due by (intro sweep_settles dec_codec inv past) simp_all
qed

text \<open>
  A spend implements the account specification: it succeeds exactly when the specification
  allows it, the organisation exists, the balance fits a machine integer, the reference was not
  used before and the generated identifier is new, and then the balances are those of the
  specification.
\<close>

theorem spend_refines_account:
  "(\<exists>d'. Spend d org n reason rt rid = Inr d' \<and> ledger_sum d' = b') \<longleftrightarrow>
     account_spend (ledger_sum d) org n = Some b' \<and> org_exists d org \<and> in_i64 (ledger_sum d org)
     \<and> \<not> ledgerEntryExists d org reason rt rid
     \<and> db_gen d (db_drawn d) \<notin> le_id ` set (db_ledger d)"
proof
  assume "\<exists>d'. Spend d org n reason rt rid = Inr d' \<and> ledger_sum d' = b'"
  then obtain d' where d': "SpendWithTx d org n reason rt rid = Inr d'" "ledger_sum d' = b'"
    by (auto simp: Spend_ok)
  have "db_gen d (db_drawn d) \<notin> le_id ` set (db_ledger d)"
    using Spend_cases(6) [OF d'(1)] by (auto simp: create_entry_def Let_def split: if_splits)
  then show "account_spend (ledger_sum d) org n = Some b' \<and> org_exists d org \<and> in_i64 (ledger_sum d org)
     \<and> \<not> ledgerEntryExists d org reason rt rid
     \<and> db_gen d (db_drawn d) \<notin> le_id ` set (db_ledger d)"
    using Spend_cases(1-5) [OF d'(1)] ledger.spend_balance [OF d'(1)] d'(2)
    by (simp add: account_spend_def)
next
  assume a: "account_spend (ledger_sum d) org n = Some b' \<and> org_exists d org \<and> in_i64 (ledger_sum d org)
     \<and> \<not> ledgerEntryExists d org reason rt rid
     \<and> db_gen d (db_drawn d) \<notin> le_id ` set (db_ledger d)"
  then obtain d' where d': "SpendWithTx d org n reason rt rid = Inr d'"
    by (auto simp: SpendWithTx_def sumBalance_def account_spend_def create_entry_fresh split: if_splits)
  then show "\<exists>d'. Spend d org n reason rt rid = Inr d' \<and> ledger_sum d' = b'"
    using a ledger.spend_balance [OF d'] by (auto simp: Spend_ok account_spend_def split: if_splits)
qed

text \<open>
  Retrying a spend that succeeded never deducts again; but the retry answers "already
  recorded" only while the balance still covers the amount, and "insufficient credits" when it
  no longer does, because the balance is checked first.
\<close>

theorem spend_retry_outcome:
  assumes "Spend d org n reason rt rid = Inr d'" and "rid \<noteq> []"
  shows "Spend d' org n reason rt rid =
    Inl (if 2 * n \<le> ledger_sum d org then ErrAlreadyRecorded else ErrInsufficientCredits)"
proof -
  have sp: "SpendWithTx d org n reason rt rid = Inr d'" using assms(1) by (simp add: Spend_ok)
  note c = Spend_cases [OF sp]
  have sum: "ledger_sum d' org = ledger_sum d org - n" using ledger.spend_balance [OF sp] by simp
  have "org_exists d' org" using c(2,6) by (auto elim!: create_entry_cases simp: org_exists_def)
  moreover have "in_i64 (ledger_sum d' org)" using c(1,3,4) sum by (auto simp: in_i64_def)
  moreover have "ledgerEntryExists d' org reason rt rid"
    by (rule ledger.spend_records [OF sp assms(2)])
  ultimately have "SpendWithTx d' org n reason rt rid =
      Inl (if 2 * n \<le> ledger_sum d org then ErrAlreadyRecorded else ErrInsufficientCredits)"
    using c(1) sum by (auto simp: SpendWithTx_def sumBalance_def)
  moreover have "\<not> isUniqueViolation ErrAlreadyRecorded" "\<not> isUniqueViolation ErrInsufficientCredits"
    by code_simp+
  ultimately show ?thesis by (simp add: Spend_def)
qed

theorem spend_retry_outcome_witness:
  "is_ok (Spend (demo_ledger [demo_row 1 10 None 1]) 7 6 ReasonAgentRun ''run'' ''r1'')
   \<and> Spend (projr (Spend (demo_ledger [demo_row 1 10 None 1]) 7 6 ReasonAgentRun ''run'' ''r1''))
        7 6 ReasonAgentRun ''run'' ''r1'' = Inl ErrInsufficientCredits"
proof
  let ?d = "demo_ledger [demo_row 1 10 None 1]"
  show ok: "is_ok (Spend ?d 7 6 ReasonAgentRun ''run'' ''r1'')" by code_simp
  have "\<not> 2 * 6 \<le> ledger_sum ?d 7" by code_simp
  then show "Spend (projr (Spend ?d 7 6 ReasonAgentRun ''run'' ''r1'')) 7 6 ReasonAgentRun ''run'' ''r1''
      = Inl ErrInsufficientCredits"
    using spend_retry_outcome [of ?d 7 6 ReasonAgentRun "''run''" "''r1''"
        "projr (Spend ?d 7 6 ReasonAgentRun ''run'' ''r1'')"] ok
    by (cases "Spend ?d 7 6 ReasonAgentRun ''run'' ''r1''") simp_all
qed




text \<open>
  The hand-written scan behind the unique-violation test is the substring relation: it
  answers true exactly when one of the needles occurs in the haystack.
\<close>

theorem containsAny_is_sublist:
  "containsAny haystack needles \<longleftrightarrow> list_ex (\<lambda>n. sublist n haystack) needles"
proof (induction needles)
  case (Cons n ns)
  have scan: "scan_from haystack n i k \<longleftrightarrow> (\<exists>j < k. take (length n) (drop (i + j) haystack) = n)" for i k
  proof (induction k arbitrary: i)
    case (Suc k)
    then show ?case by (auto simp: less_Suc_eq_0_disj)
  qed simp
  have "length haystack \<ge> length n \<and> scan_from haystack n 0 (length haystack - length n + 1)
      \<longleftrightarrow> sublist n haystack"
  proof
    assume "length haystack \<ge> length n \<and> scan_from haystack n 0 (length haystack - length n + 1)"
    then show "sublist n haystack" unfolding scan by (auto intro: take_drop_sublist)
  next
    assume "sublist n haystack"
    then obtain ps ss where h: "haystack = ps @ n @ ss" by (auto simp: sublist_def)
    then show "length haystack \<ge> length n \<and> scan_from haystack n 0 (length haystack - length n + 1)"
      unfolding scan by (auto intro!: exI [of _ "length ps"])
  qed
  then show ?case using Cons by auto
qed simp

text \<open>
  The replay orders rows by their creation time, not by the order in which they were
  committed. When the clock of the process that spent ran behind the one that granted, a sweep
  offsets credits that were already spent, and the balance becomes negative.
\<close>

theorem sweep_overdebits_under_clock_skew:
  "ledger_sum demo_skewed 7 = 0
   \<and> (case SweepOrgExpiredGrants dec_ustr dec_uparse 7 1000 demo_skewed of
        Inl e \<Rightarrow> False | Inr d' \<Rightarrow> ledger_sum d' 7 = - 10)"
  by code_simp

end
