(* ===== verification/Proration.thy ===== *)
theory Proration
  imports Prelude
begin

text \<open>
  Proration and plan changes: \<open>internal/billing/subscription/proration.go\<close> and \<open>change.go\<close>,
  and the renewal decision of \<open>renewal.go\<close>. Amounts are machine integers; the product of an
  amount and a numerator is the one place where they can wrap.
\<close>

section \<open>Fractions\<close>

record Fraction =
  Numerator :: int64
  Denominator :: int64

definition frac :: "int64 \<Rightarrow> int64 \<Rightarrow> Fraction" where
  "frac n m = \<lparr>Numerator = n, Denominator = m\<rparr>"

lemma frac_simps [simp]: "Numerator (frac n m) = n" "Denominator (frac n m) = m"
  by (simp_all add: frac_def)

definition secondsBetween :: "gotime \<Rightarrow> gotime \<Rightarrow> int64" where
  "secondsBetween a b = (let d = time_sub b a in d sdiv Second)"

definition ProrationFraction :: "gotime \<Rightarrow> gotime \<Rightarrow> gotime \<Rightarrow> Fraction" where
  "ProrationFraction now periodStart periodEnd =
     (let totalSecs = secondsBetween periodStart periodEnd in
      if totalSecs \<le> 0 then frac 0 1
      else if \<not> now > periodStart then frac totalSecs totalSecs
      else if \<not> now < periodEnd then frac 0 totalSecs
      else frac (secondsBetween now periodEnd) totalSecs)"

definition IsZeroFraction :: "Fraction \<Rightarrow> bool" where
  "IsZeroFraction f \<longleftrightarrow> Numerator f = 0 \<or> Denominator f = 0"

definition IsOneFraction :: "Fraction \<Rightarrow> bool" where
  "IsOneFraction f \<longleftrightarrow> Denominator f > 0 \<and> Numerator f = Denominator f"

definition ApplyFraction :: "Fraction \<Rightarrow> int64 \<Rightarrow> int64" where
  "ApplyFraction f amount =
     (if Denominator f \<le> 0 \<or> Numerator f = 0 \<or> amount = 0 then 0
      else if Numerator f = Denominator f then amount
      else
        let num = i64 (amount * Numerator f);
            q = num sdiv Denominator f;
            r = num smod Denominator f
        in if r = 0 then q
           else
             let abs2r0 = i64 (r * 2);
                 abs2r = (if abs2r0 < 0 then i64 (- abs2r0) else abs2r0)
             in if abs2r < Denominator f then q
                else if abs2r > Denominator f then (if num \<ge> 0 then q + 1 else q - 1)
                else if q smod 2 = 0 then q
                else if num \<ge> 0 then q + 1 else q - 1)"

section \<open>Plans and change previews\<close>

datatype ChangeKind = KindUpgrade | KindDowngrade

record PlanView =
  pv_ID :: uuid
  pv_Slug :: string
  pv_PriceMinor :: int64
  pv_Currency :: string
  pv_MonthlyCredits :: int64

definition IsFree :: "PlanView \<Rightarrow> bool" where
  "IsFree p \<longleftrightarrow> pv_PriceMinor p = 0"

record SubscriptionView =
  sv_ID :: uuid
  sv_Plan :: PlanView
  sv_CurrentPeriodStart :: gotime
  sv_CurrentPeriodEnd :: gotime
  sv_CancelAtPeriodEnd :: bool

record ChangePreview =
  cp_Kind :: ChangeKind
  cp_AmountMinor :: int64
  cp_Currency :: string
  cp_CreditGrantMinor :: int64
  cp_CreditExpiresAt :: gotime
  cp_EffectiveAt :: gotime
  cp_UnusedFraction :: Fraction

datatype change_error = ErrSamePlan | ErrCurrencyMismatch | ErrPeriodEnded | ErrFreeUpgrade

definition PreviewChange :: "SubscriptionView \<Rightarrow> PlanView \<Rightarrow> gotime \<Rightarrow> change_error + ChangePreview" where
  "PreviewChange sub target now =
     (let plan = sv_Plan sub in
      if pv_ID plan = pv_ID target then Inl ErrSamePlan
      else if pv_Currency plan \<noteq> pv_Currency target then Inl ErrCurrencyMismatch
      else if \<not> is_zero (sv_CurrentPeriodEnd sub) \<and> now > sv_CurrentPeriodEnd sub then Inl ErrPeriodEnded
      else if IsFree plan \<and> \<not> IsFree target then Inl ErrFreeUpgrade
      else
        let fr = ProrationFraction now (sv_CurrentPeriodStart sub) (sv_CurrentPeriodEnd sub) in
        if pv_PriceMinor target > pv_PriceMinor plan then
          let priceDelta = i64 (pv_PriceMinor target - pv_PriceMinor plan);
              creditDelta = i64 (pv_MonthlyCredits target - pv_MonthlyCredits plan);
              amount = ApplyFraction fr priceDelta;
              creditGrant = (if creditDelta > 0 then ApplyFraction fr creditDelta else 0)
          in Inr \<lparr>cp_Kind = KindUpgrade, cp_AmountMinor = amount, cp_Currency = pv_Currency target,
                  cp_CreditGrantMinor = creditGrant, cp_CreditExpiresAt = sv_CurrentPeriodEnd sub,
                  cp_EffectiveAt = now, cp_UnusedFraction = fr\<rparr>
        else Inr \<lparr>cp_Kind = KindDowngrade, cp_AmountMinor = 0, cp_Currency = pv_Currency target,
                  cp_CreditGrantMinor = 0, cp_CreditExpiresAt = zero_time,
                  cp_EffectiveAt = sv_CurrentPeriodEnd sub, cp_UnusedFraction = fr\<rparr>)"

section \<open>Renewal decisions\<close>

definition MaxRenewalAttempts :: int where "MaxRenewalAttempts = 5"
definition RenewalRetryInterval :: duration where "RenewalRetryInterval = Hour"

datatype RenewalAction =
    ActionNoOp
  | ActionCancelAtPeriodEnd
  | ActionTransitionToFree
  | ActionMarkPastDue
  | ActionCharge

record RenewalDecision =
  rd_Action :: RenewalAction
  rd_TargetPlan :: PlanView
  rd_Reason :: string

record RenewalSubscriptionView =
  rv_Status :: string
  rv_CurrentPeriodEnd :: gotime
  rv_CancelAtPeriodEnd :: bool
  rv_HasReusableAuthorization :: bool
  rv_RenewalAttempts :: int
  rv_LastRenewalAttemptAt :: "gotime option"

definition zero_plan :: PlanView where
  "zero_plan = \<lparr>pv_ID = uuid_nil, pv_Slug = [], pv_PriceMinor = 0, pv_Currency = [], pv_MonthlyCredits = 0\<rparr>"

definition DecideRenewal ::
  "RenewalSubscriptionView \<Rightarrow> PlanView \<Rightarrow> PlanView option \<Rightarrow> gotime \<Rightarrow> RenewalDecision" where
  "DecideRenewal sub currentPlan pendingPlan now =
     (if rv_Status sub \<noteq> ''active''
      then \<lparr>rd_Action = ActionNoOp, rd_TargetPlan = zero_plan, rd_Reason = ''status not active''\<rparr>
      else if \<not> is_zero (rv_CurrentPeriodEnd sub) \<and> now < rv_CurrentPeriodEnd sub
      then \<lparr>rd_Action = ActionNoOp, rd_TargetPlan = zero_plan, rd_Reason = ''period not yet ended''\<rparr>
      else if rv_CancelAtPeriodEnd sub
      then \<lparr>rd_Action = ActionCancelAtPeriodEnd, rd_TargetPlan = zero_plan,
            rd_Reason = ''cancel_at_period_end set''\<rparr>
      else
        let target = (case pendingPlan of None \<Rightarrow> currentPlan | Some p \<Rightarrow> p) in
        if IsFree target
        then \<lparr>rd_Action = ActionTransitionToFree, rd_TargetPlan = target, rd_Reason = ''target plan is free''\<rparr>
        else if \<not> rv_HasReusableAuthorization sub
        then \<lparr>rd_Action = ActionMarkPastDue, rd_TargetPlan = zero_plan,
              rd_Reason = ''no reusable authorization on file''\<rparr>
        else \<lparr>rd_Action = ActionCharge, rd_TargetPlan = target, rd_Reason = ''due renewal''\<rparr>)"

section \<open>Rounding\<close>

text \<open>
  The specification of the rounding: a whole number nearest to the exact quotient, and the even
  one of the two when it lies half-way.
\<close>

definition nearest_even :: "int \<Rightarrow> int \<Rightarrow> int \<Rightarrow> bool" where
  "nearest_even num den x \<longleftrightarrow>
     2 * \<bar>x * den - num\<bar> < den \<or> (2 * \<bar>x * den - num\<bar> = den \<and> even x)"

lemma nearest_even_unique:
  assumes "0 < den" and "nearest_even num den x" and "nearest_even num den y"
  shows "x = y"
proof (rule ccontr)
  assume ne: "x \<noteq> y"
  have tri: "\<bar>x - y\<bar> * den \<le> \<bar>x * den - num\<bar> + \<bar>y * den - num\<bar>"
  proof -
    have "\<bar>x - y\<bar> * den = \<bar>(x - y) * den\<bar>" using assms(1) by (simp add: abs_mult)
    also have "(x - y) * den = (x * den - num) - (y * den - num)" by (simp add: left_diff_distrib)
    finally show ?thesis by linarith
  qed
  have b: "2 * \<bar>x * den - num\<bar> \<le> den" "2 * \<bar>y * den - num\<bar> \<le> den"
    using assms(2,3) by (auto simp: nearest_even_def)
  have le: "a \<le> b + c \<Longrightarrow> 2 * b \<le> e \<Longrightarrow> 2 * c \<le> e \<Longrightarrow> a \<le> e" for a b c e :: int by linarith
  have "\<bar>x - y\<bar> * den \<le> 1 * den" using le [OF tri b] by simp
  then have "\<bar>x - y\<bar> \<le> 1" using assms(1) by (rule mult_right_le_imp_le)
  then have one: "\<bar>x - y\<bar> = 1" using ne by linarith
  have eq: "e \<le> b + c \<Longrightarrow> 2 * b \<le> e \<Longrightarrow> 2 * c \<le> e \<Longrightarrow> 2 * b = e \<and> 2 * c = e" for b c e :: int
    by linarith
  have "2 * \<bar>x * den - num\<bar> = den \<and> 2 * \<bar>y * den - num\<bar> = den"
    using eq [OF _ b] tri one by simp
  then have "even x" "even y" using assms(2,3) by (auto simp: nearest_even_def)
  then have "even \<bar>x - y\<bar>" by simp
  then show False using one by simp
qed

lemma sdiv_smod_pos:
  fixes num den :: int
  assumes "0 < den"
  shows "num = num sdiv den * den + num smod den" and "\<bar>num smod den\<bar> < den"
    and "0 \<le> num \<Longrightarrow> 0 \<le> num smod den" and "num \<le> 0 \<Longrightarrow> num smod den \<le> 0"
proof -
  show "num = num sdiv den * den + num smod den" by (simp add: sdiv_mult_smod_eq)
  have m: "num smod den = sgn num * (\<bar>num\<bar> mod den)"
    using assms by (simp add: signed_modulo_int_def)
  have r: "0 \<le> \<bar>num\<bar> mod den" "\<bar>num\<bar> mod den < den" using assms by simp_all
  show "\<bar>num smod den\<bar> < den" using r assms by (auto simp: m abs_mult sgn_if)
  show "0 \<le> num \<Longrightarrow> 0 \<le> num smod den" using r by (auto simp: m sgn_if)
  show "num \<le> 0 \<Longrightarrow> num smod den \<le> 0" using r by (auto simp: m sgn_if)
qed

lemma ApplyFraction_trivial:
  "0 < Denominator f \<Longrightarrow> Numerator f = 0 \<or> amount = 0 \<Longrightarrow> ApplyFraction f amount = 0"
  "0 < Denominator f \<Longrightarrow> Numerator f = Denominator f \<Longrightarrow> ApplyFraction f amount = amount"
  by (auto simp: ApplyFraction_def)

lemma ApplyFraction_unfold:
  assumes d: "0 < Denominator f" "Denominator f < 2 ^ 62"
    and ov: "\<bar>amount * Numerator f\<bar> < 2 ^ 63"
    and nt: "Numerator f \<noteq> 0" "amount \<noteq> 0" "Numerator f \<noteq> Denominator f"
  shows "ApplyFraction f amount =
    (let num = amount * Numerator f; q = num sdiv Denominator f; r = num smod Denominator f in
     if 2 * \<bar>r\<bar> < Denominator f \<or> (2 * \<bar>r\<bar> = Denominator f \<and> even q) then q
     else if num \<ge> 0 then q + 1 else q - 1)"
proof -
  let ?num = "amount * Numerator f"
  let ?r = "?num smod Denominator f" and ?q = "?num sdiv Denominator f"
  have n: "i64 ?num = ?num" using ov by (rule i64_small)
  have r: "\<bar>?r\<bar> < Denominator f" by (rule sdiv_smod_pos(2) [OF d(1)])
  have "\<bar>x\<bar> < e \<Longrightarrow> e < 2 ^ 62 \<Longrightarrow> \<bar>x * 2\<bar> < 2 ^ 63" for x e :: int by simp
  from this [OF r d(2)] have r2: "i64 (?r * 2) = ?r * 2" "i64 (- (?r * 2)) = - (?r * 2)" by (simp_all add: i64_small)
  have par: "?q smod 2 = 0 \<longleftrightarrow> even ?q"
    by (simp add: signed_modulo_int_def sgn_0_0 even_iff_mod_2_eq_zero [symmetric]) auto
  show ?thesis
    using d(1) nt r by (auto simp: ApplyFraction_def n r2 par Let_def)
qed

lemma round_nearest_even:
  fixes num den q r :: int
  assumes d: "0 < den" and e: "num = q * den + r" and r: "\<bar>r\<bar> < den"
    and s: "0 \<le> num \<Longrightarrow> 0 \<le> r" "num < 0 \<Longrightarrow> r \<le> 0"
  shows "nearest_even num den
    (if 2 * \<bar>r\<bar> < den \<or> (2 * \<bar>r\<bar> = den \<and> even q) then q else if num \<ge> 0 then q + 1 else q - 1)"
proof -
  have x0: "q * den - num = - r" using e by simp
  have x1: "(q + 1) * den - num = den - r" "(q - 1) * den - num = - (den + r)"
    using e by (simp_all add: algebra_simps)
  show ?thesis
  proof (cases "2 * \<bar>r\<bar> < den \<or> (2 * \<bar>r\<bar> = den \<and> even q)")
    case True
    then show ?thesis by (auto simp: nearest_even_def x0)
  next
    case False
    then have big: "2 * \<bar>r\<bar> > den \<or> (2 * \<bar>r\<bar> = den \<and> odd q)" by auto
    show ?thesis
    proof (cases "num \<ge> 0")
      case True
      then have "0 \<le> r" by (rule s(1))
      then show ?thesis using big True False r by (auto simp: nearest_even_def x1)
    next
      case neg: False
      then have "r \<le> 0" using s(2) by simp
      then show ?thesis using big neg False r by (auto simp: nearest_even_def x1)
    qed
  qed
qed

lemma ApplyFraction_nearest:
  assumes d: "0 < Denominator f" "Denominator f < 2 ^ 62" and ov: "\<bar>amount * Numerator f\<bar> < 2 ^ 63"
  shows "nearest_even (amount * Numerator f) (Denominator f) (ApplyFraction f amount)"
proof (cases "Numerator f = 0 \<or> amount = 0 \<or> Numerator f = Denominator f")
  case True
  then show ?thesis using d(1) by (auto simp: nearest_even_def ApplyFraction_trivial)
next
  case False
  then have nt: "Numerator f \<noteq> 0" "amount \<noteq> 0" "Numerator f \<noteq> Denominator f" by simp_all
  note sm = sdiv_smod_pos [OF d(1), of "amount * Numerator f"]
  show ?thesis
    unfolding ApplyFraction_unfold [OF d ov nt] Let_def
    by (rule round_nearest_even [OF d(1) sm(1,2,3)]) (simp_all add: sm(4))
qed

end
