(* ===== verification/ProrationProps.thy ===== *)
theory ProrationProps
  imports Proration
begin

text \<open>
  Properties of proration: exact rounding without drift, bounds of a quoted upgrade, and the
  price of an upgrade as a decreasing function of time.
\<close>

section \<open>Fractions of a period\<close>

definition fraction_wf :: "Fraction \<Rightarrow> bool" where
  "fraction_wf f \<longleftrightarrow> 0 \<le> Numerator f \<and> Numerator f \<le> Denominator f \<and> 0 < Denominator f"

lemma sdiv_Second: "0 \<le> d \<Longrightarrow> d sdiv Second = d div Second"
  by (simp add: signed_divide_int_def Second_def sgn_if)

lemma time_sub_mono: "a \<le> b \<Longrightarrow> time_sub a c \<le> time_sub b c"
  by (simp add: time_sub_def Let_def)

lemma time_sub_antimono: "b \<le> c \<Longrightarrow> time_sub a c \<le> time_sub a b"
  by (simp add: time_sub_def Let_def)

lemma time_sub_nonneg: "b \<le> a \<Longrightarrow> 0 \<le> time_sub a b"
  by (simp add: time_sub_def Let_def)

lemma secondsBetween_nonneg: "a \<le> b \<Longrightarrow> 0 \<le> secondsBetween a b"
  by (simp add: secondsBetween_def sdiv_Second time_sub_nonneg)
    (simp add: pos_imp_zdiv_nonneg_iff Second_def time_sub_nonneg)

lemma secondsBetween_antimono:
  "a \<le> b \<Longrightarrow> b \<le> c \<Longrightarrow> secondsBetween b c \<le> secondsBetween a c"
  using time_sub_antimono [of a b c] time_sub_nonneg [of b c] time_sub_nonneg [of a c]
  by (simp add: secondsBetween_def sdiv_Second) (rule zdiv_mono1, simp_all add: Second_def)

lemma secondsBetween_pos_order: "0 < secondsBetween a b \<Longrightarrow> a < b"
  by (rule ccontr) (auto simp: secondsBetween_def time_sub_def Let_def signed_divide_int_def
      Second_def sgn_if split: if_splits)

lemma ProrationFraction_wf: "fraction_wf (ProrationFraction now s e)"
  using secondsBetween_antimono [of s now e] secondsBetween_nonneg [of now e]
  by (auto simp: ProrationFraction_def fraction_wf_def Let_def)

text \<open>Within one period all fractions share their denominator, and time only lowers them.\<close>

lemma ProrationFraction_mono:
  "t \<le> u \<Longrightarrow> Denominator (ProrationFraction u s e) = Denominator (ProrationFraction t s e)
     \<and> Numerator (ProrationFraction u s e) \<le> Numerator (ProrationFraction t s e)"
  using secondsBetween_antimono [of t u e] secondsBetween_antimono [of s u e] secondsBetween_nonneg [of t e]
  by (auto simp: ProrationFraction_def Let_def)

section \<open>Rounding is monotone and stays in bounds\<close>

lemma nearest_even_half:
  assumes "nearest_even num den x"
  shows "2 * (x * den - num) \<le> den \<and> 2 * (num - x * den) \<le> den"
proof -
  have h: "2 * \<bar>z\<bar> \<le> w \<Longrightarrow> 2 * z \<le> w \<and> 2 * (- z) \<le> w" for z w :: int by linarith
  have "2 * \<bar>x * den - num\<bar> \<le> den" using assms by (auto simp: nearest_even_def)
  from h [OF this] show ?thesis by (simp add: minus_diff_eq)
qed

lemma nearest_even_mono:
  assumes d: "0 < den" and n: "n1 \<le> n2" and x: "nearest_even n1 den x" and y: "nearest_even n2 den y"
  shows "x \<le> y"
proof (rule ccontr)
  assume "\<not> x \<le> y"
  then have lt: "y + 1 \<le> x" by simp
  have bx: "2 * (x * den - n1) \<le> den" and by': "2 * (n2 - y * den) \<le> den"
    using nearest_even_half [OF x] nearest_even_half [OF y] by simp_all
  have "2 * ((x - y) * den) \<le> 2 * den + 2 * (n1 - n2)"
    using bx by' by (simp add: left_diff_distrib)
  moreover have "den \<le> (x - y) * den"
  proof -
    have "1 * den \<le> (x - y) * den" by (rule mult_right_mono) (use lt d in auto)
    then show ?thesis by simp
  qed
  moreover have "2 * k \<le> 2 * w + 2 * (a - b) \<Longrightarrow> w \<le> k \<Longrightarrow> a \<le> b \<Longrightarrow> a = b" for k w a b :: int
    by presburger
  ultimately have "n1 = n2" using n by blast
  then have "x = y" using nearest_even_unique [OF d x] y by simp
  then show False using lt by simp
qed

lemma nearest_even_exact: "0 < den \<Longrightarrow> nearest_even (k * den) den k"
  by (simp add: nearest_even_def)

lemma nearest_even_bounds:
  assumes "0 < den" and "nearest_even (a * n) den x" and "0 \<le> a" and "0 \<le> n" "n \<le> den"
  shows "0 \<le> x \<and> x \<le> a"
proof
  have "nearest_even (0 * den) den 0" by (rule nearest_even_exact) (rule assms(1))
  then show "0 \<le> x" using nearest_even_mono [OF assms(1), of 0 "a * n" 0 x] assms by simp
  have "nearest_even (a * den) den a" by (rule nearest_even_exact) (rule assms(1))
  moreover have "a * n \<le> a * den" using assms by (intro mult_left_mono) auto
  ultimately show "x \<le> a" using nearest_even_mono [OF assms(1)] assms(2) by blast
qed

section \<open>The domain in which the products do not wrap\<close>

text \<open>
  The bounds the code states for itself: amounts up to \<open>10^12\<close> and periods up to \<open>3 * 10^6\<close>
  seconds.
\<close>

definition amount_ok :: "int64 \<Rightarrow> bool" where
  "amount_ok a \<longleftrightarrow> 0 \<le> a \<and> a \<le> 10 ^ 12"

definition fraction_ok :: "Fraction \<Rightarrow> bool" where
  "fraction_ok f \<longleftrightarrow> fraction_wf f \<and> Denominator f \<le> 3 * 10 ^ 6"

lemma domain_no_overflow:
  assumes "amount_ok a" and "fraction_ok f"
  shows "\<bar>a * Numerator f\<bar> < 2 ^ 63" and "Denominator f < 2 ^ 62" and "0 < Denominator f"
proof -
  have "\<bar>a * Numerator f\<bar> = a * Numerator f" using assms
    by (simp add: amount_ok_def fraction_ok_def fraction_wf_def)
  also have "\<dots> \<le> 10 ^ 12 * (3 * 10 ^ 6)"
    by (rule mult_mono) (use assms in \<open>auto simp: amount_ok_def fraction_ok_def fraction_wf_def\<close>)
  finally show "\<bar>a * Numerator f\<bar> < 2 ^ 63" by simp
  show "Denominator f < 2 ^ 62" "0 < Denominator f"
    using assms by (auto simp: fraction_ok_def fraction_wf_def)
qed

lemma ApplyFraction_domain:
  assumes "amount_ok a" and "fraction_ok f"
  shows "nearest_even (a * Numerator f) (Denominator f) (ApplyFraction f a)"
    and "0 \<le> ApplyFraction f a \<and> ApplyFraction f a \<le> a"
proof -
  note d = domain_no_overflow [OF assms]
  show n: "nearest_even (a * Numerator f) (Denominator f) (ApplyFraction f a)"
    by (rule ApplyFraction_nearest [OF d(3,2,1)])
  show "0 \<le> ApplyFraction f a \<and> ApplyFraction f a \<le> a"
    by (rule nearest_even_bounds [OF d(3) n])
      (use assms in \<open>simp_all add: amount_ok_def fraction_ok_def fraction_wf_def\<close>)
qed

section \<open>Properties\<close>

text \<open>
  C34: \<open>Fraction.Apply\<close> is the exact quotient rounded to the nearest whole number, half-way cases
  to the even one, for amounts of either sign, as long as the product fits 63 bits: the rounded
  value is the only one with that property.
\<close>

theorem Apply_rounds_half_even:
  assumes "0 < Denominator f" and "Denominator f < 2 ^ 62" and "\<bar>amount * Numerator f\<bar> < 2 ^ 63"
  shows "nearest_even (amount * Numerator f) (Denominator f) x \<longleftrightarrow> x = ApplyFraction f amount"
  using ApplyFraction_nearest [OF assms] nearest_even_unique [OF assms(1)] by blast

theorem Apply_rounds_half_even_witness:
  "ApplyFraction (frac 1 2) 5 = 2 \<and> ApplyFraction (frac 1 2) (- 7) = - 4"
proof -
  have "nearest_even (5 * Numerator (frac 1 2)) (Denominator (frac 1 2)) 2"
    and "nearest_even (- 7 * Numerator (frac 1 2)) (Denominator (frac 1 2)) (- 4)"
    by (simp_all add: nearest_even_def)
  then show ?thesis
    using Apply_rounds_half_even [of "frac 1 2" 5 2] Apply_rounds_half_even [of "frac 1 2" "- 7" "- 4"]
    by simp
qed

text \<open>
  Within the code's stated domain, a quoted upgrade charges between nothing and the price
  difference, grants between nothing and the difference in credits, takes effect at once, and
  a downgrade is free and takes effect at the end of the period.
\<close>

theorem preview_change_bounds:
  assumes "PreviewChange sub target now = Inr p"
    and "amount_ok (pv_PriceMinor (sv_Plan sub))" "amount_ok (pv_PriceMinor target)"
    and "amount_ok (pv_MonthlyCredits (sv_Plan sub))" "amount_ok (pv_MonthlyCredits target)"
    and "secondsBetween (sv_CurrentPeriodStart sub) (sv_CurrentPeriodEnd sub) \<le> 3 * 10 ^ 6"
  shows "(cp_Kind p = KindUpgrade \<and> cp_EffectiveAt p = now
      \<and> 0 \<le> cp_AmountMinor p
      \<and> cp_AmountMinor p \<le> pv_PriceMinor target - pv_PriceMinor (sv_Plan sub)
      \<and> 0 \<le> cp_CreditGrantMinor p
      \<and> cp_CreditGrantMinor p \<le> max 0 (pv_MonthlyCredits target - pv_MonthlyCredits (sv_Plan sub)))
    \<or> (cp_Kind p = KindDowngrade \<and> pv_PriceMinor target \<le> pv_PriceMinor (sv_Plan sub)
      \<and> cp_AmountMinor p = 0 \<and> cp_CreditGrantMinor p = 0
      \<and> cp_EffectiveAt p = sv_CurrentPeriodEnd sub)"
proof -
  let ?f = "ProrationFraction now (sv_CurrentPeriodStart sub) (sv_CurrentPeriodEnd sub)"
  let ?dp = "pv_PriceMinor target - pv_PriceMinor (sv_Plan sub)"
  let ?dc = "pv_MonthlyCredits target - pv_MonthlyCredits (sv_Plan sub)"
  have "Denominator ?f \<le> 3 * 10 ^ 6"
    using assms(6) by (auto simp: ProrationFraction_def Let_def)
  then have f: "fraction_ok ?f" by (simp add: fraction_ok_def ProrationFraction_wf)
  have dp: "i64 ?dp = ?dp" and dc: "i64 ?dc = ?dc"
    using assms(2-5) by (auto simp: amount_ok_def intro!: i64_small)
  have a: "amount_ok n" if "0 \<le> n" "n \<le> m" "amount_ok m" for n m
    using that by (simp add: amount_ok_def)
  have bp: "0 \<le> ApplyFraction ?f ?dp \<and> ApplyFraction ?f ?dp \<le> ?dp" if "0 < ?dp"
    by (rule ApplyFraction_domain(2) [OF a [of _ "pv_PriceMinor target"] f])
      (use that assms(2,3) in \<open>auto simp: amount_ok_def\<close>)
  have bc: "0 \<le> ApplyFraction ?f ?dc \<and> ApplyFraction ?f ?dc \<le> ?dc" if "0 < ?dc"
    by (rule ApplyFraction_domain(2) [OF a [of _ "pv_MonthlyCredits target"] f])
      (use that assms(4,5) in \<open>auto simp: amount_ok_def\<close>)
  show ?thesis
    using assms(1) bp bc by (auto simp: PreviewChange_def Let_def dp dc split: if_splits)
qed

definition demo_plan :: "uuid \<Rightarrow> int64 \<Rightarrow> int64 \<Rightarrow> PlanView" where
  "demo_plan i price credits = \<lparr>pv_ID = i, pv_Slug = ''p'', pv_PriceMinor = price,
     pv_Currency = ''USD'', pv_MonthlyCredits = credits\<rparr>"

definition demo_sub_view :: SubscriptionView where
  "demo_sub_view = \<lparr>sv_ID = 1, sv_Plan = demo_plan 1 1000 500, sv_CurrentPeriodStart = Hour,
     sv_CurrentPeriodEnd = 721 * Hour, sv_CancelAtPeriodEnd = False\<rparr>"

theorem preview_change_bounds_witness:
  "\<exists>p. PreviewChange demo_sub_view (demo_plan 2 4000 2500) (361 * Hour) = Inr p
     \<and> cp_AmountMinor p = 1500 \<and> cp_CreditGrantMinor p \<le> 2000"
proof -
  let ?r = "PreviewChange demo_sub_view (demo_plan 2 4000 2500) (361 * Hour)"
  have "is_ok ?r" "cp_Kind (projr ?r) = KindUpgrade" "cp_AmountMinor (projr ?r) = 1500"
    by code_simp+
  then obtain p where p: "?r = Inr p" "cp_Kind p = KindUpgrade" "cp_AmountMinor p = 1500"
    by (cases ?r) auto
  have "secondsBetween (sv_CurrentPeriodStart demo_sub_view) (sv_CurrentPeriodEnd demo_sub_view) \<le> 3 * 10 ^ 6"
    by code_simp
  from preview_change_bounds [OF p(1) _ _ _ _ this] p show ?thesis
    by (auto simp: demo_sub_view_def demo_plan_def amount_ok_def)
qed

text \<open>
  The prorated charge never rises while the period runs: a later quote for the same amount
  and period costs at most what an earlier one did.
\<close>

theorem proration_decreases:
  assumes "t \<le> u" and "amount_ok a" and "secondsBetween s e \<le> 3 * 10 ^ 6"
  shows "ApplyFraction (ProrationFraction u s e) a \<le> ApplyFraction (ProrationFraction t s e) a"
proof -
  let ?ft = "ProrationFraction t s e" and ?fu = "ProrationFraction u s e"
  have d: "Denominator (ProrationFraction v s e) \<le> 3 * 10 ^ 6" for v
    using assms(3) by (auto simp: ProrationFraction_def Let_def)
  have ok: "fraction_ok (ProrationFraction v s e)" for v
    using d [of v] by (simp add: fraction_ok_def ProrationFraction_wf)
  have m: "Denominator ?fu = Denominator ?ft" "Numerator ?fu \<le> Numerator ?ft"
    using ProrationFraction_mono [OF assms(1)] by auto
  have "a * Numerator ?fu \<le> a * Numerator ?ft"
    using m(2) assms(2) by (intro mult_left_mono) (simp_all add: amount_ok_def)
  then show ?thesis
    using nearest_even_mono [OF domain_no_overflow(3) [OF assms(2) ok]]
      ApplyFraction_domain(1) [OF assms(2) ok] m(1) by metis
qed

theorem proration_decreases_witness:
  "ApplyFraction (ProrationFraction (20 * Second) 0 (30 * Second)) 100
     \<le> ApplyFraction (ProrationFraction (10 * Second) 0 (30 * Second)) 100"
proof (rule proration_decreases)
  show "secondsBetween 0 (30 * Second) \<le> 3 * 10 ^ 6" by code_simp
qed (simp_all add: amount_ok_def Second_def)

end
