(* ===== verification/Subscription.thy ===== *)
theory Subscription
  imports Proration Credits
begin

text \<open>
  The subscription service: rows of \<open>internal/model/subscription.go\<close>, \<open>plan.go\<close> and
  \<open>subscription_change_quote.go\<close>, the provider types of \<open>internal/billing/provider.go\<close> and
  \<open>registry.go\<close>, and the operations of \<open>internal/billing/subscription/service.go\<close>,
  \<open>apply.go\<close>, \<open>cancel.go\<close> and \<open>init_upgrade.go\<close>. The database extends that of the ledger. A
  payment provider is code outside this component: a record of functions in the registry.
\<close>

section \<open>Provider types\<close>

definition StatusActive :: string where "StatusActive = ''active''"
definition StatusCanceled :: string where "StatusCanceled = ''canceled''"
definition StatusPastDue :: string where "StatusPastDue = ''past_due''"
definition StatusRevoked :: string where "StatusRevoked = ''revoked''"

definition ChannelCard :: string where "ChannelCard = ''card''"
definition ChannelBank :: string where "ChannelBank = ''bank''"

lemmas sub_consts = StatusActive_def StatusCanceled_def StatusPastDue_def StatusRevoked_def
  ChannelCard_def ChannelBank_def

definition IsReusable :: "string \<Rightarrow> bool" where
  "IsReusable c \<longleftrightarrow> c = ChannelCard \<or> c = ChannelBank"

definition CycleIsValid :: "string \<Rightarrow> bool" where
  "CycleIsValid c \<longleftrightarrow> c = ''monthly'' \<or> c = ''annual''"

record PaymentMethod =
  pm_AuthorizationCode :: string
  pm_Channel :: string
  pm_CardLast4 :: string
  pm_CardBrand :: string
  pm_CardExpMonth :: string
  pm_CardExpYear :: string
  pm_BankName :: string
  pm_AccountName :: string

record ResolveCheckoutResult =
  rc_Status :: string
  rc_ExternalCustomerID :: string
  rc_PaidAt :: "gotime option"
  rc_PaidAmountMinor :: int64
  rc_Currency :: string
  rc_Reference :: string
  rc_PaymentMethod :: PaymentMethod

record ChargeAuthorizationRequest =
  cr_Email :: string
  cr_AuthorizationCode :: string
  cr_AmountMinor :: int64
  cr_Currency :: string
  cr_Metadata :: "(string \<times> string) list"

record ChargeAuthorizationResult =
  ca_Status :: string
  ca_Reference :: string
  ca_PaidAt :: "gotime option"
  ca_PaidAmountMinor :: int64
  ca_Currency :: string
  ca_PaymentMethod :: PaymentMethod

record CheckoutIntent =
  ci_OrgID :: uuid
  ci_CustomerEmail :: string
  ci_AmountMinor :: int64
  ci_Currency :: string
  ci_Metadata :: "(string \<times> string) list"

record CheckoutSession =
  cs_AccessCode :: string
  cs_Reference :: string

text \<open>What a provider answers: a text for an error, or the result.\<close>

record Provider =
  prov_CreateCheckout :: "string \<Rightarrow> CheckoutIntent \<Rightarrow> string + CheckoutSession"
  prov_ResolveCheckout :: "string \<Rightarrow> uuid \<Rightarrow> string + ResolveCheckoutResult"
  prov_ChargeAuthorization :: "ChargeAuthorizationRequest \<Rightarrow> string + ChargeAuthorizationResult"

type_synonym registry = "string \<rightharpoonup> Provider"

definition Register :: "registry \<Rightarrow> string \<Rightarrow> Provider \<Rightarrow> registry" where
  "Register reg name p = reg(name \<mapsto> p)"

section \<open>Rows\<close>

record plan =
  pl_id :: uuid
  pl_slug :: string
  pl_price_cents :: int64
  pl_currency :: string
  pl_monthly_credits :: int64
  pl_active :: bool

record subscription =
  sub_id :: uuid
  sub_org :: uuid
  sub_plan_id :: uuid
  sub_provider :: string
  sub_external_customer_id :: string
  sub_status :: string
  sub_period_start :: gotime
  sub_period_end :: gotime
  sub_canceled_at :: "gotime option"
  sub_cancel_at_period_end :: bool
  sub_pending_plan_id :: "uuid option"
  sub_pending_change_at :: "gotime option"
  sub_renewal_attempts :: int
  sub_last_renewal_attempt_at :: "gotime option"
  sub_last_renewal_error :: string
  sub_payment_method :: PaymentMethod
  sub_last_charge_reference :: string
  sub_last_charge_amount :: int64
  sub_last_charged_at :: "gotime option"
  sub_created_at :: gotime

record quote =
  qt_id :: uuid
  qt_org :: uuid
  qt_sub :: uuid
  qt_from_plan :: uuid
  qt_to_plan :: uuid
  qt_kind :: string
  qt_amount :: int64
  qt_currency :: string
  qt_proration_credit :: int64
  qt_effective_at :: gotime
  qt_paystack_reference :: "string option"
  qt_expires_at :: gotime
  qt_consumed_at :: "gotime option"

record membership =
  mem_org :: uuid
  mem_user :: uuid
  mem_created_at :: gotime

record user =
  usr_id :: uuid
  usr_email :: string

record sub_db = db +
  sd_plans :: "plan list"
  sd_subs :: "subscription list"
  sd_quotes :: "quote list"
  sd_members :: "membership list"
  sd_users :: "user list"

datatype sub_error =
    ErrNoActiveSubscription
  | ErrUnknownPlan
  | ErrQuoteExpired
  | ErrQuoteConsumed
  | ErrQuoteWrongOrg
  | ErrQuoteUnknown
  | ErrAmountMismatch
  | ErrCurrencyMismatchOnVerify
  | ErrChargeRejected
  | ErrUnsupportedChannel
  | ErrCannotResume
  | ErrCannotCancel
  | ErrNotAnUpgrade
  | ErrChange change_error
  | ErrLedger billing_error
  | ErrUnknownProvider string
  | ErrProvider string
  | ErrNotFound
  | ErrMissingReference
  | ErrUnknownKind string
  | ErrCharge string

text \<open>\<open>Registry.Get\<close>.\<close>

definition GetProvider :: "registry \<Rightarrow> string \<Rightarrow> sub_error + Provider" where
  "GetProvider reg name = (case reg name of None \<Rightarrow> Inl (ErrUnknownProvider name) | Some p \<Rightarrow> Inr p)"

definition QuoteTTL :: duration where "QuoteTTL = 15 * Minute"

section \<open>Row access\<close>

definition find_plan :: "sub_db \<Rightarrow> uuid \<Rightarrow> plan option" where
  "find_plan d i = find (\<lambda>p. pl_id p = i) (sd_plans d)"

definition find_sub :: "sub_db \<Rightarrow> uuid \<Rightarrow> subscription option" where
  "find_sub d i = find (\<lambda>s. sub_id s = i) (sd_subs d)"

definition find_quote :: "sub_db \<Rightarrow> uuid \<Rightarrow> quote option" where
  "find_quote d i = find (\<lambda>q. qt_id q = i) (sd_quotes d)"

definition update_sub :: "uuid \<Rightarrow> (subscription \<Rightarrow> subscription) \<Rightarrow> sub_db \<Rightarrow> sub_db" where
  "update_sub i f d = d\<lparr>sd_subs := map (\<lambda>s. if sub_id s = i then f s else s) (sd_subs d)\<rparr>"

definition update_quote :: "uuid \<Rightarrow> (quote \<Rightarrow> quote) \<Rightarrow> sub_db \<Rightarrow> sub_db" where
  "update_quote i f d = d\<lparr>sd_quotes := map (\<lambda>q. if qt_id q = i then f q else q) (sd_quotes d)\<rparr>"

definition set_org_plan :: "uuid \<Rightarrow> string \<Rightarrow> 'a db_scheme \<Rightarrow> 'a db_scheme" where
  "set_org_plan i slug d =
     d\<lparr>db_orgs := map (\<lambda>o1. if org_id o1 = i then o1\<lparr>org_plan_slug := slug\<rparr> else o1) (db_orgs d)\<rparr>"

section \<open>Loading\<close>

definition activeSubscription :: "sub_db \<Rightarrow> uuid \<Rightarrow> sub_error + subscription" where
  "activeSubscription d org =
     (case sort_key (\<lambda>s. (- sub_created_at s, sub_id s))
             (filter (\<lambda>s. sub_org s = org \<and> sub_status s = StatusActive) (sd_subs d)) of
        [] \<Rightarrow> Inl ErrNoActiveSubscription
      | s # _ \<Rightarrow> Inr s)"

definition loadQuote :: "sub_db \<Rightarrow> uuid \<Rightarrow> sub_error + quote" where
  "loadQuote d i = (case find_quote d i of None \<Rightarrow> Inl ErrQuoteUnknown | Some q \<Rightarrow> Inr q)"

definition providerForSubscription :: "registry \<Rightarrow> sub_db \<Rightarrow> uuid \<Rightarrow> sub_error + Provider" where
  "providerForSubscription reg d i =
     (case find_sub d i of None \<Rightarrow> Inl ErrNotFound | Some s \<Rightarrow> GetProvider reg (sub_provider s))"

definition planViewOf :: "plan \<Rightarrow> PlanView" where
  "planViewOf p = \<lparr>pv_ID = pl_id p, pv_Slug = pl_slug p, pv_PriceMinor = pl_price_cents p,
     pv_Currency = pl_currency p, pv_MonthlyCredits = pl_monthly_credits p\<rparr>"

text \<open>The preloaded plan of a row, the zero plan when the row names none.\<close>

definition plan_of :: "sub_db \<Rightarrow> uuid \<Rightarrow> PlanView" where
  "plan_of d i = (case find_plan d i of None \<Rightarrow> zero_plan | Some p \<Rightarrow> planViewOf p)"

definition viewOf :: "sub_db \<Rightarrow> subscription \<Rightarrow> SubscriptionView" where
  "viewOf d s = \<lparr>sv_ID = sub_id s, sv_Plan = plan_of d (sub_plan_id s),
     sv_CurrentPeriodStart = sub_period_start s, sv_CurrentPeriodEnd = sub_period_end s,
     sv_CancelAtPeriodEnd = sub_cancel_at_period_end s\<rparr>"

definition applyPaymentMethod :: "ResolveCheckoutResult \<Rightarrow> subscription \<Rightarrow> subscription" where
  "applyPaymentMethod res s =
     s\<lparr>sub_payment_method := rc_PaymentMethod res,
       sub_last_charge_reference := rc_Reference res,
       sub_last_charge_amount := rc_PaidAmountMinor res,
       sub_last_charged_at := rc_PaidAt res,
       sub_external_customer_id :=
         (if rc_ExternalCustomerID res \<noteq> [] then rc_ExternalCustomerID res
          else sub_external_customer_id s)\<rparr>"

definition lookupOrgOwnerEmail :: "sub_db \<Rightarrow> uuid \<Rightarrow> sub_error + string" where
  "lookupOrgOwnerEmail d org =
     (case sort_key mem_created_at (filter (\<lambda>m. mem_org m = org) (sd_members d)) of
        [] \<Rightarrow> Inl ErrNotFound
      | m # _ \<Rightarrow>
          (case find (\<lambda>u. usr_id u = mem_user m) (sd_users d) of
             None \<Rightarrow> Inl ErrNotFound | Some u \<Rightarrow> Inr (usr_email u)))"

section \<open>Quotes\<close>

fun kind_string :: "ChangeKind \<Rightarrow> string" where
  "kind_string KindUpgrade = ''upgrade''"
| "kind_string KindDowngrade = ''downgrade''"

definition PreviewChangeFor ::
  "duration \<Rightarrow> sub_db \<Rightarrow> uuid \<Rightarrow> string \<Rightarrow> sub_error + (quote \<times> ChangePreview \<times> sub_db)" where
  "PreviewChangeFor quoteTTL d org targetSlug =
     (case activeSubscription d org of
        Inl e \<Rightarrow> Inl e
      | Inr s \<Rightarrow>
          (case find (\<lambda>p. pl_slug p = targetSlug \<and> pl_active p) (sd_plans d) of
             None \<Rightarrow> Inl ErrUnknownPlan
           | Some target \<Rightarrow>
               (case PreviewChange (viewOf d s) (planViewOf target) (db_now d) of
                  Inl e \<Rightarrow> Inl (ErrChange e)
                | Inr preview \<Rightarrow>
                    let q = \<lparr>qt_id = db_gen d (db_drawn d), qt_org = org, qt_sub = sub_id s,
                             qt_from_plan = sub_plan_id s, qt_to_plan = pl_id target,
                             qt_kind = kind_string (cp_Kind preview),
                             qt_amount = cp_AmountMinor preview,
                             qt_currency = cp_Currency preview,
                             qt_proration_credit = cp_CreditGrantMinor preview,
                             qt_effective_at = cp_EffectiveAt preview,
                             qt_paystack_reference = None,
                             qt_expires_at = db_now d + quoteTTL, qt_consumed_at = None\<rparr>
                    in if qt_id q \<in> qt_id ` set (sd_quotes d)
                       then Inl (ErrLedger (ErrDB unique_violation_text))
                       else Inr (q, preview, (draw_id d)\<lparr>sd_quotes := sd_quotes d @ [q]\<rparr>))))"

section \<open>Applying a change\<close>

text \<open>
  The transaction of an upgrade, on the quote read before it: it locks and re-reads the
  subscription and the quote. The unique index on the payment reference refuses a reference
  another quote already carries.
\<close>

definition set_quote_paid :: "quote \<Rightarrow> string \<Rightarrow> sub_db \<Rightarrow> sub_error + sub_db" where
  "set_quote_paid fresh reference d =
     (if list_ex (\<lambda>q. qt_id q \<noteq> qt_id fresh \<and> qt_paystack_reference q = Some reference) (sd_quotes d)
      then Inl (ErrLedger (ErrDB unique_violation_text))
      else Inr (update_quote (qt_id fresh)
             (\<lambda>q. q\<lparr>qt_consumed_at := Some (db_now d), qt_paystack_reference := Some reference\<rparr>) d))"

definition grant_quoted ::
  "(uuid \<Rightarrow> string) \<Rightarrow> quote \<Rightarrow> subscription \<Rightarrow> sub_db \<Rightarrow> sub_error + sub_db" where
  "grant_quoted ustr quote s d =
     (if qt_proration_credit quote > 0 then
        let expiresAt = (if is_zero (sub_period_end s) then db_now d + PlanGrantGracePeriod
                         else sub_period_end s)
        in case GrantWithTx d (sub_org s) (qt_proration_credit quote) ReasonAdjustment
                  ''subscription_change_quote'' (ustr (qt_id quote)) (Some expiresAt) of
             Inl e \<Rightarrow> Inl (ErrLedger e)
           | Inr d' \<Rightarrow> Inr d'
      else Inr d)"

definition applyUpgrade_tx ::
  "(uuid \<Rightarrow> string) \<Rightarrow> quote \<Rightarrow> string \<Rightarrow> ResolveCheckoutResult \<Rightarrow> sub_db \<Rightarrow> sub_error + sub_db" where
  "applyUpgrade_tx ustr quote reference res d =
     (case find_sub d (qt_sub quote) of
        None \<Rightarrow> Inl ErrNotFound
      | Some s0 \<Rightarrow>
          (case find_quote d (qt_id quote) of
             None \<Rightarrow> Inl ErrNotFound
           | Some fresh \<Rightarrow>
               if qt_consumed_at fresh \<noteq> None then Inr d
               else
                 (case find_plan d (qt_to_plan quote) of
                    None \<Rightarrow> Inl ErrNotFound
                  | Some target \<Rightarrow>
                      let s = (applyPaymentMethod res s0)
                                \<lparr>sub_plan_id := pl_id target, sub_status := StatusActive,
                                 sub_pending_plan_id := None, sub_pending_change_at := None\<rparr>;
                          d1 = update_sub (sub_id s) (\<lambda>_. s) d
                      in (case grant_quoted ustr quote s d1 of
                            Inl e \<Rightarrow> Inl e
                          | Inr d2 \<Rightarrow>
                              set_quote_paid fresh reference
                                (set_org_plan (sub_org s) (pl_slug target) d2)))))"

definition applyUpgrade ::
  "(uuid \<Rightarrow> string) \<Rightarrow> registry \<Rightarrow> quote \<Rightarrow> string \<Rightarrow> sub_db \<Rightarrow> sub_error + sub_db" where
  "applyUpgrade ustr reg quote reference d =
     (if reference = [] then Inl ErrMissingReference
      else case providerForSubscription reg d (qt_sub quote) of
        Inl e \<Rightarrow> Inl e
      | Inr provider \<Rightarrow>
          (case prov_ResolveCheckout provider reference (qt_org quote) of
             Inl msg \<Rightarrow> Inl (ErrProvider msg)
           | Inr res \<Rightarrow>
               if rc_Status res \<noteq> StatusActive then Inl ErrChargeRejected
               else if rc_PaidAmountMinor res \<noteq> qt_amount quote then Inl ErrAmountMismatch
               else if rc_Currency res \<noteq> qt_currency quote then Inl ErrCurrencyMismatchOnVerify
               else if \<not> IsReusable (pm_Channel (rc_PaymentMethod res)) then Inl ErrUnsupportedChannel
               else applyUpgrade_tx ustr quote reference res d))"

definition applyDowngrade :: "quote \<Rightarrow> sub_db \<Rightarrow> sub_error + sub_db" where
  "applyDowngrade quote d =
     (case find_quote d (qt_id quote) of
        None \<Rightarrow> Inl ErrNotFound
      | Some fresh \<Rightarrow>
          if qt_consumed_at fresh \<noteq> None then Inr d
          else
            let d1 = update_sub (qt_sub quote)
                       (\<lambda>s. s\<lparr>sub_pending_plan_id := Some (qt_to_plan quote),
                              sub_pending_change_at := Some (qt_effective_at quote)\<rparr>) d
            in Inr (update_quote (qt_id fresh) (\<lambda>q. q\<lparr>qt_consumed_at := Some (db_now d)\<rparr>) d1))"

definition ApplyChange ::
  "(uuid \<Rightarrow> string) \<Rightarrow> registry \<Rightarrow> sub_db \<Rightarrow> uuid \<Rightarrow> uuid \<Rightarrow> string \<Rightarrow> sub_error + sub_db" where
  "ApplyChange ustr reg d org quoteID reference =
     (case loadQuote d quoteID of
        Inl e \<Rightarrow> Inl e
      | Inr quote \<Rightarrow>
          if qt_org quote \<noteq> org then Inl ErrQuoteWrongOrg
          else if qt_consumed_at quote \<noteq> None then Inr d
          else if db_now d > qt_expires_at quote then Inl ErrQuoteExpired
          else if qt_kind quote = kind_string KindUpgrade then applyUpgrade ustr reg quote reference d
          else if qt_kind quote = kind_string KindDowngrade then applyDowngrade quote d
          else Inl (ErrUnknownKind (qt_kind quote)))"

section \<open>Cancelling, resuming, starting an upgrade\<close>

definition Cancel :: "bool \<Rightarrow> sub_db \<Rightarrow> uuid \<Rightarrow> sub_error + (subscription \<times> sub_db)" where
  "Cancel atPeriodEnd d org =
     (let now = db_now d in
      case activeSubscription d org of
        Inl e \<Rightarrow> Inl e
      | Inr s \<Rightarrow>
          if sub_status s \<noteq> StatusActive then Inl ErrCannotCancel
          else if atPeriodEnd then
            Inr (s\<lparr>sub_cancel_at_period_end := True\<rparr>,
                 update_sub (sub_id s) (\<lambda>r. r\<lparr>sub_cancel_at_period_end := True\<rparr>) d)
          else
            let upd = (\<lambda>r. r\<lparr>sub_status := StatusCanceled, sub_canceled_at := Some now,
                             sub_cancel_at_period_end := False\<rparr>)
            in Inr (upd s, set_org_plan org FreePlanSlug (update_sub (sub_id s) upd d)))"

definition Resume :: "sub_db \<Rightarrow> uuid \<Rightarrow> sub_error + (subscription \<times> sub_db)" where
  "Resume d org =
     (case activeSubscription d org of
        Inl e \<Rightarrow> Inl e
      | Inr s \<Rightarrow>
          if sub_status s \<noteq> StatusActive then Inl ErrCannotResume
          else if \<not> sub_cancel_at_period_end s then Inr (s, d)
          else Inr (s\<lparr>sub_cancel_at_period_end := False\<rparr>,
                    update_sub (sub_id s) (\<lambda>r. r\<lparr>sub_cancel_at_period_end := False\<rparr>) d))"

record UpgradeInit =
  ui_AccessCode :: string
  ui_Reference :: string
  ui_AmountMinor :: int64
  ui_Currency :: string

definition InitUpgrade ::
  "(uuid \<Rightarrow> string) \<Rightarrow> registry \<Rightarrow> sub_db \<Rightarrow> uuid \<Rightarrow> uuid \<Rightarrow> sub_error + UpgradeInit" where
  "InitUpgrade ustr reg d org quoteID =
     (case loadQuote d quoteID of
        Inl e \<Rightarrow> Inl e
      | Inr quote \<Rightarrow>
          if qt_org quote \<noteq> org then Inl ErrQuoteWrongOrg
          else if qt_consumed_at quote \<noteq> None then Inl ErrQuoteConsumed
          else if db_now d > qt_expires_at quote then Inl ErrQuoteExpired
          else if qt_kind quote \<noteq> kind_string KindUpgrade then Inl ErrNotAnUpgrade
          else
            (case find_sub d (qt_sub quote) of
               None \<Rightarrow> Inl ErrNotFound
             | Some s \<Rightarrow>
                 (case GetProvider reg (sub_provider s) of
                    Inl e \<Rightarrow> Inl e
                  | Inr provider \<Rightarrow>
                      (case lookupOrgOwnerEmail d org of
                         Inl e \<Rightarrow> Inl e
                       | Inr email \<Rightarrow>
                           (case prov_CreateCheckout provider (sub_external_customer_id s)
                                   \<lparr>ci_OrgID = org, ci_CustomerEmail = email,
                                    ci_AmountMinor = qt_amount quote, ci_Currency = qt_currency quote,
                                    ci_Metadata = [(''org_id'', ustr org),
                                                   (''quote_id'', ustr (qt_id quote))]\<rparr> of
                              Inl msg \<Rightarrow> Inl (ErrProvider msg)
                            | Inr session \<Rightarrow>
                                Inr \<lparr>ui_AccessCode = cs_AccessCode session,
                                     ui_Reference = cs_Reference session,
                                     ui_AmountMinor = qt_amount quote,
                                     ui_Currency = qt_currency quote\<rparr>)))))"

end
