(* ===== verification/Renewal.thy ===== *)
theory Renewal
  imports Subscription
begin

text \<open>
  Renewals: \<open>internal/billing/subscription/renew.go\<close> and \<open>sweep.go\<close>, and the task handlers of
  \<open>internal/tasks/billing_renewal.go\<close> that run them. \<open>Renew\<close> returns the action, an optional
  error and the database, because a declined charge returns its error after it has written the
  failure to the row.
\<close>

section \<open>Steps on one row\<close>

definition RenewalPeriod :: duration where "RenewalPeriod = 30 * 24 * Hour"

definition ellipsis :: string where
  "ellipsis = [CHR 0xE2, CHR 0x80, CHR 0xA6]"

definition truncateErr :: "string \<Rightarrow> string" where
  "truncateErr s = (if length s \<le> 500 then s else take 500 s @ ellipsis)"

definition finalizeCancel :: "subscription \<Rightarrow> gotime \<Rightarrow> sub_db \<Rightarrow> sub_db" where
  "finalizeCancel s now d =
     set_org_plan (sub_org s) FreePlanSlug
       (update_sub (sub_id s)
          (\<lambda>r. r\<lparr>sub_status := StatusCanceled, sub_canceled_at := Some now,
                 sub_cancel_at_period_end := False, sub_renewal_attempts := 0,
                 sub_last_renewal_error := []\<rparr>) d)"

definition transitionToFree :: "subscription \<Rightarrow> PlanView \<Rightarrow> gotime \<Rightarrow> sub_db \<Rightarrow> sub_db" where
  "transitionToFree s target now d =
     set_org_plan (sub_org s) (pv_Slug target)
       (update_sub (sub_id s)
          (\<lambda>r. r\<lparr>sub_status := StatusCanceled, sub_plan_id := pv_ID target,
                 sub_pending_plan_id := None, sub_pending_change_at := None,
                 sub_canceled_at := Some now, sub_cancel_at_period_end := False,
                 sub_renewal_attempts := 0, sub_last_renewal_error := []\<rparr>) d)"

definition markPastDue :: "subscription \<Rightarrow> string \<Rightarrow> gotime \<Rightarrow> sub_db \<Rightarrow> sub_db" where
  "markPastDue s reason now d =
     update_sub (sub_id s)
       (\<lambda>r. r\<lparr>sub_status := StatusPastDue, sub_last_renewal_attempt_at := Some now,
              sub_last_renewal_error := truncateErr reason\<rparr>) d"

definition recordChargeFailure ::
  "subscription \<Rightarrow> string \<Rightarrow> gotime \<Rightarrow> sub_db \<Rightarrow> RenewalAction \<times> sub_error option \<times> sub_db" where
  "recordChargeFailure s msg now d =
     (let attempts = sub_renewal_attempts s + 1;
          d1 = update_sub (sub_id s)
                 (\<lambda>r. r\<lparr>sub_renewal_attempts := attempts, sub_last_renewal_attempt_at := Some now,
                        sub_last_renewal_error := truncateErr msg,
                        sub_status := (if attempts \<ge> MaxRenewalAttempts then StatusPastDue
                                       else sub_status r)\<rparr>) d
      in (if attempts \<ge> MaxRenewalAttempts then ActionMarkPastDue else ActionCharge,
          Some (ErrCharge msg), d1))"

text \<open>
  The transaction of a successful charge. \<open>s\<close> is the row read before the charge, \<open>fresh\<close> the
  row under the lock.
\<close>

definition renewed_row ::
  "PlanView \<Rightarrow> ChargeAuthorizationResult \<Rightarrow> gotime \<Rightarrow> gotime \<Rightarrow> gotime \<Rightarrow> subscription \<Rightarrow> subscription"
where
  "renewed_row target res now periodStart periodEnd fresh =
     fresh\<lparr>sub_plan_id := pv_ID target, sub_status := StatusActive,
       sub_period_start := periodStart, sub_period_end := periodEnd,
       sub_pending_plan_id := None, sub_pending_change_at := None,
       sub_renewal_attempts := 0, sub_last_renewal_error := [],
       sub_last_renewal_attempt_at := Some now,
       sub_last_charge_reference := ca_Reference res,
       sub_last_charge_amount := ca_PaidAmountMinor res,
       sub_last_charged_at := ca_PaidAt res,
       sub_payment_method :=
         (if pm_AuthorizationCode (ca_PaymentMethod res) \<noteq> [] then ca_PaymentMethod res
          else sub_payment_method fresh)\<rparr>"

definition applySuccessfulRenewal ::
  "subscription \<Rightarrow> PlanView \<Rightarrow> ChargeAuthorizationResult \<Rightarrow> gotime \<Rightarrow> sub_db \<Rightarrow> sub_error + sub_db"
where
  "applySuccessfulRenewal s target res now d =
     (let periodStart = (if is_zero (sub_period_end s) \<or> sub_period_end s > now then now
                         else sub_period_end s);
          periodEnd = periodStart + RenewalPeriod
      in case find_sub d (sub_id s) of
           None \<Rightarrow> Inl ErrNotFound
         | Some fresh \<Rightarrow>
             if \<not> is_zero (sub_period_end fresh) \<and> sub_period_end fresh > now then Inr d
             else
               let d1 = update_sub (sub_id s)
                          (\<lambda>_. renewed_row target res now periodStart periodEnd fresh) d;
                   d2 = set_org_plan (sub_org s) (pv_Slug target) d1
               in if pv_MonthlyCredits target > 0 then
                    (case GrantWithTx d2 (sub_org s) (pv_MonthlyCredits target) ReasonPlanGrant
                            ''subscription_renewal'' (ca_Reference res)
                            (Some (periodEnd + PlanGrantGracePeriod)) of
                       Inl e \<Rightarrow> if e = ErrAlreadyRecorded then Inr d2 else Inl (ErrLedger e)
                     | Inr d3 \<Rightarrow> Inr d3)
                  else Inr d2)"

section \<open>One renewal attempt\<close>

definition charge_request ::
  "(uuid \<Rightarrow> string) \<Rightarrow> subscription \<Rightarrow> PlanView \<Rightarrow> string \<Rightarrow> ChargeAuthorizationRequest" where
  "charge_request ustr s target email =
     \<lparr>cr_Email = email, cr_AuthorizationCode = pm_AuthorizationCode (sub_payment_method s),
      cr_AmountMinor = pv_PriceMinor target, cr_Currency = pv_Currency target,
      cr_Metadata = [(''org_id'', ustr (sub_org s)), (''subscription_id'', ustr (sub_id s))]\<rparr>"

definition chargeAndAdvance ::
  "(uuid \<Rightarrow> string) \<Rightarrow> registry \<Rightarrow> subscription \<Rightarrow> PlanView \<Rightarrow> gotime \<Rightarrow> sub_db
     \<Rightarrow> RenewalAction option \<times> sub_error option \<times> sub_db" where
  "chargeAndAdvance ustr reg s target now d =
     (case GetProvider reg (sub_provider s) of
        Inl e \<Rightarrow> (None, Some e, d)
      | Inr provider \<Rightarrow>
          (case lookupOrgOwnerEmail d (sub_org s) of
             Inl e \<Rightarrow> (None, Some e, d)
           | Inr email \<Rightarrow>
               (case prov_ChargeAuthorization provider (charge_request ustr s target email) of
                  Inl msg \<Rightarrow>
                    (let (a, e, d1) = recordChargeFailure s msg now d in (Some a, e, d1))
                | Inr res \<Rightarrow>
                    (case applySuccessfulRenewal s target res now d of
                       Inl e \<Rightarrow> (Some ActionCharge, Some e, d)
                     | Inr d1 \<Rightarrow> (Some ActionCharge, None, d1)))))"

definition renewal_view :: "subscription \<Rightarrow> RenewalSubscriptionView" where
  "renewal_view s =
     \<lparr>rv_Status = sub_status s, rv_CurrentPeriodEnd = sub_period_end s,
      rv_CancelAtPeriodEnd = sub_cancel_at_period_end s,
      rv_HasReusableAuthorization =
        (pm_AuthorizationCode (sub_payment_method s) \<noteq> []
         \<and> IsReusable (pm_Channel (sub_payment_method s))),
      rv_RenewalAttempts = sub_renewal_attempts s,
      rv_LastRenewalAttemptAt = sub_last_renewal_attempt_at s\<rparr>"

definition pending_plan :: "sub_db \<Rightarrow> subscription \<Rightarrow> PlanView option" where
  "pending_plan d s =
     (case sub_pending_plan_id s of
        None \<Rightarrow> None
      | Some i \<Rightarrow>
          (case find_plan d i of
             None \<Rightarrow> None
           | Some p \<Rightarrow> if pl_id p \<noteq> uuid_nil then Some (planViewOf p) else None))"

definition renewal_decision :: "sub_db \<Rightarrow> subscription \<Rightarrow> gotime \<Rightarrow> RenewalDecision" where
  "renewal_decision d s now =
     DecideRenewal (renewal_view s) (plan_of d (sub_plan_id s)) (pending_plan d s) now"

definition Renew ::
  "(uuid \<Rightarrow> string) \<Rightarrow> registry \<Rightarrow> sub_db \<Rightarrow> uuid \<Rightarrow> RenewalAction option \<times> sub_error option \<times> sub_db"
where
  "Renew ustr reg d subID =
     (let now = db_now d in
      case find_sub d subID of
        None \<Rightarrow> (Some ActionNoOp, None, d)
      | Some s \<Rightarrow>
          let decision = renewal_decision d s now in
          (case rd_Action decision of
             ActionNoOp \<Rightarrow> (Some ActionNoOp, None, d)
           | ActionCancelAtPeriodEnd \<Rightarrow> (Some ActionCancelAtPeriodEnd, None, finalizeCancel s now d)
           | ActionTransitionToFree \<Rightarrow>
               (Some ActionTransitionToFree, None, transitionToFree s (rd_TargetPlan decision) now d)
           | ActionMarkPastDue \<Rightarrow>
               (Some ActionMarkPastDue, None, markPastDue s ''no reusable authorization'' now d)
           | ActionCharge \<Rightarrow> chargeAndAdvance ustr reg s (rd_TargetPlan decision) now d))"

section \<open>The renewal sweep\<close>

definition due_row :: "gotime \<Rightarrow> subscription \<Rightarrow> bool" where
  "due_row now s \<longleftrightarrow> sub_status s = StatusActive
     \<and> sub_period_end s \<le> now
     \<and> sub_renewal_attempts s < MaxRenewalAttempts
     \<and> (case sub_last_renewal_attempt_at s of None \<Rightarrow> True | Some t \<Rightarrow> t < now - RenewalRetryInterval)"

definition DueSubscriptionIDs :: "sub_db \<Rightarrow> gotime \<Rightarrow> nat \<Rightarrow> uuid list" where
  "DueSubscriptionIDs d now limit =
     map sub_id (take limit (sort_key sub_period_end (filter (due_row now) (sd_subs d))))"

definition SweepBatchSize :: nat where "SweepBatchSize = 200"

text \<open>
  The sweep task hands every due subscription to the task queue and reports the first error the
  queue answered; the queue is code outside the repository, a function on its own state. The
  handler of a renewal logs an error of \<open>Renew\<close> and drops it.
\<close>

record renew_task =
  rt_SubscriptionID :: uuid
  rt_TaskID :: string
  rt_MaxRetry :: nat
  rt_Timeout :: duration
  rt_Unique :: duration

definition renew_task_for :: "(uuid \<Rightarrow> string) \<Rightarrow> uuid \<Rightarrow> renew_task" where
  "renew_task_for ustr i =
     \<lparr>rt_SubscriptionID = i, rt_TaskID = ''billing-renew-'' @ ustr i, rt_MaxRetry = 0,
      rt_Timeout = 2 * Minute, rt_Unique = RenewalRetryInterval sdiv 2\<rparr>"

fun enqueue_renewals ::
  "(renew_task \<Rightarrow> 'q \<Rightarrow> string option \<times> 'q) \<Rightarrow> (uuid \<Rightarrow> string) \<Rightarrow> uuid list \<Rightarrow> string option \<Rightarrow> 'q
     \<Rightarrow> string option \<times> 'q" where
  "enqueue_renewals enq ustr [] firstErr q = (firstErr, q)"
| "enqueue_renewals enq ustr (i # is) firstErr q =
     (let (err, q1) = enq (renew_task_for ustr i) q
      in enqueue_renewals enq ustr is (if err \<noteq> None \<and> firstErr = None then err else firstErr) q1)"

definition BillingRenewSweep ::
  "(renew_task \<Rightarrow> 'q \<Rightarrow> string option \<times> 'q) \<Rightarrow> (uuid \<Rightarrow> string) \<Rightarrow> sub_db \<Rightarrow> 'q \<Rightarrow> string option \<times> 'q"
where
  "BillingRenewSweep enq ustr d q =
     (let ids = DueSubscriptionIDs d (db_now d) SweepBatchSize
      in if ids = [] then (None, q) else enqueue_renewals enq ustr ids None q)"

definition BillingRenewSubscription :: "(uuid \<Rightarrow> string) \<Rightarrow> registry \<Rightarrow> uuid \<Rightarrow> sub_db \<Rightarrow> sub_db" where
  "BillingRenewSubscription ustr reg subID d = snd (snd (Renew ustr reg d subID))"

end
