(* ===== verification/SubFacts.thy ===== *)
theory SubFacts
  imports Renewal
begin

text \<open>
  Facts on the tables of the subscription service: what each row update changes and what it
  leaves alone, and inversion of the transactions.
\<close>

section \<open>Frames\<close>

lemma update_sub_simps [simp]:
  "sd_plans (update_sub i f d) = sd_plans d" "sd_quotes (update_sub i f d) = sd_quotes d"
  "sd_members (update_sub i f d) = sd_members d" "sd_users (update_sub i f d) = sd_users d"
  "db_ledger (update_sub i f d) = db_ledger d" "db_orgs (update_sub i f d) = db_orgs d"
  "db_now (update_sub i f d) = db_now d" "db_gen (update_sub i f d) = db_gen d"
  "db_drawn (update_sub i f d) = db_drawn d"
  by (simp_all add: update_sub_def)

lemma update_quote_simps [simp]:
  "sd_plans (update_quote i g d) = sd_plans d" "sd_subs (update_quote i g d) = sd_subs d"
  "sd_members (update_quote i g d) = sd_members d" "sd_users (update_quote i g d) = sd_users d"
  "db_ledger (update_quote i g d) = db_ledger d" "db_orgs (update_quote i g d) = db_orgs d"
  "db_now (update_quote i g d) = db_now d" "db_gen (update_quote i g d) = db_gen d"
  "db_drawn (update_quote i g d) = db_drawn d"
  by (simp_all add: update_quote_def)

lemma set_org_plan_simps [simp]:
  "db_ledger (set_org_plan i slug d) = db_ledger d" "db_now (set_org_plan i slug d) = db_now d"
  "db_gen (set_org_plan i slug d) = db_gen d" "db_drawn (set_org_plan i slug d) = db_drawn d"
  by (simp_all add: set_org_plan_def)

lemma set_org_plan_sub_simps [simp]:
  fixes d :: sub_db
  shows "sd_plans (set_org_plan i slug d) = sd_plans d" "sd_subs (set_org_plan i slug d) = sd_subs d"
  "sd_quotes (set_org_plan i slug d) = sd_quotes d" "sd_members (set_org_plan i slug d) = sd_members d"
  "sd_users (set_org_plan i slug d) = sd_users d"
  by (simp_all add: set_org_plan_def)

lemma ledger_sum_cong: "db_ledger d = db_ledger e \<Longrightarrow> ledger_sum d = ledger_sum e"
  by (simp add: ledger_sum_def fun_eq_iff)

lemma find_cong_tables:
  "sd_plans d = sd_plans e \<Longrightarrow> find_plan d i = find_plan e i"
  "sd_subs d = sd_subs e \<Longrightarrow> find_sub d i = find_sub e i"
  "sd_quotes d = sd_quotes e \<Longrightarrow> find_quote d i = find_quote e i"
  by (simp_all add: find_plan_def find_sub_def find_quote_def)

lemma find_other_tables [simp]:
  "find_plan (update_sub i f d) j = find_plan d j" "find_quote (update_sub i f d) j = find_quote d j"
  "find_plan (update_quote i g d) j = find_plan d j" "find_sub (update_quote i g d) j = find_sub d j"
  "find_plan (set_org_plan i slug d) j = find_plan d j" "find_sub (set_org_plan i slug d) j = find_sub d j"
  "find_quote (set_org_plan i slug d) j = find_quote d j"
  by (rule find_cong_tables; simp)+

lemma find_sub_update:
  "(\<And>s. sub_id (f s) = sub_id s) \<Longrightarrow>
     find_sub (update_sub i f d) j = (if j = i then map_option f (find_sub d j) else find_sub d j)"
  unfolding find_sub_def update_sub_def by (simp add: find_map_update)

lemma find_sub_replace:
  assumes "sub_id s = i"
  shows "find_sub (update_sub i (\<lambda>_. s) d) j =
     (if j = i then map_option (\<lambda>_. s) (find_sub d j) else find_sub d j)"
proof -
  have "find (\<lambda>x. sub_id x = j) (map (\<lambda>x. if sub_id x = i then s else x) xs) =
      (if j = i then map_option (\<lambda>_. s) (find (\<lambda>x. sub_id x = j) xs) else find (\<lambda>x. sub_id x = j) xs)" for xs
    by (induction xs) (use assms in auto)
  then show ?thesis by (simp add: find_sub_def update_sub_def)
qed

lemma find_quote_update:
  "(\<And>q. qt_id (g q) = qt_id q) \<Longrightarrow>
     find_quote (update_quote i g d) j = (if j = i then map_option g (find_quote d j) else find_quote d j)"
  unfolding find_quote_def update_quote_def by (simp add: find_map_update)

lemma find_sub_id: "find_sub d i = Some s \<Longrightarrow> sub_id s = i"
  by (auto simp: find_sub_def dest: find_SomeD)

lemma find_quote_id: "find_quote d i = Some q \<Longrightarrow> qt_id q = i"
  by (auto simp: find_quote_def dest: find_SomeD)

lemma find_plan_id: "find_plan d i = Some p \<Longrightarrow> pl_id p = i"
  by (auto simp: find_plan_def dest: find_SomeD)

text \<open>A grant touches the ledger only.\<close>

lemma GrantWithTx_frame:
  fixes d :: sub_db
  assumes "GrantWithTx d org n reason rt rid ex = Inr d'"
  shows "sd_plans d' = sd_plans d" "sd_subs d' = sd_subs d" "sd_quotes d' = sd_quotes d"
    "sd_members d' = sd_members d" "sd_users d' = sd_users d" "db_orgs d' = db_orgs d"
    "db_now d' = db_now d"
proof -
  from assms have "create_entry d org n reason rt rid ex = Inr d'" by (simp add: GrantWithTx_cases)
  then show "sd_plans d' = sd_plans d" "sd_subs d' = sd_subs d" "sd_quotes d' = sd_quotes d"
    "sd_members d' = sd_members d" "sd_users d' = sd_users d" "db_orgs d' = db_orgs d"
    "db_now d' = db_now d"
    by (auto elim!: create_entry_cases)
qed

section \<open>The upgrade transaction\<close>

definition upgraded_row :: "ResolveCheckoutResult \<Rightarrow> plan \<Rightarrow> subscription \<Rightarrow> subscription" where
  "upgraded_row res target s0 =
     (applyPaymentMethod res s0)\<lparr>sub_plan_id := pl_id target, sub_status := StatusActive,
        sub_pending_plan_id := None, sub_pending_change_at := None\<rparr>"

lemma upgraded_row_simps [simp]:
  "sub_id (upgraded_row res target s) = sub_id s" "sub_org (upgraded_row res target s) = sub_org s"
  "sub_status (upgraded_row res target s) = StatusActive"
  "sub_plan_id (upgraded_row res target s) = pl_id target"
  "sub_pending_plan_id (upgraded_row res target s) = None"
  "sub_period_end (upgraded_row res target s) = sub_period_end s"
  by (simp_all add: upgraded_row_def applyPaymentMethod_def)

lemma grant_quoted_frame:
  assumes "grant_quoted ustr q s d = Inr d'"
  shows "sd_plans d' = sd_plans d" "sd_subs d' = sd_subs d" "sd_quotes d' = sd_quotes d"
    "sd_members d' = sd_members d" "sd_users d' = sd_users d" "db_orgs d' = db_orgs d"
    "db_now d' = db_now d"
    "ledger_sum d' = (ledger_sum d)(sub_org s := ledger_sum d (sub_org s) + max 0 (qt_proration_credit q))"
  using assms
  by (auto simp: grant_quoted_def Let_def ledger.grant_balance dest: GrantWithTx_frame
      split: if_splits sum.splits)

text \<open>Inversion: a committed upgrade either found the quote consumed or did all its steps.\<close>

lemma applyUpgrade_tx_cases:
  assumes "applyUpgrade_tx ustr quote reference res d = Inr d'"
  obtains (consumed) fresh where "find_quote d (qt_id quote) = Some fresh"
      "qt_consumed_at fresh \<noteq> None" "d' = d"
  | (applied) s0 fresh target d2 where
      "find_sub d (qt_sub quote) = Some s0" "find_quote d (qt_id quote) = Some fresh"
      "qt_consumed_at fresh = None" "find_plan d (qt_to_plan quote) = Some target"
      "grant_quoted ustr quote (upgraded_row res target s0)
         (update_sub (sub_id s0) (\<lambda>_. upgraded_row res target s0) d) = Inr d2"
      "\<not> list_ex (\<lambda>q. qt_id q \<noteq> qt_id fresh \<and> qt_paystack_reference q = Some reference) (sd_quotes d)"
      "d' = update_quote (qt_id fresh)
         (\<lambda>q. q\<lparr>qt_consumed_at := Some (db_now d), qt_paystack_reference := Some reference\<rparr>)
         (set_org_plan (sub_org s0) (pl_slug target) d2)"
proof -
  obtain s0 fresh where f: "find_sub d (qt_sub quote) = Some s0"
    "find_quote d (qt_id quote) = Some fresh"
    using assms by (auto simp: applyUpgrade_tx_def split: option.splits)
  show thesis
  proof (cases "qt_consumed_at fresh = None")
    case False
    then have "d' = d" using assms f by (simp add: applyUpgrade_tx_def)
    then show thesis using consumed f False by blast
  next
    case True
    then obtain target where t: "find_plan d (qt_to_plan quote) = Some target"
      using assms f by (auto simp: applyUpgrade_tx_def split: option.splits)
    obtain d2 where d2: "grant_quoted ustr quote (upgraded_row res target s0)
         (update_sub (sub_id s0) (\<lambda>_. upgraded_row res target s0) d) = Inr d2"
      "set_quote_paid fresh reference (set_org_plan (sub_org s0) (pl_slug target) d2) = Inr d'"
      using assms f True t
      by (auto simp: applyUpgrade_tx_def Let_def upgraded_row_def [symmetric] split: sum.splits)
    note fr = grant_quoted_frame [OF d2(1)]
    have "\<not> list_ex (\<lambda>q. qt_id q \<noteq> qt_id fresh \<and> qt_paystack_reference q = Some reference) (sd_quotes d)"
      "d' = update_quote (qt_id fresh)
         (\<lambda>q. q\<lparr>qt_consumed_at := Some (db_now d), qt_paystack_reference := Some reference\<rparr>)
         (set_org_plan (sub_org s0) (pl_slug target) d2)"
      using d2(2) fr(3,7) by (auto simp: set_quote_paid_def split: if_splits)
    then show thesis using applied f True t d2(1) by blast
  qed
qed

lemma applied_quote:
  assumes "find_quote d2 i = Some fresh" and "qt_id fresh = i"
  shows "find_quote (update_quote i (\<lambda>q. q\<lparr>qt_consumed_at := Some t, qt_paystack_reference := Some r\<rparr>) d2) i
    = Some (fresh\<lparr>qt_consumed_at := Some t, qt_paystack_reference := Some r\<rparr>)"
  using assms by (simp add: find_quote_update)

text \<open>What an applied upgrade leaves in the two rows it locks.\<close>

lemma applied_rows:
  assumes "find_sub d (qt_sub quote) = Some s0" and "find_quote d (qt_id quote) = Some fresh"
    and "grant_quoted ustr quote (upgraded_row res target s0)
         (update_sub (sub_id s0) (\<lambda>_. upgraded_row res target s0) d) = Inr d2"
    and "d' = update_quote (qt_id fresh)
         (\<lambda>q. q\<lparr>qt_consumed_at := Some (db_now d), qt_paystack_reference := Some reference\<rparr>)
         (set_org_plan (sub_org s0) (pl_slug target) d2)"
  shows "find_sub d' (qt_sub quote) = Some (upgraded_row res target s0)"
    and "find_quote d' (qt_id quote) =
      Some (fresh\<lparr>qt_consumed_at := Some (db_now d), qt_paystack_reference := Some reference\<rparr>)"
proof -
  note fr = grant_quoted_frame [OF assms(3)]
  have id: "qt_id fresh = qt_id quote" "sub_id s0 = qt_sub quote"
    using find_quote_id [OF assms(2)] find_sub_id [OF assms(1)] by auto
  have "find_sub d' (qt_sub quote) = find_sub d2 (qt_sub quote)" by (simp add: assms(4))
  also have "\<dots> = Some (upgraded_row res target s0)"
    using find_cong_tables(2) [OF fr(2)] find_sub_replace [of "upgraded_row res target s0" "qt_sub quote"]
      assms(1) id by simp
  finally show "find_sub d' (qt_sub quote) = Some (upgraded_row res target s0)" .
  have "find_quote d2 (qt_id quote) = Some fresh"
    using find_cong_tables(3) [OF fr(3)] assms(2) by simp
  then show "find_quote d' (qt_id quote) =
      Some (fresh\<lparr>qt_consumed_at := Some (db_now d), qt_paystack_reference := Some reference\<rparr>)"
    by (simp add: assms(4) id(1) find_quote_update)
qed

end
