(* ===== verification/SubProps.thy ===== *)
theory SubProps
  imports SubFacts
begin

text \<open>
  What the subscription service guarantees: upgrades are paid for, applied once and never on a
  payment already used; cancellation and the renewal worker move a row through its states; a
  charge reference grants its credits once.
\<close>

section \<open>Examples\<close>

definition demo_pm :: PaymentMethod where
  "demo_pm = \<lparr>pm_AuthorizationCode = ''AUTH'', pm_Channel = ChannelCard, pm_CardLast4 = ''4242'',
     pm_CardBrand = ''visa'', pm_CardExpMonth = ''01'', pm_CardExpYear = ''2030'', pm_BankName = [],
     pm_AccountName = []\<rparr>"

definition demo_resolved :: "int64 \<Rightarrow> ResolveCheckoutResult" where
  "demo_resolved n = \<lparr>rc_Status = StatusActive, rc_ExternalCustomerID = [], rc_PaidAt = Some 900,
     rc_PaidAmountMinor = n, rc_Currency = ''USD'', rc_Reference = ''ref1'', rc_PaymentMethod = demo_pm\<rparr>"

definition demo_charged :: ChargeAuthorizationResult where
  "demo_charged = \<lparr>ca_Status = StatusActive, ca_Reference = ''chg1'', ca_PaidAt = Some 1000,
     ca_PaidAmountMinor = 1000, ca_Currency = ''USD'', ca_PaymentMethod = demo_pm\<rparr>"

definition demo_provider :: Provider where
  "demo_provider = \<lparr>prov_CreateCheckout = (\<lambda>_ _. Inr \<lparr>cs_AccessCode = ''ac'', cs_Reference = ''ref1''\<rparr>),
     prov_ResolveCheckout = (\<lambda>_ _. Inr (demo_resolved 1500)),
     prov_ChargeAuthorization = (\<lambda>_. Inr demo_charged)\<rparr>"

definition declining_provider :: Provider where
  "declining_provider = demo_provider\<lparr>prov_ChargeAuthorization := (\<lambda>_. Inl ''declined'')\<rparr>"

definition demo_reg :: registry where "demo_reg = [''paystack'' \<mapsto> demo_provider]"
definition declining_reg :: registry where "declining_reg = [''paystack'' \<mapsto> declining_provider]"

definition demo_subscription :: subscription where
  "demo_subscription = \<lparr>sub_id = 1, sub_org = 7, sub_plan_id = 11, sub_provider = ''paystack'',
     sub_external_customer_id = ''cus'', sub_status = StatusActive, sub_period_start = 100,
     sub_period_end = 1000, sub_canceled_at = None, sub_cancel_at_period_end = False,
     sub_pending_plan_id = None, sub_pending_change_at = None, sub_renewal_attempts = 0,
     sub_last_renewal_attempt_at = None, sub_last_renewal_error = [], sub_payment_method = demo_pm,
     sub_last_charge_reference = [], sub_last_charge_amount = 0, sub_last_charged_at = None,
     sub_created_at = 50\<rparr>"

definition demo_quote :: quote where
  "demo_quote = \<lparr>qt_id = 21, qt_org = 7, qt_sub = 1, qt_from_plan = 11, qt_to_plan = 12,
     qt_kind = ''upgrade'', qt_amount = 1500, qt_currency = ''USD'', qt_proration_credit = 1000,
     qt_effective_at = 800, qt_paystack_reference = None, qt_expires_at = 2000, qt_consumed_at = None\<rparr>"

definition demo_sdb :: "subscription \<Rightarrow> gotime \<Rightarrow> sub_db" where
  "demo_sdb s now = \<lparr>db_orgs = [\<lparr>org_id = 7, org_plan_slug = ''starter''\<rparr>], db_ledger = [],
     db_gen = (\<lambda>n. of_nat (100 + n)), db_drawn = 0, db_now = now,
     sd_plans = [\<lparr>pl_id = 11, pl_slug = ''starter'', pl_price_cents = 1000, pl_currency = ''USD'',
                  pl_monthly_credits = 500, pl_active = True\<rparr>,
                 \<lparr>pl_id = 12, pl_slug = ''pro'', pl_price_cents = 4000, pl_currency = ''USD'',
                  pl_monthly_credits = 2500, pl_active = True\<rparr>],
     sd_subs = [s], sd_quotes = [demo_quote],
     sd_members = [\<lparr>mem_org = 7, mem_user = 31, mem_created_at = 10\<rparr>],
     sd_users = [\<lparr>usr_id = 31, usr_email = ''a@b.c''\<rparr>]\<rparr>"

section \<open>Upgrades\<close>

text \<open>
  C8: a change that was applied to an upgrade quote not yet consumed was paid for: the provider
  resolved the given reference to an active payment of exactly the quoted amount in the quoted
  currency, through a channel that can be charged again, and the quote was not expired.
\<close>

theorem upgrade_requires_payment:
  assumes "ApplyChange ustr reg d org quoteID reference = Inr d'"
    and "find_quote d quoteID = Some q" and "qt_kind q = ''upgrade''" and "qt_consumed_at q = None"
  shows "qt_org q = org \<and> db_now d \<le> qt_expires_at q \<and> reference \<noteq> []
    \<and> (\<exists>s p res. find_sub d (qt_sub q) = Some s \<and> reg (sub_provider s) = Some p
        \<and> prov_ResolveCheckout p reference org = Inr res \<and> rc_Status res = StatusActive
        \<and> rc_PaidAmountMinor res = qt_amount q \<and> rc_Currency res = qt_currency q
        \<and> IsReusable (pm_Channel (rc_PaymentMethod res)))"
  using assms
  by (auto simp: ApplyChange_def loadQuote_def applyUpgrade_def providerForSubscription_def
      GetProvider_def split: if_splits sum.splits option.splits)

theorem upgrade_requires_payment_witness:
  "is_ok (ApplyChange dec_ustr demo_reg (demo_sdb demo_subscription 900) 7 21 ''ref1'')
   \<and> (\<exists>s p res. find_sub (demo_sdb demo_subscription 900) 1 = Some s \<and> demo_reg (sub_provider s) = Some p
        \<and> prov_ResolveCheckout p ''ref1'' 7 = Inr res \<and> rc_PaidAmountMinor res = 1500)"
proof
  let ?r = "ApplyChange dec_ustr demo_reg (demo_sdb demo_subscription 900) 7 21 ''ref1''"
  show ok: "is_ok ?r" by code_simp
  then obtain d' where d': "?r = Inr d'" by (cases ?r) auto
  have q: "qt_kind demo_quote = ''upgrade''" "qt_consumed_at demo_quote = None"
    "qt_sub demo_quote = 1" "qt_amount demo_quote = 1500" by (simp_all add: demo_quote_def)
  have "find_quote (demo_sdb demo_subscription 900) 21 = Some demo_quote"
    by (simp add: find_quote_def demo_sdb_def demo_quote_def)
  from upgrade_requires_payment [OF d' this q(1,2)] q(3,4) show "\<exists>s p res. find_sub (demo_sdb demo_subscription 900) 1 = Some s
        \<and> demo_reg (sub_provider s) = Some p
        \<and> prov_ResolveCheckout p ''ref1'' 7 = Inr res \<and> rc_PaidAmountMinor res = 1500"
    by metis
qed

text \<open>
  The effect of an applied upgrade: the subscription is active on the target plan with no
  pending change, the organisation carries the plan's slug, its balance grows by exactly the
  quoted credits and no other balance moves, and the quote is marked consumed by the reference.
\<close>

theorem upgrade_effect:
  assumes "applyUpgrade_tx ustr q reference res d = Inr d'"
    and "find_quote d (qt_id q) = Some fresh" and "qt_consumed_at fresh = None"
  shows "\<exists>s0 s target. find_sub d (qt_sub q) = Some s0 \<and> find_plan d (qt_to_plan q) = Some target
    \<and> find_sub d' (qt_sub q) = Some s
    \<and> sub_status s = StatusActive \<and> sub_plan_id s = qt_to_plan q \<and> sub_pending_plan_id s = None
    \<and> sub_period_end s = sub_period_end s0 \<and> sub_payment_method s = rc_PaymentMethod res
    \<and> ledger_sum d' = (ledger_sum d)(sub_org s0 := ledger_sum d (sub_org s0) + max 0 (qt_proration_credit q))
    \<and> db_orgs d' = map (\<lambda>o1. if org_id o1 = sub_org s0 then o1\<lparr>org_plan_slug := pl_slug target\<rparr> else o1)
        (db_orgs d)
    \<and> find_quote d' (qt_id q) =
        Some (fresh\<lparr>qt_consumed_at := Some (db_now d), qt_paystack_reference := Some reference\<rparr>)"
  using assms(1)
proof (cases rule: applyUpgrade_tx_cases)
  case (consumed f)
  then show ?thesis using assms(2,3) by simp
next
  case (applied s0 f target d2)
  note fr = grant_quoted_frame [OF applied(5)]
  have [simp]: "f = fresh" using applied(2) assms(2) by simp
  note s = applied_rows(1) [OF applied(1) applied(2) applied(5) applied(7)]
  note qt = applied_rows(2) [OF applied(1) applied(2) applied(5) applied(7)]
  have sum: "ledger_sum d' = ledger_sum d2" by (rule ledger_sum_cong) (simp add: applied(7))
  have "ledger_sum (update_sub (sub_id s0) (\<lambda>_. upgraded_row res target s0) d) = ledger_sum d"
    by (rule ledger_sum_cong) simp
  then have sum2: "ledger_sum d' =
      (ledger_sum d)(sub_org s0 := ledger_sum d (sub_org s0) + max 0 (qt_proration_credit q))"
    using sum fr(8) by simp
  have orgs: "db_orgs d' = map (\<lambda>o1. if org_id o1 = sub_org s0 then o1\<lparr>org_plan_slug := pl_slug target\<rparr> else o1)
        (db_orgs d)"
    by (simp add: applied(7) set_org_plan_def fr(6))
  show ?thesis
    using applied(1,4) s sum2 qt orgs find_plan_id [OF applied(4)]
    by (intro exI [of _ s0] exI [of _ "upgraded_row res target s0"] exI [of _ target] conjI)
      (simp_all add: upgraded_row_def applyPaymentMethod_def)
qed

theorem upgrade_effect_witness:
  "\<exists>d'. applyUpgrade_tx dec_ustr demo_quote ''ref1'' (demo_resolved 1500) (demo_sdb demo_subscription 900) = Inr d'
     \<and> ledger_sum d' 7 = ledger_sum (demo_sdb demo_subscription 900) 7 + 1000"
proof -
  let ?d = "demo_sdb demo_subscription 900"
  let ?r = "applyUpgrade_tx dec_ustr demo_quote ''ref1'' (demo_resolved 1500) ?d"
  have "is_ok ?r" by code_simp
  then obtain d' where d': "?r = Inr d'" by (cases ?r) auto
  have "find_quote ?d (qt_id demo_quote) = Some demo_quote"
    by (simp add: find_quote_def demo_sdb_def demo_quote_def)
  from upgrade_effect [OF d' this] show ?thesis using d'
    by (auto simp: demo_quote_def find_sub_def demo_sdb_def demo_subscription_def)
qed

text \<open>
  C2: an upgrade quote is applied at most once, also when several requests read it before any of
  them committed: whatever payment a later transaction brings, on the same quote as it was read
  before the race, it leaves the database as the first one left it.
\<close>

theorem upgrade_applied_once:
  assumes "applyUpgrade_tx ustr q r1 res1 d = Inr d1"
  shows "applyUpgrade_tx ustr q r2 res2 d1 = Inr d1"
  using assms
proof (cases rule: applyUpgrade_tx_cases)
  case (consumed f)
  then show ?thesis using assms by (auto simp: applyUpgrade_tx_def split: option.splits)
next
  case (applied s0 f target d2)
  then show ?thesis
    using applied_rows [OF applied(1) applied(2) applied(5) applied(7)]
    by (simp add: applyUpgrade_tx_def)
qed

theorem upgrade_applied_once_witness:
  "\<exists>d1. applyUpgrade_tx dec_ustr demo_quote ''ref1'' (demo_resolved 1500) (demo_sdb demo_subscription 900) = Inr d1
     \<and> applyUpgrade_tx dec_ustr demo_quote ''ref2'' (demo_resolved 99) d1 = Inr d1"
proof -
  let ?r = "applyUpgrade_tx dec_ustr demo_quote ''ref1'' (demo_resolved 1500) (demo_sdb demo_subscription 900)"
  have "is_ok ?r" by code_simp
  then obtain d1 where "?r = Inr d1" by (cases ?r) auto
  then show ?thesis using upgrade_applied_once by blast
qed

end
