(* ===== verification/RenewalProps.thy ===== *)
theory RenewalProps
  imports SubProps
begin

text \<open>
  What the renewal worker guarantees: a due row is always acted on, a successful charge moves the
  period once and grants its credits once, a declined one is tried at most five times, and the
  sweep selects due rows only, longest overdue first.
\<close>

section \<open>Decision facts\<close>

lemma due_row_view:
  assumes "due_row now s"
  shows "rv_Status (renewal_view s) = ''active''"
    and "\<not> now < rv_CurrentPeriodEnd (renewal_view s)"
  using assms by (simp_all add: due_row_def renewal_view_def StatusActive_def)


lemma renewal_decision_idle:
  "sub_status s \<noteq> ''active'' \<or> (\<not> is_zero (sub_period_end s) \<and> now < sub_period_end s) \<Longrightarrow>
     rd_Action (renewal_decision d s now) = ActionNoOp"
  by (auto simp: renewal_decision_def DecideRenewal_def renewal_view_def)

lemma renew_idle:
  assumes "find_sub d i = Some s"
    and "sub_status s \<noteq> ''active'' \<or> (\<not> is_zero (sub_period_end s) \<and> db_now d < sub_period_end s)"
  shows "Renew ustr reg d i = (Some ActionNoOp, None, d)"
  using assms(1) renewal_decision_idle [OF assms(2)] by (simp add: Renew_def Let_def)

text \<open>Inversion of the transaction of a successful charge.\<close>

lemma GrantWithTx_error_frame:
  "(case GrantWithTx d2 org n reason rt rid ex of
       Inl e \<Rightarrow> if e = ErrAlreadyRecorded then Inr d2 else Inl (ErrLedger e)
     | Inr d3 \<Rightarrow> Inr d3) = Inr (d' :: sub_db) \<Longrightarrow>
   sd_subs d' = sd_subs d2 \<and> sd_plans d' = sd_plans d2 \<and> sd_quotes d' = sd_quotes d2
   \<and> db_orgs d' = db_orgs d2 \<and> db_now d' = db_now d2 \<and> sd_members d' = sd_members d2
   \<and> sd_users d' = sd_users d2"
  by (auto dest: GrantWithTx_frame split: sum.splits if_splits)

lemma applySuccessfulRenewal_cases:
  assumes "applySuccessfulRenewal s target res now d = Inr d'"
  obtains (raced) fresh where "find_sub d (sub_id s) = Some fresh"
      "\<not> is_zero (sub_period_end fresh)" "now < sub_period_end fresh" "d' = d"
  | (applied) fresh d2 ps where "find_sub d (sub_id s) = Some fresh"
      "is_zero (sub_period_end fresh) \<or> sub_period_end fresh \<le> now"
      "ps = (if is_zero (sub_period_end s) \<or> sub_period_end s > now then now else sub_period_end s)"
      "d2 = set_org_plan (sub_org s) (pv_Slug target)
              (update_sub (sub_id s) (\<lambda>_. renewed_row target res now ps (ps + RenewalPeriod) fresh) d)"
      "sd_subs d' = sd_subs d2" "db_now d' = db_now d2" "db_orgs d' = db_orgs d2"
      "sd_quotes d' = sd_quotes d2"
      "if pv_MonthlyCredits target > 0 then
         (case GrantWithTx d2 (sub_org s) (pv_MonthlyCredits target) ReasonPlanGrant
             ''subscription_renewal'' (ca_Reference res) (Some (ps + RenewalPeriod + PlanGrantGracePeriod)) of
           Inl e \<Rightarrow> e = ErrAlreadyRecorded \<and> d' = d2 | Inr d3 \<Rightarrow> d' = d3)
       else d' = d2"
proof -
  obtain fresh where f: "find_sub d (sub_id s) = Some fresh"
    using assms by (auto simp: applySuccessfulRenewal_def Let_def split: option.splits)
  show thesis
  proof (cases "\<not> is_zero (sub_period_end fresh) \<and> now < sub_period_end fresh")
    case True
    then have "d' = d" using assms f by (simp add: applySuccessfulRenewal_def Let_def)
    then show thesis using raced f True by blast
  next
    case False
    define ps where "ps = (if is_zero (sub_period_end s) \<or> sub_period_end s > now then now else sub_period_end s)"
    define d2 where "d2 = set_org_plan (sub_org s) (pv_Slug target)
              (update_sub (sub_id s) (\<lambda>_. renewed_row target res now ps (ps + RenewalPeriod) fresh) d)"
    have eq: "(if pv_MonthlyCredits target > 0 then
         (case GrantWithTx d2 (sub_org s) (pv_MonthlyCredits target) ReasonPlanGrant
             ''subscription_renewal'' (ca_Reference res) (Some (ps + RenewalPeriod + PlanGrantGracePeriod)) of
           Inl e \<Rightarrow> if e = ErrAlreadyRecorded then Inr d2 else Inl (ErrLedger e) | Inr d3 \<Rightarrow> Inr d3)
       else Inr d2) = Inr d'"
      unfolding d2_def using assms f False
      by (simp only: applySuccessfulRenewal_def Let_def ps_def [symmetric] option.case if_False)
    have fr: "sd_subs d' = sd_subs d2 \<and> db_now d' = db_now d2 \<and> db_orgs d' = db_orgs d2 \<and> sd_quotes d' = sd_quotes d2"
    proof (cases "pv_MonthlyCredits target > 0")
      case True
      with eq show ?thesis using GrantWithTx_error_frame by auto
    qed (use eq in auto)
    show thesis
      by (rule applied [OF f _ ps_def d2_def])
        (use False fr eq in \<open>auto split: sum.splits if_splits\<close>)
  qed
qed

lemma renewed_row_simps [simp]:
  "sub_id (renewed_row target res now ps pe s) = sub_id s"
  "sub_org (renewed_row target res now ps pe s) = sub_org s"
  "sub_status (renewed_row target res now ps pe s) = StatusActive"
  "sub_period_end (renewed_row target res now ps pe s) = pe"
  "sub_period_start (renewed_row target res now ps pe s) = ps"
  "sub_renewal_attempts (renewed_row target res now ps pe s) = 0"
  "sub_plan_id (renewed_row target res now ps pe s) = pv_ID target"
  "sub_last_charge_reference (renewed_row target res now ps pe s) = ca_Reference res"
  "sub_cancel_at_period_end (renewed_row target res now ps pe s) = sub_cancel_at_period_end s"
  by (simp_all add: renewed_row_def)

lemma renewed_find:
  assumes "find_sub d (sub_id s) = Some fresh"
    and "sd_subs d' = sd_subs (set_org_plan org slug
           (update_sub (sub_id s) (\<lambda>_. renewed_row target res now ps pe fresh) d))"
  shows "find_sub d' (sub_id s) = Some (renewed_row target res now ps pe fresh)"
  using find_cong_tables(2) [OF assms(2)] find_sub_id [OF assms(1)] assms(1)
  by (simp add: find_sub_replace)

section \<open>The decision\<close>

text \<open>
  The sweep and the decision agree: a row the sweep query selects is always acted on (it is
  cancelled, moved to the free plan, marked past due or charged), never passed over.
\<close>

theorem due_renewal_acts:
  assumes "due_row now s"
  shows "rd_Action (renewal_decision d s now) \<noteq> ActionNoOp"
  using due_row_view [OF assms] by (auto simp: renewal_decision_def DecideRenewal_def Let_def)

theorem due_renewal_acts_witness:
  "due_row 1000 demo_subscription
   \<and> rd_Action (renewal_decision (demo_sdb demo_subscription 1000) demo_subscription 1000) \<noteq> ActionNoOp"
proof
  show "due_row 1000 demo_subscription" by code_simp
  then show "rd_Action (renewal_decision (demo_sdb demo_subscription 1000) demo_subscription 1000) \<noteq> ActionNoOp"
    by (rule due_renewal_acts)
qed

section \<open>Successful renewals\<close>



lemma demo_find: "find_sub (demo_sdb demo_subscription now) 1 = Some demo_subscription"
  by (simp add: find_sub_def demo_sdb_def demo_subscription_def)


text \<open>
  Two workers that both loaded the same due row and both charged it advance it once: when
  the second transaction takes the lock the period is in the future and it changes nothing.
\<close>

theorem renewal_race_once:
  assumes "applySuccessfulRenewal s target1 res1 now1 d = Inr d1" and "find_sub d (sub_id s) = Some s"
    and "0 < sub_period_end s" and "sub_period_end s \<le> now1"
    and "now2 < sub_period_end s + 30 * 24 * Hour"
  shows "applySuccessfulRenewal s target2 res2 now2 d1 = Inr d1"
  using assms(1)
proof (cases rule: applySuccessfulRenewal_cases)
  case (raced fresh)
  then show ?thesis using assms by simp
next
  case (applied fresh d2 ps)
  have f: "fresh = s" using applied(1) assms(2) by simp
  have ps: "ps = sub_period_end s" using applied(3) assms(3,4) by (simp add: zero_time_def)
  note row = renewed_find [OF applied(1) applied(5) [unfolded applied(4)]]
  have "now2 < ps + RenewalPeriod" "0 < ps + RenewalPeriod"
    using assms(3,5) by (simp_all add: ps RenewalPeriod_def duration_defs)
  then show ?thesis
    using row by (simp add: applySuccessfulRenewal_def Let_def zero_time_def)
qed

definition demo_target :: PlanView where
  "demo_target = \<lparr>pv_ID = 11, pv_Slug = ''starter'', pv_PriceMinor = 1000, pv_Currency = ''USD'',
     pv_MonthlyCredits = 500\<rparr>"

lemma demo_apply_ok:
  "is_ok (applySuccessfulRenewal demo_subscription demo_target demo_charged 1000 (demo_sdb demo_subscription 1000))"
  by code_simp

lemma demo_row_simps: "sub_id demo_subscription = 1" "sub_period_end demo_subscription = 1000"
  "sub_org demo_subscription = 7" "ca_Reference demo_charged = ''chg1''"
  by (simp_all add: demo_subscription_def demo_charged_def)

theorem renewal_race_once_witness:
  "\<exists>d1. applySuccessfulRenewal demo_subscription demo_target demo_charged 1000 (demo_sdb demo_subscription 1000) = Inr d1
     \<and> applySuccessfulRenewal demo_subscription demo_target demo_charged 1001 d1 = Inr d1"
proof -
  obtain d1 where d1: "applySuccessfulRenewal demo_subscription demo_target demo_charged 1000
      (demo_sdb demo_subscription 1000) = Inr d1"
    using demo_apply_ok by (metis isl_def sum.exhaust)
  have "applySuccessfulRenewal demo_subscription demo_target demo_charged 1001 d1 = Inr d1"
    by (rule renewal_race_once [OF d1]) (simp_all add: demo_row_simps demo_find duration_defs)
  with d1 show ?thesis by blast
qed

text \<open>
  A charge reference grants its credits once: of two renewals of one organisation that carry
  the same non-empty reference, at most one writes to the ledger.
\<close>

theorem renewal_grants_once:
  assumes "applySuccessfulRenewal s1 target1 res1 now1 d = Inr d1"
    and "applySuccessfulRenewal s2 target2 res2 now2 d1 = Inr d2"
    and "sub_org s2 = sub_org s1" and "ca_Reference res2 = ca_Reference res1" and "ca_Reference res1 \<noteq> []"
  shows "db_ledger d1 = db_ledger d \<or> db_ledger d2 = db_ledger d1"
proof (rule disjCI)
  assume ne: "db_ledger d2 \<noteq> db_ledger d1"
  have wrote: "(\<exists>d2 n ex. db_ledger d2 = db_ledger d \<and> GrantWithTx d2 (sub_org s) n ReasonPlanGrant
        ''subscription_renewal'' (ca_Reference res) ex = Inr d') \<or> db_ledger d' = db_ledger d"
    if "applySuccessfulRenewal s target res now d = Inr d'" for s target res now and d d' :: sub_db
    using that
  proof (cases rule: applySuccessfulRenewal_cases)
    case (applied fresh d2 ps)
    then have "db_ledger d2 = db_ledger d" by simp
    then show ?thesis using applied(9) by (fastforce split: if_splits sum.splits)
  qed simp
  obtain da n ex where second: "db_ledger da = db_ledger d1"
    "GrantWithTx da (sub_org s1) n ReasonPlanGrant ''subscription_renewal'' (ca_Reference res1) ex = Inr d2"
    using wrote [OF assms(2)] ne assms(3,4) by auto
  show "db_ledger d1 = db_ledger d"
  proof (rule ccontr)
    assume "db_ledger d1 \<noteq> db_ledger d"
    then obtain db' n' ex' where
      "GrantWithTx db' (sub_org s1) n' ReasonPlanGrant ''subscription_renewal'' (ca_Reference res1) ex' = Inr d1"
      using wrote [OF assms(1)] by auto
    then have "ledgerEntryExists d1 (sub_org s1) ReasonPlanGrant ''subscription_renewal'' (ca_Reference res1)"
      by (rule ledger.grant_records) (rule assms(5))
    then have "ledgerEntryExists da (sub_org s1) ReasonPlanGrant ''subscription_renewal'' (ca_Reference res1)"
      using second(1) by (simp add: ledgerEntryExists_def assms(5))
    then have "isl (GrantWithTx da (sub_org s1) n ReasonPlanGrant ''subscription_renewal'' (ca_Reference res1) ex)"
      by (rule ledger.grant_once)
    then show False using second(2) by simp
  qed
qed

theorem renewal_grants_once_witness:
  "\<exists>d1 d2. applySuccessfulRenewal demo_subscription demo_target demo_charged 1000 (demo_sdb demo_subscription 1000) = Inr d1
     \<and> applySuccessfulRenewal demo_subscription demo_target demo_charged 3000000000000000 d1 = Inr d2
     \<and> (db_ledger d1 = db_ledger (demo_sdb demo_subscription 1000) \<or> db_ledger d2 = db_ledger d1)"
proof -
  let ?a = "applySuccessfulRenewal demo_subscription demo_target demo_charged"
  obtain d1 where d1: "?a 1000 (demo_sdb demo_subscription 1000) = Inr d1"
    using demo_apply_ok by (metis isl_def sum.exhaust)
  have "is_ok (?a 3000000000000000 (projr (?a 1000 (demo_sdb demo_subscription 1000))))"
    by code_simp
  then obtain d2 where d2: "?a 3000000000000000 d1 = Inr d2"
    using d1 by (metis isl_def sum.exhaust sum.sel(2))
  show ?thesis
    using d1 d2 renewal_grants_once [OF d1 d2 refl refl] by (auto simp: demo_row_simps)
qed

section \<open>Declined renewals\<close>

text \<open>A row the worker charges, at a provider that declines every charge.\<close>

definition chargeable :: "registry \<Rightarrow> sub_db \<Rightarrow> subscription \<Rightarrow> bool" where
  "chargeable reg d s \<longleftrightarrow> sub_status s = StatusActive
     \<and> sub_period_end s \<le> db_now d \<and> \<not> sub_cancel_at_period_end s
     \<and> sub_pending_plan_id s = None \<and> \<not> IsFree (plan_of d (sub_plan_id s))
     \<and> pm_AuthorizationCode (sub_payment_method s) \<noteq> [] \<and> IsReusable (pm_Channel (sub_payment_method s))
     \<and> is_ok (lookupOrgOwnerEmail d (sub_org s))
     \<and> (case GetProvider reg (sub_provider s) of Inl e \<Rightarrow> False
        | Inr p \<Rightarrow> \<forall>r. isl (prov_ChargeAuthorization p r))"

lemma chargeable_decision:
  assumes "chargeable reg d s"
  shows "rd_Action (renewal_decision d s (db_now d)) = ActionCharge"
  using assms
  by (auto simp: chargeable_def renewal_decision_def DecideRenewal_def renewal_view_def Let_def
      StatusActive_def pending_plan_def)

lemma declined_step:
  assumes "find_sub d i = Some s" and "chargeable reg d s"
  shows "\<exists>msg. BillingRenewSubscription ustr reg i d =
    update_sub i (\<lambda>r. r\<lparr>sub_renewal_attempts := sub_renewal_attempts s + 1,
        sub_last_renewal_attempt_at := Some (db_now d), sub_last_renewal_error := msg,
        sub_status := (if sub_renewal_attempts s + 1 \<ge> MaxRenewalAttempts then StatusPastDue
                       else sub_status r)\<rparr>) d"
proof -
  obtain p where p: "GetProvider reg (sub_provider s) = Inr p" "\<And>r. isl (prov_ChargeAuthorization p r)"
    using assms(2) by (auto simp: chargeable_def split: sum.splits)
  obtain email where email: "lookupOrgOwnerEmail d (sub_org s) = Inr email"
    using assms(2) by (auto simp: chargeable_def isl_def)
       (metis sum.exhaust)
  define target where "target = rd_TargetPlan (renewal_decision d s (db_now d))"
  obtain msg where msg: "prov_ChargeAuthorization p (charge_request ustr s target email) = Inl msg"
    using p(2) by (metis isl_def)
  show ?thesis
    using assms(1) chargeable_decision [OF assms(2)] p(1) email msg find_sub_id [OF assms(1)]
    by (intro exI [of _ "truncateErr msg"])
      (simp add: BillingRenewSubscription_def Renew_def Let_def chargeAndAdvance_def
        recordChargeFailure_def target_def [symmetric])
qed

lemma lookup_email_update [simp]:
  "lookupOrgOwnerEmail (update_sub i f d) org = lookupOrgOwnerEmail d org"
  by (simp add: lookupOrgOwnerEmail_def cong: list.case_cong option.case_cong)

lemma plan_of_update [simp]: "plan_of (update_sub i f d) j = plan_of d j"
  by (simp add: plan_of_def)

lemma chargeable_update:
  assumes "chargeable reg d s" and "sub_status s' = StatusActive"
    and "s' = s\<lparr>sub_renewal_attempts := a, sub_last_renewal_attempt_at := t,
           sub_last_renewal_error := m, sub_status := st\<rparr>"
  shows "chargeable reg (update_sub i f d) s'"
  using assms
  by (simp add: chargeable_def)

lemma declined_many:
  "find_sub d i = Some s \<Longrightarrow> chargeable reg d s \<Longrightarrow> sub_renewal_attempts s + int n \<le> MaxRenewalAttempts \<Longrightarrow>
   \<exists>s'. find_sub ((BillingRenewSubscription ustr reg i ^^ n) d) i = Some s'
     \<and> sub_renewal_attempts s' = sub_renewal_attempts s + int n
     \<and> sub_period_end s' = sub_period_end s
     \<and> db_ledger ((BillingRenewSubscription ustr reg i ^^ n) d) = db_ledger d
     \<and> (if n = 0 \<or> sub_renewal_attempts s + int n < MaxRenewalAttempts
        then chargeable reg ((BillingRenewSubscription ustr reg i ^^ n) d) s'
        else sub_status s' = StatusPastDue)"
proof (induction n)
  case 0
  then show ?case by simp
next
  case (Suc n)
  let ?d = "(BillingRenewSubscription ustr reg i ^^ n) d"
  obtain s1 where s1: "find_sub ?d i = Some s1" "sub_renewal_attempts s1 = sub_renewal_attempts s + int n"
    "sub_period_end s1 = sub_period_end s" "db_ledger ?d = db_ledger d" "chargeable reg ?d s1"
    using Suc by auto
  obtain msg where e: "BillingRenewSubscription ustr reg i ?d =
    update_sub i (\<lambda>r. r\<lparr>sub_renewal_attempts := sub_renewal_attempts s1 + 1,
        sub_last_renewal_attempt_at := Some (db_now ?d), sub_last_renewal_error := msg,
        sub_status := (if sub_renewal_attempts s1 + 1 \<ge> MaxRenewalAttempts then StatusPastDue
                       else sub_status r)\<rparr>) ?d" (is "_ = update_sub i ?f ?d")
    using declined_step [OF s1(1,5)] by blast
  have find: "find_sub (update_sub i ?f ?d) i = Some (?f s1)"
    by (subst find_sub_update) (simp_all add: s1(1))
  have "chargeable reg (update_sub i ?f ?d) (?f s1)" if "sub_renewal_attempts s1 + 1 < MaxRenewalAttempts"
    by (rule chargeable_update [OF s1(5) _ refl]) (use s1(5) that in \<open>simp add: chargeable_def\<close>)
  moreover have "sub_status (?f s1) = StatusPastDue" if "\<not> sub_renewal_attempts s1 + 1 < MaxRenewalAttempts"
    using that by simp
  ultimately show ?case
    using find s1 by (auto simp: e)
qed

lemma past_due_idle:
  assumes "find_sub d i = Some s" and "sub_status s = StatusPastDue"
  shows "(BillingRenewSubscription ustr reg i ^^ n) d = d"
proof -
  have "BillingRenewSubscription ustr reg i d = d"
    using assms renew_idle [OF assms(1)] by (simp add: BillingRenewSubscription_def StatusPastDue_def)
  then show ?thesis by (induction n) simp_all
qed

text \<open>
  A provider that declines every charge is asked at most five times: after any number of
  renewals the attempts count them up to five, the row is past due exactly when five were made,
  and neither the period nor the ledger has moved.
\<close>

theorem declined_renewals_bounded:
  assumes "find_sub d i = Some s" and "chargeable reg d s" and "sub_renewal_attempts s = 0"
  shows "\<exists>s'. find_sub ((BillingRenewSubscription ustr reg i ^^ n) d) i = Some s'
    \<and> sub_renewal_attempts s' = min (int n) 5
    \<and> sub_status s' = (if n < 5 then StatusActive else StatusPastDue)
    \<and> sub_period_end s' = sub_period_end s
    \<and> db_ledger ((BillingRenewSubscription ustr reg i ^^ n) d) = db_ledger d"
proof (cases "n < 5")
  case True
  then show ?thesis
    using declined_many [OF assms(1,2), of n ustr] assms(3)
    by (auto simp: MaxRenewalAttempts_def chargeable_def)
next
  case False
  let ?d5 = "(BillingRenewSubscription ustr reg i ^^ 5) d"
  obtain s5 where s5: "find_sub ?d5 i = Some s5" "sub_renewal_attempts s5 = 5" "sub_status s5 = StatusPastDue"
    "sub_period_end s5 = sub_period_end s" "db_ledger ?d5 = db_ledger d"
    using declined_many [OF assms(1,2), of 5 ustr] assms(3) by (auto simp: MaxRenewalAttempts_def)
  have "(BillingRenewSubscription ustr reg i ^^ n) d =
      (BillingRenewSubscription ustr reg i ^^ (n - 5)) ?d5"
    using False by (metis comp_apply funpow_add le_add_diff_inverse2 not_less)
  also have "\<dots> = ?d5" by (rule past_due_idle [OF s5(1,3)])
  finally show ?thesis using s5 False by auto
qed

theorem declined_renewals_bounded_witness:
  "\<exists>s'. find_sub ((BillingRenewSubscription dec_ustr declining_reg 1 ^^ 7) (demo_sdb demo_subscription 1000)) 1 = Some s'
    \<and> sub_renewal_attempts s' = 5 \<and> sub_status s' = StatusPastDue"
proof -
  have "chargeable declining_reg (demo_sdb demo_subscription 1000) demo_subscription"
    by (simp add: chargeable_def demo_subscription_def demo_sdb_def declining_reg_def declining_provider_def
        demo_provider_def demo_pm_def GetProvider_def plan_of_def find_plan_def IsFree_def planViewOf_def
        lookupOrgOwnerEmail_def IsReusable_def)
  moreover have "sub_renewal_attempts demo_subscription = 0" by (simp add: demo_subscription_def)
  ultimately show ?thesis
    using declined_renewals_bounded [OF demo_find, where n = 7 and reg = declining_reg and ustr = dec_ustr]
    by fastforce
qed

end
