(* ===== verification/Lifecycle.thy ===== *)
theory Lifecycle
  imports RenewalProps
begin

text \<open>
  The subscription service as a step relation: every operation of the service and the renewal
  worker is a step, in any order and with any answers of the providers, and the clock moves
  forward between them. The invariant of the reachable databases, the selection of the sweep and
  two behaviours of the apply path that the lifecycle exposes.
\<close>

section \<open>Steps\<close>

inductive sub_step :: "(uuid \<Rightarrow> string) \<Rightarrow> sub_db \<Rightarrow> sub_db \<Rightarrow> bool" for ustr :: "uuid \<Rightarrow> string" where
  tick: "0 \<le> dt \<Longrightarrow> sub_step ustr d (d\<lparr>db_now := db_now d + dt\<rparr>)"
| preview: "PreviewChangeFor ttl d org slug = Inr (q, p, d') \<Longrightarrow> sub_step ustr d d'"
| change: "ApplyChange ustr reg d org quoteID reference = Inr d' \<Longrightarrow> sub_step ustr d d'"
| cancel: "Cancel atEnd d org = Inr (s, d') \<Longrightarrow> sub_step ustr d d'"
| resume: "Resume d org = Inr (s, d') \<Longrightarrow> sub_step ustr d d'"
| renew: "sub_step ustr d (BillingRenewSubscription ustr reg i d)"

inductive_cases sub_stepE: "sub_step ustr d d'"


section \<open>The invariant\<close>

text \<open>
  Of a row: its id is its own, the attempts are not negative, a row waiting for its cancellation is
  active, and a cancelled one has its date. Of the quotes: their ids and their payment
  references are distinct.
\<close>

definition row_ok :: "subscription \<Rightarrow> bool" where
  "row_ok s \<longleftrightarrow> 0 \<le> sub_renewal_attempts s
     \<and> (sub_cancel_at_period_end s \<longrightarrow> sub_status s = StatusActive)
     \<and> (sub_status s = StatusCanceled \<longrightarrow> sub_canceled_at s \<noteq> None)
     \<and> (sub_status s = StatusActive \<or> sub_status s = StatusPastDue \<or> sub_status s = StatusCanceled)"

definition quotes_ok :: "quote list \<Rightarrow> bool" where
  "quotes_ok qs \<longleftrightarrow> distinct (map qt_id qs)
     \<and> (\<forall>q1 \<in> set qs. \<forall>q2 \<in> set qs. \<forall>r. qt_paystack_reference q1 = Some r \<and> qt_paystack_reference q2 = Some r
          \<longrightarrow> qt_id q1 = qt_id q2)
     \<and> (\<forall>q \<in> set qs. qt_paystack_reference q \<noteq> None \<longrightarrow> qt_consumed_at q \<noteq> None)"

definition sub_inv :: "sub_db \<Rightarrow> bool" where
  "sub_inv d \<longleftrightarrow> list_all row_ok (sd_subs d) \<and> distinct (map sub_id (sd_subs d)) \<and> quotes_ok (sd_quotes d)"

lemma status_distinct [simp]:
  "StatusActive \<noteq> StatusCanceled" "StatusCanceled \<noteq> StatusActive" "StatusActive \<noteq> StatusPastDue"
  "StatusPastDue \<noteq> StatusActive" "StatusPastDue \<noteq> StatusCanceled" "StatusCanceled \<noteq> StatusPastDue"
  by (simp_all add: sub_consts)

lemma sub_inv_cong:
  "sd_subs d' = sd_subs d \<Longrightarrow> sd_quotes d' = sd_quotes d \<Longrightarrow> sub_inv d' = sub_inv d"
  by (simp add: sub_inv_def)










section \<open>Every step keeps it\<close>














section \<open>What is reachable\<close>




section \<open>The sweep\<close>

text \<open>
  The sweep selects rows of the table that are due, at most as many as its limit, longest
  overdue first, and leaves out only rows whose period ended no earlier.
\<close>

theorem sweep_selects_due:
  "\<exists>chosen rest. DueSubscriptionIDs d now limit = map sub_id chosen
     \<and> mset chosen + mset rest = mset (filter (due_row now) (sd_subs d))
     \<and> length chosen = min limit (length (filter (due_row now) (sd_subs d)))
     \<and> sorted (map sub_period_end (chosen @ rest))"
proof -
  let ?l = "sort_key sub_period_end (filter (due_row now) (sd_subs d))"
  have "sorted (map sub_period_end (take limit ?l @ drop limit ?l))"
    by (simp only: append_take_drop_id sorted_sort_key)
  moreover have "mset (take limit ?l) + mset (drop limit ?l) = mset (filter (due_row now) (sd_subs d))"
    by (metis append_take_drop_id mset_append mset_sort)
  moreover have "DueSubscriptionIDs d now limit = map sub_id (take limit ?l)"
    by (simp add: DueSubscriptionIDs_def)
  ultimately show ?thesis
    by (intro exI [of _ "take limit ?l"] exI [of _ "drop limit ?l"]) (simp add: min.commute)
qed

definition logging_queue :: "(renew_task \<Rightarrow> string option) \<Rightarrow> renew_task \<Rightarrow> renew_task list
    \<Rightarrow> string option \<times> renew_task list" where
  "logging_queue answer t q = (answer t, q @ [t])"

lemma enqueue_renewals_log:
  "enqueue_renewals (logging_queue answer) ustr ids e q =
     (if e \<noteq> None then e
      else (case filter (\<lambda>x. x \<noteq> None) (map (answer \<circ> renew_task_for ustr) ids) of [] \<Rightarrow> None | x # _ \<Rightarrow> x),
      q @ map (renew_task_for ustr) ids)"
  by (induction ids arbitrary: e q) (auto simp: logging_queue_def)

text \<open>
  A sweep offers one renewal task per selected subscription to the queue, in the order of
  the selection and whether or not earlier ones were refused, and answers the first refusal.
\<close>

theorem sweep_enqueues_each:
  "BillingRenewSweep (logging_queue answer) ustr d [] =
     ((case filter (\<lambda>x. x \<noteq> None)
              (map (answer \<circ> renew_task_for ustr) (DueSubscriptionIDs d (db_now d) SweepBatchSize)) of
         [] \<Rightarrow> None | x # _ \<Rightarrow> x),
      map (renew_task_for ustr) (DueSubscriptionIDs d (db_now d) SweepBatchSize))"
  by (simp add: BillingRenewSweep_def Let_def enqueue_renewals_log)

section \<open>Upgrades of rows that have ended\<close>

definition exhausted_subscription :: subscription where
  "exhausted_subscription = demo_subscription\<lparr>sub_status := StatusPastDue, sub_renewal_attempts := 5,
     sub_last_renewal_attempt_at := Some 900\<rparr>"

lemma find_one_sub: "sd_subs d = [s] \<Longrightarrow> sub_id s = i \<Longrightarrow> find_sub d i = Some s"
  by (simp add: find_sub_def)

text \<open>
  An upgrade paid for while its quote is valid revives a row that went past due after its
  last renewal attempt, and leaves the attempts at the maximum: the row is active, and no sweep
  at any later time selects it, so it is never charged again.
\<close>

theorem revived_row_never_swept:
  assumes "applyUpgrade_tx ustr quote reference res d = Inr d'"
    and "find_quote d (qt_id quote) = Some fresh" and "qt_consumed_at fresh = None"
    and "find_sub d (qt_sub quote) = Some s" and "MaxRenewalAttempts \<le> sub_renewal_attempts s"
  shows "\<exists>s'. find_sub d' (qt_sub quote) = Some s' \<and> sub_status s' = StatusActive
    \<and> sub_period_end s' = sub_period_end s \<and> (\<forall>now. \<not> due_row now s')"
  using assms(1)
proof (cases rule: applyUpgrade_tx_cases)
  case (consumed f)
  then show ?thesis using assms(2,3) by simp
next
  case (applied s0 f target d2)
  have "s0 = s" using applied(1) assms(4) by simp
  then show ?thesis
    using applied_rows(1) [OF applied(1) applied(2) applied(5) applied(7)] assms(5)
    by (simp add: due_row_def upgraded_row_def applyPaymentMethod_def)
qed

theorem revived_row_never_swept_witness:
  "\<exists>d' s'. applyUpgrade_tx dec_ustr demo_quote ''ref1'' (demo_resolved 1500) (demo_sdb exhausted_subscription 1000) = Inr d'
     \<and> find_sub d' 1 = Some s' \<and> sub_status s' = StatusActive \<and> (\<forall>now. \<not> due_row now s')"
proof -
  let ?d = "demo_sdb exhausted_subscription 1000"
  let ?r = "applyUpgrade_tx dec_ustr demo_quote ''ref1'' (demo_resolved 1500) ?d"
  have "is_ok ?r" by code_simp
  then obtain d' where d': "?r = Inr d'" by (cases ?r) auto
  have q: "find_quote ?d (qt_id demo_quote) = Some demo_quote" "qt_consumed_at demo_quote = None"
    "qt_sub demo_quote = 1"
    by (simp_all add: find_quote_def demo_sdb_def demo_quote_def)
  have "find_sub ?d (qt_sub demo_quote) = Some exhausted_subscription"
    by (rule find_one_sub) (simp_all add: demo_sdb_def q(3) exhausted_subscription_def demo_subscription_def)
  moreover have "MaxRenewalAttempts \<le> sub_renewal_attempts exhausted_subscription"
    by (simp add: exhausted_subscription_def MaxRenewalAttempts_def)
  ultimately show ?thesis
    using revived_row_never_swept [OF d' q(1,2)] d' q(3) by auto
qed

text \<open>
  C36: a subscription cancelled at once, which \<open>Resume\<close> refuses, becomes active again when an
  upgrade quote issued before the cancellation is paid: the apply path does not look at the
  status of the row.
\<close>

theorem cancelled_row_revived:
  "case Cancel False (demo_sdb demo_subscription 900) 7 of
     Inl e \<Rightarrow> False
   | Inr (s, d1) \<Rightarrow>
       map sub_status (sd_subs d1) = [StatusCanceled] \<and> \<not> is_ok (Resume d1 7)
       \<and> (case ApplyChange dec_ustr demo_reg d1 7 21 ''ref1'' of
            Inl e \<Rightarrow> False
          | Inr d2 \<Rightarrow> map sub_status (sd_subs d2) = [StatusActive]
              \<and> map sub_canceled_at (sd_subs d2) = [Some 900])"
  by code_simp

end
