(* ===== verification/Counter.thy ===== *)
theory Counter
  imports Prelude
begin

text \<open>
  Request caps: the Redis counters of \<open>internal/counter/counter.go\<close>, their lazy refill from the
  rows of \<open>internal/model/credential.go\<close> and \<open>token.go\<close>, and the middleware of
  \<open>internal/middleware/remaining.go\<close>. The Redis server is outside the repository: a record of
  commands on its own state, each of which may answer an error text. What the server documents
  for its commands is the locale \<open>redis_kv\<close>. The parser of durations is a parameter as well.
\<close>

section \<open>Redis\<close>

record 's redis =
  rd_get :: "string \<Rightarrow> 's \<Rightarrow> (string + int64 option) \<times> 's"
  rd_set :: "string \<Rightarrow> int64 \<Rightarrow> duration \<Rightarrow> 's \<Rightarrow> string option \<times> 's"
  rd_decr :: "string \<Rightarrow> 's \<Rightarrow> string option \<times> 's"
  rd_incr :: "string \<Rightarrow> 's \<Rightarrow> string option \<times> 's"
  rd_del :: "string \<Rightarrow> 's \<Rightarrow> string option \<times> 's"

text \<open>
  The documented effect of each command that answers without an error, on the map of the counters
  the server holds: a missing key counts as 0 for \<open>DECR\<close> and \<open>INCR\<close>.
\<close>

locale redis_kv =
  fixes r :: "'s redis" and view :: "'s \<Rightarrow> string \<rightharpoonup> int64"
  assumes get_ok: "rd_get r k s = (Inr v, s') \<Longrightarrow> v = view s k \<and> view s' = view s"
    and set_ok: "rd_set r k n ttl s = (None, s') \<Longrightarrow> view s' = (view s)(k \<mapsto> n)"
    and decr_ok: "rd_decr r k s = (None, s') \<Longrightarrow>
      view s' = (view s)(k \<mapsto> (case view s k of None \<Rightarrow> 0 | Some n \<Rightarrow> n) - 1)"
    and incr_ok: "rd_incr r k s = (None, s') \<Longrightarrow>
      view s' = (view s)(k \<mapsto> (case view s k of None \<Rightarrow> 0 | Some n \<Rightarrow> n) + 1)"
    and del_ok: "rd_del r k s = (None, s') \<Longrightarrow> view s' = (view s)(k := None)"

text \<open>A server that answers every command.\<close>

locale redis_up = redis_kv +
  assumes get_up: "isl (fst (rd_get r k s)) = False"
    and set_up: "fst (rd_set r k n ttl s) = None"
    and decr_up: "fst (rd_decr r k s) = None"
    and incr_up: "fst (rd_incr r k s) = None"

section \<open>Counters\<close>

definition credKey :: "string \<Rightarrow> string" where "credKey i = ''pbreq:cred:'' @ i"
definition tokKey :: "string \<Rightarrow> string" where "tokKey jti = ''pbreq:tok:'' @ jti"

definition CredKey :: "string \<Rightarrow> string" where "CredKey i = credKey i"
definition TokKey :: "string \<Rightarrow> string" where "TokKey jti = tokKey jti"

lemmas key_defs = credKey_def tokKey_def CredKey_def TokKey_def

lemma keys_differ [simp]: "TokKey a \<noteq> CredKey b" "CredKey b \<noteq> TokKey a"
  by (simp_all add: key_defs)

lemma keys_inj [simp]: "(TokKey a = TokKey b) = (a = b)" "(CredKey a = CredKey b) = (a = b)"
  by (simp_all add: key_defs)

definition Seed :: "'s redis \<Rightarrow> string \<Rightarrow> int64 \<Rightarrow> duration \<Rightarrow> 's \<Rightarrow> string option \<times> 's" where
  "Seed r key value ttl s = (if ttl > 0 then rd_set r key value ttl s else rd_set r key value 0 s)"

definition SeedCredential :: "'s redis \<Rightarrow> string \<Rightarrow> int64 \<Rightarrow> 's \<Rightarrow> string option \<times> 's" where
  "SeedCredential r i value s = Seed r (credKey i) value 0 s"

definition SeedToken :: "'s redis \<Rightarrow> string \<Rightarrow> int64 \<Rightarrow> duration \<Rightarrow> 's \<Rightarrow> string option \<times> 's" where
  "SeedToken r jti value tokenTTL s = Seed r (tokKey jti) value (tokenTTL + Minute) s"

definition DecrOK :: int where "DecrOK = 1"
definition DecrExhausted :: int where "DecrExhausted = 0"
definition DecrNoCap :: int where "DecrNoCap = - 1"

lemmas decr_defs = DecrOK_def DecrExhausted_def DecrNoCap_def

lemma decr_distinct [simp]:
  "DecrOK \<noteq> DecrExhausted" "DecrExhausted \<noteq> DecrOK" "DecrNoCap \<noteq> DecrExhausted"
  "DecrExhausted \<noteq> DecrNoCap" "DecrOK \<noteq> DecrNoCap" "DecrNoCap \<noteq> DecrOK"
  by (simp_all add: decr_defs)

text \<open>The Lua script, which the server runs as one command.\<close>

definition decrementScript :: "'s redis \<Rightarrow> string \<Rightarrow> 's \<Rightarrow> (string + int) \<times> 's" where
  "decrementScript r key s =
     (case rd_get r key s of
        (Inl e, s1) \<Rightarrow> (Inl e, s1)
      | (Inr None, s1) \<Rightarrow> (Inr (- 1), s1)
      | (Inr (Some n), s1) \<Rightarrow>
          if n \<le> 0 then (Inr 0, s1)
          else (case rd_decr r key s1 of
                  (Some e, s2) \<Rightarrow> (Inl e, s2)
                | (None, s2) \<Rightarrow> (Inr 1, s2)))"

definition Decrement :: "'s redis \<Rightarrow> string \<Rightarrow> 's \<Rightarrow> (int \<times> string option) \<times> 's" where
  "Decrement r key s =
     (case decrementScript r key s of
        (Inl e, s1) \<Rightarrow> ((DecrNoCap, Some e), s1)
      | (Inr v, s1) \<Rightarrow> ((v, None), s1))"

definition Undo :: "'s redis \<Rightarrow> string \<Rightarrow> 's \<Rightarrow> string option \<times> 's" where
  "Undo r key s = rd_incr r key s"

definition Read :: "'s redis \<Rightarrow> string \<Rightarrow> 's \<Rightarrow> (string + int64) \<times> 's" where
  "Read r key s =
     (case rd_get r key s of
        (Inl e, s1) \<Rightarrow> (Inl e, s1)
      | (Inr None, s1) \<Rightarrow> (Inr (- 1), s1)
      | (Inr (Some n), s1) \<Rightarrow> (Inr n, s1))"

definition Delete :: "'s redis \<Rightarrow> string \<Rightarrow> 's \<Rightarrow> string option \<times> 's" where
  "Delete r key s = rd_del r key s"

section \<open>Rows and refills\<close>

record credential_row =
  crow_id :: string
  crow_remaining :: "int64 option"
  crow_refill_amount :: "int64 option"
  crow_refill_interval :: "string option"
  crow_last_refill_at :: "gotime option"
  crow_created_at :: gotime

record token_row =
  trow_jti :: string
  trow_expires_at :: gotime
  trow_remaining :: "int64 option"
  trow_refill_amount :: "int64 option"
  trow_refill_interval :: "string option"
  trow_last_refill_at :: "gotime option"
  trow_created_at :: gotime

record 's counter_st =
  ct_rdb :: 's
  ct_creds :: "credential_row list"
  ct_toks :: "token_row list"
  ct_now :: gotime

datatype counter_error =
    ErrLoading string
  | ErrInvalidInterval string
  | ErrReseeding string

text \<open>
  The optimistic update: only rows whose last refill is still the one that was read. It answers
  the number of rows it changed.
\<close>

definition cred_unchanged :: "string \<Rightarrow> gotime \<Rightarrow> gotime \<Rightarrow> credential_row \<Rightarrow> bool" where
  "cred_unchanged i lastRefill createdAt c \<longleftrightarrow> crow_id c = i
     \<and> (crow_last_refill_at c = Some lastRefill
        \<or> (crow_last_refill_at c = None \<and> lastRefill = createdAt))"

definition update_cred ::
  "string \<Rightarrow> gotime \<Rightarrow> gotime \<Rightarrow> int64 \<Rightarrow> gotime \<Rightarrow> 's counter_st \<Rightarrow> nat \<times> 's counter_st" where
  "update_cred i lastRefill createdAt amount now st =
     (length (filter (cred_unchanged i lastRefill createdAt) (ct_creds st)),
      st\<lparr>ct_creds := map (\<lambda>c. if cred_unchanged i lastRefill createdAt c
           then c\<lparr>crow_remaining := Some amount, crow_last_refill_at := Some now\<rparr> else c) (ct_creds st)\<rparr>)"

definition CheckAndRefillCredential ::
  "'s redis \<Rightarrow> (string \<Rightarrow> string + duration) \<Rightarrow> string \<Rightarrow> 's counter_st
     \<Rightarrow> (bool \<times> counter_error option) \<times> 's counter_st" where
  "CheckAndRefillCredential r pdur i st =
     (case find (\<lambda>c. crow_id c = i) (ct_creds st) of
        None \<Rightarrow> ((False, Some (ErrLoading ''record not found'')), st)
      | Some cred \<Rightarrow>
          (case (crow_refill_amount cred, crow_refill_interval cred) of
             (Some amount, Some ivl) \<Rightarrow>
               (case pdur ivl of
                  Inl e \<Rightarrow> ((False, Some (ErrInvalidInterval e)), st)
                | Inr interval \<Rightarrow>
                    let now = ct_now st;
                        lastRefill = (case crow_last_refill_at cred of
                                        None \<Rightarrow> crow_created_at cred | Some t \<Rightarrow> t)
                    in if time_sub now lastRefill < interval then ((False, None), st)
                       else
                         let (rows, st1) = update_cred i lastRefill (crow_created_at cred) amount now st
                         in if rows = 0 then ((False, None), st1)
                            else
                              (case SeedCredential r i amount (ct_rdb st1) of
                                 (Some e, s2) \<Rightarrow> ((True, Some (ErrReseeding e)), st1\<lparr>ct_rdb := s2\<rparr>)
                               | (None, s2) \<Rightarrow> ((True, None), st1\<lparr>ct_rdb := s2\<rparr>)))
           | _ \<Rightarrow> ((False, None), st)))"

definition tok_unchanged :: "string \<Rightarrow> gotime \<Rightarrow> gotime \<Rightarrow> token_row \<Rightarrow> bool" where
  "tok_unchanged jti lastRefill createdAt t \<longleftrightarrow> trow_jti t = jti
     \<and> (trow_last_refill_at t = Some lastRefill
        \<or> (trow_last_refill_at t = None \<and> lastRefill = createdAt))"

definition update_tok ::
  "string \<Rightarrow> gotime \<Rightarrow> gotime \<Rightarrow> int64 \<Rightarrow> gotime \<Rightarrow> 's counter_st \<Rightarrow> nat \<times> 's counter_st" where
  "update_tok jti lastRefill createdAt amount now st =
     (length (filter (tok_unchanged jti lastRefill createdAt) (ct_toks st)),
      st\<lparr>ct_toks := map (\<lambda>t. if tok_unchanged jti lastRefill createdAt t
           then t\<lparr>trow_remaining := Some amount, trow_last_refill_at := Some now\<rparr> else t) (ct_toks st)\<rparr>)"

definition token_ttl :: "gotime \<Rightarrow> gotime \<Rightarrow> duration" where
  "token_ttl expiresAt now =
     (let ttl = i64 (time_sub expiresAt now + Minute) in if ttl < 0 then Minute else ttl)"

definition CheckAndRefillToken ::
  "'s redis \<Rightarrow> (string \<Rightarrow> string + duration) \<Rightarrow> string \<Rightarrow> 's counter_st
     \<Rightarrow> (bool \<times> counter_error option) \<times> 's counter_st" where
  "CheckAndRefillToken r pdur jti st =
     (case find (\<lambda>t. trow_jti t = jti) (ct_toks st) of
        None \<Rightarrow> ((False, Some (ErrLoading ''record not found'')), st)
      | Some tok \<Rightarrow>
          (case (trow_refill_amount tok, trow_refill_interval tok) of
             (Some amount, Some ivl) \<Rightarrow>
               (case pdur ivl of
                  Inl e \<Rightarrow> ((False, Some (ErrInvalidInterval e)), st)
                | Inr interval \<Rightarrow>
                    let now = ct_now st;
                        lastRefill = (case trow_last_refill_at tok of
                                        None \<Rightarrow> trow_created_at tok | Some t \<Rightarrow> t)
                    in if time_sub now lastRefill < interval then ((False, None), st)
                       else
                         let (rows, st1) = update_tok jti lastRefill (trow_created_at tok) amount now st
                         in if rows = 0 then ((False, None), st1)
                            else
                              (case SeedToken r jti amount (token_ttl (trow_expires_at tok) now) (ct_rdb st1) of
                                 (Some e, s2) \<Rightarrow> ((True, Some (ErrReseeding e)), st1\<lparr>ct_rdb := s2\<rparr>)
                               | (None, s2) \<Rightarrow> ((True, None), st1\<lparr>ct_rdb := s2\<rparr>)))
           | _ \<Rightarrow> ((False, None), st)))"

end
