(* ===== verification/Middleware.thy ===== *)
theory Middleware
  imports Counter Credits
begin

text \<open>
  The gates in front of the proxy: the request caps of \<open>internal/middleware/remaining.go\<close> on the
  counters, and the credit gate of \<open>require_credits.go\<close> on the ledger's balance. A gate passes the
  request to the next handler or answers a status and an error text.
\<close>

section \<open>Definitions\<close>

record TokenClaims =
  cl_OrgID :: string
  cl_CredentialID :: string
  cl_JTI :: string
  cl_TokenType :: string
  cl_IsSystem :: bool

datatype gate = PassOn | Reject nat string

definition StatusUnauthorized :: nat where "StatusUnauthorized = 401"
definition StatusPaymentRequired :: nat where "StatusPaymentRequired = 402"
definition StatusTooManyRequests :: nat where "StatusTooManyRequests = 429"
definition StatusInternalServerError :: nat where "StatusInternalServerError = 500"

definition decr_st :: "'s redis \<Rightarrow> string \<Rightarrow> 's counter_st \<Rightarrow> (int \<times> string option) \<times> 's counter_st" where
  "decr_st r key st = (case Decrement r key (ct_rdb st) of (v, s) \<Rightarrow> (v, st\<lparr>ct_rdb := s\<rparr>))"

definition undo_token :: "'s redis \<Rightarrow> int \<Rightarrow> string \<Rightarrow> 's counter_st \<Rightarrow> 's counter_st" where
  "undo_token r tokResult jti st =
     (if tokResult = DecrOK then st\<lparr>ct_rdb := snd (Undo r (TokKey jti) (ct_rdb st))\<rparr> else st)"

text \<open>The second half of the handler: the credential counter, after the token counter was taken.\<close>

definition credential_check ::
  "'s redis \<Rightarrow> (string \<Rightarrow> string + duration) \<Rightarrow> TokenClaims \<Rightarrow> int \<Rightarrow> 's counter_st \<Rightarrow> gate \<times> 's counter_st"
where
  "credential_check r pdur cl tokResult st =
     (case decr_st r (CredKey (cl_CredentialID cl)) st of
        ((credResult, Some e), st1) \<Rightarrow> (PassOn, undo_token r tokResult (cl_JTI cl) st1)
      | ((credResult, None), st1) \<Rightarrow>
          if credResult = DecrExhausted then
            (case CheckAndRefillCredential r pdur (cl_CredentialID cl) st1 of
               ((refilled, _), st2) \<Rightarrow>
                 if refilled then
                   (case decr_st r (CredKey (cl_CredentialID cl)) st2 of
                      ((_, Some e), st3) \<Rightarrow> (PassOn, undo_token r tokResult (cl_JTI cl) st3)
                    | ((credResult2, None), st3) \<Rightarrow>
                        if credResult2 = DecrExhausted
                        then (Reject StatusTooManyRequests ''credential request cap exhausted'',
                              undo_token r tokResult (cl_JTI cl) st3)
                        else (PassOn, st3))
                 else (Reject StatusTooManyRequests ''credential request cap exhausted'',
                       undo_token r tokResult (cl_JTI cl) st2))
          else (PassOn, st1))"

definition RemainingCheck ::
  "'s redis \<Rightarrow> (string \<Rightarrow> string + duration) \<Rightarrow> TokenClaims option \<Rightarrow> 's counter_st \<Rightarrow> gate \<times> 's counter_st"
where
  "RemainingCheck r pdur claims st =
     (case claims of
        None \<Rightarrow> (PassOn, st)
      | Some cl \<Rightarrow>
          (case decr_st r (TokKey (cl_JTI cl)) st of
             ((_, Some e), st1) \<Rightarrow> (PassOn, st1)
           | ((tokResult, None), st1) \<Rightarrow>
               if tokResult = DecrExhausted then
                 (case CheckAndRefillToken r pdur (cl_JTI cl) st1 of
                    ((refilled, _), st2) \<Rightarrow>
                      if refilled then
                        (case decr_st r (TokKey (cl_JTI cl)) st2 of
                           ((_, Some e), st3) \<Rightarrow> (PassOn, st3)
                         | ((tokResult2, None), st3) \<Rightarrow>
                             if tokResult2 = DecrExhausted
                             then (Reject StatusTooManyRequests ''token request cap exhausted'', st3)
                             else credential_check r pdur cl tokResult2 st3)
                      else (Reject StatusTooManyRequests ''token request cap exhausted'', st2))
               else credential_check r pdur cl tokResult st1))"

text \<open>The credit gate; the lookup of the balance is the ledger's, its parser of ids a parameter.\<close>

definition RequireCredits ::
  "(uuid \<Rightarrow> 'e + int64) \<Rightarrow> (string \<Rightarrow> uuid option) \<Rightarrow> TokenClaims option \<Rightarrow> gate" where
  "RequireCredits balance uparse claims =
     (case claims of
        None \<Rightarrow> Reject StatusUnauthorized ''missing auth claims''
      | Some cl \<Rightarrow>
          if \<not> cl_IsSystem cl then PassOn
          else (case uparse (cl_OrgID cl) of
                  None \<Rightarrow> Reject StatusUnauthorized ''invalid org id''
                | Some org \<Rightarrow>
                    (case balance org of
                       Inl e \<Rightarrow> Reject StatusInternalServerError ''failed to read credit balance''
                     | Inr b \<Rightarrow> if b \<le> 0 then Reject StatusPaymentRequired ''insufficient credits''
                               else PassOn)))"

section \<open>One decrement\<close>

context redis_kv
begin

lemma Decrement_cases:
  assumes "Decrement r k s = ((v, None), s')"
  shows "(v = DecrNoCap \<and> view s k = None \<and> view s' = view s)
    \<or> (v = DecrExhausted \<and> (\<exists>n. view s k = Some n \<and> n \<le> 0) \<and> view s' = view s)
    \<or> (v = DecrOK \<and> (\<exists>n. view s k = Some n \<and> 0 < n \<and> view s' = (view s)(k \<mapsto> n - 1)))"
proof -
  obtain g s1 where g: "rd_get r k s = (g, s1)" by (cases "rd_get r k s")
  show ?thesis
  proof (cases g)
    case (Inl e)
    then show ?thesis using assms g by (simp add: Decrement_def decrementScript_def)
  next
    case (Inr o1)
    note go = get_ok [OF g [unfolded Inr]]
    show ?thesis
    proof (cases o1)
      case None
      then show ?thesis using assms g Inr go
        by (auto simp: Decrement_def decrementScript_def decr_defs)
    next
      case (Some n)
      obtain e s2 where d: "rd_decr r k s1 = (e, s2)" by (cases "rd_decr r k s1")
      show ?thesis
      proof (cases "n \<le> 0")
        case True
        then show ?thesis using assms g Inr Some go
          by (auto simp: Decrement_def decrementScript_def decr_defs)
      next
        case False
        then have e: "e = None" and v: "v = 1" "s' = s2"
          using assms g Inr Some d by (auto simp: Decrement_def decrementScript_def split: option.splits)
        have "view s2 = (view s1)(k \<mapsto> (case view s1 k of None \<Rightarrow> 0 | Some n \<Rightarrow> n) - 1)"
          using decr_ok d e by simp
        moreover have "view s k = Some n" using go Some by simp
        ultimately show ?thesis using v go False by (auto simp: decr_defs)
      qed
    qed
  qed
qed

lemma Undo_ok: "Undo r k s = (None, s') \<Longrightarrow> view s k = Some n \<Longrightarrow> view s' = (view s)(k \<mapsto> n + 1)"
  using incr_ok by (simp add: Undo_def)

end

context redis_up
begin

lemma Decrement_up: "snd (fst (Decrement r k s)) = None"
proof -
  obtain g s1 where g: "rd_get r k s = (g, s1)" by (cases "rd_get r k s")
  obtain e s2 where d: "rd_decr r k s1 = (e, s2)" by (cases "rd_decr r k s1")
  have "\<not> isl g" "e = None" using get_up [of k s] decr_up [of k s1] g d by simp_all
  then show ?thesis
    using g d by (cases g) (auto simp: Decrement_def decrementScript_def split: option.splits)
qed

lemma Undo_up: "view s k = Some n \<Longrightarrow> view (snd (Undo r k s)) = (view s)(k \<mapsto> n + 1)"
  using incr_up [of k s] Undo_ok [of k s "snd (rd_incr r k s)" n]
  by (simp add: Undo_def prod_eq_iff)

end

section \<open>Without refills\<close>

definition no_refill :: "'s counter_st \<Rightarrow> bool" where
  "no_refill st \<longleftrightarrow> list_all (\<lambda>t. trow_refill_amount t = None) (ct_toks st)
     \<and> list_all (\<lambda>c. crow_refill_amount c = None) (ct_creds st)"

lemma no_refill_token: "no_refill st \<Longrightarrow>
    \<exists>e. CheckAndRefillToken r pdur jti st = ((False, e), st)"
  by (auto simp: CheckAndRefillToken_def no_refill_def list_all_iff split: option.splits dest!: find_SomeD)

lemma no_refill_credential: "no_refill st \<Longrightarrow>
    \<exists>e. CheckAndRefillCredential r pdur i st = ((False, e), st)"
  by (auto simp: CheckAndRefillCredential_def no_refill_def list_all_iff split: option.splits dest!: find_SomeD)

lemma no_refill_rdb [simp]: "no_refill (st\<lparr>ct_rdb := s\<rparr>) = no_refill st"
  by (simp add: no_refill_def)

lemma no_refill_undo [simp]: "no_refill (undo_token r v jti st) = no_refill st"
  by (simp add: undo_token_def)

definition spent :: "int64 option \<Rightarrow> int64 option" where "spent = map_option (\<lambda>n. n - 1)"

definition has_cap :: "int64 option \<Rightarrow> bool" where
  "has_cap v \<longleftrightarrow> (case v of None \<Rightarrow> True | Some n \<Rightarrow> 0 < n)"

context redis_up
begin

lemma decr_st_up:
  obtains v s' where "decr_st r k st = ((v, None), st\<lparr>ct_rdb := s'\<rparr>)"
    "(v = DecrExhausted) = (\<not> has_cap (view (ct_rdb st) k))"
    "(v = DecrOK) = (\<exists>n. view (ct_rdb st) k = Some n \<and> 0 < n)"
    "view s' = (if has_cap (view (ct_rdb st) k)
       then (view (ct_rdb st))(k := spent (view (ct_rdb st) k)) else view (ct_rdb st))"
proof -
  obtain v e s' where d: "Decrement r k (ct_rdb st) = ((v, e), s')" by (metis prod.collapse)
  have "e = None" using Decrement_up [of k "ct_rdb st"] d by simp
  note c = Decrement_cases [OF d [unfolded this]]
  show thesis
    by (rule that [of v s']) (use c d \<open>e = None\<close> in \<open>auto simp: decr_st_def has_cap_def spent_def fun_eq_iff\<close>)
qed

lemma credential_check_up:
  assumes "no_refill st" and w: "view (ct_rdb st) = w" and cv: "w (CredKey (cl_CredentialID cl)) = cv"
    and tok: "tokResult = DecrOK \<Longrightarrow> \<exists>n. w (TokKey (cl_JTI cl)) = Some n"
  obtains st' where "no_refill st'"
    "credential_check r pdur cl tokResult st =
       (if has_cap cv then PassOn
        else Reject StatusTooManyRequests ''credential request cap exhausted'', st')"
    "view (ct_rdb st') =
       (if has_cap cv then w(CredKey (cl_CredentialID cl) := spent cv)
        else if tokResult = DecrOK
        then w(TokKey (cl_JTI cl) := map_option (\<lambda>n. n + 1) (w (TokKey (cl_JTI cl))))
        else w)"
proof -
  let ?k = "CredKey (cl_CredentialID cl)"
  obtain v s' where d: "decr_st r ?k st = ((v, None), st\<lparr>ct_rdb := s'\<rparr>)"
    "(v = DecrExhausted) = (\<not> has_cap cv)"
    "view s' = (if has_cap cv then w(?k := spent cv) else w)"
    unfolding w [symmetric] cv [symmetric] by (rule decr_st_up)
  show thesis
  proof (cases "has_cap cv")
    case True
    then show thesis using assms(1) d by (intro that [of "st\<lparr>ct_rdb := s'\<rparr>"]) (simp_all add: credential_check_def)
  next
    case False
    obtain e where e: "CheckAndRefillCredential r pdur (cl_CredentialID cl) (st\<lparr>ct_rdb := s'\<rparr>)
        = ((False, e), st\<lparr>ct_rdb := s'\<rparr>)"
      using no_refill_credential [of "st\<lparr>ct_rdb := s'\<rparr>"] assms(1) by fastforce
    show thesis
    proof (cases "tokResult = DecrOK")
      case True
      obtain n where n: "view s' (TokKey (cl_JTI cl)) = Some n" using tok [OF True] d(3) False by auto
      show thesis
        by (rule that [of "undo_token r tokResult (cl_JTI cl) (st\<lparr>ct_rdb := s'\<rparr>)"])
          (use assms(1) d e False True n Undo_up [OF n] in \<open>simp_all add: credential_check_def undo_token_def\<close>)
    next
      case notok: False
      show thesis
        by (rule that [of "st\<lparr>ct_rdb := s'\<rparr>"])
          (use assms(1) d e False notok in \<open>simp_all add: credential_check_def undo_token_def\<close>)
    qed
  qed
qed

lemma RemainingCheck_up:
  assumes "no_refill st"
    and tv_def: "tv = view (ct_rdb st) (TokKey (cl_JTI cl))"
    and cv_def: "cv = view (ct_rdb st) (CredKey (cl_CredentialID cl))"
  obtains g st' where "RemainingCheck r pdur (Some cl) st = (g, st')" "no_refill st'"
    "(g = PassOn) = (has_cap tv \<and> has_cap cv)"
    "view (ct_rdb st') = (if g = PassOn
       then (view (ct_rdb st))(TokKey (cl_JTI cl) := spent tv, CredKey (cl_CredentialID cl) := spent cv)
       else view (ct_rdb st))"
proof -
  let ?k = "TokKey (cl_JTI cl)"
  obtain v s' where d: "decr_st r ?k st = ((v, None), st\<lparr>ct_rdb := s'\<rparr>)"
    "(v = DecrExhausted) = (\<not> has_cap tv)" "(v = DecrOK) = (\<exists>n. tv = Some n \<and> 0 < n)"
    "view s' = (if has_cap tv then (view (ct_rdb st))(?k := spent tv) else view (ct_rdb st))"
    unfolding tv_def by (rule decr_st_up)
  show thesis
  proof (cases "has_cap tv")
    case False
    obtain e where "CheckAndRefillToken r pdur (cl_JTI cl) (st\<lparr>ct_rdb := s'\<rparr>) = ((False, e), st\<lparr>ct_rdb := s'\<rparr>)"
      using no_refill_token [of "st\<lparr>ct_rdb := s'\<rparr>"] assms(1) by fastforce
    then show thesis
      using assms(1) d False
      by (intro that [of "Reject StatusTooManyRequests ''token request cap exhausted''" "st\<lparr>ct_rdb := s'\<rparr>"])
        (simp_all add: RemainingCheck_def)
  next
    case True
    let ?st1 = "st\<lparr>ct_rdb := s'\<rparr>"
    have cv': "view s' (CredKey (cl_CredentialID cl)) = cv" using d(4) True by (simp add: cv_def)
    obtain st' where st': "no_refill st'"
      "credential_check r pdur cl v ?st1 = (if has_cap cv then PassOn
        else Reject StatusTooManyRequests ''credential request cap exhausted'', st')"
      "view (ct_rdb st') = (if has_cap cv then (view s')(CredKey (cl_CredentialID cl) := spent cv)
        else if v = DecrOK then (view s')(?k := map_option (\<lambda>n. n + 1) (view s' ?k)) else view s')"
      by (rule credential_check_up [of ?st1 "view s'" cl cv v pdur])
        (use assms(1) d True cv' in \<open>auto simp: spent_def\<close>)
    have "view (ct_rdb st') = view (ct_rdb st)" if "\<not> has_cap cv"
      using st'(3) d(3,4) that True
      by (cases tv) (auto simp: spent_def has_cap_def tv_def fun_eq_iff)
    then show thesis
      by (intro that [of "fst (credential_check r pdur cl v ?st1)" st'])
        (use d st' True in \<open>simp_all add: RemainingCheck_def\<close>)
  qed
qed

end

end
