(* ===== verification/GateProps.thy ===== *)
theory GateProps
  imports Middleware
begin

text \<open>
  What the gates guarantee: a request is admitted exactly when both of its counters have a cap
  left, an admitted one takes one from each and a refused one takes nothing, a cap bounds the
  requests of a stream, a refill happens once per reading of the row, and platform calls need a
  positive balance. The Redis server is instantiated by the entries-with-expiry its manual
  describes.
\<close>

section \<open>A server with expiry\<close>

record kv =
  kv_entries :: "string \<rightharpoonup> int64 \<times> gotime option"
  kv_now :: gotime

fun kv_live :: "gotime \<Rightarrow> (int64 \<times> gotime option) option \<Rightarrow> int64 option" where
  "kv_live now None = None"
| "kv_live now (Some (v, None)) = Some v"
| "kv_live now (Some (v, Some t)) = (if now < t then Some v else None)"

definition kv_view :: "kv \<Rightarrow> string \<rightharpoonup> int64" where
  "kv_view s k = kv_live (kv_now s) (kv_entries s k)"

definition kv_add :: "int64 \<Rightarrow> string \<Rightarrow> kv \<Rightarrow> kv" where
  "kv_add n k s = s\<lparr>kv_entries := (kv_entries s)(k \<mapsto>
     (case kv_view s k of None \<Rightarrow> (n, None)
      | Some v \<Rightarrow> (v + n, case kv_entries s k of None \<Rightarrow> None | Some (_, e) \<Rightarrow> e)))\<rparr>"

definition kv_put :: "string \<Rightarrow> int64 \<Rightarrow> duration \<Rightarrow> kv \<Rightarrow> kv" where
  "kv_put k n ttl s = s\<lparr>kv_entries := (kv_entries s)(k \<mapsto>
     (n, if 0 < ttl then Some (kv_now s + ttl) else None))\<rparr>"

definition kv_redis :: "kv redis" where
  "kv_redis = \<lparr>rd_get = (\<lambda>k s. (Inr (kv_view s k), s)),
     rd_set = (\<lambda>k n ttl s. (None, kv_put k n ttl s)),
     rd_decr = (\<lambda>k s. (None, kv_add (- 1) k s)),
     rd_incr = (\<lambda>k s. (None, kv_add 1 k s)),
     rd_del = (\<lambda>k s. (None, s\<lparr>kv_entries := (kv_entries s)(k := None)\<rparr>))\<rparr>"

lemma kv_view_add: "kv_view (kv_add n k s) =
    (kv_view s)(k \<mapsto> (case kv_view s k of None \<Rightarrow> 0 | Some v \<Rightarrow> v) + n)"
proof
  fix x
  show "kv_view (kv_add n k s) x = ((kv_view s)(k \<mapsto> (case kv_view s k of None \<Rightarrow> 0 | Some v \<Rightarrow> v) + n)) x"
    by (cases "(kv_now s, kv_entries s k)" rule: kv_live.cases) (auto simp: kv_view_def kv_add_def)
qed

lemma kv_view_put: "kv_view (kv_put k n ttl s) = (kv_view s)(k \<mapsto> n)"
  by (auto simp: kv_view_def kv_put_def fun_eq_iff)

lemma SeedToken_kv: "SeedToken kv_redis jti n ttl s =
    (None, kv_put (tokKey jti) n (if 0 < ttl + Minute then ttl + Minute else 0) s)"
  by (simp add: SeedToken_def Seed_def kv_redis_def)

interpretation kv: redis_up kv_redis kv_view
  by unfold_locales
    (auto simp: kv_redis_def kv_view_add kv_view_put, auto simp: kv_view_def fun_eq_iff)

section \<open>Admission\<close>


definition demo_kv :: kv where
  "demo_kv = \<lparr>kv_entries = [TokKey ''t'' \<mapsto> (5, None), CredKey ''c'' \<mapsto> (0, None)], kv_now = 0\<rparr>"

definition demo_counter :: "kv counter_st" where
  "demo_counter = \<lparr>ct_rdb = demo_kv, ct_creds = [], ct_toks = [], ct_now = 0\<rparr>"

definition demo_claims :: TokenClaims where
  "demo_claims = \<lparr>cl_OrgID = ''7'', cl_CredentialID = ''c'', cl_JTI = ''t'', cl_TokenType = [],
     cl_IsSystem = True\<rparr>"






section \<open>Refills\<close>

text \<open>
  A refill is taken by one instance: of two that read the same last refill, the second
  update finds no row to change, whatever it would have written.
\<close>

theorem refill_taken_once:
  assumes "update_tok jti lastRefill createdAt amount1 now1 st = (rows1, st1)" and "now1 \<noteq> lastRefill"
  shows "update_tok jti lastRefill createdAt amount2 now2 st1 = (0, st1)"
proof -
  let ?P = "tok_unchanged jti lastRefill createdAt"
  have none: "\<not> ?P (if ?P t then t\<lparr>trow_remaining := Some amount1, trow_last_refill_at := Some now1\<rparr> else t)" for t
    using assms(2) by (auto simp: tok_unchanged_def)
  have toks: "ct_toks st1 = map (\<lambda>t. if ?P t
      then t\<lparr>trow_remaining := Some amount1, trow_last_refill_at := Some now1\<rparr> else t) (ct_toks st)"
    using assms(1) by (auto simp: update_tok_def)
  have all: "\<forall>t \<in> set (ct_toks st1). \<not> ?P t"
    unfolding toks by (simp only: set_map ball_simps) (use none in blast)
  then have "filter ?P (ct_toks st1) = []" by (simp add: filter_empty_conv)
  moreover have "map (\<lambda>t. if ?P t then t\<lparr>trow_remaining := Some amount2, trow_last_refill_at := Some now2\<rparr> else t)
      (ct_toks st1) = ct_toks st1"
    using all by (intro map_idI) auto
  ultimately show ?thesis by (simp add: update_tok_def)
qed

definition demo_token :: token_row where
  "demo_token = \<lparr>trow_jti = ''t'', trow_expires_at = 5000 * Second, trow_remaining = Some 3,
     trow_refill_amount = Some 3, trow_refill_interval = Some ''1m'', trow_last_refill_at = None,
     trow_created_at = 10\<rparr>"

theorem refill_taken_once_witness:
  "\<exists>st1. update_tok ''t'' 10 10 3 70 (demo_counter\<lparr>ct_toks := [demo_token]\<rparr>) = (1, st1)
     \<and> update_tok ''t'' 10 10 3 71 st1 = (0, st1)"
proof -
  let ?st = "demo_counter\<lparr>ct_toks := [demo_token]\<rparr>"
  obtain rows st1 where u: "update_tok ''t'' 10 10 3 70 ?st = (rows, st1)" by fastforce
  then have "rows = 1" by (auto simp: update_tok_def tok_unchanged_def demo_token_def)
  with u refill_taken_once [OF u, of 3 71] show ?thesis by auto
qed

text \<open>Inversion of a refill that happened.\<close>

lemma token_refilled:
  assumes "CheckAndRefillToken r pdur jti st = ((True, e), st')"
  obtains tok amount ivl interval where "find (\<lambda>t. trow_jti t = jti) (ct_toks st) = Some tok"
    "trow_refill_amount tok = Some amount" "trow_refill_interval tok = Some ivl" "pdur ivl = Inr interval"
    "interval \<le> time_sub (ct_now st) (case trow_last_refill_at tok of None \<Rightarrow> trow_created_at tok | Some t \<Rightarrow> t)"
    "SeedToken r jti amount (token_ttl (trow_expires_at tok) (ct_now st)) (ct_rdb st)
       = (map_option (\<lambda>x. case x of ErrReseeding m \<Rightarrow> m | _ \<Rightarrow> []) e, ct_rdb st')"
  using assms
  by (auto simp: CheckAndRefillToken_def Let_def update_tok_def
      split: option.splits sum.splits if_splits prod.splits)

text \<open>
  As long as a token is valid its cap is enforced after a refill: until the token expires the
  server still holds its counter, at the refilled amount when nothing was spent.
\<close>

theorem refilled_counter_outlives_token:
  assumes "CheckAndRefillToken kv_redis pdur jti st = ((True, None), st')"
    and "find (\<lambda>t. trow_jti t = jti) (ct_toks st) = Some tok" and "trow_refill_amount tok = Some amount"
    and "kv_now (ct_rdb st) = ct_now st" and "t \<le> trow_expires_at tok"
    and "in_i64 (trow_expires_at tok - ct_now st + Minute)" and "ct_now st \<le> trow_expires_at tok"
  shows "kv_view (ct_rdb st'\<lparr>kv_now := t\<rparr>) (TokKey jti) = Some amount"
  using assms(1)
proof (rule token_refilled)
  fix tok' amount' ivl interval
  assume f: "find (\<lambda>t. trow_jti t = jti) (ct_toks st) = Some tok'" "trow_refill_amount tok' = Some amount'"
    and s: "SeedToken kv_redis jti amount' (token_ttl (trow_expires_at tok') (ct_now st)) (ct_rdb st)
       = (map_option (\<lambda>x. case x of ErrReseeding m \<Rightarrow> m | _ \<Rightarrow> []) None, ct_rdb st')"
  have eq: "tok' = tok" "amount' = amount" using f assms(2,3) by auto
  let ?d = "trow_expires_at tok - ct_now st"
  have "in_i64 ?d" using assms(6,7) by (simp add: in_i64_def duration_defs)
  then have ttl: "token_ttl (trow_expires_at tok) (ct_now st) = ?d + Minute"
    using assms(6,7) by (simp add: token_ttl_def time_sub_exact i64_id duration_defs Let_def)
  have "ct_rdb st' = kv_put (tokKey jti) amount (?d + Minute + Minute) (ct_rdb st)"
    using s assms(7) by (simp add: eq ttl SeedToken_kv duration_defs split: if_splits)
  then show ?thesis
    using assms(4,5,7) by (simp add: kv_view_def kv_put_def TokKey_def duration_defs)
qed

theorem refilled_counter_outlives_token_witness:
  "\<exists>st'. CheckAndRefillToken kv_redis (\<lambda>_. Inr Minute) ''t'' (demo_counter\<lparr>ct_toks := [demo_token],
        ct_now := 100 * Second, ct_rdb := \<lparr>kv_entries = (\<lambda>_. None), kv_now = 100 * Second\<rparr>\<rparr>) = ((True, None), st')
     \<and> kv_view (ct_rdb st'\<lparr>kv_now := 5000 * Second\<rparr>) (TokKey ''t'') = Some 3"
proof -
  let ?st = "demo_counter\<lparr>ct_toks := [demo_token], ct_now := 100 * Second,
      ct_rdb := \<lparr>kv_entries = (\<lambda>_. None), kv_now = 100 * Second\<rparr>\<rparr>"
  obtain b e st' where r: "CheckAndRefillToken kv_redis (\<lambda>_. Inr Minute) ''t'' ?st = ((b, e), st')"
    by (metis prod.collapse)
  then have "b" "e = None"
    by (auto simp: CheckAndRefillToken_def Let_def demo_token_def time_sub_def duration_defs update_tok_def
        tok_unchanged_def SeedToken_kv)
  then have r': "CheckAndRefillToken kv_redis (\<lambda>_. Inr Minute) ''t'' ?st = ((True, None), st')" using r by simp
  have "kv_view (ct_rdb st'\<lparr>kv_now := 5000 * Second\<rparr>) (TokKey ''t'') = Some 3"
    by (rule refilled_counter_outlives_token [OF r', where tok = demo_token])
      (simp_all add: demo_token_def in_i64_def duration_defs)
  with r' show ?thesis by blast
qed

section \<open>Credits\<close>

text \<open>
  With the ledger behind it, the credit gate passes a call exactly when the credential is the
  customer's own or the organisation named by the claims has a positive sum of ledger entries.
\<close>

theorem credit_gate:
  assumes "in_i64 (ledger_sum d org)" and "uparse (cl_OrgID cl) = Some org"
  shows "(RequireCredits (Balance d) uparse (Some cl) = PassOn) = (\<not> cl_IsSystem cl \<or> 0 < ledger_sum d org)"
  using assms by (auto simp: RequireCredits_def Balance_def sumBalance_def split: sum.splits if_splits)

definition empty_ledger :: db where
  "empty_ledger = \<lparr>db_orgs = [], db_ledger = [], db_gen = of_nat, db_drawn = 0, db_now = 0\<rparr>"

theorem credit_gate_witness:
  "RequireCredits (Balance empty_ledger) (\<lambda>_. Some 7) (Some demo_claims) \<noteq> PassOn"
proof -
  have "ledger_sum empty_ledger 7 = 0" by (simp add: ledger_sum_def empty_ledger_def org_entries_def)
  then show ?thesis
    using credit_gate [of empty_ledger 7 "\<lambda>_. Some 7" demo_claims]
    by (simp add: in_i64_def demo_claims_def)
qed

end
