(* ===== verification/Dispatch.thy ===== *)
theory Dispatch
  imports Complex_Main Prelude Strs
begin

text \<open>
  Webhook dispatch: reference extraction (\<open>internal/trigger/dispatch/refs.go\<close>), trigger
  conditions (\<open>conditions.go\<close>, the types of \<open>internal/model/employee_trigger.go\<close>) and reference
  substitution (\<open>template.go\<close>). A decoded JSON value is a datatype; a JSON number is the
  rational it denotes. The text \<open>fmt\<close> gives a composite or a fractional number, and the
  matcher of regular expressions written by users, are parameters. A Go map is an association
  list in one of its iteration orders.
\<close>

section \<open>JSON values\<close>

datatype json =
    JNull
  | JBool bool
  | JNum rat
  | JStr string
  | JArr "json list"
  | JObj "(string \<times> json) list"

text \<open>A number is printed without a fraction when it survives the conversion to \<open>int64\<close>.\<close>

definition integral64 :: "rat \<Rightarrow> bool" where
  "integral64 x \<longleftrightarrow> of_int (floor x) = x \<and> in_i64 (floor x)"

fun stringifyScalar :: "(json \<Rightarrow> string) \<Rightarrow> json \<Rightarrow> string" where
  "stringifyScalar fmtv JNull = []"
| "stringifyScalar fmtv (JStr s) = s"
| "stringifyScalar fmtv (JBool b) = (if b then ''true'' else ''false'')"
| "stringifyScalar fmtv (JNum x) = (if integral64 x then show_int (floor x) else fmtv (JNum x))"
| "stringifyScalar fmtv v = fmtv v"

section \<open>Paths\<close>

fun lookup_segments :: "json \<Rightarrow> string list \<Rightarrow> json option" where
  "lookup_segments current [] = Some current"
| "lookup_segments (JObj kvs) (seg # segs) =
     (case map_of kvs seg of None \<Rightarrow> None | Some v \<Rightarrow> lookup_segments v segs)"
| "lookup_segments (JArr xs) (seg # segs) =
     (case atoi seg of
        None \<Rightarrow> None
      | Some i \<Rightarrow> if i < 0 \<or> int (length xs) \<le> i then None else lookup_segments (xs ! nat i) segs)"
| "lookup_segments _ (seg # segs) = None"

definition lookupPath :: "(string \<times> json) list \<Rightarrow> string \<Rightarrow> json option" where
  "lookupPath payload path =
     (if path = [] then None else lookup_segments (JObj payload) (split_on (CHR ''.'') path))"

text \<open>\<open>strings.Split(s, "||")\<close>: leftmost separators, not overlapping.\<close>

fun split_bars :: "string \<Rightarrow> string list" where
  "split_bars [] = [[]]"
| "split_bars [c] = [[c]]"
| "split_bars (c # d # cs) =
     (if c = CHR ''|'' \<and> d = CHR ''|'' then [] # split_bars cs
      else (case split_bars (d # cs) of [] \<Rightarrow> [[c]] | w # ws \<Rightarrow> (c # w) # ws))"

definition splitFallbackPaths :: "string \<Rightarrow> string list" where
  "splitFallbackPaths rawPath =
     (if \<not> str_contains rawPath ''||'' then
        (let trimmed = trim_space rawPath in if trimmed = [] then [] else [trimmed])
      else filter (\<lambda>p. p \<noteq> []) (map trim_space (split_bars rawPath)))"

definition quote_char :: char where "quote_char = CHR 0x27"

definition parseLiteral :: "string \<Rightarrow> string option" where
  "parseLiteral e =
     (if length e < 2 then None
      else if hd e \<noteq> quote_char \<or> last e \<noteq> quote_char then None
      else let body = butlast (tl e) in if str_contains body [quote_char] then None else Some body)"

record conditionalLiteral =
  cd_path :: string
  cd_ifPresent :: string
  cd_ifAbsent :: string

definition parseConditionalLiteral :: "string \<Rightarrow> conditionalLiteral option" where
  "parseConditionalLiteral e =
     (if length e < 2 \<or> hd e \<noteq> CHR ''?'' then None
      else case splitn_on 3 (CHR '':'') (tl e) of
        [p0, p1, p2] \<Rightarrow>
          let path = trim_space p0 in
          if path = [] then None
          else Some \<lparr>cd_path = path, cd_ifPresent = trim_space p1, cd_ifAbsent = trim_space p2\<rparr>
      | _ \<Rightarrow> None)"

fun resolve_paths :: "(string \<times> json) list \<Rightarrow> string list \<Rightarrow> json option" where
  "resolve_paths payload [] = None"
| "resolve_paths payload (path # paths) =
     (case parseLiteral path of
        Some literal \<Rightarrow> Some (JStr literal)
      | None \<Rightarrow>
          (case parseConditionalLiteral path of
             Some cond \<Rightarrow>
               if lookupPath payload (cd_path cond) \<noteq> None then
                 (if cd_ifPresent cond \<noteq> [] then Some (JStr (cd_ifPresent cond))
                  else resolve_paths payload paths)
               else if cd_ifAbsent cond \<noteq> [] then Some (JStr (cd_ifAbsent cond))
               else resolve_paths payload paths
           | None \<Rightarrow>
               (case lookupPath payload path of
                  None \<Rightarrow> resolve_paths payload paths
                | Some v \<Rightarrow>
                    if v = JNull \<or> v = JStr [] then resolve_paths payload paths else Some v)))"

definition resolveRefPath :: "(string \<times> json) list \<Rightarrow> string \<Rightarrow> json option" where
  "resolveRefPath payload rawPath = resolve_paths payload (splitFallbackPaths rawPath)"

fun extractRefs ::
  "(json \<Rightarrow> string) \<Rightarrow> (string \<times> json) list \<Rightarrow> (string \<times> string) list
     \<Rightarrow> (string \<times> string) list \<times> string list" where
  "extractRefs fmtv payload [] = ([], [])"
| "extractRefs fmtv payload ((refName, rawPath) # defs) =
     (let (refs, missing) = extractRefs fmtv payload defs in
      case resolveRefPath payload rawPath of
        None \<Rightarrow> (refs, (refName @ ''='' @ rawPath) # missing)
      | Some v \<Rightarrow> ((refName, stringifyScalar fmtv v) # refs, missing))"

section \<open>Conditions\<close>

record TriggerCondition =
  tc_Path :: string
  tc_Operator :: string
  tc_Value :: json

record TriggerMatch =
  tm_Mode :: string
  tm_Conditions :: "TriggerCondition list"

definition toScalarString :: "(json \<Rightarrow> string) \<Rightarrow> json \<Rightarrow> string" where
  "toScalarString fmtv v =
     (case v of
        JNull \<Rightarrow> []
      | JStr s \<Rightarrow> s
      | JBool b \<Rightarrow> if b then ''true'' else ''false''
      | JNum x \<Rightarrow> if integral64 x then show_int (floor x) else fmtv (JNum x)
      | _ \<Rightarrow> stringifyScalar fmtv v)"

definition toStringSlice :: "(json \<Rightarrow> string) \<Rightarrow> json \<Rightarrow> string list" where
  "toStringSlice fmtv v =
     (case v of
        JNull \<Rightarrow> []
      | JArr xs \<Rightarrow> map (toScalarString fmtv) xs
      | _ \<Rightarrow> [toScalarString fmtv v])"

text \<open>\<open>rx pattern text\<close> is \<open>None\<close> when the pattern does not compile.\<close>

definition evaluateCondition ::
  "(json \<Rightarrow> string) \<Rightarrow> (string \<Rightarrow> string \<Rightarrow> bool option) \<Rightarrow> TriggerCondition
     \<Rightarrow> (string \<times> json) list \<Rightarrow> bool" where
  "evaluateCondition fmtv rx cond payload =
     (let raw = lookupPath payload (tc_Path cond); oper = tc_Operator cond in
      if oper = ''exists'' then raw \<noteq> None \<and> raw \<noteq> Some JNull
      else if oper = ''not_exists'' then raw = None \<or> raw = Some JNull
      else case raw of
        None \<Rightarrow> False
      | Some v \<Rightarrow>
          let pathValue = stringifyScalar fmtv v; value = toScalarString fmtv (tc_Value cond) in
          if oper = ''equals'' then pathValue = value
          else if oper = ''not_equals'' then pathValue \<noteq> value
          else if oper = ''one_of'' then list_ex (\<lambda>x. pathValue = x) (toStringSlice fmtv (tc_Value cond))
          else if oper = ''not_one_of'' then
            \<not> list_ex (\<lambda>x. pathValue = x) (toStringSlice fmtv (tc_Value cond))
          else if oper = ''contains'' then str_contains pathValue value
          else if oper = ''not_contains'' then \<not> str_contains pathValue value
          else if oper = ''matches'' then (case rx value pathValue of None \<Rightarrow> False | Some b \<Rightarrow> b)
          else False)"

definition failed_reason :: "nat \<Rightarrow> TriggerCondition \<Rightarrow> string" where
  "failed_reason index cond =
     ''condition '' @ show_nat index @ '' ('' @ tc_Path cond @ '' '' @ tc_Operator cond @ '') failed''"

fun evaluate_all ::
  "(TriggerCondition \<Rightarrow> bool) \<Rightarrow> nat \<Rightarrow> TriggerCondition list \<Rightarrow> string \<times> bool" where
  "evaluate_all ev index [] = ([], True)"
| "evaluate_all ev index (cond # conds) =
     (if \<not> ev cond then (failed_reason index cond, False) else evaluate_all ev (Suc index) conds)"

fun evaluate_any ::
  "(TriggerCondition \<Rightarrow> bool) \<Rightarrow> nat \<Rightarrow> string \<Rightarrow> TriggerCondition list \<Rightarrow> string \<times> bool" where
  "evaluate_any ev index lastReason [] = (''no conditions matched (any mode); '' @ lastReason, False)"
| "evaluate_any ev index lastReason (cond # conds) =
     (if ev cond then ([], True) else evaluate_any ev (Suc index) (failed_reason index cond) conds)"

definition evaluateConditions ::
  "(json \<Rightarrow> string) \<Rightarrow> (string \<Rightarrow> string \<Rightarrow> bool option) \<Rightarrow> (string \<Rightarrow> string) \<Rightarrow> TriggerMatch option
     \<Rightarrow> (string \<times> json) list \<Rightarrow> string \<times> bool" where
  "evaluateConditions fmtv rx quoted mt payload =
     (case mt of
        None \<Rightarrow> ([], True)
      | Some m \<Rightarrow>
          if tm_Conditions m = [] then ([], True)
          else
            let mode = (if tm_Mode m = [] then ''all'' else tm_Mode m);
                ev = (\<lambda>c. evaluateCondition fmtv rx c payload)
            in if mode = ''all'' then evaluate_all ev 0 (tm_Conditions m)
               else if mode = ''any'' then evaluate_any ev 0 [] (tm_Conditions m)
               else (''invalid match mode '' @ quoted mode, False))"

section \<open>Substitution\<close>

text \<open>
  The two expressions of the source, as matchers: each answers the name it captured and the rest
  of the text behind the match. Both are deterministic: the classes on the two sides of every
  repetition are disjoint, so the longest repetition is the only one that can match.
\<close>

definition is_word :: "char \<Rightarrow> bool" where
  "is_word c \<longleftrightarrow> (let n = (of_char c :: nat) in
     (48 \<le> n \<and> n \<le> 57) \<or> (65 \<le> n \<and> n \<le> 90) \<or> n = 95 \<or> (97 \<le> n \<and> n \<le> 122))"

definition is_re_space :: "char \<Rightarrow> bool" where
  "is_re_space c \<longleftrightarrow> c \<in> {CHR '' '', CHR 0x09, CHR 0x0A, CHR 0x0C, CHR 0x0D}"

definition bareRefRegex :: "string \<Rightarrow> (string \<times> string) option" where
  "bareRefRegex s =
     (if has_prefix s ''$refs.'' then
        (let w = takeWhile is_word (drop 6 s); rest = dropWhile is_word (drop 6 s)
         in if w = [] then None else Some (w, rest))
      else None)"

definition mustacheRefRegex :: "string \<Rightarrow> (string \<times> string) option" where
  "mustacheRefRegex s =
     (if has_prefix s ''{{'' then
        (case bareRefRegex (dropWhile is_re_space (drop 2 s)) of
           None \<Rightarrow> None
         | Some (w, rest) \<Rightarrow>
             let rest1 = dropWhile is_re_space rest
             in if has_prefix rest1 ''}}'' then Some (w, drop 2 rest1) else None)
      else None)"

datatype ref_pattern = MustacheRef | BareRef

fun match_ref :: "ref_pattern \<Rightarrow> string \<Rightarrow> (string \<times> string) option" where
  "match_ref MustacheRef s = mustacheRefRegex s"
| "match_ref BareRef s = bareRefRegex s"

lemma has_prefix_length: "has_prefix s p \<Longrightarrow> length p \<le> length s"
  by (metis has_prefix_def length_take min.absorb_iff2 min.commute)

lemma length_dropWhile_drop: "length (dropWhile p (drop n s)) \<le> length s - n"
  by (metis length_drop length_dropWhile_le)

lemma bareRefRegex_shorter: "bareRefRegex s = Some (w, rest) \<Longrightarrow> length rest < length s"
  using has_prefix_length [of s "''$refs.''"] length_dropWhile_drop [of is_word 6 s]
  by (auto simp: bareRefRegex_def Let_def split: if_splits)

lemma mustacheRefRegex_shorter:
  assumes "mustacheRefRegex s = Some (w, rest)" shows "length rest < length s"
proof -
  obtain rest0 where b: "bareRefRegex (dropWhile is_re_space (drop 2 s)) = Some (w, rest0)"
    "rest = drop 2 (dropWhile is_re_space rest0)"
    using assms by (auto simp: mustacheRefRegex_def Let_def split: if_splits option.splits)
  have "length rest \<le> length rest0" using b(2) length_dropWhile_le [of is_re_space rest0] by simp
  also have "\<dots> < length (dropWhile is_re_space (drop 2 s))" by (rule bareRefRegex_shorter [OF b(1)])
  also have "\<dots> \<le> length s" using length_dropWhile_drop [of is_re_space 2 s] by linarith
  finally show ?thesis .
qed

lemma match_ref_shorter: "match_ref p s = Some (w, rest) \<Longrightarrow> length rest < length s"
  by (cases p) (auto intro: bareRefRegex_shorter mustacheRefRegex_shorter)

text \<open>\<open>ReplaceAllStringFunc\<close>: leftmost matches, a name without a value left in place.\<close>

function replace_refs :: "ref_pattern \<Rightarrow> (string \<times> string) list \<Rightarrow> string \<Rightarrow> string" where
  "replace_refs p refs s =
     (case s of
        [] \<Rightarrow> []
      | c # cs \<Rightarrow>
          (case match_ref p s of
             None \<Rightarrow> c # replace_refs p refs cs
           | Some (w, rest) \<Rightarrow>
               (case map_of refs w of Some v \<Rightarrow> v | None \<Rightarrow> take (length s - length rest) s)
                 @ replace_refs p refs rest))"
  by pat_completeness auto
termination
  by (relation "measure (\<lambda>(p, refs, s). length s)") (auto dest: match_ref_shorter)

declare replace_refs.simps [simp del]

definition substituteRefs :: "string \<Rightarrow> (string \<times> string) list \<Rightarrow> string" where
  "substituteRefs input refs =
     (if input = [] \<or> refs = [] then input
      else replace_refs BareRef refs (replace_refs MustacheRef refs input))"

end
