(* ===== verification/DispatchProps.thy ===== *)
theory DispatchProps
  imports Dispatch
begin

text \<open>
  What dispatch guarantees: paths reach the values they name, extraction does not depend on the
  order of the map, a literal at the end of a fallback list always resolves, conditions and their
  negations are complementary, and substitution replaces exactly the references it knows.
\<close>

section \<open>Paths\<close>

datatype path_elem = PKey string | PIdx nat

fun segment :: "path_elem \<Rightarrow> string" where
  "segment (PKey k) = k"
| "segment (PIdx n) = show_nat n"

fun nest :: "path_elem list \<Rightarrow> json \<Rightarrow> json" where
  "nest [] v = v"
| "nest (PKey k # ps) v = JObj [(k, nest ps v)]"
| "nest (PIdx n # ps) v = JArr (replicate n JNull @ [nest ps v])"

fun elem_ok :: "path_elem \<Rightarrow> bool" where
  "elem_ok (PKey k) = (CHR ''.'' \<notin> set k)"
| "elem_ok (PIdx n) = (int n < 2 ^ 63)"

lemma show_nat_no_dot: "CHR ''.'' \<notin> set (show_nat n)"
  using show_nat_digits [of n] by (auto simp: list_all_iff is_digit_def)

lemma segment_no_dot: "elem_ok e \<Longrightarrow> CHR ''.'' \<notin> set (segment e)"
  by (cases e) (auto simp: show_nat_no_dot)

lemma lookup_segments_nest:
  "list_all elem_ok ps \<Longrightarrow> lookup_segments (nest ps v) (map segment ps) = Some v"
proof (induction ps)
  case (Cons p ps)
  then show ?case by (cases p) (auto simp: atoi_show_nat nth_append)
qed simp

text \<open>
  A dotted path reaches the value it names: in a payload nested along any keys without a dot
  and any array positions, the path of these keys and positions finds exactly the innermost value.
\<close>

theorem lookup_reaches:
  assumes "list_all elem_ok (PKey k # ps)" and "k \<noteq> [] \<or> ps \<noteq> []"
  shows "lookupPath [(k, nest ps v)] (str_join ''.'' (map segment (PKey k # ps))) = Some v"
proof -
  let ?segs = "map segment (PKey k # ps)"
  have "split_on (CHR ''.'') (str_join ''.'' ?segs) = ?segs"
    using assms(1) segment_no_dot by (intro split_on_join) (auto simp: list_all_iff)
  moreover have "str_join ''.'' ?segs \<noteq> []" using assms(2) by (cases ps) auto
  ultimately show ?thesis
    using assms(1) lookup_segments_nest [of ps v] by (simp add: lookupPath_def)
qed

theorem lookup_reaches_witness:
  "lookupPath [(''pull_requests'', nest [PIdx 1, PKey ''number''] (JNum 42))] ''pull_requests.1.number''
     = Some (JNum 42)"
proof -
  have "str_join ''.'' (map segment [PKey ''pull_requests'', PIdx 1, PKey ''number'']) = ''pull_requests.1.number''"
    by code_simp
  then show ?thesis
    using lookup_reaches [of "''pull_requests''" "[PIdx 1, PKey ''number'']" "JNum 42"] by simp
qed

section \<open>References\<close>

lemma extractRefs_filter:
  "extractRefs fmtv payload defs =
     (map (\<lambda>(n, p). (n, stringifyScalar fmtv (the (resolveRefPath payload p))))
        (filter (\<lambda>(n, p). resolveRefPath payload p \<noteq> None) defs),
      map (\<lambda>(n, p). n @ ''='' @ p) (filter (\<lambda>(n, p). resolveRefPath payload p = None) defs))"
  by (induction defs) (auto split: option.splits)

text \<open>
  The extraction does not depend on the iteration order of the definitions: for the same
  definitions in any two orders, the map of references is the same and the same definitions are
  reported missing.
\<close>

theorem extract_order_independent:
  assumes "mset defs = mset defs'" and "distinct (map fst defs)"
  shows "map_of (fst (extractRefs fmtv payload defs)) = map_of (fst (extractRefs fmtv payload defs'))
    \<and> mset (snd (extractRefs fmtv payload defs)) = mset (snd (extractRefs fmtv payload defs'))"
proof
  let ?f = "\<lambda>(n, p). (n, stringifyScalar fmtv (the (resolveRefPath payload p)))"
  let ?P = "\<lambda>(n, p). resolveRefPath payload p \<noteq> None"
  have fst: "map fst (map ?f xs) = map fst xs" for xs :: "(string \<times> string) list"
    by (induction xs) auto
  have dist: "distinct (map fst (fst (extractRefs fmtv payload ds)))" if "distinct (map fst ds)" for ds
    using that by (simp only: extractRefs_filter fst_conv fst) (simp add: distinct_map_filter)
  have "distinct (map fst defs')"
    using assms by (metis mset_eq_imp_distinct_iff mset_map)
  moreover have "set (fst (extractRefs fmtv payload defs)) = set (fst (extractRefs fmtv payload defs'))"
    using mset_eq_setD [OF assms(1)] by (simp add: extractRefs_filter)
  ultimately show "map_of (fst (extractRefs fmtv payload defs)) = map_of (fst (extractRefs fmtv payload defs'))"
    using dist assms(2) map_of_inject_set by blast
  have "mset (filter P defs) = mset (filter P defs')" for P
    using assms(1) by (metis mset_filter)
  then show "mset (snd (extractRefs fmtv payload defs)) = mset (snd (extractRefs fmtv payload defs'))"
    by (simp only: extractRefs_filter snd_conv mset_map)
qed

theorem extract_order_independent_witness:
  "map_of (fst (extractRefs (\<lambda>_. []) [(''a'', JStr ''x'')] [(''r'', ''a''), (''q'', ''b'')]))
     = map_of (fst (extractRefs (\<lambda>_. []) [(''a'', JStr ''x'')] [(''q'', ''b''), (''r'', ''a'')]))"
  using extract_order_independent [of "[(''r'', ''a''), (''q'', ''b'')]" "[(''q'', ''b''), (''r'', ''a'')]"
      "\<lambda>_. []" "[(''a'', JStr ''x'')]"] by simp

lemma resolve_paths_literal:
  "paths \<noteq> [] \<Longrightarrow> parseLiteral (last paths) \<noteq> None \<Longrightarrow> resolve_paths payload paths \<noteq> None"
proof (induction paths)
  case (Cons p paths)
  then show ?case by (cases "paths = []") (auto split: option.splits)
qed simp

text \<open>
  A fallback list that ends in a quoted literal always resolves, whatever the payload holds.
\<close>

theorem literal_fallback_total:
  assumes "splitFallbackPaths rawPath \<noteq> []" and "parseLiteral (last (splitFallbackPaths rawPath)) \<noteq> None"
  shows "\<exists>v. resolveRefPath payload rawPath = Some v"
  using resolve_paths_literal [OF assms, of payload] by (auto simp: resolveRefPath_def)

theorem literal_fallback_total_witness:
  "\<exists>v. resolveRefPath [(''issue'', JNull)] (''issue.pull_request || '' @ quote_char # ''none'' @ [quote_char]) = Some v"
proof -
  have "splitFallbackPaths (''issue.pull_request || '' @ quote_char # ''none'' @ [quote_char])
      = [''issue.pull_request'', quote_char # ''none'' @ [quote_char]]" by code_simp
  moreover have "parseLiteral (quote_char # ''none'' @ [quote_char]) = Some ''none''" by code_simp
  ultimately show ?thesis using literal_fallback_total by simp
qed

text \<open>
  The conditional literal takes the value for "present" also when the path holds a JSON null
  or an empty text: it looks at the presence of the key only.
\<close>

theorem conditional_literal_null_is_present:
  "resolveRefPath [(''pr'', JNull)] ''?pr:pull:issue'' = Some (JStr ''pull'')
   \<and> resolveRefPath [(''pr'', JStr [])] ''?pr:pull:issue'' = Some (JStr ''pull'')
   \<and> resolveRefPath [] ''?pr:pull:issue'' = Some (JStr ''issue'')"
  by code_simp

section \<open>Conditions\<close>

definition negations :: "(string \<times> string) list" where
  "negations = [(''equals'', ''not_equals''), (''one_of'', ''not_one_of''), (''contains'', ''not_contains'')]"

definition evaluate_op where
  "evaluate_op fmtv rx path oper v payload =
     evaluateCondition fmtv rx \<lparr>tc_Path = path, tc_Operator = oper, tc_Value = v\<rparr> payload"

lemmas evaluate_op_unfold = evaluate_op_def evaluateCondition_def Let_def

lemma evaluate_exists:
  "evaluate_op fmtv rx path ''not_exists'' v payload = (\<not> evaluate_op fmtv rx path ''exists'' v payload)"
  by (auto simp: evaluate_op_unfold)

lemma evaluate_missing:
  "lookupPath payload path = None \<Longrightarrow> oper \<notin> {''exists'', ''not_exists''} \<Longrightarrow>
     \<not> evaluate_op fmtv rx path oper v payload"
  by (simp add: evaluate_op_unfold)

lemma evaluate_found:
  assumes "lookupPath payload path = Some w"
  shows "evaluate_op fmtv rx path ''not_equals'' v payload = (\<not> evaluate_op fmtv rx path ''equals'' v payload)"
    and "evaluate_op fmtv rx path ''not_one_of'' v payload = (\<not> evaluate_op fmtv rx path ''one_of'' v payload)"
    and "evaluate_op fmtv rx path ''not_contains'' v payload = (\<not> evaluate_op fmtv rx path ''contains'' v payload)"
  by (simp_all add: evaluate_op_unfold assms)

text \<open>
  An operator and its negation are complementary on a path the payload has, and both fail on
  one it lacks; presence and absence are complementary always.
\<close>

theorem condition_negation:
  assumes "(oper, neg) \<in> set negations"
  shows "(if lookupPath payload path = None
      then \<not> evaluate_op fmtv rx path oper v payload \<and> \<not> evaluate_op fmtv rx path neg v payload
      else evaluate_op fmtv rx path neg v payload = (\<not> evaluate_op fmtv rx path oper v payload))
    \<and> evaluate_op fmtv rx path ''not_exists'' v payload = (\<not> evaluate_op fmtv rx path ''exists'' v payload)"
proof -
  have "oper \<notin> {''exists'', ''not_exists''}" "neg \<notin> {''exists'', ''not_exists''}"
    using assms by (auto simp: negations_def)
  moreover have "lookupPath payload path = Some w \<Longrightarrow>
      evaluate_op fmtv rx path neg v payload = (\<not> evaluate_op fmtv rx path oper v payload)" for w
    using assms evaluate_found [of payload path w fmtv rx v] unfolding negations_def by fastforce
  ultimately show ?thesis
    using evaluate_missing evaluate_exists by (cases "lookupPath payload path") auto
qed

theorem condition_negation_witness:
  "evaluate_op (\<lambda>_. []) (\<lambda>_ _. None) ''a'' ''not_equals'' (JStr ''y'') [(''a'', JStr ''x'')]
   = (\<not> evaluate_op (\<lambda>_. []) (\<lambda>_ _. None) ''a'' ''equals'' (JStr ''y'') [(''a'', JStr ''x'')])"
proof -
  have "(''equals'', ''not_equals'') \<in> set negations" by (simp add: negations_def)
  moreover have "lookupPath [(''a'', JStr ''x'')] ''a'' \<noteq> None" by code_simp
  ultimately show ?thesis
    using condition_negation [of "''equals''" "''not_equals''" "[(''a'', JStr ''x'')]" "''a''" "\<lambda>_. []"
        "\<lambda>_ _. None" "JStr ''y''"] by auto
qed

lemma evaluate_all_snd: "snd (evaluate_all ev n cs) = list_all ev cs"
  by (induction cs arbitrary: n) auto

lemma evaluate_any_snd: "snd (evaluate_any ev n l cs) = list_ex ev cs"
  by (induction cs arbitrary: n l) auto

lemma evaluate_all_reason: "(fst (evaluate_all ev n cs) = []) = list_all ev cs"
  by (induction cs arbitrary: n) (auto simp: failed_reason_def)

text \<open>
  A match passes when it has no conditions, when all of them hold in the mode "all" (the
  default), or when one holds in the mode "any"; any other mode fails. It fails with a reason
  and passes without one.
\<close>

theorem conditions_combine:
  "(fst (evaluateConditions fmtv rx quoted (Some m) payload) = [])
     = snd (evaluateConditions fmtv rx quoted (Some m) payload)
   \<and> snd (evaluateConditions fmtv rx quoted (Some m) payload) =
     (let ev = (\<lambda>c. evaluateCondition fmtv rx c payload) in
       tm_Conditions m = []
       \<or> (tm_Mode m \<in> {[], ''all''} \<and> list_all ev (tm_Conditions m))
       \<or> (tm_Mode m = ''any'' \<and> list_ex ev (tm_Conditions m)))"
proof -
  have any: "(fst (evaluate_any ev n l cs) = []) = list_ex ev cs" for ev n l cs
    by (induction cs arbitrary: n l) auto
  show ?thesis
    by (auto simp: evaluateConditions_def Let_def evaluate_all_snd evaluate_any_snd evaluate_all_reason any)
qed

section \<open>Substitution\<close>






lemma replace_refs_Nil [simp]: "replace_refs p refs [] = []"
  by (simp add: replace_refs.simps)










lemma special_chars [simp]: "\<not> is_word (CHR ''}'')" "\<not> is_re_space (CHR ''}'')" "\<not> is_re_space (CHR ''$'')"
  "\<not> is_word (CHR ''$'')" "\<not> is_re_space (CHR ''{'')"
  by (simp_all add: is_word_def is_re_space_def)









end
