(* ===== verification/WarmPool.thy ===== *)
theory WarmPool
  imports Prelude Strs
begin

text \<open>
  The pool of warm sandboxes: \<open>internal/sandbox/warm_pool.go\<close>, \<open>warm_pool_check.go\<close>,
  \<open>orchestrator_warm_claim.go\<close>, the row of \<open>internal/model/sandbox_warm_slot.go\<close> and the tasks of
  \<open>internal/tasks/sandbox_warm_pool.go\<close>. The sandbox provider, the health probe of a runtime, the
  cipher, the source of secrets and the task queue are functions on a world of their own.
\<close>

section \<open>Rows and environment\<close>

definition ModeEmployee :: string where "ModeEmployee = ''employee''"
definition ModeSpecialist :: string where "ModeSpecialist = ''specialist''"

definition SlotWarming :: string where "SlotWarming = ''warming''"
definition SlotWarm :: string where "SlotWarm = ''warm''"
definition SlotClaiming :: string where "SlotClaiming = ''claiming''"
definition SlotClaimed :: string where "SlotClaimed = ''claimed''"
definition SlotDeleting :: string where "SlotDeleting = ''deleting''"
definition SlotError :: string where "SlotError = ''error''"

lemmas slot_status_defs = SlotWarming_def SlotWarm_def SlotClaiming_def SlotClaimed_def
  SlotDeleting_def SlotError_def

record warm_slot =
  ws_id :: uuid
  ws_provider :: string
  ws_mode :: string
  ws_status :: string
  ws_external :: string
  ws_endpoint :: string
  ws_image :: string
  ws_port :: int
  ws_region :: string
  ws_claimed :: "uuid option"
  ws_secret :: string
  ws_error :: "string option"
  ws_created :: gotime

record 'w pool =
  wp_slots :: "warm_slot list"
  wp_gen :: "nat \<Rightarrow> uuid"
  wp_drawn :: nat
  wp_now :: gotime
  wp_world :: 'w

record pool_config =
  cfg_EmployeeSize :: int
  cfg_SpecialistSize :: int
  cfg_BaseImage :: string
  cfg_SpecialistImage :: string
  cfg_RuntimePort :: int
  cfg_Region :: string

record WarmSlotCreateOpts =
  wo_Name :: string
  wo_Mode :: string
  wo_RuntimeImage :: string
  wo_RuntimePort :: int
  wo_RuntimeSecret :: string
  wo_Labels :: "(string \<times> string) list"

record WarmSlotInfo =
  wi_ExternalID :: string
  wi_EndpointURL :: string
  wi_RuntimePort :: int

datatype enqueue_error = ErrDuplicateTask | ErrTaskIDConflict | ErrEnqueue string

datatype warm_task =
    ReconcileTask string string
  | CheckTask string uuid int duration string

record 'w warm_env =
  we_id :: string
  we_config :: pool_config
  we_create :: "WarmSlotCreateOpts \<Rightarrow> 'w \<Rightarrow> (string + WarmSlotInfo) \<times> 'w"
  we_delete :: "string \<Rightarrow> 'w \<Rightarrow> 'w"
  we_status :: "string \<Rightarrow> 'w \<Rightarrow> (string + string) \<times> 'w"
  we_health :: "string \<Rightarrow> 'w \<Rightarrow> string option \<times> 'w"
  we_live :: "string \<Rightarrow> 'w \<Rightarrow> string option \<times> 'w"
  we_secret :: "'w \<Rightarrow> (string + string) \<times> 'w"
  we_name :: "'w \<Rightarrow> string \<times> 'w"
  we_encrypt :: "string \<Rightarrow> string + string"
  we_decrypt :: "string \<Rightarrow> string + string"
  we_enqueue :: "warm_task \<Rightarrow> 'w \<Rightarrow> enqueue_error option \<times> 'w"

definition in_world :: "('w \<Rightarrow> 'a \<times> 'w) \<Rightarrow> 'w pool \<Rightarrow> 'a \<times> 'w pool" where
  "in_world f d = (case f (wp_world d) of (x, w) \<Rightarrow> (x, d\<lparr>wp_world := w\<rparr>))"

definition find_slot :: "'w pool \<Rightarrow> uuid \<Rightarrow> warm_slot option" where
  "find_slot d i = find (\<lambda>s. ws_id s = i) (wp_slots d)"

definition update_slot :: "uuid \<Rightarrow> (warm_slot \<Rightarrow> warm_slot) \<Rightarrow> 'w pool \<Rightarrow> 'w pool" where
  "update_slot i f d = d\<lparr>wp_slots := map (\<lambda>s. if ws_id s = i then f s else s) (wp_slots d)\<rparr>"

section \<open>The pool\<close>

definition DesiredCount :: "'w warm_env \<Rightarrow> string \<Rightarrow> int" where
  "DesiredCount env mode =
     (if mode = ModeEmployee then cfg_EmployeeSize (we_config env)
      else if mode = ModeSpecialist then cfg_SpecialistSize (we_config env)
      else 0)"

definition MarkClaimed :: "uuid \<Rightarrow> 'w pool \<Rightarrow> 'w pool" where
  "MarkClaimed i d = update_slot i (\<lambda>s. s\<lparr>ws_status := SlotClaimed\<rparr>) d"

definition MarkError :: "uuid \<Rightarrow> string \<Rightarrow> 'w pool \<Rightarrow> 'w pool" where
  "MarkError i message d =
     update_slot i (\<lambda>s. s\<lparr>ws_status := SlotError, ws_error := Some message\<rparr>) d"

definition SlotMode :: "'w pool \<Rightarrow> uuid \<Rightarrow> string option" where
  "SlotMode d i = map_option ws_mode (find_slot d i)"

record ClaimedWarmSlot =
  cw_ID :: uuid
  cw_ExternalID :: string
  cw_EndpointURL :: string
  cw_RuntimeSecret :: string

definition no_slots_text :: "string \<Rightarrow> string" where
  "no_slots_text mode = ''no warm '' @ mode @ '' sandbox slots available''"

text \<open>The oldest warm slot of the mode, locked and marked in one transaction.\<close>

definition Claim ::
  "'w warm_env \<Rightarrow> string \<Rightarrow> uuid \<Rightarrow> 'w pool \<Rightarrow> (string + ClaimedWarmSlot) \<times> 'w pool" where
  "Claim env mode sandboxID d =
     (case sort_key (\<lambda>s. (ws_created s, ws_id s))
             (filter (\<lambda>s. ws_provider s = we_id env \<and> ws_mode s = mode \<and> ws_status s = SlotWarm)
                (wp_slots d)) of
        [] \<Rightarrow> (Inl (no_slots_text mode), d)
      | s # _ \<Rightarrow>
          let d1 = update_slot (ws_id s)
                     (\<lambda>r. r\<lparr>ws_status := SlotClaiming, ws_claimed := Some sandboxID, ws_error := None\<rparr>) d
          in (case we_decrypt env (ws_secret s) of
                Inl e \<Rightarrow> (Inl e, MarkError (ws_id s) (''decrypt runtime secret: '' @ e) d1)
              | Inr token \<Rightarrow>
                  (Inr \<lparr>cw_ID = ws_id s, cw_ExternalID = ws_external s, cw_EndpointURL = ws_endpoint s,
                        cw_RuntimeSecret = token\<rparr>, d1)))"

definition runtimeImage :: "'w warm_env \<Rightarrow> string \<Rightarrow> string" where
  "runtimeImage env mode =
     (if mode = ModeSpecialist then trim_space (cfg_SpecialistImage (we_config env))
      else trim_space (cfg_BaseImage (we_config env)))"

text \<open>
  A new slot: the provider's resource first, then the row; a row the unique index refuses takes
  the resource down again.
\<close>

definition insert_slot :: "warm_slot \<Rightarrow> 'w pool \<Rightarrow> (string + uuid) \<times> 'w pool" where
  "insert_slot s d =
     (if ws_id s \<in> ws_id ` set (wp_slots d)
        \<or> list_ex (\<lambda>r. ws_provider r = ws_provider s \<and> ws_external r = ws_external s) (wp_slots d)
      then (Inl ''duplicate key value violates unique constraint'', d)
      else (Inr (ws_id s), d\<lparr>wp_slots := wp_slots d @ [s], wp_drawn := Suc (wp_drawn d)\<rparr>))"

definition provision :: "'w warm_env \<Rightarrow> string \<Rightarrow> 'w pool \<Rightarrow> (string + uuid) \<times> 'w pool" where
  "provision env mode d =
     (case in_world (we_secret env) d of
        (Inl e, d1) \<Rightarrow> (Inl (''generate runtime secret: '' @ e), d1)
      | (Inr runtimeSecret, d1) \<Rightarrow>
          (case we_encrypt env runtimeSecret of
             Inl e \<Rightarrow> (Inl (''encrypt runtime secret: '' @ e), d1)
           | Inr encrypted \<Rightarrow>
               let image = runtimeImage env mode; (name, d2) = in_world (we_name env) d1 in
               (case in_world (we_create env
                        \<lparr>wo_Name = ''hivy-'' @ mode @ ''-warm-'' @ name, wo_Mode = mode,
                         wo_RuntimeImage = image, wo_RuntimePort = cfg_RuntimePort (we_config env),
                         wo_RuntimeSecret = runtimeSecret,
                         wo_Labels = [(''mode'', mode), (''provider'', we_id env)]\<rparr>) d2 of
                  (Inl e, d3) \<Rightarrow> (Inl e, d3)
                | (Inr info, d3) \<Rightarrow>
                    (case insert_slot
                            \<lparr>ws_id = wp_gen d3 (wp_drawn d3), ws_provider = we_id env, ws_mode = mode,
                             ws_status = SlotWarming, ws_external = wi_ExternalID info,
                             ws_endpoint = wi_EndpointURL info, ws_image = image,
                             ws_port = wi_RuntimePort info, ws_region = cfg_Region (we_config env),
                             ws_claimed = None, ws_secret = encrypted, ws_error = None,
                             ws_created = wp_now d3\<rparr> d3 of
                       (Inl e, d4) \<Rightarrow>
                         (Inl e, d4\<lparr>wp_world := we_delete env (wi_ExternalID info) (wp_world d4)\<rparr>)
                     | (Inr i, d4) \<Rightarrow> (Inr i, d4)))))"

definition available_slot :: "'w warm_env \<Rightarrow> string \<Rightarrow> warm_slot \<Rightarrow> bool" where
  "available_slot env mode s \<longleftrightarrow> ws_provider s = we_id env \<and> ws_mode s = mode
     \<and> (ws_status s = SlotWarm \<or> ws_status s = SlotWarming)"

text \<open>
  \<open>onCreated\<close> may fail; the loops stop at the first error and answer what was created so far.
\<close>

type_synonym 'w on_created = "uuid \<Rightarrow> 'w pool \<Rightarrow> string option \<times> 'w pool"

fun create_slots ::
  "'w warm_env \<Rightarrow> string \<Rightarrow> 'w on_created \<Rightarrow> nat \<Rightarrow> uuid list \<Rightarrow> 'w pool
     \<Rightarrow> (uuid list \<times> string option) \<times> 'w pool" where
  "create_slots env mode onCreated 0 created d = ((created, None), d)"
| "create_slots env mode onCreated (Suc n) created d =
     (case provision env mode d of
        (Inl e, d1) \<Rightarrow> ((created, Some e), d1)
      | (Inr i, d1) \<Rightarrow>
          (case onCreated i d1 of
             (Some e, d2) \<Rightarrow> ((created @ [i], Some e), d2)
           | (None, d2) \<Rightarrow> create_slots env mode onCreated n (created @ [i]) d2))"

fun revisit_slots ::
  "'w on_created \<Rightarrow> warm_slot list \<Rightarrow> uuid list \<Rightarrow> 'w pool \<Rightarrow> (uuid list \<times> string option) \<times> 'w pool"
where
  "revisit_slots onCreated [] created d = ((created, None), d)"
| "revisit_slots onCreated (s # ss) created d =
     (if ws_id s \<in> set created then revisit_slots onCreated ss created d
      else (case onCreated (ws_id s) d of
              (Some e, d1) \<Rightarrow> ((created @ [ws_id s], Some e), d1)
            | (None, d1) \<Rightarrow> revisit_slots onCreated ss (created @ [ws_id s]) d1))"

definition Reconcile ::
  "'w warm_env \<Rightarrow> string \<Rightarrow> 'w on_created \<Rightarrow> 'w pool \<Rightarrow> (uuid list \<times> string option) \<times> 'w pool" where
  "Reconcile env mode onCreated d =
     (let desired = DesiredCount env mode in
      if desired \<le> 0 then (([], None), d)
      else
        let available = int (length (filter (available_slot env mode) (wp_slots d)))
        in (case create_slots env mode onCreated (nat (desired - available)) [] d of
              ((created, Some e), d1) \<Rightarrow> ((created, Some e), d1)
            | ((created, None), d1) \<Rightarrow>
                revisit_slots onCreated
                  (filter (\<lambda>s. ws_provider s = we_id env \<and> ws_mode s = mode \<and> ws_status s = SlotWarming)
                     (wp_slots d1)) created d1))"

section \<open>Checking a slot\<close>

record WarmSlotCheckResult =
  wc_Ready :: bool
  wc_Pending :: bool

definition idle_check :: WarmSlotCheckResult where "idle_check = \<lparr>wc_Ready = False, wc_Pending = False\<rparr>"
definition pending_check :: WarmSlotCheckResult where "pending_check = \<lparr>wc_Ready = False, wc_Pending = True\<rparr>"
definition ready_check :: WarmSlotCheckResult where "ready_check = \<lparr>wc_Ready = True, wc_Pending = False\<rparr>"

text \<open>
  The check reads the row and probes the provider and the runtime, and then writes its verdict to
  the row, by its id alone and in a statement of its own: the two halves are separate
  definitions, since other operations may run between them.
\<close>

datatype check_verdict =
    VerdictIdle
  | VerdictFault string
  | VerdictPending
  | VerdictDown string
  | VerdictReady

definition probe_slot :: "'w warm_env \<Rightarrow> warm_slot \<Rightarrow> 'w pool \<Rightarrow> check_verdict \<times> 'w pool" where
  "probe_slot env s d =
     (if ws_status s \<noteq> SlotWarming then (VerdictIdle, d)
      else
        (case in_world (we_status env (ws_external s)) d of
           (Inl e, d1) \<Rightarrow> (VerdictFault e, d1)
         | (Inr st, d1) \<Rightarrow>
             if st = ''running'' then
               (case in_world (we_health env (ws_endpoint s)) d1 of
                  (Some _, d2) \<Rightarrow> (VerdictPending, d2)
                | (None, d2) \<Rightarrow> (VerdictReady, d2))
             else if st = ''creating'' \<or> st = ''starting'' then (VerdictPending, d1)
             else if st \<in> {''stopped'', ''archived'', ''archiving'', ''error''} then (VerdictDown st, d1)
             else (VerdictPending, d1)))"

fun commit_check ::
  "warm_slot \<Rightarrow> check_verdict \<Rightarrow> 'w pool \<Rightarrow> (WarmSlotCheckResult option \<times> string option) \<times> 'w pool" where
  "commit_check s VerdictIdle d = ((Some idle_check, None), d)"
| "commit_check s (VerdictFault e) d = ((None, Some e), d)"
| "commit_check s VerdictPending d = ((Some pending_check, None), d)"
| "commit_check s (VerdictDown st) d =
     ((Some idle_check, Some (''warm slot '' @ ws_external s @ '' entered '' @ st)),
      MarkError (ws_id s) (''provider status '' @ st) d)"
| "commit_check s VerdictReady d =
     ((Some ready_check, None), update_slot (ws_id s) (\<lambda>r. r\<lparr>ws_status := SlotWarm, ws_error := None\<rparr>) d)"

definition CheckWarmSlot ::
  "'w warm_env \<Rightarrow> uuid \<Rightarrow> 'w pool \<Rightarrow> (WarmSlotCheckResult option \<times> string option) \<times> 'w pool" where
  "CheckWarmSlot env slotID d =
     (case find_slot d slotID of
        None \<Rightarrow> ((None, Some ''record not found''), d)
      | Some s \<Rightarrow> (case probe_slot env s d of (verdict, d1) \<Rightarrow> commit_check s verdict d1))"

section \<open>The tasks\<close>

definition sandboxWarmSlotCheckDelay :: duration where "sandboxWarmSlotCheckDelay = 45 * Second"
definition sandboxWarmSlotMaxChecks :: int where "sandboxWarmSlotMaxChecks = 20"

definition swallow_duplicate :: "enqueue_error option \<Rightarrow> string option" where
  "swallow_duplicate r = (case r of Some (ErrEnqueue e) \<Rightarrow> Some e | _ \<Rightarrow> None)"

definition EnqueueSandboxWarmPoolReconcile ::
  "'w warm_env \<Rightarrow> string \<Rightarrow> string \<Rightarrow> 'w pool \<Rightarrow> string option \<times> 'w pool" where
  "EnqueueSandboxWarmPoolReconcile env providerID mode d =
     (case in_world (we_enqueue env (ReconcileTask providerID mode)) d of
        (r, d1) \<Rightarrow> (swallow_duplicate r, d1))"

definition EnqueueSandboxWarmSlotCheck ::
  "'w warm_env \<Rightarrow> (uuid \<Rightarrow> string) \<Rightarrow> string \<Rightarrow> uuid \<Rightarrow> int \<Rightarrow> duration \<Rightarrow> 'w pool \<Rightarrow> string option \<times> 'w pool"
where
  "EnqueueSandboxWarmSlotCheck env ustr providerID slotID attempt delay d =
     (case in_world (we_enqueue env (CheckTask providerID slotID attempt delay
             (''sandbox-warm-slot-check:'' @ ustr slotID @ '':'' @ show_int attempt))) d of
        (r, d1) \<Rightarrow> (swallow_duplicate r, d1))"

text \<open>The callback of the reconcile handler: the first check of a slot.\<close>

definition enqueue_first_check :: "'w warm_env \<Rightarrow> (uuid \<Rightarrow> string) \<Rightarrow> string \<Rightarrow> 'w on_created" where
  "enqueue_first_check env ustr providerID slotID d =
     (case EnqueueSandboxWarmSlotCheck env ustr providerID slotID 1 sandboxWarmSlotCheckDelay d of
        (None, d1) \<Rightarrow> (None, d1)
      | (Some e, d1) \<Rightarrow> (Some (''enqueue warm slot check: '' @ e), d1))"

definition ReconcileHandler ::
  "'w warm_env \<Rightarrow> (uuid \<Rightarrow> string) \<Rightarrow> string \<Rightarrow> string \<Rightarrow> 'w pool \<Rightarrow> string option \<times> 'w pool" where
  "ReconcileHandler env ustr providerID mode d =
     (if providerID \<noteq> we_id env then (None, d)
      else
        (case Reconcile env mode (enqueue_first_check env ustr providerID) d of
           ((_, err), d1) \<Rightarrow> (err, d1)))"

definition CheckHandler ::
  "'w warm_env \<Rightarrow> (uuid \<Rightarrow> string) \<Rightarrow> string \<Rightarrow> uuid \<Rightarrow> int \<Rightarrow> 'w pool \<Rightarrow> string option \<times> 'w pool" where
  "CheckHandler env ustr providerID slotID attempt d =
     (if providerID \<noteq> we_id env then (None, d)
      else
        (case CheckWarmSlot env slotID d of
           ((_, Some e), d1) \<Rightarrow> (Some e, d1)
         | ((None, None), d1) \<Rightarrow> (None, d1)
         | ((Some result, None), d1) \<Rightarrow>
             if \<not> wc_Pending result then (None, d1)
             else if attempt \<ge> sandboxWarmSlotMaxChecks then
               let d2 = MarkError slotID
                          (''warm slot did not become ready after '' @ show_int attempt @ '' checks'') d1;
                   d3 = (case SlotMode d2 slotID of
                           None \<Rightarrow> d2
                         | Some mode \<Rightarrow> snd (EnqueueSandboxWarmPoolReconcile env providerID mode d2))
               in (Some (''warm slot '' @ ustr slotID @ '' did not become ready after ''
                         @ show_int attempt @ '' checks''), d3)
             else EnqueueSandboxWarmSlotCheck env ustr providerID slotID (attempt + 1)
                    sandboxWarmSlotCheckDelay d1))"

section \<open>Claiming a runtime\<close>

definition warmRuntimeClaimMaxWait :: duration where "warmRuntimeClaimMaxWait = 2 * Minute"
definition warmRuntimeClaimInitialDelay :: duration where "warmRuntimeClaimInitialDelay = 500000000"
definition warmRuntimeClaimMaxDelay :: duration where "warmRuntimeClaimMaxDelay = 10 * Second"

definition isNoWarmSlotAvailable :: "string \<Rightarrow> bool" where
  "isNoWarmSlotAvailable e \<longleftrightarrow> str_contains e ''no warm '' \<and> str_contains e ''sandbox slots available''"

text \<open>
  What happens while the claim waits: \<open>meanwhile k\<close> is the work of everyone else during the
  \<open>k\<close>-th wait, or \<open>None\<close> when the context is cancelled in it. The clock has moved by the delay
  when the wait ends. A delay is positive in every call from \<open>claimWarmRuntimeSlot\<close>; the test for
  it makes the recursion total.
\<close>

function claim_loop ::
  "'w warm_env \<Rightarrow> (nat \<Rightarrow> 'w pool \<Rightarrow> 'w pool option) \<Rightarrow> string \<Rightarrow> uuid \<Rightarrow> gotime \<Rightarrow> nat \<Rightarrow> duration
     \<Rightarrow> 'w pool \<Rightarrow> (string + ClaimedWarmSlot) \<times> 'w pool" where
  "claim_loop env meanwhile mode sandboxID deadline k delay d =
     (case Claim env mode sandboxID d of
        (Inr claimed, d1) \<Rightarrow> (Inr claimed, d1)
      | (Inl e, d1) \<Rightarrow>
          if \<not> isNoWarmSlotAvailable e then (Inl e, d1)
          else
            let d2 = snd (EnqueueSandboxWarmPoolReconcile env (we_id env) mode d1) in
            if deadline < wp_now d + delay \<or> delay \<le> 0
            then (Inl (''no warm '' @ mode @ '' runtime available after 2m0s: '' @ e), d2)
            else
              (case meanwhile k d2 of
                 None \<Rightarrow> (Inl (''wait for warm '' @ mode @ '' runtime: context canceled: '' @ e), d2)
               | Some d3 \<Rightarrow>
                   claim_loop env meanwhile mode sandboxID deadline (Suc k)
                     (min (2 * delay) warmRuntimeClaimMaxDelay) (d3\<lparr>wp_now := wp_now d + delay\<rparr>)))"
  by pat_completeness auto
termination
  by (relation "measure (\<lambda>(env, meanwhile, mode, sandboxID, deadline, k, delay, d). nat (deadline - wp_now d + 1))")
    auto

declare claim_loop.simps [simp del]

definition claimWarmRuntimeSlot ::
  "'w warm_env \<Rightarrow> (nat \<Rightarrow> 'w pool \<Rightarrow> 'w pool option) \<Rightarrow> string \<Rightarrow> uuid \<Rightarrow> 'w pool
     \<Rightarrow> (string + ClaimedWarmSlot) \<times> 'w pool" where
  "claimWarmRuntimeSlot env meanwhile mode sandboxID d =
     claim_loop env meanwhile mode sandboxID (wp_now d + warmRuntimeClaimMaxWait) 0
       warmRuntimeClaimInitialDelay d"

record sandbox_row =
  sx_id :: uuid
  sx_external :: string
  sx_runtime_url :: string
  sx_url_expires :: "gotime option"
  sx_secret :: string
  sx_status :: string
  sx_last_active :: "gotime option"

text \<open>The claim of a runtime for a sandbox: it answers the sandbox row as it leaves it.\<close>

definition claimWarmRuntime ::
  "'w warm_env \<Rightarrow> duration \<Rightarrow> (nat \<Rightarrow> 'w pool \<Rightarrow> 'w pool option) \<Rightarrow> sandbox_row \<Rightarrow> string \<Rightarrow> 'w pool
     \<Rightarrow> (string option \<times> sandbox_row) \<times> 'w pool" where
  "claimWarmRuntime env runtimeURLTTL meanwhile sb mode d =
     (case claimWarmRuntimeSlot env meanwhile mode (sx_id sb) d of
        (Inl e, d1) \<Rightarrow> ((Some (''claim warm runtime: '' @ e), sb), d1)
      | (Inr claimed, d1) \<Rightarrow>
          (case we_encrypt env (cw_RuntimeSecret claimed) of
             Inl e \<Rightarrow> ((Some (''encrypt claimed runtime secret: '' @ e), sb),
                       MarkError (cw_ID claimed) (''encrypt runtime secret: '' @ e) d1)
           | Inr encrypted \<Rightarrow>
               let now = wp_now d1;
                   sb1 = sb\<lparr>sx_external := cw_ExternalID claimed, sx_runtime_url := cw_EndpointURL claimed,
                            sx_url_expires := Some (now + runtimeURLTTL), sx_secret := encrypted,
                            sx_status := ''running'', sx_last_active := Some now\<rparr>
               in (case in_world (we_live env (sx_runtime_url sb1)) d1 of
                     (Some e, d2) \<Rightarrow> ((Some (''waiting for claimed runtime: '' @ e), sb1),
                                      MarkError (cw_ID claimed) (''runtime health: '' @ e) d2)
                   | (None, d2) \<Rightarrow>
                       ((None, sb1),
                        snd (EnqueueSandboxWarmPoolReconcile env (we_id env) mode
                               (MarkClaimed (cw_ID claimed) d2))))))"

end
