(* ===== verification/WarmPoolProps.thy ===== *)
theory WarmPoolProps
  imports WarmPool
begin

text \<open>
  What the warm pool guarantees: a slot moves forward through its states, so it is handed out
  once as long as each operation runs on its own; a reconcile fills the pool to its size; a claim
  gives up within its two minutes. The last section shows what happens when a check is
  interleaved with a claim.
\<close>

section \<open>States move forward\<close>

definition slot_rank :: "warm_slot \<Rightarrow> nat" where
  "slot_rank s = (if ws_status s = SlotWarming then 0 else if ws_status s = SlotWarm then 1 else 2)"

definition pool_le :: "'w pool \<Rightarrow> 'w pool \<Rightarrow> bool" where
  "pool_le d d' \<longleftrightarrow> (\<forall>i s. find_slot d i = Some s \<longrightarrow>
     (\<exists>s'. find_slot d' i = Some s' \<and> slot_rank s \<le> slot_rank s'))"

definition ids_distinct :: "'w pool \<Rightarrow> bool" where
  "ids_distinct d \<longleftrightarrow> distinct (map ws_id (wp_slots d))"

text \<open>A step that is sound for the pool: ids stay distinct and no slot goes back.\<close>

definition sound_step :: "'w pool \<Rightarrow> 'w pool \<Rightarrow> bool" where
  "sound_step d d' \<longleftrightarrow> (ids_distinct d \<longrightarrow> ids_distinct d') \<and> pool_le d d'"

lemma sound_refl [simp, intro]: "sound_step d d"
  by (simp add: sound_step_def pool_le_def)

lemma sound_trans [trans]: "sound_step a b \<Longrightarrow> sound_step b c \<Longrightarrow> sound_step a c"
proof -
  assume ab: "sound_step a b" and bc: "sound_step b c"
  have "pool_le a c"
    unfolding pool_le_def
  proof (intro allI impI)
    fix i s assume "find_slot a i = Some s"
    then obtain s1 where s1: "find_slot b i = Some s1" "slot_rank s \<le> slot_rank s1"
      using ab unfolding sound_step_def pool_le_def by blast
    then obtain s2 where "find_slot c i = Some s2" "slot_rank s1 \<le> slot_rank s2"
      using bc unfolding sound_step_def pool_le_def by blast
    then show "\<exists>s'. find_slot c i = Some s' \<and> slot_rank s \<le> slot_rank s'"
      using s1(2) by (intro exI [of _ s2]) simp
  qed
  then show ?thesis using ab bc unfolding sound_step_def by blast
qed

lemma sound_same_slots: "wp_slots d' = wp_slots d \<Longrightarrow> sound_step d d'"
  by (simp add: sound_step_def pool_le_def ids_distinct_def find_slot_def)

lemma in_world_slots: "in_world f d = (x, d') \<Longrightarrow> wp_slots d' = wp_slots d"
  by (cases "f (wp_world d)") (auto simp: in_world_def)

lemma in_world_now: "in_world f d = (x, d') \<Longrightarrow> wp_now d' = wp_now d"
  by (cases "f (wp_world d)") (auto simp: in_world_def)

lemma find_slot_update:
  "(\<And>s. ws_id (f s) = ws_id s) \<Longrightarrow> find_slot (update_slot i f d) j =
     (if j = i then map_option f (find_slot d j) else find_slot d j)"
  unfolding find_slot_def update_slot_def by (simp add: find_map_update)

lemma sound_update:
  assumes id: "\<And>s. ws_id (f s) = ws_id s" and rank: "\<And>s. find_slot d i = Some s \<Longrightarrow> slot_rank s \<le> slot_rank (f s)"
  shows "sound_step d (update_slot i f d)"
proof -
  have "map ws_id (map (\<lambda>s. if ws_id s = i then f s else s) xs) = map ws_id xs" for xs
    by (induction xs) (auto simp: id)
  moreover have "wp_slots (update_slot i f d) = map (\<lambda>s. if ws_id s = i then f s else s) (wp_slots d)"
    by (simp add: update_slot_def)
  ultimately have "ids_distinct (update_slot i f d) = ids_distinct d"
    by (simp only: ids_distinct_def)
  then show ?thesis
    using rank by (simp add: sound_step_def pool_le_def find_slot_update [OF id])
qed

lemma sound_MarkError: "sound_step d (MarkError i m d)"
  unfolding MarkError_def by (rule sound_update) (auto simp: slot_rank_def slot_status_defs)

lemma sound_MarkClaimed: "sound_step d (MarkClaimed i d)"
  unfolding MarkClaimed_def by (rule sound_update) (auto simp: slot_rank_def slot_status_defs)

lemma sound_Claim: "Claim env mode sb d = (r, d') \<Longrightarrow> sound_step d d'"
proof -
  assume c: "Claim env mode sb d = (r, d')"
  have up: "sound_step d (update_slot i (\<lambda>r. r\<lparr>ws_status := SlotClaiming, ws_claimed := Some sb, ws_error := None\<rparr>) d)" for i
    by (rule sound_update) (auto simp: slot_rank_def slot_status_defs)
  show ?thesis
    using c up sound_trans [OF up sound_MarkError]
    by (auto simp: Claim_def Let_def split: list.splits sum.splits)
qed

lemma insert_slot_ok: "insert_slot s d = (Inr i, d') \<Longrightarrow>
    i = ws_id s \<and> ws_id s \<notin> ws_id ` set (wp_slots d) \<and> wp_slots d' = wp_slots d @ [s]"
  by (auto simp: insert_slot_def split: if_splits)

lemma insert_slot_error: "insert_slot s d = (Inl e, d') \<Longrightarrow> d' = d"
  by (auto simp: insert_slot_def split: if_splits)

lemma find_append: "find P (xs @ ys) = (case find P xs of None \<Rightarrow> find P ys | Some x \<Rightarrow> Some x)"
  by (induction xs) auto

lemma sound_append:
  assumes "wp_slots d' = wp_slots d @ [s]" and "ws_id s \<notin> ws_id ` set (wp_slots d)"
  shows "sound_step d d'"
  using assms by (auto simp: sound_step_def pool_le_def ids_distinct_def find_slot_def find_append)

lemma provision_cases:
  assumes "provision env mode d = (r, d')"
  shows "(isl r \<and> wp_slots d' = wp_slots d)
    \<or> (\<exists>s. r = Inr (ws_id s) \<and> wp_slots d' = wp_slots d @ [s] \<and> ws_id s \<notin> ws_id ` set (wp_slots d)
        \<and> ws_provider s = we_id env \<and> ws_mode s = mode \<and> ws_status s = SlotWarming)"
  using assms
  by (auto simp: provision_def Let_def split: prod.splits sum.splits
      dest!: insert_slot_ok insert_slot_error in_world_slots)

lemma sound_provision: "provision env mode d = (r, d') \<Longrightarrow> sound_step d d'"
  using provision_cases [of env mode d r d'] by (auto intro: sound_same_slots sound_append)

lemma snd_probe_slots: "wp_slots (snd (probe_slot env s d)) = wp_slots d"
  by (simp add: probe_slot_def in_world_def del: insert_iff split: prod.split sum.split option.split)

lemma probe_slots: "probe_slot env s d = (v, d') \<Longrightarrow> wp_slots d' = wp_slots d"
  using snd_probe_slots [of env s d] by simp

lemma probe_ready: "probe_slot env s d = (VerdictReady, d') \<Longrightarrow> ws_status s = SlotWarming"
  by (auto simp: probe_slot_def split: if_splits)

lemma sound_commit:
  assumes "find_slot d (ws_id s) = Some s" and "v = VerdictReady \<Longrightarrow> ws_status s = SlotWarming"
  shows "sound_step d (snd (commit_check s v d))"
proof (cases v)
  case VerdictReady
  then show ?thesis
    using assms by (auto intro!: sound_update simp: slot_rank_def)
qed (simp_all add: sound_MarkError)

lemma sound_CheckWarmSlot: "CheckWarmSlot env i d = (r, d') \<Longrightarrow> sound_step d d'"
proof -
  assume c: "CheckWarmSlot env i d = (r, d')"
  show ?thesis
  proof (cases "find_slot d i")
    case None
    then show ?thesis using c by (simp add: CheckWarmSlot_def)
  next
    case (Some s)
    obtain v d1 where p: "probe_slot env s d = (v, d1)" by fastforce
    have id: "ws_id s = i" using Some by (auto simp: find_slot_def dest: find_SomeD)
    have "find_slot d1 (ws_id s) = Some s" using Some id probe_slots [OF p] by (simp add: find_slot_def)
    then have "sound_step d1 (snd (commit_check s v d1))"
      using probe_ready p by (intro sound_commit) auto
    then show ?thesis
      using c Some p sound_trans [OF sound_same_slots [OF probe_slots [OF p]]]
      by (simp add: CheckWarmSlot_def)
  qed
qed

lemma enqueue_slots:
  "EnqueueSandboxWarmPoolReconcile env p m d = (r, d') \<Longrightarrow> wp_slots d' = wp_slots d"
  "EnqueueSandboxWarmSlotCheck env ustr p i a dl d = (r', d') \<Longrightarrow> wp_slots d' = wp_slots d"
  by (auto simp: EnqueueSandboxWarmPoolReconcile_def EnqueueSandboxWarmSlotCheck_def
      split: prod.splits dest!: in_world_slots)

lemma sound_enqueue_check: "EnqueueSandboxWarmSlotCheck env ustr p i a dl d = (r, d') \<Longrightarrow> sound_step d d'"
  by (rule sound_same_slots) (rule enqueue_slots(2))

lemma first_check_slots: "wp_slots (snd (enqueue_first_check env ustr p i d)) = wp_slots d"
  by (auto simp: enqueue_first_check_def split: prod.split option.split dest: enqueue_slots(2))

lemma sound_first_check: "sound_step d (snd (enqueue_first_check env ustr p i d))"
  by (rule sound_same_slots) (rule first_check_slots)

lemma sound_enqueue_reconcile: "sound_step d (snd (EnqueueSandboxWarmPoolReconcile env p m d))"
  by (rule sound_same_slots) (metis enqueue_slots(1) prod.collapse)

lemma sound_CheckHandler: "sound_step d (snd (CheckHandler env ustr p i a d))"
proof (cases "p = we_id env")
  case True
  obtain res err d1 where c: "CheckWarmSlot env i d = ((res, err), d1)" by (metis prod.collapse)
  note s = sound_CheckWarmSlot [OF c]
  have giveup: "sound_step d1 (case SlotMode (MarkError i m d1) i of None \<Rightarrow> MarkError i m d1
      | Some mode \<Rightarrow> snd (EnqueueSandboxWarmPoolReconcile env q mode (MarkError i m d1)))" for m q
    using sound_trans [OF sound_MarkError sound_enqueue_reconcile] sound_MarkError
    by (auto split: option.split)
  have again: "sound_step d1 (snd (EnqueueSandboxWarmSlotCheck env ustr p i b dl d1))" for b dl
    using sound_enqueue_check by (metis prod.collapse)
  note g = sound_trans [OF s giveup] and a = sound_trans [OF s again]
  show ?thesis
  proof (cases "err = None \<and> res \<noteq> None \<and> wc_Pending (the res)")
    case pend: True
    then obtain x where "res = Some x" by auto
    with pend show ?thesis using True g a by (simp add: CheckHandler_def c Let_def)
  next
    case False
    then show ?thesis using True s by (auto simp: CheckHandler_def c split: option.split)
  qed
qed (simp add: CheckHandler_def)

lemma sound_create_slots:
  assumes cb: "\<And>i d. sound_step d (snd (onCreated i d))"
  shows "sound_step d (snd (create_slots env mode onCreated n created d))"
proof (induction n arbitrary: created d)
  case (Suc n)
  obtain r d1 where p: "provision env mode d = (r, d1)" by fastforce
  note s1 = sound_provision [OF p]
  show ?case
  proof (cases r)
    case (Inl e)
    then show ?thesis using p s1 by simp
  next
    case (Inr i)
    obtain err d2 where c: "onCreated i d1 = (err, d2)" by fastforce
    have "sound_step d d2" using sound_trans [OF s1 cb [of d1 i]] c by simp
    then show ?thesis using p Inr c sound_trans [OF _ Suc.IH] by (auto split: option.split)
  qed
qed simp

lemma sound_revisit:
  assumes cb: "\<And>i d. sound_step d (snd (onCreated i d))"
  shows "sound_step d (snd (revisit_slots onCreated ss created d))"
proof (induction ss arbitrary: created d)
  case (Cons s ss)
  obtain err d2 where c: "onCreated (ws_id s) d = (err, d2)" by fastforce
  have "sound_step d d2" using cb [of d "ws_id s"] c by simp
  then show ?case using Cons.IH c sound_trans [OF _ Cons.IH] by (auto split: option.split)
qed simp

lemma sound_Reconcile:
  assumes cb: "\<And>i d. sound_step d (snd (onCreated i d))"
  shows "sound_step d (snd (Reconcile env mode onCreated d))"
proof -
  let ?n = "nat (DesiredCount env mode - int (length (filter (available_slot env mode) (wp_slots d))))"
  obtain created err d1 where c: "create_slots env mode onCreated ?n [] d = ((created, err), d1)"
    by (metis prod.collapse)
  have s: "sound_step d d1" using sound_create_slots [where onCreated = onCreated, OF cb, of d env mode ?n "[]"] c by simp
  show ?thesis
    using s sound_trans [OF s sound_revisit [where onCreated = onCreated, OF cb]]
    by (auto simp: Reconcile_def Let_def c split: option.split)
qed

lemma sound_ReconcileHandler: "sound_step d (snd (ReconcileHandler env ustr p mode d))"
proof (cases "p = we_id env")
  case True
  have "sound_step d (snd (Reconcile env mode (enqueue_first_check env ustr p) d))"
    by (rule sound_Reconcile) (rule sound_first_check)
  then show ?thesis
    using True by (auto simp: ReconcileHandler_def split: prod.split)
qed (simp add: ReconcileHandler_def)

section \<open>A slot is handed out once\<close>

text \<open>The operations on the pool as atomic steps, and the clock.\<close>

inductive pool_step :: "'w warm_env \<Rightarrow> (uuid \<Rightarrow> string) \<Rightarrow> 'w pool \<Rightarrow> 'w pool \<Rightarrow> bool"
  for env :: "'w warm_env" and ustr :: "uuid \<Rightarrow> string" where
  reconcile: "pool_step env ustr d (snd (ReconcileHandler env ustr p mode d))"
| check: "pool_step env ustr d (snd (CheckHandler env ustr p i a d))"
| claim: "pool_step env ustr d (snd (Claim env mode sb d))"
| claimed: "pool_step env ustr d (MarkClaimed i d)"
| failed: "pool_step env ustr d (MarkError i m d)"
| other: "wp_slots d' = wp_slots d \<Longrightarrow> pool_step env ustr d d'"

inductive_cases pool_stepE: "pool_step env ustr d d'"

lemma sound_pool_step: "pool_step env ustr d d' \<Longrightarrow> sound_step d d'"
proof (induction rule: pool_step.induct)
  case (claim d mode sb)
  then show ?case using sound_Claim by (metis prod.collapse)
qed (simp_all add: sound_ReconcileHandler sound_CheckHandler sound_MarkClaimed sound_MarkError sound_same_slots)

lemma sound_pool_steps: "(pool_step env ustr)\<^sup>*\<^sup>* d d' \<Longrightarrow> sound_step d d'"
  by (induction rule: rtranclp_induct) (auto intro: sound_trans sound_pool_step)

lemma find_slot_distinct: "ids_distinct d \<Longrightarrow> s \<in> set (wp_slots d) \<Longrightarrow> find_slot d (ws_id s) = Some s"
proof -
  have "distinct (map ws_id xs) \<Longrightarrow> s \<in> set xs \<Longrightarrow> find (\<lambda>r. ws_id r = ws_id s) xs = Some s" for xs
    by (induction xs) auto
  then show "ids_distinct d \<Longrightarrow> s \<in> set (wp_slots d) \<Longrightarrow> find_slot d (ws_id s) = Some s"
    by (simp add: ids_distinct_def find_slot_def)
qed

lemma Claim_ok:
  assumes "Claim env mode sb d = (Inr c, d')" and "ids_distinct d"
  obtains s where "find_slot d (cw_ID c) = Some s" "ws_status s = SlotWarm" "ws_mode s = mode"
    "find_slot d' (cw_ID c) = Some (s\<lparr>ws_status := SlotClaiming, ws_claimed := Some sb, ws_error := None\<rparr>)"
proof -
  let ?xs = "filter (\<lambda>s. ws_provider s = we_id env \<and> ws_mode s = mode \<and> ws_status s = SlotWarm) (wp_slots d)"
  obtain s rest where x: "sort_key (\<lambda>s. (ws_created s, ws_id s)) ?xs = s # rest"
    using assms(1) unfolding Claim_def by (cases "sort_key (\<lambda>s. (ws_created s, ws_id s)) ?xs") auto
  have "s \<in> set (sort_key (\<lambda>s. (ws_created s, ws_id s)) ?xs)" by (simp only: x list.set_intros)
  then have m: "s \<in> set ?xs" by (simp only: set_sort)
  have f: "find_slot d (ws_id s) = Some s" using find_slot_distinct [OF assms(2)] m by simp
  have "cw_ID c = ws_id s"
    "d' = update_slot (ws_id s) (\<lambda>r. r\<lparr>ws_status := SlotClaiming, ws_claimed := Some sb, ws_error := None\<rparr>) d"
    using assms(1) unfolding Claim_def x list.case Let_def by (auto split: sum.splits)
  then show thesis using that [of s] f m by (simp add: find_slot_update)
qed

text \<open>
  C7: while every operation runs on its own, a slot is handed to one sandbox: two successful
  claims, with any reconciles, checks, claims and marks between them, never return the same slot.
\<close>

theorem slot_claimed_once:
  assumes "ids_distinct d" and "Claim env mode1 sb1 d = (Inr c1, d1)"
    and "(pool_step env ustr)\<^sup>*\<^sup>* d1 d2" and "Claim env mode2 sb2 d2 = (Inr c2, d3)"
  shows "cw_ID c2 \<noteq> cw_ID c1"
proof
  assume eq: "cw_ID c2 = cw_ID c1"
  obtain s1 where s1: "find_slot d1 (cw_ID c1) = Some s1" "slot_rank s1 = 2"
  proof (rule Claim_ok [OF assms(2,1)])
    fix s assume f: "find_slot d1 (cw_ID c1) =
        Some (s\<lparr>ws_status := SlotClaiming, ws_claimed := Some sb1, ws_error := None\<rparr>)"
    show thesis by (rule that [OF f]) (simp add: slot_rank_def slot_status_defs)
  qed
  have s: "sound_step d d1" "sound_step d1 d2" using sound_Claim [OF assms(2)] sound_pool_steps [OF assms(3)] by auto
  have "ids_distinct d2" using s assms(1) by (simp add: sound_step_def)
  then obtain s2 where s2: "find_slot d2 (cw_ID c2) = Some s2" "ws_status s2 = SlotWarm"
    using Claim_ok [OF assms(4)] by metis
  have "slot_rank s1 \<le> slot_rank s2"
    using s(2) s1(1) s2(1) eq unfolding sound_step_def pool_le_def by fastforce
  then show False using s1(2) s2(2) by (simp add: slot_rank_def split: if_splits)
qed

section \<open>A pool to look at\<close>

definition demo_env :: "unit warm_env" where
  "demo_env = \<lparr>we_id = ''railway'',
     we_config = \<lparr>cfg_EmployeeSize = 3, cfg_SpecialistSize = 0, cfg_BaseImage = ''img'',
       cfg_SpecialistImage = ''img2'', cfg_RuntimePort = 7080, cfg_Region = ''eu''\<rparr>,
     we_create = (\<lambda>o1 w. (Inr \<lparr>wi_ExternalID = ''x'', wi_EndpointURL = ''http'', wi_RuntimePort = 7080\<rparr>, w)),
     we_delete = (\<lambda>_ w. w), we_status = (\<lambda>_ w. (Inr ''running'', w)), we_health = (\<lambda>_ w. (None, w)),
     we_live = (\<lambda>_ w. (None, w)), we_secret = (\<lambda>w. (Inr ''s'', w)), we_name = (\<lambda>w. (''n'', w)),
     we_encrypt = Inr, we_decrypt = Inr, we_enqueue = (\<lambda>_ w. (None, w))\<rparr>"

definition demo_slot :: "uuid \<Rightarrow> string \<Rightarrow> string \<Rightarrow> warm_slot" where
  "demo_slot i ext st = \<lparr>ws_id = i, ws_provider = ''railway'', ws_mode = ModeEmployee, ws_status = st,
     ws_external = ext, ws_endpoint = ''http'', ws_image = ''img'', ws_port = 7080, ws_region = ''eu'',
     ws_claimed = None, ws_secret = ''k'', ws_error = None, ws_created = 0\<rparr>"

definition demo_pool :: "warm_slot list \<Rightarrow> unit pool" where
  "demo_pool ss = \<lparr>wp_slots = ss, wp_gen = (\<lambda>n. of_nat (100 + n)), wp_drawn = 0, wp_now = 0, wp_world = ()\<rparr>"

lemma warm_is_okE: "is_ok (fst p) \<Longrightarrow> (\<And>x d'. p = (Inr x, d') \<Longrightarrow> thesis) \<Longrightarrow> thesis"
  by (cases p; cases "fst p") auto

theorem slot_claimed_once_witness:
  "\<exists>c1 d1 c2 d3. Claim demo_env ModeEmployee 1 (demo_pool [demo_slot 5 ''a'' SlotWarm, demo_slot 6 ''b'' SlotWarm]) = (Inr c1, d1)
     \<and> Claim demo_env ModeEmployee 2 d1 = (Inr c2, d3) \<and> cw_ID c2 \<noteq> cw_ID c1"
proof -
  let ?d = "demo_pool [demo_slot 5 ''a'' SlotWarm, demo_slot 6 ''b'' SlotWarm]"
  have "is_ok (fst (Claim demo_env ModeEmployee 1 ?d))" by code_simp
  then obtain c1 d1 where c1: "Claim demo_env ModeEmployee 1 ?d = (Inr c1, d1)" by (rule warm_is_okE)
  have "is_ok (fst (Claim demo_env ModeEmployee 2 (snd (Claim demo_env ModeEmployee 1 ?d))))" by code_simp
  then obtain c2 d3 where c2: "Claim demo_env ModeEmployee 2 d1 = (Inr c2, d3)"
    unfolding c1 snd_conv by (rule warm_is_okE)
  have "ids_distinct ?d" by (simp add: ids_distinct_def demo_pool_def demo_slot_def)
  from slot_claimed_once [where ustr = "\<lambda>_. []", OF this c1 rtranclp.rtrancl_refl c2] c1 c2 show ?thesis by blast
qed

section \<open>Reconciling\<close>

definition availables :: "'w warm_env \<Rightarrow> string \<Rightarrow> 'w pool \<Rightarrow> nat" where
  "availables env mode d = length (filter (available_slot env mode) (wp_slots d))"

lemma availables_cong: "wp_slots d' = wp_slots d \<Longrightarrow> availables env mode d' = availables env mode d"
  by (simp add: availables_def)

lemma availables_provision: "provision env mode d = (Inr i, d1) \<Longrightarrow> availables env mode d1 = Suc (availables env mode d)"
  by (drule provision_cases) (auto simp: availables_def available_slot_def)

lemma create_slots_fills:
  assumes cb: "\<And>i d. wp_slots (snd (onCreated i d)) = wp_slots d"
  shows "create_slots env mode onCreated n created d = ((created', None), d') \<Longrightarrow>
    availables env mode d' = availables env mode d + n"
proof (induction n arbitrary: created d)
  case (Suc n)
  obtain r d1 where p: "provision env mode d = (r, d1)" by fastforce
  with Suc.prems obtain i where r: "r = Inr i" by (cases r) auto
  obtain err d2 where c: "onCreated i d1 = (err, d2)" by fastforce
  with Suc.prems p r have err: "err = None" by (cases err) auto
  have "availables env mode d2 = Suc (availables env mode d)"
    using availables_cong [of d2 d1] cb [of i d1] c availables_provision [of env mode d i d1] p r by simp
  then show ?case using Suc.IH [of "created @ [i]" d2] Suc.prems p r c err by simp
qed simp

lemma revisit_slots_same:
  assumes cb: "\<And>i d. wp_slots (snd (onCreated i d)) = wp_slots d"
  shows "wp_slots (snd (revisit_slots onCreated ss created d)) = wp_slots d"
proof (induction ss arbitrary: created d)
  case (Cons s ss)
  obtain err d2 where c: "onCreated (ws_id s) d = (err, d2)" by fastforce
  then show ?case using Cons.IH cb [of "ws_id s" d] by (auto split: option.split)
qed simp

text \<open>
  A reconcile that reports no error leaves the pool of a mode full: the number of its warm and
  warming slots is its configured size, or what it already was where that is more.
\<close>

theorem reconcile_fills_pool:
  assumes "ReconcileHandler env ustr (we_id env) mode d = (None, d')"
  shows "int (availables env mode d') = max (DesiredCount env mode) (int (availables env mode d))"
proof -
  let ?cb = "enqueue_first_check env ustr (we_id env)"
  let ?n = "nat (DesiredCount env mode - int (availables env mode d))"
  have cb: "wp_slots (snd (?cb i d)) = wp_slots d" for i d by (rule first_check_slots)
  obtain created where r: "Reconcile env mode ?cb d = ((created, None), d')"
    using assms by (auto simp: ReconcileHandler_def split: prod.splits)
  show ?thesis
  proof (cases "DesiredCount env mode \<le> 0")
    case True
    then show ?thesis using r by (simp add: Reconcile_def max_def)
  next
    case False
    obtain cr err d1 where c: "create_slots env mode ?cb ?n [] d = ((cr, err), d1)" by (metis prod.collapse)
    have err: "err = None" using r c False by (cases err) (auto simp: Reconcile_def availables_def)
    let ?w = "filter (\<lambda>s. ws_provider s = we_id env \<and> ws_mode s = mode \<and> ws_status s = SlotWarming) (wp_slots d1)"
    have "d' = snd (revisit_slots ?cb ?w cr d1)"
      using r c False by (simp add: Reconcile_def availables_def err)
    then have "availables env mode d' = availables env mode d1"
      using revisit_slots_same [where onCreated = ?cb, OF cb] by (intro availables_cong) simp
    also have "\<dots> = availables env mode d + ?n"
      using create_slots_fills [where onCreated = ?cb, OF cb c [unfolded err]] .
    finally show ?thesis by simp
  qed
qed

theorem reconcile_fills_pool_witness:
  "availables demo_env ModeEmployee (snd (ReconcileHandler demo_env (\<lambda>_. []) ''railway'' ModeEmployee
      (demo_pool [demo_slot 5 ''a'' SlotWarm, demo_slot 6 ''b'' SlotWarm]))) = 3"
proof -
  let ?d = "demo_pool [demo_slot 5 ''a'' SlotWarm, demo_slot 6 ''b'' SlotWarm]"
  have "fst (ReconcileHandler demo_env (\<lambda>_. []) ''railway'' ModeEmployee ?d) = None" by code_simp
  then obtain d' where r: "ReconcileHandler demo_env (\<lambda>_. []) ''railway'' ModeEmployee ?d = (None, d')"
    by (metis prod.collapse)
  have id: "we_id demo_env = ''railway''" and n: "DesiredCount demo_env ModeEmployee = 3"
    by (simp_all add: demo_env_def DesiredCount_def)
  have a: "availables demo_env ModeEmployee ?d = 2" by code_simp
  from reconcile_fills_pool [OF r [folded id]] show ?thesis
    unfolding r snd_conv n a by simp
qed

section \<open>Waiting for a slot\<close>

lemma Claim_now: "Claim env mode sb d = (r, d') \<Longrightarrow> wp_now d' = wp_now d"
  unfolding Claim_def Let_def
  by (auto simp: update_slot_def MarkError_def split: list.splits sum.splits)

lemma reconcile_enqueue_now: "wp_now (snd (EnqueueSandboxWarmPoolReconcile env p m d)) = wp_now d"
  by (auto simp: EnqueueSandboxWarmPoolReconcile_def split: prod.split dest: in_world_now)

lemma claim_loop_now:
  "wp_now d \<le> deadline \<Longrightarrow>
     wp_now (snd (claim_loop env meanwhile mode sb deadline k delay d)) \<le> deadline"
proof (induction env meanwhile mode sb deadline k delay d rule: claim_loop.induct)
  case (1 env meanwhile mode sb deadline k delay d)
  obtain r d1 where c: "Claim env mode sb d = (r, d1)" by fastforce
  have now: "wp_now d1 = wp_now d" by (rule Claim_now [OF c])
  let ?d2 = "snd (EnqueueSandboxWarmPoolReconcile env (we_id env) mode d1)"
  have now2: "wp_now ?d2 = wp_now d" by (simp only: reconcile_enqueue_now now)
  show ?case
  proof (cases "\<exists>e. r = Inl e \<and> isNoWarmSlotAvailable e \<and> \<not> (deadline < wp_now d + delay \<or> delay \<le> 0)")
    case False
    then have "wp_now (snd (claim_loop env meanwhile mode sb deadline k delay d)) = wp_now d"
      using now now2 by (subst claim_loop.simps) (auto simp: c Let_def split: sum.split)
    then show ?thesis using 1(2) by simp
  next
    case True
    then obtain e where e: "r = Inl e" "isNoWarmSlotAvailable e"
      "\<not> (deadline < wp_now d + delay \<or> delay \<le> 0)" by blast
    show ?thesis
    proof (cases "meanwhile k ?d2")
      case None
      then have "wp_now (snd (claim_loop env meanwhile mode sb deadline k delay d)) = wp_now d"
        using now2 e by (subst claim_loop.simps) (simp add: c Let_def)
      then show ?thesis using 1(2) by simp
    next
      case (Some d3)
      have "claim_loop env meanwhile mode sb deadline k delay d =
          claim_loop env meanwhile mode sb deadline (Suc k) (min (2 * delay) warmRuntimeClaimMaxDelay)
            (d3\<lparr>wp_now := wp_now d + delay\<rparr>)"
        using e Some by (subst claim_loop.simps) (simp add: c Let_def)
      moreover have "wp_now (d3\<lparr>wp_now := wp_now d + delay\<rparr>) \<le> deadline" using e(3) by simp
      ultimately show ?thesis
        using 1(1) [OF c [symmetric] e(1) _ refl e(3) Some] e(2) by simp
    qed
  qed
qed

text \<open>
  A claim never waits past its two minutes, whatever the other operations do to the pool
  while it waits: it returns, and the time it slept adds up to at most two minutes.
\<close>

theorem claim_wait_bounded:
  "wp_now (snd (claimWarmRuntimeSlot env meanwhile mode sandboxID d)) \<le> wp_now d + 2 * Minute"
  unfolding claimWarmRuntimeSlot_def warmRuntimeClaimMaxWait_def
  by (rule claim_loop_now) (simp add: duration_defs)

section \<open>A check between a claim\<close>

text \<open>
  A check that probed a slot before another check made it warm, and writes its verdict after
  the slot was claimed, puts it back into the pool: a second sandbox is handed the same slot.
\<close>

theorem late_check_hands_out_twice:
  "(let d = demo_pool [demo_slot 5 ''a'' SlotWarming];
        (verdict, d0) = probe_slot demo_env (demo_slot 5 ''a'' SlotWarming) d;
        d1 = snd (CheckWarmSlot demo_env 5 d0);
        (first, d2) = Claim demo_env ModeEmployee 1 d1;
        d3 = snd (commit_check (demo_slot 5 ''a'' SlotWarming) verdict d2);
        (second, d4) = Claim demo_env ModeEmployee 2 d3
    in map_sum id cw_ID first = (Inr 5 :: string + uuid) \<and> map_sum id cw_ID second = (Inr 5 :: string + uuid))"
  by code_simp

end
