(* ===== verification/BillingBatch.thy ===== *)
theory BillingBatch
  imports Complex_Main Ledger
begin

text \<open>
  Metered inference: the batch that bills generations against the ledger
  (\<open>internal/tasks/billing_batch_process.go\<close>, \<open>billing_batch_debits.go\<close>) and the price functions of
  \<open>internal/billing/pricing.go\<close>. A cost in dollars is a rational number: the rounding of the
  source's floating-point sums, and of the stored column to eight digits, is not modelled. The
  model registry is a parameter: the input and output price of a route.
\<close>

section \<open>Prices\<close>

definition CreditUSDValue :: rat where "CreditUSDValue = 1 / 1000"
definition CostSourceProvider :: string where "CostSourceProvider = ''provider_reported''"
definition CostSourceRegistry :: string where "CostSourceRegistry = ''registry_estimated''"

definition cachedTokenDiscount :: "string \<Rightarrow> rat" where
  "cachedTokenDiscount p =
     (if p = ''anthropic'' then 1 / 10
      else if p = ''openai'' then 1 / 2
      else if p = ''google'' \<or> p = ''google-vertex'' then 1 / 4
      else 0)"

definition CostUSDToCredits :: "rat \<Rightarrow> int64" where
  "CostUSDToCredits cost = (if cost \<le> 0 then 0 else ceiling (cost / CreditUSDValue))"

text \<open>\<open>reg p m\<close> is the price of a million input and output tokens of the route, if it is known.\<close>

definition EstimateCostUSD ::
  "(string \<Rightarrow> string \<Rightarrow> (rat \<times> rat) option) \<Rightarrow> string \<Rightarrow> string \<Rightarrow> int64 \<Rightarrow> int64 \<Rightarrow> int64 \<Rightarrow> rat option"
where
  "EstimateCostUSD reg providerID modelID inputTokens0 outputTokens0 cachedTokens0 =
     (let inputTokens = max 0 inputTokens0; outputTokens = max 0 outputTokens0;
          cachedTokens1 = max 0 cachedTokens0 in
      if inputTokens = 0 \<and> outputTokens = 0 then Some 0
      else
        (case reg providerID modelID of
           None \<Rightarrow> None
         | Some (inputPrice, outputPrice) \<Rightarrow>
             let cachedTokens = min cachedTokens1 inputTokens;
                 inputCost = of_int (inputTokens - cachedTokens) * inputPrice / 1000000;
                 discount0 = cachedTokenDiscount providerID;
                 discount = (if discount0 = 0 \<and> cachedTokens > 0 then 1 else discount0);
                 cachedCost = of_int cachedTokens * inputPrice * discount / 1000000;
                 outputCost = of_int outputTokens * outputPrice / 1000000
             in Some (inputCost + cachedCost + outputCost)))"

section \<open>Rows\<close>

record generation =
  gn_id :: string
  gn_org :: uuid
  gn_provider :: string
  gn_model :: string
  gn_agent_model :: "string option"
  gn_input :: int64
  gn_output :: int64
  gn_cached :: int64
  gn_cost :: rat
  gn_is_system :: bool
  gn_billed_at :: "gotime option"
  gn_billing_error :: string
  gn_credits_debited :: int64
  gn_cost_source :: string
  gn_created :: gotime

record gen_db = db +
  gd_gens :: "generation list"

record rowBillingResult =
  rb_CostUSD :: rat
  rb_CostSource :: string
  rb_Credits :: int64
  rb_BillingErr :: string
  rb_ExactCredit :: rat

type_synonym results = "string \<Rightarrow> rowBillingResult"

definition zero_result :: rowBillingResult where
  "zero_result = \<lparr>rb_CostUSD = 0, rb_CostSource = [], rb_Credits = 0, rb_BillingErr = [], rb_ExactCredit = 0\<rparr>"

definition billingBatchSize :: nat where "billingBatchSize = 1000"
definition billingErrUnknownMod :: string where "billingErrUnknownMod = ''unknown_model''"
definition billingErrUnresolved :: string where "billingErrUnresolved = ''model_unresolved''"
definition billingErrInsufFunds :: string where "billingErrInsufFunds = ''insufficient_credits''"

datatype row_error = ErrModelUnresolved | ErrUnknownModel

section \<open>Costs\<close>

definition rowCostUSD ::
  "(string \<Rightarrow> string \<Rightarrow> (rat \<times> rat) option) \<Rightarrow> generation \<Rightarrow> row_error + rat \<times> string" where
  "rowCostUSD reg r =
     (if gn_cost r > 0 then Inr (gn_cost r, CostSourceProvider)
      else
        let modelName = (if gn_model r = [] then (case gn_agent_model r of None \<Rightarrow> [] | Some m \<Rightarrow> m)
                         else gn_model r)
        in if modelName = [] then Inl ErrModelUnresolved
           else (case EstimateCostUSD reg (gn_provider r) modelName (gn_input r) (gn_output r) (gn_cached r) of
                   None \<Rightarrow> Inl ErrUnknownModel
                 | Some cost \<Rightarrow> Inr (cost, CostSourceRegistry)))"

definition compute_row :: "(string \<Rightarrow> string \<Rightarrow> (rat \<times> rat) option) \<Rightarrow> generation \<Rightarrow> rowBillingResult" where
  "compute_row reg r =
     (case rowCostUSD reg r of
        Inl ErrModelUnresolved \<Rightarrow> zero_result\<lparr>rb_BillingErr := billingErrUnresolved\<rparr>
      | Inl ErrUnknownModel \<Rightarrow> zero_result\<lparr>rb_BillingErr := billingErrUnknownMod\<rparr>
      | Inr (cost, source) \<Rightarrow>
          if cost \<le> 0 then zero_result\<lparr>rb_CostSource := source\<rparr>
          else
            let exact = cost / CreditUSDValue
            in \<lparr>rb_CostUSD = cost, rb_CostSource = source, rb_Credits = floor exact, rb_BillingErr = [],
                rb_ExactCredit = exact\<rparr>)"

fun computeRows :: "(string \<Rightarrow> string \<Rightarrow> (rat \<times> rat) option) \<Rightarrow> generation list \<Rightarrow> results \<Rightarrow> results" where
  "computeRows reg [] m = m"
| "computeRows reg (r # rs) m = computeRows reg rs (m(gn_id r := compute_row reg r))"

definition unbilled :: "generation \<Rightarrow> bool" where
  "unbilled g \<longleftrightarrow> gn_billed_at g = None \<and> gn_is_system g
     \<and> (gn_cost g > 0 \<or> gn_input g > 0 \<or> gn_output g > 0)"

definition selectUnbilledBatch :: "gen_db \<Rightarrow> nat \<Rightarrow> generation list" where
  "selectUnbilledBatch d limit = take limit (sort_key gn_created (filter unbilled (gd_gens d)))"

section \<open>Debits\<close>

definition successful :: "results \<Rightarrow> generation \<Rightarrow> bool" where
  "successful m r \<longleftrightarrow> rb_BillingErr (m (gn_id r)) = [] \<and> rb_CostUSD (m (gn_id r)) > 0"

definition rows_of_org :: "generation list \<Rightarrow> results \<Rightarrow> uuid \<Rightarrow> generation list" where
  "rows_of_org rows m org = filter (\<lambda>r. gn_org r = org \<and> successful m r) rows"

definition successfulRowsByOrg :: "generation list \<Rightarrow> results \<Rightarrow> (uuid \<times> generation list) list" where
  "successfulRowsByOrg rows m =
     map (\<lambda>org. (org, rows_of_org rows m org)) (sort (remdups (map gn_org (filter (successful m) rows))))"

definition currentRowsCost :: "generation list \<Rightarrow> results \<Rightarrow> rat" where
  "currentRowsCost rows m = sum_list (map (\<lambda>r. rb_CostUSD (m (gn_id r))) rows)"

definition billed_cost :: "uuid \<Rightarrow> generation \<Rightarrow> rat" where
  "billed_cost org g =
     (if gn_org g = org \<and> gn_is_system g \<and> gn_billed_at g \<noteq> None \<and> gn_billing_error g = [] \<and> gn_cost g > 0
      then gn_cost g else 0)"

definition successfulBilledCost :: "gen_db \<Rightarrow> uuid \<Rightarrow> rat" where
  "successfulBilledCost d org = sum_list (map (billed_cost org) (gd_gens d))"

definition llmCreditsDebited :: "gen_db \<Rightarrow> uuid \<Rightarrow> int64" where
  "llmCreditsDebited d org =
     sum_list (map (\<lambda>e. - le_amount e)
       (filter (\<lambda>e. le_org e = org \<and> le_reason e = ReasonLLMTokens \<and> le_amount e < 0) (db_ledger d)))"

definition ledgerBalance :: "gen_db \<Rightarrow> uuid \<Rightarrow> int64" where
  "ledgerBalance d org = ledger_sum d org"

fun markRowsInsufficient :: "generation list \<Rightarrow> results \<Rightarrow> results" where
  "markRowsInsufficient [] m = m"
| "markRowsInsufficient (r # rs) m =
     markRowsInsufficient rs
       (m(gn_id r := (m (gn_id r))\<lparr>rb_BillingErr := billingErrInsufFunds, rb_Credits := 0\<rparr>))"

definition credit_fraction :: "results \<Rightarrow> string \<Rightarrow> rat" where
  "credit_fraction m i = rb_ExactCredit (m i) - of_int (floor (rb_ExactCredit (m i)))"

text \<open>The two passes of the allocation: whole credits in order, then one more each.\<close>

fun allocate_whole :: "string list \<Rightarrow> int64 \<Rightarrow> results \<Rightarrow> int64 \<times> results" where
  "allocate_whole [] remaining m = (remaining, m)"
| "allocate_whole (i # is) remaining m =
     (if remaining = 0 then (remaining, m)
      else
        let whole0 = floor (rb_ExactCredit (m i)); whole = (if whole0 > remaining then remaining else whole0)
        in allocate_whole is (remaining - whole) (m(i := (m i)\<lparr>rb_Credits := whole\<rparr>)))"

fun allocate_extra :: "string list \<Rightarrow> int64 \<Rightarrow> results \<Rightarrow> int64 \<times> results" where
  "allocate_extra [] remaining m = (remaining, m)"
| "allocate_extra (i # is) remaining m =
     (if remaining = 0 then (remaining, m)
      else allocate_extra is (remaining - 1) (m(i := (m i)\<lparr>rb_Credits := rb_Credits (m i) + 1\<rparr>)))"

definition allocateCurrentRowCredits :: "generation list \<Rightarrow> results \<Rightarrow> int64 \<Rightarrow> results" where
  "allocateCurrentRowCredits rows m credits =
     (if credits \<le> 0 then m
      else
        let rowIDs = slice_stable (\<lambda>i j. credit_fraction m i > credit_fraction m j) (map gn_id rows);
            (remaining, m1) = allocate_whole rowIDs credits m
        in if remaining = 0 then m1 else snd (allocate_extra rowIDs remaining m1))"

text \<open>One debit planned: an organisation, its amount and the reference of the batch.\<close>

record debit =
  dt_org :: uuid
  dt_amount :: int64
  dt_ref :: string

fun plan_orgs ::
  "gen_db \<Rightarrow> string \<Rightarrow> (uuid \<times> generation list) list \<Rightarrow> results \<Rightarrow> debit list \<Rightarrow> debit list \<times> results" where
  "plan_orgs d batchRefID [] m entries = (entries, m)"
| "plan_orgs d batchRefID ((org, rows) # rest) m entries =
     (let currentCost = currentRowsCost rows m;
          existingCost = successfulBilledCost d org;
          alreadyDebited = llmCreditsDebited d org;
          target = CostUSDToCredits (existingCost + currentCost);
          delta = target - alreadyDebited
      in if delta \<le> 0 then plan_orgs d batchRefID rest m entries
         else if ledgerBalance d org < delta
         then plan_orgs d batchRefID rest (markRowsInsufficient rows m) entries
         else plan_orgs d batchRefID rest (allocateCurrentRowCredits rows m delta)
                (entries @ [\<lparr>dt_org = org, dt_amount = - delta, dt_ref = batchRefID\<rparr>]))"

definition planCumulativeDebits :: "gen_db \<Rightarrow> generation list \<Rightarrow> results \<Rightarrow> string \<Rightarrow> debit list \<times> results" where
  "planCumulativeDebits d rows m batchRefID = plan_orgs d batchRefID (successfulRowsByOrg rows m) m []"

section \<open>The batch\<close>

fun insert_debits :: "debit list \<Rightarrow> gen_db \<Rightarrow> billing_error + gen_db" where
  "insert_debits [] d = Inr d"
| "insert_debits (e # es) d =
     (case create_entry d (dt_org e) (dt_amount e) ReasonLLMTokens ''generation_batch'' (dt_ref e) None of
        Inl err \<Rightarrow> Inl err
      | Inr d1 \<Rightarrow> insert_debits es d1)"

definition mark_billed :: "gotime \<Rightarrow> rowBillingResult \<Rightarrow> generation \<Rightarrow> generation" where
  "mark_billed now result g =
     g\<lparr>gn_billed_at := Some now, gn_billing_error := rb_BillingErr result,
       gn_credits_debited := rb_Credits result, gn_cost_source := rb_CostSource result,
       gn_cost := (if rb_CostUSD result > 0 then rb_CostUSD result else gn_cost g)\<rparr>"

fun mark_rows :: "generation list \<Rightarrow> results \<Rightarrow> gen_db \<Rightarrow> gen_db" where
  "mark_rows [] m d = d"
| "mark_rows (r # rs) m d =
     mark_rows rs m
       (d\<lparr>gd_gens := map (\<lambda>g. if gn_id g = gn_id r then mark_billed (db_now d) (m (gn_id r)) g else g)
            (gd_gens d)\<rparr>)"

definition BillingBatchProcess ::
  "(string \<Rightarrow> string \<Rightarrow> (rat \<times> rat) option) \<Rightarrow> string \<Rightarrow> nat \<Rightarrow> gen_db \<Rightarrow> billing_error + gen_db" where
  "BillingBatchProcess reg newULID limit d =
     (let rows = selectUnbilledBatch d limit in
      if rows = [] then Inr d
      else
        let m = computeRows reg rows (\<lambda>_. zero_result);
            (entries, m1) = planCumulativeDebits d rows m (''batch_'' @ newULID)
        in (case insert_debits entries d of
              Inl e \<Rightarrow> Inl e
            | Inr d1 \<Rightarrow> Inr (mark_rows rows m1 d1)))"

end
