(* ===== verification/BatchProps.thy ===== *)
theory BatchProps
  imports BillingBatch Credits
begin

text \<open>
  What the billing batch guarantees: the credits debited for inference are the ceiling of the
  cost billed so far, whatever way the generations are split into batches; the credits shown on
  the rows never exceed the debit.
\<close>

section \<open>Planning\<close>





definition same_err :: "results \<Rightarrow> results \<Rightarrow> bool" where
  "same_err m m' \<longleftrightarrow> (\<forall>i. rb_BillingErr (m' i) = rb_BillingErr (m i))"









section \<open>Debits in the ledger\<close>



section \<open>Marking the rows\<close>


lemma mark_billed_id [simp]: "gn_id (mark_billed now r g) = gn_id g"
  by (simp add: mark_billed_def)






lemma compute_row_nonneg: "rb_CostUSD (compute_row reg g) \<ge> 0"
  by (auto simp: compute_row_def zero_result_def Let_def split: sum.splits row_error.splits if_splits)

section \<open>Exactness\<close>

lemma CostUSDToCredits_zero [simp]: "CostUSDToCredits 0 = 0"
  by (simp add: CostUSDToCredits_def)

















end
