(* ===== verification/Documents.thy ===== *)
theory Documents
  imports Dispatch
begin

text \<open>
  Documents on their way into the vector index: \<open>internal/rag/tasks/ingest_batch.go\<close>, the
  document types of \<open>internal/rag/connectors/interfaces\<close> and the embedding client
  \<open>internal/rag/embedclient/embedder.go\<close>. The tokenizer, one HTTP exchange with the embedding
  service, the decoding of its body, the hash that names a point and the vector index are functions
  of \<open>index_env\<close>, on a world of their own.
\<close>

section \<open>Documents\<close>

record section_doc =
  sc_Text :: string
  sc_Title :: string

record document =
  dc_DocID :: string
  dc_SemanticID :: string
  dc_Link :: string
  dc_Sections :: "section_doc list"
  dc_ACL :: "string list"
  dc_IsPublic :: bool
  dc_UpdatedAt :: "int option"
  dc_Metadata :: "(string \<times> string) list option"
  dc_PrimaryOwners :: "string list"

record DocumentFailure =
  df_DocID :: string
  df_DocumentLink :: string

record EntityFailure =
  ef_EntityID :: string
  ef_MissedStart :: "gotime option"
  ef_MissedEnd :: "gotime option"

record ConnectorFailure =
  cf_Document :: "DocumentFailure option"
  cf_Entity :: "EntityFailure option"
  cf_Message :: string

text \<open>What the flush reads of its source; the identifiers are printed already.\<close>

record source_ref =
  sr_ID :: string
  sr_OrgID :: string
  sr_Name :: string
  sr_Kind :: string
  sr_SourceKind :: string
  sr_ConnectionID :: "string option"

section \<open>The environment\<close>

text \<open>An exchange with the service: no response, or a status with its body.\<close>

datatype http_try = TransportError string | HttpResponse int string

record 'v point =
  pt_ID :: string
  pt_Vector :: 'v
  pt_Payload :: "(string \<times> json) list"

record ('v, 'w) index_env =
  ix_tokenizer :: "string option"
  ix_encode :: "string \<Rightarrow> nat list"
  ix_decode :: "nat list \<Rightarrow> string"
  ix_post :: "string list \<Rightarrow> 'w \<Rightarrow> http_try \<times> 'w"
  ix_body :: "string \<Rightarrow> string + ((string \<times> string \<times> string \<times> string) option \<times> 'v list)"
  ix_status_text :: "int \<Rightarrow> string"
  ix_max_retries :: nat
  ix_delete :: "string \<Rightarrow> string list \<Rightarrow> 'w \<Rightarrow> string option \<times> 'w"
  ix_upsert :: "'v point list \<Rightarrow> 'w \<Rightarrow> string option \<times> 'w"
  ix_count :: "string \<Rightarrow> 'w \<Rightarrow> (string + int) \<times> 'w"
  ix_point_id :: "string \<Rightarrow> string \<Rightarrow> string \<Rightarrow> string"

section \<open>The embedding client\<close>

definition preview :: "string \<Rightarrow> string" where "preview body = take 300 body"

definition decode_embedding ::
  "('v, 'w) index_env \<Rightarrow> string list \<Rightarrow> string \<Rightarrow> string + 'v list" where
  "decode_embedding env inputs respBody =
     (case ix_body env respBody of
        Inl e \<Rightarrow> Inl (''embed: decode: '' @ e)
      | Inr (Some (message, type, code, metadata), data) \<Rightarrow>
          if message \<noteq> []
          then Inl (''embed: upstream error: '' @ message @ '' (type='' @ type @ '' code='' @ code @ '')''
                    @ (if metadata \<noteq> [] then '' metadata='' @ metadata else []))
          else if length data \<noteq> length inputs
          then Inl (''embed: got '' @ show_int (int (length data)) @ '' vectors for ''
                    @ show_int (int (length inputs)) @ '' inputs (body: '' @ preview respBody @ '')'')
          else Inr data
      | Inr (None, data) \<Rightarrow>
          if length data \<noteq> length inputs
          then Inl (''embed: got '' @ show_int (int (length data)) @ '' vectors for ''
                    @ show_int (int (length inputs)) @ '' inputs (body: '' @ preview respBody @ '')'')
          else Inr data)"

text \<open>
  The retries of \<open>Embed\<close>: \<open>tries\<close> exchanges are left, \<open>lastErr\<close> is the text of the last
  failure. The pause between two exchanges changes no state.
\<close>

fun embed_tries ::
  "('v, 'w) index_env \<Rightarrow> string list \<Rightarrow> nat \<Rightarrow> string \<Rightarrow> 'w \<Rightarrow> (string + 'v list) \<times> 'w" where
  "embed_tries env inputs 0 lastErr w = (Inl lastErr, w)"
| "embed_tries env inputs (Suc n) lastErr w =
     (case ix_post env inputs w of
        (TransportError e, w1) \<Rightarrow> embed_tries env inputs n e w1
      | (HttpResponse status body, w1) \<Rightarrow>
          if status = 200 then (decode_embedding env inputs body, w1)
          else
            let e = ''embed: '' @ show_int status @ '': '' @ preview body in
            if status \<ge> 400 \<and> status < 500 \<and> status \<noteq> 429 then (Inl e, w1)
            else embed_tries env inputs n e w1)"

definition Embed :: "('v, 'w) index_env \<Rightarrow> string list \<Rightarrow> 'w \<Rightarrow> (string + 'v list) \<times> 'w" where
  "Embed env inputs w =
     (if inputs = [] then (Inr [], w)
      else embed_tries env inputs (Suc (ix_max_retries env)) [] w)"

section \<open>Splitting\<close>

definition embedTokenLimit :: nat where "embedTokenLimit = 6000"
definition embedRequestTokenLimit :: nat where "embedRequestTokenLimit = 200000"

record tokenChunk =
  tc_text :: string
  tc_tokens :: nat

text \<open>The loop over the tokens; a chunk has at least one token in every call of the source.\<close>

function chunk_tokens :: "(nat list \<Rightarrow> string) \<Rightarrow> nat \<Rightarrow> nat list \<Rightarrow> tokenChunk list" where
  "chunk_tokens dec maxTokens tokens =
     (if tokens = [] \<or> maxTokens = 0 then []
      else \<lparr>tc_text = dec (take maxTokens tokens), tc_tokens = length (take maxTokens tokens)\<rparr>
           # chunk_tokens dec maxTokens (drop maxTokens tokens))"
  by pat_completeness auto
termination by (relation "measure (\<lambda>(dec, m, ts). length ts)") auto

declare chunk_tokens.simps [simp del]

definition splitByTokens ::
  "('v, 'w) index_env \<Rightarrow> string \<Rightarrow> nat \<Rightarrow> string + tokenChunk list" where
  "splitByTokens env s maxTokens =
     (case ix_tokenizer env of
        Some e \<Rightarrow> Inl (''tiktoken init: '' @ e)
      | None \<Rightarrow>
          let tokens = ix_encode env s in
          if length tokens \<le> maxTokens then Inr [\<lparr>tc_text = s, tc_tokens = length tokens\<rparr>]
          else Inr (chunk_tokens (ix_decode env) maxTokens tokens))"

definition section_texts :: "section_doc \<Rightarrow> string list" where
  "section_texts s =
     (if sc_Title s \<noteq> [] then [sc_Title s] else []) @ (if sc_Text s \<noteq> [] then [sc_Text s] else [])"

definition newline :: char where "newline = CHR 0x0A"

definition renderContent :: "document \<Rightarrow> string" where
  "renderContent d =
     str_join [newline, newline]
       ((if dc_SemanticID d \<noteq> [] then [dc_SemanticID d] else [])
        @ concat (map section_texts (dc_Sections d)))"

record docPart =
  dp_doc :: document
  dp_pointDocID :: string
  dp_content :: string
  dp_partIndex :: nat
  dp_tokens :: nat

definition part_of :: "document \<Rightarrow> nat \<times> tokenChunk \<Rightarrow> docPart" where
  "part_of d = (\<lambda>(i, c). \<lparr>dp_doc = d, dp_pointDocID = dc_DocID d @ ''-part-'' @ show_int (int i),
     dp_content = tc_text c, dp_partIndex = i, dp_tokens = tc_tokens c\<rparr>)"

definition splitDocument :: "('v, 'w) index_env \<Rightarrow> document \<Rightarrow> string + docPart list" where
  "splitDocument env d =
     (let full = renderContent d in
      if full = [] then Inr []
      else (case splitByTokens env full embedTokenLimit of
              Inl e \<Rightarrow> Inl e
            | Inr chunks \<Rightarrow> Inr (map (part_of d) (enumerate 0 chunks))))"

section \<open>Embedding in groups\<close>

text \<open>
  The inner loop of \<open>embedInBudgetedGroups\<close>: parts join the group while the request stays within
  its token limit; the first part always does.
\<close>

fun take_group :: "bool \<Rightarrow> nat \<Rightarrow> docPart list \<Rightarrow> docPart list \<times> docPart list" where
  "take_group first used [] = ([], [])"
| "take_group first used (p # ps) =
     (if \<not> first \<and> used + dp_tokens p > embedRequestTokenLimit then ([], p # ps)
      else (case take_group False (used + dp_tokens p) ps of (g, rest) \<Rightarrow> (p # g, rest)))"

lemma take_group_append: "take_group first used ps = (g, rest) \<Longrightarrow> g @ rest = ps"
  by (induction first used ps arbitrary: g rest rule: take_group.induct)
     (auto split: if_splits prod.splits)

lemma take_group_nonempty: "take_group True used (p # ps) = (g, rest) \<Longrightarrow> g \<noteq> []"
  by (auto split: prod.splits)

function embedInBudgetedGroups ::
  "('v, 'w) index_env \<Rightarrow> docPart list \<Rightarrow> 'v list \<Rightarrow> 'w \<Rightarrow> (string + 'v list) \<times> 'w" where
  "embedInBudgetedGroups env [] out w = (Inr out, w)"
| "embedInBudgetedGroups env (p # ps) out w =
     (case Embed env (map dp_content (fst (take_group True 0 (p # ps)))) w of
        (Inl e, w1) \<Rightarrow> (Inl e, w1)
      | (Inr vecs, w1) \<Rightarrow> embedInBudgetedGroups env (snd (take_group True 0 (p # ps))) (out @ vecs) w1)"
  by pat_completeness auto
termination
proof (relation "measure (\<lambda>(env, ps, out, w). length ps)", goal_cases)
  case (2 env p ps)
  obtain g rest where g: "take_group True 0 (p # ps) = (g, rest)" by fastforce
  have "g @ rest = p # ps" by (rule take_group_append [OF g])
  moreover have "g \<noteq> []" by (rule take_group_nonempty [OF g])
  ultimately have "length rest < length (p # ps)"
    by (metis length_append length_greater_0_conv less_add_same_cancel2)
  then show ?case unfolding g by simp
qed simp

declare embedInBudgetedGroups.simps [simp del]

section \<open>Payloads and the flush\<close>

definition sourcePayload :: "source_ref \<Rightarrow> (string \<times> json) list" where
  "sourcePayload src =
     [(''id'', JStr (sr_ID src)), (''name'', JStr (sr_Name src)), (''kind'', JStr (sr_Kind src))]
     @ (if trim_space (sr_SourceKind src) \<noteq> [] then [(''provider'', JStr (trim_space (sr_SourceKind src)))]
        else [])
     @ (case sr_ConnectionID src of None \<Rightarrow> [] | Some c \<Rightarrow> [(''connection_id'', JStr c)])"

definition buildPayload :: "source_ref \<Rightarrow> document \<Rightarrow> string \<Rightarrow> nat \<Rightarrow> (string \<times> json) list" where
  "buildPayload src d content partIndex =
     [(''org_id'', JStr (sr_OrgID src)), (''rag_source_id'', JStr (sr_ID src)),
      (''source'', JObj (sourcePayload src)), (''doc_id'', JStr (dc_DocID d)),
      (''part_index'', JNum (of_nat partIndex)), (''semantic_id'', JStr (dc_SemanticID d)),
      (''link'', JStr (dc_Link d)), (''acl'', JArr (map JStr (dc_ACL d))),
      (''is_public'', JBool (dc_IsPublic d)), (''content'', JStr content),
      (''primary_owners'', JArr (map JStr (dc_PrimaryOwners d)))]
     @ (case dc_UpdatedAt d of None \<Rightarrow> [] | Some t \<Rightarrow> [(''doc_updated_at'', JNum (of_int t))])
     @ (case dc_Metadata d of None \<Rightarrow> [] | Some m \<Rightarrow> [(''metadata'', JObj (map (\<lambda>(k, v). (k, JStr v)) m))])"

text \<open>The first loop of \<open>flushBatch\<close>: the parts of every document and each identifier once.\<close>

fun split_documents ::
  "('v, 'w) index_env \<Rightarrow> document list \<Rightarrow> docPart list \<Rightarrow> string list \<Rightarrow> string + docPart list \<times> string list"
where
  "split_documents env [] parts docIDs = Inr (parts, docIDs)"
| "split_documents env (d # ds) parts docIDs =
     (case splitDocument env d of
        Inl e \<Rightarrow> Inl (''ingest: split '' @ dc_DocID d @ '': '' @ e)
      | Inr ps \<Rightarrow> split_documents env ds (parts @ ps)
                    (if dc_DocID d \<in> set docIDs then docIDs else docIDs @ [dc_DocID d]))"

definition point_of ::
  "('v, 'w) index_env \<Rightarrow> source_ref \<Rightarrow> docPart list \<Rightarrow> 'v list \<Rightarrow> nat \<Rightarrow> 'v point" where
  "point_of env src parts vectors i =
     \<lparr>pt_ID = ix_point_id env (sr_OrgID src) (sr_ID src) (dp_pointDocID (parts ! i)),
      pt_Vector = vectors ! i,
      pt_Payload = buildPayload src (dp_doc (parts ! i)) (dp_content (parts ! i)) (dp_partIndex (parts ! i))\<rparr>"

definition flushBatch ::
  "('v, 'w) index_env \<Rightarrow> source_ref \<Rightarrow> document list \<Rightarrow> 'w \<Rightarrow> string option \<times> 'w" where
  "flushBatch env src docs w =
     (if docs = [] then (None, w)
      else
        (case split_documents env docs [] [] of
           Inl e \<Rightarrow> (Some e, w)
         | Inr (parts, docIDs) \<Rightarrow>
             if parts = [] then (None, w)
             else
               (case ix_delete env (sr_ID src) docIDs w of
                  (Some e, w1) \<Rightarrow>
                    (Some (''ingest: clear stale parts ('' @ show_int (int (length docIDs)) @ '' docs): '' @ e), w1)
                | (None, w1) \<Rightarrow>
                    (case embedInBudgetedGroups env parts [] w1 of
                       (Inl e, w2) \<Rightarrow>
                         (Some (''ingest: embed ('' @ show_int (int (length parts)) @ '' parts from ''
                                @ show_int (int (length docs)) @ '' docs): '' @ e), w2)
                     | (Inr vectors, w2) \<Rightarrow>
                         let points = map (point_of env src parts vectors) [0 ..< length parts] in
                         (case ix_upsert env points w2 of
                            (Some e, w3) \<Rightarrow>
                              (Some (''ingest: qdrant upsert ('' @ show_int (int (length points)) @ '' points): '' @ e), w3)
                          | (None, w3) \<Rightarrow> (None, w3))))))"

section \<open>What the pieces do\<close>

lemma decode_embedding_length:
  "decode_embedding env inputs body = Inr vecs \<Longrightarrow> length vecs = length inputs"
  unfolding decode_embedding_def by (auto split: sum.splits option.splits if_splits)

lemma embed_tries_length:
  "embed_tries env inputs n e w = (Inr vecs, w1) \<Longrightarrow> length vecs = length inputs"
proof (induction n arbitrary: e w)
  case (Suc n)
  from Suc.prems show ?case
    by (auto split: prod.splits http_try.splits if_splits simp: Let_def
        intro: decode_embedding_length Suc.IH)
qed simp

lemma Embed_length: "Embed env inputs w = (Inr vecs, w1) \<Longrightarrow> length vecs = length inputs"
  unfolding Embed_def by (metis Inr_inject embed_tries_length list.size(3) prod.inject)

end
