(* ===== verification/Ingest.thy ===== *)
theory Ingest
  imports Documents Ledger
begin

text \<open>
  Index attempts of knowledge sources: the worker \<open>internal/rag/tasks/ingest.go\<close>,
  \<open>ingest_attempt.go\<close>, \<open>ingest_finalize.go\<close>, \<open>ingest_progress.go\<close>, \<open>heartbeat.go\<close>, \<open>deps.go\<close>,
  \<open>payloads.go\<close> and the rows of \<open>internal/rag/model\<close>. The tables extend the database of the credit
  ledger, since a finished website crawl is charged there; connectors, the vector index and the task
  queue act on a world of their own. The worker's own steps (opening an attempt, its progress and
  heartbeat writes, the final update) are separate definitions: other workers and the scheduler run
  between them.
\<close>

section \<open>Rows\<close>

datatype IndexingStatus =
    IndexingStatusNotStarted
  | IndexingStatusInProgress
  | IndexingStatusSuccess
  | IndexingStatusCanceled
  | IndexingStatusFailed
  | IndexingStatusCompletedWithErrors

fun IsTerminal :: "IndexingStatus \<Rightarrow> bool" where
  "IsTerminal IndexingStatusSuccess = True"
| "IsTerminal IndexingStatusCompletedWithErrors = True"
| "IsTerminal IndexingStatusCanceled = True"
| "IsTerminal IndexingStatusFailed = True"
| "IsTerminal IndexingStatusNotStarted = False"
| "IsTerminal IndexingStatusInProgress = False"

definition IsSuccessful :: "IndexingStatus \<Rightarrow> bool" where
  "IsSuccessful s \<longleftrightarrow> s = IndexingStatusSuccess \<or> s = IndexingStatusCompletedWithErrors"

datatype RAGSourceStatus =
    RAGSourceStatusDisconnected
  | RAGSourceStatusInitialIndexing
  | RAGSourceStatusActive
  | RAGSourceStatusPaused
  | RAGSourceStatusError
  | RAGSourceStatusDeleting

definition IsActive :: "RAGSourceStatus \<Rightarrow> bool" where
  "IsActive s \<longleftrightarrow> s = RAGSourceStatusActive \<or> s = RAGSourceStatusInitialIndexing"

definition RAGSourceKindWebsite :: string where "RAGSourceKindWebsite = ''WEBSITE''"
definition AccessTypeSync :: string where "AccessTypeSync = ''sync''"

record rag_source =
  rs_id :: uuid
  rs_org :: uuid
  rs_kind :: string
  rs_name :: string
  rs_source_kind :: string
  rs_connection :: "uuid option"
  rs_status :: RAGSourceStatus
  rs_enabled :: bool
  rs_access :: string
  rs_indexing_start :: "gotime option"
  rs_last_index :: "gotime option"
  rs_last_perm_sync :: "gotime option"
  rs_last_pruned :: "gotime option"
  rs_refresh_freq :: "int option"
  rs_prune_freq :: "int option"
  rs_perm_freq :: "int option"
  rs_total_docs :: int

record index_attempt =
  ia_id :: uuid
  ia_org :: uuid
  ia_source :: uuid
  ia_from_beginning :: bool
  ia_status :: IndexingStatus
  ia_new_docs :: "int option"
  ia_total_docs :: "int option"
  ia_docs_estimated :: "int option"
  ia_error :: "string option"
  ia_poll_start :: "gotime option"
  ia_poll_end :: "gotime option"
  ia_checkpoint :: "string option"
  ia_last_progress :: "gotime option"
  ia_heartbeats :: int
  ia_last_heartbeat :: "gotime option"
  ia_created :: gotime
  ia_started :: "gotime option"
  ia_updated :: gotime

record attempt_error =
  ae_org :: uuid
  ae_attempt :: uuid
  ae_source :: uuid
  ae_message :: string
  ae_document :: "string option"
  ae_link :: "string option"
  ae_entity :: "string option"
  ae_range_start :: "gotime option"
  ae_range_end :: "gotime option"

record 'w rag_db = db +
  rd_sources :: "rag_source list"
  rd_attempts :: "index_attempt list"
  rd_errors :: "attempt_error list"
  rd_world :: 'w

definition find_source :: "'w rag_db \<Rightarrow> uuid \<Rightarrow> rag_source option" where
  "find_source d i = find (\<lambda>s. rs_id s = i) (rd_sources d)"

definition find_attempt :: "'w rag_db \<Rightarrow> uuid \<Rightarrow> index_attempt option" where
  "find_attempt d i = find (\<lambda>a. ia_id a = i) (rd_attempts d)"

definition update_source :: "uuid \<Rightarrow> (rag_source \<Rightarrow> rag_source) \<Rightarrow> 'w rag_db \<Rightarrow> 'w rag_db" where
  "update_source i f d = d\<lparr>rd_sources := map (\<lambda>s. if rs_id s = i then f s else s) (rd_sources d)\<rparr>"

definition update_attempts ::
  "(index_attempt \<Rightarrow> bool) \<Rightarrow> (index_attempt \<Rightarrow> index_attempt) \<Rightarrow> 'w rag_db \<Rightarrow> 'w rag_db" where
  "update_attempts sel f d = d\<lparr>rd_attempts := map (\<lambda>a. if sel a then f a else a) (rd_attempts d)\<rparr>"

definition on_world :: "('w \<Rightarrow> 'a \<times> 'w) \<Rightarrow> 'w rag_db \<Rightarrow> 'a \<times> 'w rag_db" where
  "on_world f d = (case f (rd_world d) of (x, w) \<Rightarrow> (x, d\<lparr>rd_world := w\<rparr>))"

text \<open>\<open>Create\<close> of an attempt: a generated identifier, which the primary key refuses when it is taken.\<close>

definition create_attempt :: "index_attempt \<Rightarrow> 'w rag_db \<Rightarrow> (string + uuid) \<times> 'w rag_db" where
  "create_attempt a d =
     (let i = db_gen d (db_drawn d) in
      if i \<in> ia_id ` set (rd_attempts d) then (Inl unique_violation_text, d)
      else (Inr i, (draw_id d)\<lparr>rd_attempts := rd_attempts d @ [a\<lparr>ia_id := i\<rparr>]\<rparr>))"

text \<open>An attempt as the columns' defaults leave it.\<close>

definition blank_attempt :: "uuid \<Rightarrow> uuid \<Rightarrow> IndexingStatus \<Rightarrow> gotime \<Rightarrow> index_attempt" where
  "blank_attempt org source status now =
     \<lparr>ia_id = uuid_nil, ia_org = org, ia_source = source, ia_from_beginning = False, ia_status = status,
      ia_new_docs = Some 0, ia_total_docs = Some 0, ia_docs_estimated = None, ia_error = None,
      ia_poll_start = None, ia_poll_end = None, ia_checkpoint = None, ia_last_progress = None,
      ia_heartbeats = 0, ia_last_heartbeat = None, ia_created = now, ia_started = None,
      ia_updated = now\<rparr>"

section \<open>The environment\<close>

datatype queue_error = DuplicateTask | QueueFailure string

datatype rag_task =
    IngestTask uuid bool "uuid option" duration
  | PermSyncTask uuid duration
  | PruneTask uuid duration

datatype stream_item = StreamFailure ConnectorFailure | StreamDoc document | StreamEmpty

record ('v, 'w) rag_env =
  re_index :: "('v, 'w) index_env"
  re_ustr :: "uuid \<Rightarrow> string"
  re_build :: "rag_source \<Rightarrow> 'w \<Rightarrow> (string + bool) \<times> 'w"
  re_estimate :: "rag_source \<Rightarrow> 'w \<Rightarrow> (string + int) option \<times> 'w"
  re_run :: "rag_source \<Rightarrow> string option \<Rightarrow> gotime \<Rightarrow> gotime \<Rightarrow> 'w \<Rightarrow> (string + stream_item list) \<times> 'w"
  re_checkpoint :: "rag_source \<Rightarrow> 'w \<Rightarrow> (string + string) \<times> 'w"
  re_enqueue :: "rag_task \<Rightarrow> 'w \<Rightarrow> queue_error option \<times> 'w"
  re_credits :: bool
  re_batch_size :: int

definition source_ref_of :: "('v, 'w) rag_env \<Rightarrow> rag_source \<Rightarrow> source_ref" where
  "source_ref_of env s =
     \<lparr>sr_ID = re_ustr env (rs_id s), sr_OrgID = re_ustr env (rs_org s), sr_Name = rs_name s,
      sr_Kind = rs_kind s, sr_SourceKind = rs_source_kind s,
      sr_ConnectionID = map_option (re_ustr env) (rs_connection s)\<rparr>"

section \<open>Opening an attempt\<close>

datatype attempt_error_kind = AttemptAlreadyClaimed | OpenFailed string

definition active :: "index_attempt \<Rightarrow> bool" where
  "active a \<longleftrightarrow> ia_status a = IndexingStatusNotStarted \<or> ia_status a = IndexingStatusInProgress"

definition activeAttemptExists :: "'w rag_db \<Rightarrow> uuid \<Rightarrow> uuid option \<Rightarrow> bool" where
  "activeAttemptExists d sourceID exceptID =
     list_ex (\<lambda>a. ia_source a = sourceID \<and> active a \<and> (case exceptID of None \<Rightarrow> True | Some i \<Rightarrow> ia_id a \<noteq> i))
       (rd_attempts d)"

definition lockSourceForAttempt :: "'w rag_db \<Rightarrow> uuid \<Rightarrow> bool" where
  "lockSourceForAttempt d sourceID = list_ex (\<lambda>s. rs_id s = sourceID) (rd_sources d)"

text \<open>The checkpoint of the latest attempt that has one; the empty string when there is none.\<close>

definition lastCheckpointPointer :: "'w rag_db \<Rightarrow> uuid \<Rightarrow> string" where
  "lastCheckpointPointer d sourceID =
     (case rev (sort_key ia_created
              (filter (\<lambda>a. ia_source a = sourceID \<and> ia_checkpoint a \<noteq> None) (rd_attempts d))) of
        [] \<Rightarrow> []
      | a # _ \<Rightarrow> (case ia_checkpoint a of None \<Rightarrow> [] | Some cp \<Rightarrow> cp))"

definition createAdHocAttempt ::
  "('v, 'w) rag_env \<Rightarrow> rag_source \<Rightarrow> bool \<Rightarrow> 'w rag_db \<Rightarrow> (attempt_error_kind + index_attempt) \<times> 'w rag_db"
where
  "createAdHocAttempt env src fromBeginning d =
     (let now = db_now d;
          a0 = (blank_attempt (rs_org src) (rs_id src) IndexingStatusInProgress now)
                 \<lparr>ia_from_beginning := fromBeginning, ia_last_progress := Some now, ia_started := Some now\<rparr>;
          wrap = (\<lambda>e. OpenFailed (''ingest: open attempt for '' @ re_ustr env (rs_id src) @ '': '' @ e))
      in if \<not> lockSourceForAttempt d (rs_id src)
         then (Inl (wrap (''lock source '' @ re_ustr env (rs_id src) @ '': record not found'')), d)
         else if activeAttemptExists d (rs_id src) None then (Inl AttemptAlreadyClaimed, d)
         else
           let cp = lastCheckpointPointer d (rs_id src);
               a = (if \<not> fromBeginning \<and> cp \<noteq> [] then a0\<lparr>ia_checkpoint := Some cp\<rparr> else a0)
           in (case create_attempt a d of
                 (Inl e, d1) \<Rightarrow> (Inl (wrap (''create attempt: '' @ e)), d1)
               | (Inr i, d1) \<Rightarrow> (Inr (a\<lparr>ia_id := i\<rparr>), d1)))"

definition claim_row :: "gotime \<Rightarrow> index_attempt \<Rightarrow> index_attempt" where
  "claim_row now a = a\<lparr>ia_status := IndexingStatusInProgress, ia_last_progress := Some now,
     ia_started := Some now, ia_updated := now\<rparr>"

definition claimReservedAttempt ::
  "('v, 'w) rag_env \<Rightarrow> rag_source \<Rightarrow> uuid \<Rightarrow> 'w rag_db \<Rightarrow> (attempt_error_kind + index_attempt) \<times> 'w rag_db"
where
  "claimReservedAttempt env src attemptID d =
     (let now = db_now d;
          reserved = (\<lambda>a. ia_id a = attemptID \<and> ia_source a = rs_id src \<and> ia_status a = IndexingStatusNotStarted);
          wrap = (\<lambda>e. OpenFailed (''ingest: claim reserved attempt '' @ re_ustr env attemptID @ '' for ''
                                  @ re_ustr env (rs_id src) @ '': '' @ e))
      in if \<not> lockSourceForAttempt d (rs_id src)
         then (Inl (wrap (''lock source '' @ re_ustr env (rs_id src) @ '': record not found'')), d)
         else if activeAttemptExists d (rs_id src) (Some attemptID) then (Inl AttemptAlreadyClaimed, d)
         else if \<not> list_ex reserved (rd_attempts d) then
           (if list_ex (\<lambda>a. ia_id a = attemptID \<and> ia_source a = rs_id src) (rd_attempts d)
            then (Inl AttemptAlreadyClaimed, d)
            else (Inl (wrap ''load reserved attempt: record not found''), d))
         else
           let d1 = update_attempts reserved (claim_row now) d in
           (case find_attempt d1 attemptID of
              None \<Rightarrow> (Inl (wrap ''load claimed attempt: record not found''), d)
            | Some a \<Rightarrow> (Inr a, d1)))"

definition openAttempt ::
  "('v, 'w) rag_env \<Rightarrow> rag_source \<Rightarrow> bool \<Rightarrow> uuid option \<Rightarrow> 'w rag_db
     \<Rightarrow> (attempt_error_kind + index_attempt) \<times> 'w rag_db" where
  "openAttempt env src fromBeginning attemptID d =
     (case attemptID of
        Some i \<Rightarrow> claimReservedAttempt env src i d
      | None \<Rightarrow> createAdHocAttempt env src fromBeginning d)"

section \<open>Progress and heartbeat\<close>

definition stampDocsEstimated ::
  "('v, 'w) rag_env \<Rightarrow> rag_source \<Rightarrow> uuid \<Rightarrow> 'w rag_db \<Rightarrow> 'w rag_db" where
  "stampDocsEstimated env src attemptID d =
     (case on_world (re_estimate env src) d of
        (Some (Inr estimate), d1) \<Rightarrow>
          update_attempts (\<lambda>a. ia_id a = attemptID)
            (\<lambda>a. a\<lparr>ia_docs_estimated := Some estimate, ia_updated := db_now d1\<rparr>) d1
      | (_, d1) \<Rightarrow> d1)"

definition coalesce0 :: "int option \<Rightarrow> int" where
  "coalesce0 x = (case x of None \<Rightarrow> 0 | Some n \<Rightarrow> n)"

definition bumpAttemptProgress :: "uuid \<Rightarrow> int \<Rightarrow> 'w rag_db \<Rightarrow> 'w rag_db" where
  "bumpAttemptProgress attemptID delta d =
     (if delta \<le> 0 then d
      else update_attempts (\<lambda>a. ia_id a = attemptID)
             (\<lambda>a. a\<lparr>ia_new_docs := Some (coalesce0 (ia_new_docs a) + delta),
                    ia_total_docs := Some (coalesce0 (ia_total_docs a) + delta),
                    ia_last_progress := Some (db_now d), ia_updated := db_now d\<rparr>) d)"

definition recordAttemptError ::
  "uuid \<Rightarrow> uuid \<Rightarrow> uuid \<Rightarrow> ConnectorFailure \<Rightarrow> 'w rag_db \<Rightarrow> 'w rag_db" where
  "recordAttemptError orgID sourceID attemptID failure d =
     d\<lparr>rd_errors := rd_errors d @
       [\<lparr>ae_org = orgID, ae_attempt = attemptID, ae_source = sourceID, ae_message = cf_Message failure,
         ae_document = map_option df_DocID (cf_Document failure),
         ae_link = (case cf_Document failure of
                      None \<Rightarrow> None
                    | Some f \<Rightarrow> if df_DocumentLink f \<noteq> [] then Some (df_DocumentLink f) else None),
         ae_entity = map_option ef_EntityID (cf_Entity failure),
         ae_range_start = Option.bind (cf_Entity failure) ef_MissedStart,
         ae_range_end = Option.bind (cf_Entity failure) ef_MissedEnd\<rparr>]\<rparr>"

definition writeHeartbeat :: "uuid \<Rightarrow> bool \<Rightarrow> 'w rag_db \<Rightarrow> 'w rag_db" where
  "writeHeartbeat attemptID progress d =
     update_attempts (\<lambda>a. ia_id a = attemptID \<and> ia_status a = IndexingStatusInProgress)
       (\<lambda>a. a\<lparr>ia_last_heartbeat := Some (db_now d), ia_heartbeats := ia_heartbeats a + 1,
              ia_last_progress := (if progress then Some (db_now d) else ia_last_progress a),
              ia_updated := db_now d\<rparr>) d"

section \<open>Running an attempt\<close>

definition pollOverlap :: duration where "pollOverlap = 5 * Minute"

definition computeIngestWindow :: "rag_source \<Rightarrow> bool \<Rightarrow> gotime \<Rightarrow> gotime \<times> gotime" where
  "computeIngestWindow src fromBeginning now =
     (let earliest = (case rs_indexing_start src of None \<Rightarrow> zero_time | Some t \<Rightarrow> t) in
      case rs_last_index src of
        None \<Rightarrow> (earliest, now)
      | Some t \<Rightarrow>
          if fromBeginning then (earliest, now)
          else
            let start = t - pollOverlap in
            if start < earliest then (earliest, now) else (start, now))"

definition loadCheckpointBytes :: "index_attempt \<Rightarrow> string option" where
  "loadCheckpointBytes a =
     (case ia_checkpoint a of None \<Rightarrow> None | Some cp \<Rightarrow> if cp = [] then None else Some cp)"

record ingestStats =
  st_docsSeen :: int
  st_docsBatched :: int
  st_failures :: int
  st_pollStart :: gotime
  st_pollEnd :: gotime

definition batch_size :: "('v, 'w) rag_env \<Rightarrow> nat" where
  "batch_size env = (if re_batch_size env \<le> 0 then 100 else nat (re_batch_size env))"

text \<open>One batch handed to the index, with its progress write.\<close>

definition flush_and_bump ::
  "('v, 'w) rag_env \<Rightarrow> rag_source \<Rightarrow> uuid \<Rightarrow> document list \<Rightarrow> ingestStats \<Rightarrow> 'w rag_db
     \<Rightarrow> (ingestStats \<times> string option) \<times> 'w rag_db" where
  "flush_and_bump env src attemptID batch stats d =
     (case on_world (flushBatch (re_index env) (source_ref_of env src) batch) d of
        (Some e, d1) \<Rightarrow> ((stats, Some e), d1)
      | (None, d1) \<Rightarrow>
          ((stats\<lparr>st_docsBatched := st_docsBatched stats + int (length batch)\<rparr>, None),
           bumpAttemptProgress attemptID (int (length batch)) d1))"

fun ingest_stream ::
  "('v, 'w) rag_env \<Rightarrow> rag_source \<Rightarrow> uuid \<Rightarrow> stream_item list \<Rightarrow> document list \<Rightarrow> ingestStats \<Rightarrow> 'w rag_db
     \<Rightarrow> (ingestStats \<times> string option) \<times> 'w rag_db" where
  "ingest_stream env src aid [] batch stats d =
     (if batch = [] then ((stats, None), d) else flush_and_bump env src aid batch stats d)"
| "ingest_stream env src aid (StreamFailure f # items) batch stats d =
     ingest_stream env src aid items batch (stats\<lparr>st_failures := st_failures stats + 1\<rparr>)
       (recordAttemptError (rs_org src) (rs_id src) aid f d)"
| "ingest_stream env src aid (StreamEmpty # items) batch stats d =
     ingest_stream env src aid items batch stats d"
| "ingest_stream env src aid (StreamDoc doc # items) batch stats d =
     (let stats1 = stats\<lparr>st_docsSeen := st_docsSeen stats + 1\<rparr>; batch1 = batch @ [doc] in
      if length batch1 \<ge> batch_size env then
        (case flush_and_bump env src aid batch1 stats1 d of
           ((stats2, Some e), d1) \<Rightarrow> ((stats2, Some e), d1)
         | ((stats2, None), d1) \<Rightarrow> ingest_stream env src aid items [] stats2 d1)
      else ingest_stream env src aid items batch1 stats1 d)"

definition runIngest ::
  "('v, 'w) rag_env \<Rightarrow> rag_source \<Rightarrow> index_attempt \<Rightarrow> 'w rag_db \<Rightarrow> (ingestStats \<times> string option) \<times> 'w rag_db"
where
  "runIngest env src attempt d =
     (let (windowStart, windowEnd) = computeIngestWindow src (ia_from_beginning attempt) (db_now d);
          stats = \<lparr>st_docsSeen = 0, st_docsBatched = 0, st_failures = 0, st_pollStart = windowStart,
                   st_pollEnd = zero_time\<rparr>
      in (case on_world (re_run env src (loadCheckpointBytes attempt) windowStart windowEnd) d of
            (Inl e, d1) \<Rightarrow> ((stats, Some e), d1)
          | (Inr items, d1) \<Rightarrow>
              (case ingest_stream env src (ia_id attempt) items [] stats d1 of
                 ((stats1, Some e), d2) \<Rightarrow> ((stats1, Some e), d2)
               | ((stats1, None), d2) \<Rightarrow> ((stats1\<lparr>st_pollEnd := windowEnd\<rparr>, None), d2))))"

section \<open>Finishing an attempt\<close>

definition terminal_status :: "ingestStats \<Rightarrow> string option \<Rightarrow> IndexingStatus" where
  "terminal_status stats runErr =
     (if runErr \<noteq> None then IndexingStatusFailed
      else if st_failures stats > 0 then IndexingStatusCompletedWithErrors
      else IndexingStatusSuccess)"

definition WebsitePagePriceCredits :: int64 where "WebsitePagePriceCredits = 1"

definition debitWebsiteCredits ::
  "('v, 'w) rag_env \<Rightarrow> rag_source \<Rightarrow> uuid \<Rightarrow> ingestStats \<Rightarrow> 'w rag_db \<Rightarrow> 'w rag_db" where
  "debitWebsiteCredits env src attemptID stats d =
     (if \<not> re_credits env \<or> rs_kind src \<noteq> RAGSourceKindWebsite \<or> st_docsBatched stats \<le> 0 then d
      else (case Spend d (rs_org src) (st_docsBatched stats * WebsitePagePriceCredits)
                   ''rag_website_crawl'' ''rag_source_attempt_credit'' (re_ustr env attemptID) of
              Inl _ \<Rightarrow> d
            | Inr d1 \<Rightarrow> d1))"

definition finish_row ::
  "gotime \<Rightarrow> ingestStats \<Rightarrow> string option \<Rightarrow> string option \<Rightarrow> index_attempt \<Rightarrow> index_attempt" where
  "finish_row now stats runErr checkpoint a =
     a\<lparr>ia_updated := now, ia_new_docs := Some (st_docsBatched stats), ia_total_docs := Some (st_docsBatched stats),
       ia_poll_start := Some (st_pollStart stats), ia_poll_end := Some (st_pollEnd stats),
       ia_error := (case runErr of None \<Rightarrow> ia_error a | Some e \<Rightarrow> Some e),
       ia_status := terminal_status stats runErr,
       ia_checkpoint := (case checkpoint of None \<Rightarrow> ia_checkpoint a | Some cp \<Rightarrow> Some cp)\<rparr>"

text \<open>The source row after a run that did not fail; \<open>src\<close> is the row as the worker loaded it.\<close>

definition finish_source ::
  "rag_source \<Rightarrow> gotime \<Rightarrow> ingestStats \<Rightarrow> int option \<Rightarrow> rag_source \<Rightarrow> rag_source" where
  "finish_source src now stats counted s =
     s\<lparr>rs_last_index :=
         (if st_docsBatched stats > 0 \<or> rs_status src \<noteq> RAGSourceStatusInitialIndexing then Some now
          else rs_last_index s),
       rs_total_docs := (case counted of None \<Rightarrow> rs_total_docs s | Some n \<Rightarrow> min n (2 ^ 31 - 1)),
       rs_status :=
         (if (rs_status src = RAGSourceStatusInitialIndexing \<or> rs_status src = RAGSourceStatusError)
             \<and> st_docsBatched stats > 0
          then RAGSourceStatusActive else rs_status s)\<rparr>"

definition final_checkpoint ::
  "('v, 'w) rag_env \<Rightarrow> rag_source \<Rightarrow> string option \<Rightarrow> 'w rag_db \<Rightarrow> string option \<times> 'w rag_db" where
  "final_checkpoint env src runErr d =
     (if runErr \<noteq> None then (None, d)
      else (case on_world (re_checkpoint env src) d of
              (Inr cp, d1) \<Rightarrow> ((if cp = [] then None else Some cp), d1)
            | (Inl _, d1) \<Rightarrow> (None, d1)))"

definition finalizeAttempt ::
  "('v, 'w) rag_env \<Rightarrow> rag_source \<Rightarrow> uuid \<Rightarrow> ingestStats \<Rightarrow> string option \<Rightarrow> 'w rag_db
     \<Rightarrow> string option \<times> 'w rag_db" where
  "finalizeAttempt env src attemptID stats runErr d =
     (let now = db_now d;
          (checkpoint, d1) = final_checkpoint env src runErr d;
          d2 = update_attempts (\<lambda>a. ia_id a = attemptID) (finish_row now stats runErr checkpoint) d1
      in if runErr \<noteq> None then
           (runErr,
            if rs_status src = RAGSourceStatusInitialIndexing
            then update_source (rs_id src) (\<lambda>s. s\<lparr>rs_status := RAGSourceStatusError\<rparr>) d2 else d2)
         else
           let (counted, d3) = on_world (ix_count (re_index env) (re_ustr env (rs_id src))) d2;
               d4 = update_source (rs_id src)
                      (finish_source src now stats (case counted of Inl _ \<Rightarrow> None | Inr n \<Rightarrow> Some n)) d3
           in (None, debitWebsiteCredits env src attemptID stats d4))"

section \<open>The ingest task\<close>

definition HandleIngest ::
  "('v, 'w) rag_env \<Rightarrow> uuid \<Rightarrow> bool \<Rightarrow> uuid option \<Rightarrow> 'w rag_db \<Rightarrow> string option \<times> 'w rag_db" where
  "HandleIngest env sourceID fromBeginning attemptID d =
     (if sourceID = uuid_nil then (Some ''rag:ingest: rag_source_id required'', d)
      else (case find_source d sourceID of
        None \<Rightarrow> (Some (''ingest: source '' @ re_ustr env sourceID @ '': skip retry for the task''), d)
      | Some src \<Rightarrow>
          (case on_world (re_build env src) d of
             (Inl e, d1) \<Rightarrow> (Some e, d1)
           | (Inr False, d1) \<Rightarrow>
               (Some (''ingest '' @ re_ustr env sourceID @ '': connector kind ''
                      @ CHR 0x22 # rs_kind src @ [CHR 0x22] @ '' does not implement RunnableCheckpointed''), d1)
           | (Inr True, d1) \<Rightarrow>
               (case openAttempt env src fromBeginning attemptID d1 of
                  (Inl AttemptAlreadyClaimed, d2) \<Rightarrow> (None, d2)
                | (Inl (OpenFailed e), d2) \<Rightarrow> (Some e, d2)
                | (Inr attempt, d2) \<Rightarrow>
                    (case runIngest env src attempt (stampDocsEstimated env src (ia_id attempt) d2) of
                       ((stats, runErr), d3) \<Rightarrow>
                         finalizeAttempt env src (ia_id attempt) stats runErr d3)))))"

end
