(* ===== verification/Scheduler.thy ===== *)
theory Scheduler
  imports Ingest
begin

text \<open>
  The scheduler of knowledge sources: \<open>internal/rag/scheduler/ingest_loop.go\<close>,
  \<open>prune_loop.go\<close>, \<open>perm_sync_loop.go\<close>, \<open>watchdog.go\<close> and \<open>config.go\<close>. A reservation is one
  transaction under the row lock of its source, so it is one step. Whether a kind of source
  supports a sync is a predicate of the connectors. A cancelled context is not modelled.
\<close>

record config =
  cf_IngestTick :: duration
  cf_PermSyncTick :: duration
  cf_PruneTick :: duration
  cf_WatchdogTimeout :: duration
  cf_UniqueSlack :: duration
  cf_EnqueueLimit :: nat

definition defaultConfig :: config where
  "defaultConfig =
     \<lparr>cf_IngestTick = 30 * Minute, cf_PermSyncTick = 60 * Minute, cf_PruneTick = 90 * Minute,
      cf_WatchdogTimeout = 30 * Minute, cf_UniqueSlack = 30 * Second, cf_EnqueueLimit = 500\<rparr>"

text \<open>1970-01-01 on the clock of the model, which starts in the year 1.\<close>

definition unix_epoch :: gotime where "unix_epoch = 62135596800 * Second"

definition coalesce_time :: "gotime option \<Rightarrow> gotime" where
  "coalesce_time t = (case t of None \<Rightarrow> unix_epoch | Some x \<Rightarrow> x)"

text \<open>Last run, if any, plus a frequency in seconds, lies before now.\<close>

definition run_elapsed :: "gotime option \<Rightarrow> int \<Rightarrow> gotime \<Rightarrow> bool" where
  "run_elapsed lastRun freq now = (case lastRun of None \<Rightarrow> True | Some t \<Rightarrow> t + freq * Second < now)"

section \<open>Ingest\<close>

definition sourceIngestDue :: "rag_source \<Rightarrow> gotime \<Rightarrow> bool" where
  "sourceIngestDue src now =
     (if \<not> rs_enabled src then False
      else if \<not> (rs_status src = RAGSourceStatusActive \<or> rs_status src = RAGSourceStatusInitialIndexing)
      then False
      else (case rs_refresh_freq src of
              None \<Rightarrow> False
            | Some f \<Rightarrow> (case rs_last_index src of None \<Rightarrow> True | Some t \<Rightarrow> t + f * Second < now)))"

definition sourceHasActiveIngestAttempt :: "'w rag_db \<Rightarrow> uuid \<Rightarrow> bool" where
  "sourceHasActiveIngestAttempt d sourceID =
     list_ex (\<lambda>a. ia_source a = sourceID \<and> active a) (rd_attempts d)"

definition ingest_candidate :: "'w rag_db \<Rightarrow> rag_source \<Rightarrow> bool" where
  "ingest_candidate d s \<longleftrightarrow> rs_enabled s \<and> IsActive (rs_status s)
     \<and> (case rs_refresh_freq s of None \<Rightarrow> False | Some f \<Rightarrow> run_elapsed (rs_last_index s) f (db_now d))
     \<and> \<not> list_ex (\<lambda>a. ia_source a = rs_id s \<and> active a) (rd_attempts d)"

definition selectIngestDueSourceIDs :: "'w rag_db \<Rightarrow> nat \<Rightarrow> uuid list" where
  "selectIngestDueSourceIDs d limit =
     take limit (map rs_id (sort_key (\<lambda>s. coalesce_time (rs_last_index s))
       (filter (ingest_candidate d) (rd_sources d))))"

datatype reserve_error = ReservationSkipped | ReserveFailed string

definition lockIngestSource :: "'w rag_db \<Rightarrow> uuid \<Rightarrow> rag_source option" where
  "lockIngestSource d sourceID = find_source d sourceID"

definition reserveIngestAttempt :: "uuid \<Rightarrow> 'w rag_db \<Rightarrow> (reserve_error + uuid) \<times> 'w rag_db" where
  "reserveIngestAttempt sourceID d =
     (case lockIngestSource d sourceID of
        None \<Rightarrow> (Inl ReservationSkipped, d)
      | Some src \<Rightarrow>
          if \<not> sourceIngestDue src (db_now d) then (Inl ReservationSkipped, d)
          else if sourceHasActiveIngestAttempt d sourceID then (Inl ReservationSkipped, d)
          else (case create_attempt (blank_attempt (rs_org src) sourceID IndexingStatusNotStarted (db_now d)) d of
                  (Inl e, d1) \<Rightarrow> (Inl (ReserveFailed (''create ingest reservation: '' @ e)), d1)
                | (Inr i, d1) \<Rightarrow> (Inr i, d1)))"

definition failIngestReservation :: "uuid \<Rightarrow> string \<Rightarrow> 'w rag_db \<Rightarrow> 'w rag_db" where
  "failIngestReservation attemptID cause d =
     (if attemptID = uuid_nil then d
      else update_attempts (\<lambda>a. ia_id a = attemptID \<and> ia_status a = IndexingStatusNotStarted)
             (\<lambda>a. a\<lparr>ia_status := IndexingStatusFailed, ia_error := Some cause, ia_updated := db_now d\<rparr>) d)"

text \<open>The queue refuses a task it holds already; that counts as enqueued.\<close>

definition enqueueIngest ::
  "('v, 'w) rag_env \<Rightarrow> uuid \<Rightarrow> uuid \<Rightarrow> duration \<Rightarrow> 'w rag_db \<Rightarrow> string option \<times> 'w rag_db" where
  "enqueueIngest env sourceID attemptID uniqueTTL d =
     (case on_world (re_enqueue env (IngestTask sourceID False (Some attemptID) uniqueTTL)) d of
        (Some (QueueFailure e), d1) \<Rightarrow> (Some e, d1)
      | (_, d1) \<Rightarrow> (None, d1))"

definition first_error :: "string option \<Rightarrow> string \<Rightarrow> string option" where
  "first_error firstErr e = (if firstErr = None then Some e else firstErr)"

fun scan_ingest ::
  "('v, 'w) rag_env \<Rightarrow> duration \<Rightarrow> uuid list \<Rightarrow> int \<Rightarrow> string option \<Rightarrow> 'w rag_db
     \<Rightarrow> (int \<times> string option) \<times> 'w rag_db" where
  "scan_ingest env ttl [] enqueued firstErr d = ((enqueued, firstErr), d)"
| "scan_ingest env ttl (i # is) enqueued firstErr d =
     (case reserveIngestAttempt i d of
        (Inl ReservationSkipped, d1) \<Rightarrow> scan_ingest env ttl is enqueued firstErr d1
      | (Inl (ReserveFailed e), d1) \<Rightarrow> scan_ingest env ttl is enqueued (first_error firstErr e) d1
      | (Inr attemptID, d1) \<Rightarrow>
          (case enqueueIngest env i attemptID ttl d1 of
             (Some e, d2) \<Rightarrow>
               scan_ingest env ttl is enqueued (first_error firstErr e) (failIngestReservation attemptID e d2)
           | (None, d2) \<Rightarrow> scan_ingest env ttl is (enqueued + 1) firstErr d2))"

definition ScanIngestDue ::
  "('v, 'w) rag_env \<Rightarrow> config \<Rightarrow> 'w rag_db \<Rightarrow> (int \<times> string option) \<times> 'w rag_db" where
  "ScanIngestDue env cfg d =
     (let ids = selectIngestDueSourceIDs d (cf_EnqueueLimit cfg) in
      if ids = [] then ((0, None), d)
      else scan_ingest env (cf_IngestTick cfg + cf_UniqueSlack cfg) ids 0 None d)"

section \<open>The watchdog\<close>

definition watchdog_text :: string where
  "watchdog_text = ''watchdog: attempt exceeded heartbeat timeout''"

definition stuck :: "gotime \<Rightarrow> index_attempt \<Rightarrow> bool" where
  "stuck cutoff a \<longleftrightarrow> ia_status a = IndexingStatusInProgress
     \<and> (case ia_last_progress a of Some t \<Rightarrow> t < cutoff | None \<Rightarrow> ia_created a < cutoff)"

definition ScanStuckAttempts :: "config \<Rightarrow> 'w rag_db \<Rightarrow> int \<times> 'w rag_db" where
  "ScanStuckAttempts cfg d =
     (let cutoff = db_now d - cf_WatchdogTimeout cfg in
      (int (length (filter (stuck cutoff) (rd_attempts d))),
       update_attempts (stuck cutoff)
         (\<lambda>a. a\<lparr>ia_status := IndexingStatusFailed, ia_error := Some watchdog_text, ia_updated := db_now d\<rparr>) d))"

section \<open>Pruning and permission syncs\<close>

definition prune_candidate :: "gotime \<Rightarrow> rag_source \<Rightarrow> bool" where
  "prune_candidate now s \<longleftrightarrow> rs_enabled s \<and> IsActive (rs_status s)
     \<and> (case rs_prune_freq s of None \<Rightarrow> False | Some f \<Rightarrow> run_elapsed (rs_last_pruned s) f now)"

definition selectPruneDueSources :: "'w rag_db \<Rightarrow> nat \<Rightarrow> (uuid \<times> string) list" where
  "selectPruneDueSources d limit =
     take limit (map (\<lambda>s. (rs_id s, rs_kind s)) (sort_key (\<lambda>s. coalesce_time (rs_last_pruned s))
       (filter (prune_candidate (db_now d)) (rd_sources d))))"

definition perm_sync_candidate :: "gotime \<Rightarrow> rag_source \<Rightarrow> bool" where
  "perm_sync_candidate now s \<longleftrightarrow> rs_enabled s \<and> IsActive (rs_status s) \<and> rs_access s = AccessTypeSync
     \<and> (case rs_perm_freq s of None \<Rightarrow> False | Some f \<Rightarrow> run_elapsed (rs_last_perm_sync s) f now)"

definition selectPermSyncDueSources :: "'w rag_db \<Rightarrow> nat \<Rightarrow> (uuid \<times> string) list" where
  "selectPermSyncDueSources d limit =
     take limit (map (\<lambda>s. (rs_id s, rs_kind s)) (sort_key (\<lambda>s. coalesce_time (rs_last_perm_sync s))
       (filter (perm_sync_candidate (db_now d)) (rd_sources d))))"

text \<open>
  The loop of both scans over their candidates; a task the queue holds already is not counted, and
  is no error.
\<close>

fun scan_candidates ::
  "('v, 'w) rag_env \<Rightarrow> (string \<Rightarrow> bool) \<Rightarrow> (uuid \<Rightarrow> rag_task) \<Rightarrow> (uuid \<times> string) list \<Rightarrow> int \<Rightarrow> string option
     \<Rightarrow> 'w rag_db \<Rightarrow> (int \<times> string option) \<times> 'w rag_db" where
  "scan_candidates env supports task [] enqueued firstErr d = ((enqueued, firstErr), d)"
| "scan_candidates env supports task ((i, kind) # rs) enqueued firstErr d =
     (if \<not> supports kind then scan_candidates env supports task rs enqueued firstErr d
      else (case on_world (re_enqueue env (task i)) d of
              (Some DuplicateTask, d1) \<Rightarrow> scan_candidates env supports task rs enqueued firstErr d1
            | (Some (QueueFailure e), d1) \<Rightarrow>
                scan_candidates env supports task rs enqueued (first_error firstErr e) d1
            | (None, d1) \<Rightarrow> scan_candidates env supports task rs (enqueued + 1) firstErr d1))"

definition ScanPruneDue ::
  "('v, 'w) rag_env \<Rightarrow> (string \<Rightarrow> bool) \<Rightarrow> config \<Rightarrow> 'w rag_db \<Rightarrow> (int \<times> string option) \<times> 'w rag_db" where
  "ScanPruneDue env supports cfg d =
     scan_candidates env supports (\<lambda>i. PruneTask i (cf_PruneTick cfg + cf_UniqueSlack cfg))
       (selectPruneDueSources d (cf_EnqueueLimit cfg)) 0 None d"

definition ScanPermSyncDue ::
  "('v, 'w) rag_env \<Rightarrow> (string \<Rightarrow> bool) \<Rightarrow> config \<Rightarrow> 'w rag_db \<Rightarrow> (int \<times> string option) \<times> 'w rag_db" where
  "ScanPermSyncDue env supports cfg d =
     scan_candidates env supports (\<lambda>i. PermSyncTask i (cf_PermSyncTick cfg + cf_UniqueSlack cfg))
       (selectPermSyncDueSources d (cf_EnqueueLimit cfg)) 0 None d"

end
