(* ===== verification/IngestProps.thy ===== *)
theory IngestProps
  imports Scheduler Credits
begin

text \<open>
  Properties of index attempts. The steps of the ingest system are one relation, labelled with the
  attempt whose worker moves: opening, progress, heartbeat and final writes carry it, the scheduler,
  the watchdog and everything else carry \<open>None\<close>. The first part shows what every interleaving of
  these steps keeps; the others are about one run of a worker and about what it charges.
\<close>

section \<open>Steps\<close>

inductive ingest_step :: "('v, 'w) rag_env \<Rightarrow> uuid option \<Rightarrow> 'w rag_db \<Rightarrow> 'w rag_db \<Rightarrow> bool"
  for env where
  scan: "ingest_step env None d (snd (ScanIngestDue env cfg d))"
| watchdog: "ingest_step env None d (snd (ScanStuckAttempts cfg d))"
| adhoc: "ingest_step env None d (snd (openAttempt env src fromBeginning None d))"
| claim: "ingest_step env (Some i) d (snd (openAttempt env src fromBeginning (Some i) d))"
| estimate: "ingest_step env (Some i) d (stampDocsEstimated env src i d)"
| progress: "ingest_step env (Some i) d (bumpAttemptProgress i delta d)"
| heartbeat: "ingest_step env (Some i) d (writeHeartbeat i touched d)"
| finish: "ingest_step env (Some i) d (snd (finalizeAttempt env src i stats runErr d))"
| elsewhere: "rd_attempts d' = rd_attempts d \<Longrightarrow> ingest_step env None d d'"

definition active_of :: "uuid \<Rightarrow> index_attempt list \<Rightarrow> index_attempt list" where
  "active_of sourceID as = filter (\<lambda>a. ia_source a = sourceID \<and> active a) as"

definition attempts_inv :: "'w rag_db \<Rightarrow> bool" where
  "attempts_inv d \<longleftrightarrow> distinct (map ia_id (rd_attempts d))
     \<and> (\<forall>s. length (active_of s (rd_attempts d)) \<le> 1)"

lemma active_of_none: "\<not> list_ex (\<lambda>a. ia_source a = s \<and> active a) as \<Longrightarrow> active_of s as = []"
  by (simp add: active_of_def filter_empty_conv list_ex_iff)

text \<open>An update that keeps keys and wakes no attempt.\<close>

definition quiet :: "(index_attempt \<Rightarrow> bool) \<Rightarrow> (index_attempt \<Rightarrow> index_attempt) \<Rightarrow> bool" where
  "quiet sel f \<longleftrightarrow> (\<forall>a. sel a \<longrightarrow> ia_id (f a) = ia_id a \<and> ia_source (f a) = ia_source a
     \<and> (active (f a) \<longrightarrow> active a))"

lemma quietD:
  assumes "quiet sel f" "sel a"
  shows "ia_id (f a) = ia_id a" "ia_source (f a) = ia_source a" "active (f a) \<Longrightarrow> active a"
  using assms unfolding quiet_def by blast+

lemma active_of_quiet:
  assumes "quiet sel f"
  shows "length (active_of s (map (\<lambda>a. if sel a then f a else a) as)) \<le> length (active_of s as)"
proof (induction as)
  case (Cons a as)
  then show ?case
    using quietD [OF assms, of a] by (cases "sel a") (auto simp: active_of_def)
qed (simp add: active_of_def)

lemma ids_quiet:
  assumes "quiet sel f"
  shows "map ia_id (map (\<lambda>a. if sel a then f a else a) as) = map ia_id as"
proof -
  have "ia_id (if sel a then f a else a) = ia_id a" for a
    using quietD(1) [OF assms, of a] by (cases "sel a") simp_all
  then show ?thesis by (simp add: comp_def)
qed

lemma rd_attempts_update [simp]:
  "rd_attempts (update_attempts sel f d) = map (\<lambda>a. if sel a then f a else a) (rd_attempts d)"
  by (simp add: update_attempts_def)

lemma attempts_inv_quiet:
  assumes "attempts_inv d" "quiet sel f"
  shows "attempts_inv (update_attempts sel f d)"
proof -
  have "length (active_of s (map (\<lambda>a. if sel a then f a else a) (rd_attempts d))) \<le> 1" for s
    using active_of_quiet [OF assms(2), of s "rd_attempts d"] assms(1) le_trans
    unfolding attempts_inv_def by blast
  then show ?thesis
    using assms(1) unfolding attempts_inv_def rd_attempts_update ids_quiet [OF assms(2)] by blast
qed

lemma attempts_inv_cong: "rd_attempts d' = rd_attempts d \<Longrightarrow> attempts_inv d' = attempts_inv d"
  by (simp add: attempts_inv_def)

lemma create_attempt_fate:
  "(\<exists>e. create_attempt a d = (Inl e, d))
   \<or> (\<exists>i d'. create_attempt a d = (Inr i, d') \<and> rd_attempts d' = rd_attempts d @ [a\<lparr>ia_id := i\<rparr>]
        \<and> i \<notin> ia_id ` set (rd_attempts d))"
  by (simp add: create_attempt_def Let_def draw_id_def)

lemma attempts_inv_create:
  assumes "attempts_inv d" "active_of (ia_source a) (rd_attempts d) = []"
  shows "attempts_inv (snd (create_attempt a d))"
  using create_attempt_fate [of a d]
proof (elim disjE exE conjE)
  fix i d'
  assume d': "create_attempt a d = (Inr i, d')" "rd_attempts d' = rd_attempts d @ [a\<lparr>ia_id := i\<rparr>]"
    and i: "i \<notin> ia_id ` set (rd_attempts d)"
  have "length (active_of s (rd_attempts d')) \<le> 1" for s
    using assms by (cases "s = ia_source a") (auto simp: d'(2) active_of_def attempts_inv_def)
  then show ?thesis
    using assms(1) i by (simp add: attempts_inv_def d')
qed (use assms in simp)

section \<open>Each operation keeps the invariant\<close>

lemma rd_attempts_on_world [simp]: "rd_attempts (snd (on_world f d)) = rd_attempts d"
  by (simp add: on_world_def split: prod.split)

lemma rd_attempts_on_world_eq: "on_world f d = (x, d') \<Longrightarrow> rd_attempts d' = rd_attempts d"
  by (metis rd_attempts_on_world snd_conv)

lemma rd_attempts_update_source [simp]: "rd_attempts (update_source i f d) = rd_attempts d"
  by (simp add: update_source_def)

lemma quiet_fail:
  "quiet sel (\<lambda>a. a\<lparr>ia_status := IndexingStatusFailed, ia_error := e, ia_updated := t\<rparr>)"
  by (simp add: quiet_def active_def)

lemma terminal_not_active: "ia_status a = terminal_status stats runErr \<Longrightarrow> \<not> active a"
  by (auto simp: active_def terminal_status_def)

lemma quiet_finish: "quiet sel (finish_row now stats runErr cp)"
  unfolding quiet_def
proof (intro allI impI conjI)
  fix a assume "active (finish_row now stats runErr cp a)"
  then show "active a"
    using terminal_not_active [of "finish_row now stats runErr cp a" stats runErr]
    by (simp add: finish_row_def)
qed (simp_all add: finish_row_def)

lemma quiet_claim: "(\<And>a. sel a \<Longrightarrow> active a) \<Longrightarrow> quiet sel (claim_row now)"
  by (simp add: quiet_def claim_row_def)

lemma attempts_inv_openAttempt:
  assumes inv: "attempts_inv d"
  shows "attempts_inv (snd (openAttempt env src fromBeginning aid d))"
proof (cases aid)
  case None
  have "attempts_inv (snd (createAdHocAttempt env src fromBeginning d))"
  proof (cases "lockSourceForAttempt d (rs_id src) \<and> \<not> activeAttemptExists d (rs_id src) None")
    case True
    let ?a = "(blank_attempt (rs_org src) (rs_id src) IndexingStatusInProgress (db_now d))
      \<lparr>ia_from_beginning := fromBeginning, ia_last_progress := Some (db_now d), ia_started := Some (db_now d)\<rparr>"
    have none: "active_of (rs_id src) (rd_attempts d) = []"
      using True by (intro active_of_none) (simp add: activeAttemptExists_def)
    let ?cp = "lastCheckpointPointer d (rs_id src)"
    let ?b = "if \<not> fromBeginning \<and> ?cp \<noteq> [] then ?a\<lparr>ia_checkpoint := Some ?cp\<rparr> else ?a"
    have "attempts_inv (snd (create_attempt ?b d))"
      by (rule attempts_inv_create [OF inv]) (simp add: none blank_attempt_def)
    moreover have "snd (createAdHocAttempt env src fromBeginning d) = snd (create_attempt ?b d)"
      unfolding createAdHocAttempt_def Let_def using True
      by (cases "create_attempt ?b d"; cases "fst (create_attempt ?b d)") simp_all
    ultimately show ?thesis by simp
  qed (use inv in \<open>auto simp: createAdHocAttempt_def Let_def\<close>)
  then show ?thesis by (simp add: openAttempt_def None)
next
  case (Some i)
  have "attempts_inv (update_attempts (\<lambda>a. ia_id a = i \<and> ia_source a = rs_id src
          \<and> ia_status a = IndexingStatusNotStarted) (claim_row (db_now d)) d)"
    by (intro attempts_inv_quiet [OF inv] quiet_claim) (simp add: active_def)
  then show ?thesis
    using inv by (simp add: openAttempt_def Some claimReservedAttempt_def Let_def split: option.split)
qed

lemma attempts_inv_reserve:
  assumes inv: "attempts_inv d"
  shows "attempts_inv (snd (reserveIngestAttempt i d))"
proof (cases "\<exists>src. find_source d i = Some src \<and> sourceIngestDue src (db_now d)
    \<and> \<not> sourceHasActiveIngestAttempt d i")
  case True
  then obtain src where src: "find_source d i = Some src" "sourceIngestDue src (db_now d)"
    "\<not> sourceHasActiveIngestAttempt d i" by blast
  let ?a = "blank_attempt (rs_org src) i IndexingStatusNotStarted (db_now d)"
  have "active_of i (rd_attempts d) = []"
    using src(3) by (intro active_of_none) (simp add: sourceHasActiveIngestAttempt_def)
  then have "attempts_inv (snd (create_attempt ?a d))"
    by (intro attempts_inv_create [OF inv]) (simp add: blank_attempt_def)
  moreover have "snd (reserveIngestAttempt i d) = snd (create_attempt ?a d)"
    by (cases "create_attempt ?a d"; cases "fst (create_attempt ?a d)")
       (simp_all add: reserveIngestAttempt_def lockIngestSource_def src)
  ultimately show ?thesis by simp
next
  case False
  then show ?thesis
    using inv by (auto simp: reserveIngestAttempt_def lockIngestSource_def split: option.split)
qed

text \<open>
  What every reservation, every call of the queue and every failed reservation keeps, a scan keeps.
\<close>

locale scan_invariant =
  fixes P :: "'w rag_db \<Rightarrow> bool"
  assumes reserve_keeps: "P d \<Longrightarrow> P (snd (reserveIngestAttempt j d))"
    and world_keeps: "P d \<Longrightarrow> rd_attempts d' = rd_attempts d \<Longrightarrow> P d'"
    and failed_keeps: "P d \<Longrightarrow> fst (reserveIngestAttempt j d) = Inr i
      \<Longrightarrow> rd_attempts d2 = rd_attempts (snd (reserveIngestAttempt j d)) \<Longrightarrow> P (failIngestReservation i e d2)"
begin

lemma scan_ingest_keeps: "P d \<Longrightarrow> P (snd (scan_ingest env ttl ids n firstErr d))"
proof (induction ids arbitrary: n firstErr d)
  case (Cons j ids)
  obtain r d1 where r: "reserveIngestAttempt j d = (r, d1)" by fastforce
  have d1: "P d1" using reserve_keeps [OF Cons.prems, of j] by (simp add: r)
  show ?case
  proof (cases r)
    case (Inl err)
    then show ?thesis by (cases err) (simp_all add: r Cons.IH [OF d1])
  next
    case (Inr i)
    obtain e d2 where e: "enqueueIngest env j i ttl d1 = (e, d2)" by fastforce
    have d2: "rd_attempts d2 = rd_attempts d1"
      using e by (auto simp: enqueueIngest_def dest: rd_attempts_on_world_eq
          split: prod.splits option.splits queue_error.splits)
    have "P (failIngestReservation i x d2)" for x
      by (rule failed_keeps [OF Cons.prems, of j]) (simp_all add: r Inr d2)
    moreover have "P d2" by (rule world_keeps [OF d1 d2])
    ultimately show ?thesis by (cases e) (simp_all add: r Inr e Cons.IH)
  qed
qed simp

lemma scan_keeps: "P d \<Longrightarrow> P (snd (ScanIngestDue env cfg d))"
  by (simp add: ScanIngestDue_def Let_def scan_ingest_keeps)

end

lemma attempts_inv_fail: "attempts_inv d \<Longrightarrow> attempts_inv (failIngestReservation i e d)"
  by (simp add: failIngestReservation_def attempts_inv_quiet quiet_fail)

interpretation one_active: scan_invariant attempts_inv
proof (unfold_locales, goal_cases)
  case (1 d j)
  then show ?case by (rule attempts_inv_reserve)
next
  case (2 d d')
  then show ?case using attempts_inv_cong [OF 2(2)] by blast
next
  case (3 d j i d2 e)
  have "attempts_inv d2"
    using attempts_inv_cong [OF 3(3)] attempts_inv_reserve [OF 3(1)] by blast
  then show ?case by (rule attempts_inv_fail)
qed

lemma attempts_inv_watchdog: "attempts_inv d \<Longrightarrow> attempts_inv (snd (ScanStuckAttempts cfg d))"
  by (simp add: ScanStuckAttempts_def Let_def attempts_inv_quiet quiet_fail)

lemma quiet_estimate: "quiet sel (\<lambda>a. a\<lparr>ia_docs_estimated := x, ia_updated := t\<rparr>)"
  by (simp add: quiet_def active_def)

lemma quiet_bump:
  "quiet sel (\<lambda>a. a\<lparr>ia_new_docs := p a, ia_total_docs := q a, ia_last_progress := x, ia_updated := t\<rparr>)"
  by (simp add: quiet_def active_def)

lemma quiet_heartbeat:
  "quiet sel (\<lambda>a. a\<lparr>ia_last_heartbeat := x, ia_heartbeats := p a, ia_last_progress := q a, ia_updated := t\<rparr>)"
  by (simp add: quiet_def active_def)

lemma stamp_attempts:
  "\<exists>x t. rd_attempts (stampDocsEstimated env src i d) =
     map (\<lambda>a. if ia_id a = i \<and> x \<noteq> None then a\<lparr>ia_docs_estimated := x, ia_updated := t\<rparr> else a) (rd_attempts d)"
proof -
  obtain r d1 where r: "on_world (re_estimate env src) d = (r, d1)" by fastforce
  note d1 = rd_attempts_on_world_eq [OF r]
  show ?thesis
  proof (cases "\<exists>n. r = Some (Inr n)")
    case True
    then obtain n where "r = Some (Inr n)" by blast
    then show ?thesis
      by (intro exI [of _ "Some n"] exI [of _ "db_now d1"]) (simp add: stampDocsEstimated_def r d1)
  next
    case False
    then have "stampDocsEstimated env src i d = d1"
      by (auto simp: stampDocsEstimated_def r split: option.split sum.split)
    then show ?thesis by (intro exI [of _ None]) (simp add: d1)
  qed
qed

lemma attempts_inv_stamp: "attempts_inv d \<Longrightarrow> attempts_inv (stampDocsEstimated env src i d)"
proof -
  assume inv: "attempts_inv d"
  obtain x t where xt: "rd_attempts (stampDocsEstimated env src i d) =
      map (\<lambda>a. if ia_id a = i \<and> x \<noteq> None then a\<lparr>ia_docs_estimated := x, ia_updated := t\<rparr> else a) (rd_attempts d)"
    using stamp_attempts by blast
  have "attempts_inv (update_attempts (\<lambda>a. ia_id a = i \<and> x \<noteq> None)
      (\<lambda>a. a\<lparr>ia_docs_estimated := x, ia_updated := t\<rparr>) d)"
    by (rule attempts_inv_quiet [OF inv quiet_estimate])
  then show ?thesis by (subst attempts_inv_cong [where d = "update_attempts _ _ d"]) (simp_all add: xt)
qed

lemma final_checkpoint_attempts:
  "final_checkpoint env src runErr d = (cp, d1) \<Longrightarrow> rd_attempts d1 = rd_attempts d"
  by (auto simp: final_checkpoint_def split: if_splits prod.splits sum.splits dest: rd_attempts_on_world_eq)

lemma create_entry_attempts: "create_entry d org n reason rt ri x = Inr d1 \<Longrightarrow> rd_attempts d1 = rd_attempts d"
  by (auto simp: create_entry_def Let_def draw_id_def split: if_splits)

lemma Spend_attempts: "Spend d org n reason rt ri = Inr d1 \<Longrightarrow> rd_attempts d1 = rd_attempts d"
  by (auto simp: Spend_def SpendWithTx_def dest: create_entry_attempts split: sum.splits if_splits)

lemma debit_attempts [simp]: "rd_attempts (debitWebsiteCredits env src i stats d) = rd_attempts d"
  by (auto simp: debitWebsiteCredits_def dest: Spend_attempts split: sum.split)

lemma finalize_attempts:
  "\<exists>cp. rd_attempts (snd (finalizeAttempt env src i stats runErr d)) =
     map (\<lambda>a. if ia_id a = i then finish_row (db_now d) stats runErr cp a else a) (rd_attempts d)"
proof -
  obtain cp d1 where cp: "final_checkpoint env src runErr d = (cp, d1)" by fastforce
  note d1 = final_checkpoint_attempts [OF cp]
  let ?d2 = "update_attempts (\<lambda>a. ia_id a = i) (finish_row (db_now d) stats runErr cp) d1"
  obtain c d3 where c: "on_world (ix_count (re_index env) (re_ustr env (rs_id src))) ?d2 = (c, d3)"
    by fastforce
  have "rd_attempts (snd (finalizeAttempt env src i stats runErr d)) = rd_attempts ?d2"
  proof (cases runErr)
    case None
    show ?thesis
      using rd_attempts_on_world_eq [OF c] unfolding finalizeAttempt_def Let_def cp prod.case c
      by (simp add: None)
  next
    case (Some e)
    then show ?thesis unfolding finalizeAttempt_def Let_def cp prod.case by simp
  qed
  then show ?thesis by (intro exI [of _ cp]) (simp add: d1)
qed

lemma attempts_inv_finalize:
  "attempts_inv d \<Longrightarrow> attempts_inv (snd (finalizeAttempt env src i stats runErr d))"
proof -
  assume inv: "attempts_inv d"
  obtain cp where cp: "rd_attempts (snd (finalizeAttempt env src i stats runErr d)) =
     map (\<lambda>a. if ia_id a = i then finish_row (db_now d) stats runErr cp a else a) (rd_attempts d)"
    using finalize_attempts by blast
  have "attempts_inv (update_attempts (\<lambda>a. ia_id a = i) (finish_row (db_now d) stats runErr cp) d)"
    by (rule attempts_inv_quiet [OF inv quiet_finish])
  then show ?thesis by (subst attempts_inv_cong [where d = "update_attempts _ _ d"]) (simp_all add: cp)
qed

lemma attempts_inv_step: "ingest_step env l d d' \<Longrightarrow> attempts_inv d \<Longrightarrow> attempts_inv d'"
proof (induction rule: ingest_step.induct)
  case (progress i d delta)
  then show ?case by (simp add: bumpAttemptProgress_def attempts_inv_quiet quiet_bump)
next
  case (heartbeat i d touched)
  then show ?case by (simp add: writeHeartbeat_def attempts_inv_quiet quiet_heartbeat)
next
  case (elsewhere d' d)
  then show ?case using attempts_inv_cong by blast
qed (simp_all add: one_active.scan_keeps attempts_inv_watchdog attempts_inv_openAttempt
      attempts_inv_stamp attempts_inv_finalize)

inductive ingest_path ::
  "('v, 'w) rag_env \<Rightarrow> (uuid option \<Rightarrow> bool) \<Rightarrow> 'w rag_db \<Rightarrow> 'w rag_db \<Rightarrow> bool"
  for env allowed where
  stop: "ingest_path env allowed d d"
| move: "ingest_path env allowed d d1 \<Longrightarrow> allowed l \<Longrightarrow> ingest_step env l d1 d2
    \<Longrightarrow> ingest_path env allowed d d2"

lemma attempts_inv_path: "ingest_path env allowed d d' \<Longrightarrow> attempts_inv d \<Longrightarrow> attempts_inv d'"
  by (induction rule: ingest_path.induct) (auto intro: attempts_inv_step)

text \<open>
  C4: through every interleaving of scheduler scans, the watchdog, workers and anything else that
  leaves the attempts alone, a source has at most one attempt that is reserved or running, and
  attempts keep distinct identifiers.
\<close>

theorem single_active_attempt:
  assumes "ingest_path env (\<lambda>_. True) d d'" "attempts_inv d"
  shows "length (filter (\<lambda>a. ia_source a = s \<and> \<not> IsTerminal (ia_status a)) (rd_attempts d')) \<le> 1
    \<and> distinct (map ia_id (rd_attempts d'))"
proof -
  have "\<not> IsTerminal (ia_status a) \<longleftrightarrow> active a" for a
    by (cases "ia_status a") (simp_all add: active_def)
  then show ?thesis
    using attempts_inv_path [OF assms] by (simp add: attempts_inv_def active_of_def)
qed

section \<open>A reservation whose task died\<close>

text \<open>The row of attempt \<open>i\<close>, reserved for source \<open>s\<close> and never started.\<close>

definition reserved_row :: "uuid \<Rightarrow> uuid \<Rightarrow> index_attempt \<Rightarrow> bool" where
  "reserved_row i s a \<longleftrightarrow> ia_id a = i \<and> ia_source a = s \<and> ia_status a = IndexingStatusNotStarted"

definition reserved :: "uuid \<Rightarrow> uuid \<Rightarrow> 'w rag_db \<Rightarrow> bool" where
  "reserved i s d \<longleftrightarrow> (\<exists>a \<in> set (rd_attempts d). reserved_row i s a)"

lemma reserved_cong: "rd_attempts d' = rd_attempts d \<Longrightarrow> reserved i s d' = reserved i s d"
  by (simp add: reserved_def)

lemma reserved_update:
  assumes "reserved i s d" "\<And>a. reserved_row i s a \<Longrightarrow> \<not> sel a"
  shows "reserved i s (update_attempts sel f d)"
  using assms unfolding reserved_def rd_attempts_update by force

lemma reserved_create:
  assumes "reserved i s d"
  shows "reserved i s (snd (create_attempt a d))"
  using create_attempt_fate [of a d] assms by (auto simp: reserved_def)

lemma reserved_row_key: "reserved_row i s a \<Longrightarrow> ia_id a = i \<and> active a \<and> ia_status a \<noteq> IndexingStatusInProgress"
  by (simp add: reserved_row_def active_def)

lemma reserve_fate:
  "snd (reserveIngestAttempt j d) = d
   \<or> (\<exists>a. snd (reserveIngestAttempt j d) = snd (create_attempt a d)
        \<and> (\<forall>i. fst (reserveIngestAttempt j d) = Inr i \<longrightarrow> i \<notin> ia_id ` set (rd_attempts d)))"
proof (cases "\<exists>src. find_source d j = Some src \<and> sourceIngestDue src (db_now d)
    \<and> \<not> sourceHasActiveIngestAttempt d j")
  case True
  then obtain src where src: "find_source d j = Some src" "sourceIngestDue src (db_now d)"
    "\<not> sourceHasActiveIngestAttempt d j" by blast
  let ?a = "blank_attempt (rs_org src) j IndexingStatusNotStarted (db_now d)"
  have step: "reserveIngestAttempt j d = (case create_attempt ?a d of
      (Inl e, d1) \<Rightarrow> (Inl (ReserveFailed (''create ingest reservation: '' @ e)), d1)
    | (Inr i, d1) \<Rightarrow> (Inr i, d1))"
    by (simp add: reserveIngestAttempt_def lockIngestSource_def src)
  show ?thesis
    using create_attempt_fate [of ?a d]
  proof (elim disjE exE conjE)
    fix e assume "create_attempt ?a d = (Inl e, d)"
    then show ?thesis by (simp add: step)
  next
    fix i d' assume c: "create_attempt ?a d = (Inr i, d')" "i \<notin> ia_id ` set (rd_attempts d)"
    then show ?thesis by (intro disjI2 exI [of _ ?a]) (simp add: step)
  qed
next
  case False
  then show ?thesis
    by (auto simp: reserveIngestAttempt_def lockIngestSource_def split: option.split)
qed

lemma reserved_reserve: "reserved i s d \<Longrightarrow> reserved i s (snd (reserveIngestAttempt j d))"
  using reserve_fate [of j d] reserved_create by metis

lemma reserve_fresh: "fst (reserveIngestAttempt j d) = Inr k \<Longrightarrow> k \<notin> ia_id ` set (rd_attempts d)"
proof -
  assume k: "fst (reserveIngestAttempt j d) = Inr k"
  then show ?thesis
    by (auto simp: reserveIngestAttempt_def lockIngestSource_def create_attempt_def Let_def
        split: option.splits if_splits)
qed

interpretation kept_row: scan_invariant "reserved i s" for i s
proof (unfold_locales, goal_cases)
  case (1 d j)
  then show ?case by (rule reserved_reserve)
next
  case (2 d d')
  then show ?case using reserved_cong [OF 2(2)] by blast
next
  case (3 d j k d2 e)
  have d2: "reserved i s d2"
    using reserved_cong [OF 3(3)] reserved_reserve [OF 3(1)] by blast
  have "k \<noteq> i"
    using reserve_fresh [OF 3(2)] 3(1) by (auto simp: reserved_def reserved_row_def)
  then show ?case
    using d2 by (auto simp: failIngestReservation_def intro!: reserved_update dest: reserved_row_key)
qed

lemma active_iff: "active a \<longleftrightarrow> \<not> IsTerminal (ia_status a)"
  by (cases "ia_status a") (simp_all add: active_def)

lemma reserved_openAttempt:
  assumes r: "reserved i s d" and aid: "aid \<noteq> Some i"
  shows "reserved i s (snd (openAttempt env src fromBeginning aid d))"
proof (cases aid)
  case None
  obtain a where "snd (createAdHocAttempt env src fromBeginning d) = d
      \<or> snd (createAdHocAttempt env src fromBeginning d) = snd (create_attempt a d)"
  proof (cases "lockSourceForAttempt d (rs_id src) \<and> \<not> activeAttemptExists d (rs_id src) None")
    case True
    let ?a = "(blank_attempt (rs_org src) (rs_id src) IndexingStatusInProgress (db_now d))
      \<lparr>ia_from_beginning := fromBeginning, ia_last_progress := Some (db_now d), ia_started := Some (db_now d)\<rparr>"
    let ?cp = "lastCheckpointPointer d (rs_id src)"
    let ?b = "if \<not> fromBeginning \<and> ?cp \<noteq> [] then ?a\<lparr>ia_checkpoint := Some ?cp\<rparr> else ?a"
    have "snd (createAdHocAttempt env src fromBeginning d) = snd (create_attempt ?b d)"
      unfolding createAdHocAttempt_def Let_def using True
      by (cases "create_attempt ?b d"; cases "fst (create_attempt ?b d)") simp_all
    then show thesis using that by blast
  next
    case False
    then have "snd (createAdHocAttempt env src fromBeginning d) = d"
      by (auto simp: createAdHocAttempt_def Let_def)
    then show thesis using that by blast
  qed
  then have "reserved i s (snd (createAdHocAttempt env src fromBeginning d))"
    using r reserved_create by metis
  then show ?thesis by (simp add: openAttempt_def None)
next
  case (Some j)
  have "reserved i s (update_attempts (\<lambda>a. ia_id a = j \<and> ia_source a = rs_id src
          \<and> ia_status a = IndexingStatusNotStarted) (claim_row (db_now d)) d)"
    by (rule reserved_update [OF r]) (use aid Some in \<open>auto dest: reserved_row_key\<close>)
  then show ?thesis
    using r by (simp add: openAttempt_def Some claimReservedAttempt_def Let_def split: option.split)
qed

lemma reserved_map:
  assumes "rd_attempts d' = map g (rd_attempts d)" "\<And>a. reserved_row i s a \<Longrightarrow> g a = a" "reserved i s d"
  shows "reserved i s d'"
  using assms unfolding reserved_def by force

lemma reserved_step:
  assumes "ingest_step env l d d'" "l \<noteq> Some i" "reserved i s d"
  shows "reserved i s d'"
  using assms
proof (induction rule: ingest_step.induct)
  case (scan d cfg)
  then show ?case by (simp add: kept_row.scan_keeps)
next
  case (watchdog d cfg)
  then show ?case
    by (auto simp: ScanStuckAttempts_def Let_def stuck_def intro!: reserved_update dest: reserved_row_key)
next
  case (adhoc d src fromBeginning)
  then show ?case by (simp add: reserved_openAttempt)
next
  case (claim j d src fromBeginning)
  then show ?case by (simp add: reserved_openAttempt)
next
  case (estimate j d src)
  obtain x t where xt: "rd_attempts (stampDocsEstimated env src j d) =
      map (\<lambda>a. if ia_id a = j \<and> x \<noteq> None then a\<lparr>ia_docs_estimated := x, ia_updated := t\<rparr> else a) (rd_attempts d)"
    using stamp_attempts by blast
  show ?case by (rule reserved_map [OF xt]) (use estimate in \<open>auto dest: reserved_row_key\<close>)
next
  case (progress j d delta)
  then show ?case by (auto simp: bumpAttemptProgress_def intro!: reserved_update dest: reserved_row_key)
next
  case (heartbeat j d touched)
  then show ?case by (auto simp: writeHeartbeat_def intro!: reserved_update dest: reserved_row_key)
next
  case (finish j d src stats runErr)
  obtain cp where cp: "rd_attempts (snd (finalizeAttempt env src j stats runErr d)) =
     map (\<lambda>a. if ia_id a = j then finish_row (db_now d) stats runErr cp a else a) (rd_attempts d)"
    using finalize_attempts by blast
  show ?case by (rule reserved_map [OF cp]) (use finish in \<open>auto dest: reserved_row_key\<close>)
next
  case (elsewhere d' d)
  then show ?case using reserved_cong by blast
qed

lemma reserved_path:
  "ingest_path env allowed d d' \<Longrightarrow> (\<And>l. allowed l \<Longrightarrow> l \<noteq> Some i) \<Longrightarrow> reserved i s d \<Longrightarrow> reserved i s d'"
  by (induction rule: ingest_path.induct) (auto intro: reserved_step)

lemma reserved_active: "reserved i s d \<Longrightarrow> aid \<noteq> Some i \<Longrightarrow> activeAttemptExists d s aid"
  by (auto simp: reserved_def activeAttemptExists_def list_ex_iff reserved_row_def active_def split: option.split)

lemma reserved_never_due: "reserved i s d \<Longrightarrow> s \<notin> set (selectIngestDueSourceIDs d n)"
proof
  assume r: "reserved i s d" and "s \<in> set (selectIngestDueSourceIDs d n)"
  then obtain src where "ingest_candidate d src" "rs_id src = s"
    by (auto simp: selectIngestDueSourceIDs_def dest!: in_set_takeD)
  then show False
    using r by (auto simp: ingest_candidate_def reserved_def reserved_row_def list_ex_iff active_def)
qed

lemma reserved_open_refused:
  assumes "reserved i (rs_id src) d" "aid \<noteq> Some i"
  shows "isl (fst (openAttempt env src fromBeginning aid d))"
proof -
  have "activeAttemptExists d (rs_id src) aid" by (rule reserved_active [OF assms])
  then show ?thesis
    by (cases aid) (simp_all add: openAttempt_def createAdHocAttempt_def claimReservedAttempt_def Let_def)
qed

text \<open>
  A task that fails before it opens its attempt (here: its connector cannot be built) leaves the
  attempts alone; its queue does not retry it.
\<close>

lemma failed_build_keeps_attempts:
  assumes "on_world (re_build env src) d = (Inl e, d1)" "find_source d s = Some src"
  shows "rd_attempts (snd (HandleIngest env s fromBeginning aid d)) = rd_attempts d"
  using assms rd_attempts_on_world_eq [OF assms(1)] by (simp add: HandleIngest_def)

text \<open>
  A reservation whose task is gone is never recovered. Whatever the scheduler, the watchdog,
  other workers and other tasks do, and for however long, it stays reserved; the scan never selects
  its source again, and every other attempt to open one for the source is refused.
\<close>

theorem reservation_stranded:
  assumes "ingest_path env (\<lambda>l. l \<noteq> Some i) d d'" "reserved i (rs_id src) d"
  shows "reserved i (rs_id src) d' \<and> rs_id src \<notin> set (selectIngestDueSourceIDs d' n)
    \<and> (aid = Some i \<or> isl (fst (openAttempt env src fromBeginning aid d')))"
proof -
  have r: "reserved i (rs_id src) d'" using reserved_path [OF assms(1) _ assms(2)] by blast
  show ?thesis using r reserved_never_due [OF r] reserved_open_refused [OF r] by blast
qed

section \<open>Witnesses\<close>

definition demo_index :: "(unit, unit) index_env" where
  "demo_index =
     \<lparr>ix_tokenizer = None, ix_encode = (\<lambda>s. [0]), ix_decode = (\<lambda>_. []),
      ix_post = (\<lambda>inputs w. (HttpResponse 200 (replicate (length inputs) (CHR ''v'')), w)),
      ix_body = (\<lambda>body. Inr (None, map (\<lambda>_. ()) body)), ix_status_text = show_int, ix_max_retries = 3,
      ix_delete = (\<lambda>_ _ w. (None, w)), ix_upsert = (\<lambda>_ w. (None, w)), ix_count = (\<lambda>_ w. (Inr 1, w)),
      ix_point_id = (\<lambda>org src doc. org @ src @ doc)\<rparr>"

definition demo_document :: document where
  "demo_document =
     \<lparr>dc_DocID = ''d1'', dc_SemanticID = ''Title'', dc_Link = [], dc_Sections = [\<lparr>sc_Text = ''text'', sc_Title = []\<rparr>],
      dc_ACL = [], dc_IsPublic = True, dc_UpdatedAt = None, dc_Metadata = None, dc_PrimaryOwners = []\<rparr>"

definition demo_failure :: ConnectorFailure where
  "demo_failure = \<lparr>cf_Document = None, cf_Entity = None, cf_Message = ''forbidden''\<rparr>"

definition demo_rag :: "bool \<Rightarrow> (unit, unit) rag_env" where
  "demo_rag builds =
     \<lparr>re_index = demo_index, re_ustr = dec_ustr,
      re_build = (\<lambda>_ w. (if builds then Inr True else Inl ''connector: unknown kind'', w)),
      re_estimate = (\<lambda>_ w. (None, w)),
      re_run = (\<lambda>_ _ _ _ w. (Inr [StreamDoc demo_document, StreamFailure demo_failure], w)),
      re_checkpoint = (\<lambda>_ w. (Inr [], w)), re_enqueue = (\<lambda>_ w. (None, w)), re_credits = True,
      re_batch_size = 0\<rparr>"

definition demo_source :: rag_source where
  "demo_source =
     \<lparr>rs_id = 3, rs_org = 1, rs_kind = RAGSourceKindWebsite, rs_name = ''docs'', rs_source_kind = ''WEBSITE'',
      rs_connection = None, rs_status = RAGSourceStatusActive, rs_enabled = True, rs_access = ''public'',
      rs_indexing_start = None, rs_last_index = None, rs_last_perm_sync = None, rs_last_pruned = None,
      rs_refresh_freq = Some 3600, rs_prune_freq = None, rs_perm_freq = None, rs_total_docs = 0\<rparr>"

definition demo_rag_db :: "unit rag_db" where
  "demo_rag_db =
     \<lparr>db_orgs = [\<lparr>org_id = 1, org_plan_slug = ''pro''\<rparr>], db_ledger = [], db_gen = of_nat, db_drawn = 7,
      db_now = unix_epoch, rd_sources = [demo_source], rd_attempts = [], rd_errors = [], rd_world = ()\<rparr>"

lemma attempts_inv_empty: "rd_attempts d = [] \<Longrightarrow> attempts_inv d"
  by (simp add: attempts_inv_def active_of_def)

lemma demo_path:
  "ingest_path (demo_rag False) (\<lambda>_. True) demo_rag_db
     (snd (ScanStuckAttempts defaultConfig (snd (ScanIngestDue (demo_rag False) defaultConfig demo_rag_db))))"
proof (rule ingest_path.move [where l = None])
  show "ingest_path (demo_rag False) (\<lambda>_. True) demo_rag_db
      (snd (ScanIngestDue (demo_rag False) defaultConfig demo_rag_db))"
    by (rule ingest_path.move [where l = None, OF ingest_path.stop TrueI ingest_step.scan])
qed (rule TrueI ingest_step.watchdog)+

theorem single_active_attempt_witness:
  "(let d' = snd (ScanStuckAttempts defaultConfig (snd (ScanIngestDue (demo_rag False) defaultConfig demo_rag_db)))
    in length (filter (\<lambda>a. ia_source a = 3 \<and> \<not> IsTerminal (ia_status a)) (rd_attempts d')) \<le> 1
       \<and> distinct (map ia_id (rd_attempts d'))
       \<and> map ia_status (rd_attempts d') = [IndexingStatusNotStarted])"
  unfolding Let_def
proof (intro conjI)
  have inv: "attempts_inv demo_rag_db" by (rule attempts_inv_empty) (simp add: demo_rag_db_def)
  note h = single_active_attempt [OF demo_path inv, of 3]
  show "length (filter (\<lambda>a. ia_source a = 3 \<and> \<not> IsTerminal (ia_status a)) (rd_attempts
      (snd (ScanStuckAttempts defaultConfig (snd (ScanIngestDue (demo_rag False) defaultConfig demo_rag_db)))))) \<le> 1"
    by (rule conjunct1 [OF h])
  show "distinct (map ia_id (rd_attempts
      (snd (ScanStuckAttempts defaultConfig (snd (ScanIngestDue (demo_rag False) defaultConfig demo_rag_db))))))"
    by (rule conjunct2 [OF h])
qed code_simp

text \<open>The only task of the reservation fails to build its connector; a day passes.\<close>

definition demo_stranded :: "unit rag_db" where
  "demo_stranded =
     snd (HandleIngest (demo_rag False) 3 False (Some 7)
            (snd (ScanIngestDue (demo_rag False) defaultConfig demo_rag_db)))"

definition demo_next_day :: "unit rag_db" where
  "demo_next_day =
     snd (ScanStuckAttempts defaultConfig (demo_stranded\<lparr>db_now := db_now demo_stranded + 24 * Hour\<rparr>))"

lemma demo_next_day_path: "ingest_path (demo_rag True) (\<lambda>l. l \<noteq> Some 7) demo_stranded demo_next_day"
  unfolding demo_next_day_def
proof (rule ingest_path.move [where l = None])
  show "ingest_path (demo_rag True) (\<lambda>l. l \<noteq> Some 7) demo_stranded
      (demo_stranded\<lparr>db_now := db_now demo_stranded + 24 * Hour\<rparr>)"
    by (rule ingest_path.move [where l = None, OF ingest_path.stop _ ingest_step.elsewhere]) simp_all
qed (simp, rule ingest_step.watchdog)

theorem reservation_stranded_witness:
  "reserved 7 3 demo_next_day \<and> 3 \<notin> set (selectIngestDueSourceIDs demo_next_day 500)
   \<and> isl (fst (openAttempt (demo_rag True) demo_source False None demo_next_day))
   \<and> fst (ScanStuckAttempts defaultConfig demo_next_day) = 0
   \<and> fst (ScanIngestDue (demo_rag True) defaultConfig demo_next_day) = (0, None)"
proof -
  have "reserved 7 3 demo_stranded" by code_simp
  then have "reserved 7 (rs_id demo_source) demo_stranded" by (simp add: demo_source_def)
  note h = reservation_stranded [OF demo_next_day_path this, where n = 500 and aid = None and fromBeginning = False]
  have "fst (ScanStuckAttempts defaultConfig demo_next_day) = 0"
    "fst (ScanIngestDue (demo_rag True) defaultConfig demo_next_day) = (0, None)"
    by code_simp+
  then show ?thesis using h by (simp add: demo_source_def)
qed

end
