(* ===== verification/IngestRuns.thy ===== *)
theory IngestRuns
  imports IngestProps
begin

text \<open>
  One run of an ingest worker, from the batches it embeds to the row it leaves and the credits it
  charges.
\<close>

section \<open>Embedding requests\<close>

definition group_tokens :: "docPart list \<Rightarrow> nat" where
  "group_tokens ps = sum_list (map dp_tokens ps)"

text \<open>The requests the grouping sends, and a run over given requests.\<close>

function embed_groups :: "docPart list \<Rightarrow> docPart list list" where
  "embed_groups [] = []"
| "embed_groups (p # ps) =
     fst (take_group True 0 (p # ps)) # embed_groups (snd (take_group True 0 (p # ps)))"
  by pat_completeness auto
termination
proof (relation "measure length", goal_cases)
  case (2 p ps)
  obtain g rest where g: "take_group True 0 (p # ps) = (g, rest)" by fastforce
  have "g @ rest = p # ps" by (rule take_group_append [OF g])
  moreover have "g \<noteq> []" by (rule take_group_nonempty [OF g])
  ultimately have "length rest < length (p # ps)"
    by (metis length_append length_greater_0_conv less_add_same_cancel2)
  then show ?case unfolding g by simp
qed simp

fun embed_each ::
  "('v, 'w) index_env \<Rightarrow> docPart list list \<Rightarrow> 'v list \<Rightarrow> 'w \<Rightarrow> (string + 'v list) \<times> 'w" where
  "embed_each env [] out w = (Inr out, w)"
| "embed_each env (g # gs) out w =
     (case Embed env (map dp_content g) w of
        (Inl e, w1) \<Rightarrow> (Inl e, w1)
      | (Inr vecs, w1) \<Rightarrow> embed_each env gs (out @ vecs) w1)"

lemma embed_in_groups: "embedInBudgetedGroups env ps out w = embed_each env (embed_groups ps) out w"
proof (induction ps arbitrary: out w rule: embed_groups.induct)
  case (2 p ps)
  then show ?case
    by (simp only: embedInBudgetedGroups.simps embed_groups.simps embed_each.simps)
qed (simp add: embedInBudgetedGroups.simps)

lemma take_group_budget:
  "take_group False used ps = (g, rest) \<Longrightarrow> used \<le> embedRequestTokenLimit
     \<Longrightarrow> used + group_tokens g \<le> embedRequestTokenLimit"
proof (induction ps arbitrary: used g)
  case (Cons p ps)
  show ?case
  proof (cases "used + dp_tokens p > embedRequestTokenLimit")
    case True
    then show ?thesis using Cons.prems by (auto simp: group_tokens_def)
  next
    case False
    obtain g1 rest1 where g1: "take_group False (used + dp_tokens p) ps = (g1, rest1)" by fastforce
    have "used + dp_tokens p + group_tokens g1 \<le> embedRequestTokenLimit"
      using False Cons.prems(1) g1 by (intro Cons.IH) auto
    then show ?thesis using Cons.prems(1) False g1 by (auto simp: group_tokens_def)
  qed
qed (simp add: group_tokens_def)

lemma take_group_first:
  assumes "take_group True 0 (p # ps) = (g, rest)"
  shows "group_tokens g \<le> embedRequestTokenLimit \<or> length g = 1"
proof -
  obtain g1 rest1 where g1: "take_group False (dp_tokens p) ps = (g1, rest1)" by fastforce
  then have g: "g = p # g1" using assms by simp
  show ?thesis
  proof (cases "dp_tokens p \<le> embedRequestTokenLimit")
    case True
    then show ?thesis using take_group_budget [OF g1] g by (simp add: group_tokens_def)
  next
    case False
    then have "g1 = []" using g1 by (cases ps) auto
    then show ?thesis using g by simp
  qed
qed

lemma embed_each_length:
  "embed_each env gs out w = (Inr vecs, w1) \<Longrightarrow> length vecs = length out + length (concat gs)"
proof (induction gs arbitrary: out w)
  case (Cons g gs)
  then show ?case
    by (fastforce split: prod.splits sum.splits dest: Embed_length)
qed simp

lemma concat_embed_groups: "concat (embed_groups ps) = ps"
proof (induction ps rule: embed_groups.induct)
  case (2 p ps)
  then show ?case using take_group_append [of True 0 "p # ps"]
    by (metis concat.simps(2) embed_groups.simps(2) prod.collapse)
qed simp

lemma embed_groups_bounded:
  "g \<in> set (embed_groups ps) \<Longrightarrow> g \<noteq> [] \<and> (group_tokens g \<le> embedRequestTokenLimit \<or> length g = 1)"
proof (induction ps rule: embed_groups.induct)
  case (2 p ps)
  then show ?case
    using take_group_first [of p ps] take_group_nonempty [of 0 p ps]
    by (metis embed_groups.simps(2) prod.collapse set_ConsD)
qed simp

text \<open>
  C39: embedding the parts sends them in order, in requests that are not empty and stay within the
  token limit unless one part alone exceeds it; a run that succeeds answers one vector for each
  part, so the flush never reads a vector that is not there.
\<close>

theorem embedding_within_budget:
  "concat (embed_groups parts) = parts
   \<and> (\<forall>g. g \<in> set (embed_groups parts) \<longrightarrow> g \<noteq> [] \<and> (group_tokens g \<le> 200000 \<or> length g = 1))
   \<and> embedInBudgetedGroups env parts [] w = embed_each env (embed_groups parts) [] w
   \<and> (\<forall>vecs w1. embedInBudgetedGroups env parts [] w = (Inr vecs, w1) \<longrightarrow> length vecs = length parts)"
proof (intro conjI allI impI)
  show "concat (embed_groups parts) = parts" by (rule concat_embed_groups)
  fix g assume g: "g \<in> set (embed_groups parts)"
  show "g \<noteq> []" "group_tokens g \<le> 200000 \<or> length g = 1"
    using embed_groups_bounded [OF g] by (simp_all add: embedRequestTokenLimit_def)
next
  show "embedInBudgetedGroups env parts [] w = embed_each env (embed_groups parts) [] w"
    by (rule embed_in_groups)
next
  fix vecs w1 assume "embedInBudgetedGroups env parts [] w = (Inr vecs, w1)"
  then show "length vecs = length parts"
    using embed_each_length [of env "embed_groups parts" "[]" w vecs w1]
    by (simp add: embed_in_groups concat_embed_groups)
qed

theorem embedding_within_budget_witness:
  "(let part = (\<lambda>i n. \<lparr>dp_doc = demo_document, dp_pointDocID = ''d'', dp_content = ''x'', dp_partIndex = i, dp_tokens = n\<rparr>);
        parts = [part 0 150000, part 1 60000, part 2 250000]
    in map length (embed_groups parts) = [1, 1, 1]
       \<and> concat (embed_groups parts) = parts)"
proof -
  let ?part = "\<lambda>i n. \<lparr>dp_doc = demo_document, dp_pointDocID = ''d'', dp_content = ''x'', dp_partIndex = i, dp_tokens = n\<rparr>"
  have "map length (embed_groups [?part 0 150000, ?part 1 60000, ?part 2 250000]) = [1, 1, 1]"
    by (simp add: embedRequestTokenLimit_def)
  then show ?thesis
    using conjunct1 [OF embedding_within_budget
      [of "[?part 0 150000, ?part 1 60000, ?part 2 250000]" demo_index "()"]]
    unfolding Let_def by blast
qed

section \<open>One run\<close>

definition docs_of :: "stream_item list \<Rightarrow> int" where
  "docs_of items = int (length (filter (\<lambda>x. case x of StreamDoc _ \<Rightarrow> True | _ \<Rightarrow> False) items))"

definition failures_of :: "stream_item list \<Rightarrow> int" where
  "failures_of items = int (length (filter (\<lambda>x. case x of StreamFailure _ \<Rightarrow> True | _ \<Rightarrow> False) items))"

lemma counts_simps [simp]:
  "docs_of [] = 0" "docs_of (StreamDoc x # is) = docs_of is + 1" "docs_of (StreamFailure f # is) = docs_of is"
  "docs_of (StreamEmpty # is) = docs_of is" "failures_of [] = 0" "failures_of (StreamDoc x # is) = failures_of is"
  "failures_of (StreamFailure f # is) = failures_of is + 1" "failures_of (StreamEmpty # is) = failures_of is"
  by (simp_all add: docs_of_def failures_of_def)

lemma failures_nonneg: "0 \<le> failures_of items" by (simp add: failures_of_def)

text \<open>The keys of the attempts and the rows of their errors, along the writes of a run.\<close>

definition attempt_ids :: "'w rag_db \<Rightarrow> uuid list" where
  "attempt_ids d = map ia_id (rd_attempts d)"

lemma attempt_ids_quiet: "quiet sel f \<Longrightarrow> attempt_ids (update_attempts sel f d) = attempt_ids d"
  unfolding attempt_ids_def rd_attempts_update by (rule ids_quiet)

lemma bump_frame [simp]:
  "attempt_ids (bumpAttemptProgress i n d) = attempt_ids d" "rd_errors (bumpAttemptProgress i n d) = rd_errors d"
  by (simp_all add: bumpAttemptProgress_def attempt_ids_quiet quiet_bump) (simp add: update_attempts_def)

lemma record_frame [simp]:
  "attempt_ids (recordAttemptError org s i f d) = attempt_ids d"
  "length (rd_errors (recordAttemptError org s i f d)) = Suc (length (rd_errors d))"
  by (simp_all add: recordAttemptError_def attempt_ids_def)

lemma on_world_frame:
  "on_world f d = (x, d1) \<Longrightarrow> attempt_ids d1 = attempt_ids d \<and> rd_errors d1 = rd_errors d \<and> db_now d1 = db_now d"
  by (auto simp: on_world_def attempt_ids_def split: prod.splits)

lemma flush_and_bump_ok:
  assumes "flush_and_bump env src i batch stats d = ((stats1, None), d1)"
  shows "stats1 = stats\<lparr>st_docsBatched := st_docsBatched stats + int (length batch)\<rparr>
    \<and> attempt_ids d1 = attempt_ids d \<and> rd_errors d1 = rd_errors d"
  using assms on_world_frame
  by (fastforce simp: flush_and_bump_def split: prod.splits option.splits)

lemma ingest_stream_counts:
  assumes "ingest_stream env src i items batch stats d = ((stats1, None), d1)"
  shows "st_docsSeen stats1 = st_docsSeen stats + docs_of items
    \<and> st_docsBatched stats1 = st_docsBatched stats + int (length batch) + docs_of items
    \<and> st_failures stats1 = st_failures stats + failures_of items
    \<and> attempt_ids d1 = attempt_ids d
    \<and> int (length (rd_errors d1)) = int (length (rd_errors d)) + failures_of items"
  using assms
proof (induction items arbitrary: batch stats d)
  case Nil
  then show ?case by (auto split: if_splits dest: flush_and_bump_ok)
next
  case (Cons x items)
  show ?case
  proof (cases x)
    case (StreamDoc doc)
    let ?s = "stats\<lparr>st_docsSeen := st_docsSeen stats + 1\<rparr>"
    show ?thesis
    proof (cases "length (batch @ [doc]) \<ge> batch_size env")
      case True
      obtain stats2 e d2 where f: "flush_and_bump env src i (batch @ [doc]) ?s d = ((stats2, e), d2)"
        by (metis prod.collapse)
      have e: "e = None" using Cons.prems StreamDoc True f by (cases e) (auto simp: Let_def)
      show ?thesis
        using Cons.IH [of "[]" stats2 d2] Cons.prems StreamDoc True f [unfolded e]
          flush_and_bump_ok [OF f [unfolded e]] by (auto simp: Let_def)
    next
      case False
      then show ?thesis
        using Cons.IH [of "batch @ [doc]" ?s d] Cons.prems StreamDoc by (auto simp: Let_def)
    qed
  next
    case (StreamFailure f)
    then show ?thesis
      using Cons.IH [of batch "stats\<lparr>st_failures := st_failures stats + 1\<rparr>"
          "recordAttemptError (rs_org src) (rs_id src) i f d"] Cons.prems by auto
  qed (use Cons.IH [of batch stats d] Cons.prems in auto)
qed

lemma runIngest_counts:
  assumes "runIngest env src a d = ((stats, None), d1)"
  obtains w items where "fst (on_world (re_run env src (loadCheckpointBytes a)
      (fst (computeIngestWindow src (ia_from_beginning a) (db_now d)))
      (snd (computeIngestWindow src (ia_from_beginning a) (db_now d)))) d) = Inr items"
    "st_docsBatched stats = docs_of items" "st_failures stats = failures_of items"
    "attempt_ids d1 = attempt_ids d"
    "int (length (rd_errors d1)) = int (length (rd_errors d)) + failures_of items"
proof -
  obtain ws we where w: "computeIngestWindow src (ia_from_beginning a) (db_now d) = (ws, we)" by fastforce
  obtain r d2 where r: "on_world (re_run env src (loadCheckpointBytes a) ws we) d = (r, d2)" by fastforce
  show thesis
  proof (cases r)
    case (Inl e)
    then show thesis using assms by (simp add: runIngest_def w r)
  next
    case (Inr items)
    let ?s = "\<lparr>st_docsSeen = 0, st_docsBatched = 0, st_failures = 0, st_pollStart = ws, st_pollEnd = zero_time\<rparr>"
    obtain stats1 e d3 where s: "ingest_stream env src (ia_id a) items [] ?s d2 = ((stats1, e), d3)"
      by (metis prod.collapse)
    have e: "e = None" using assms by (cases e) (auto simp: runIngest_def w r Inr s)
    have "stats = stats1\<lparr>st_pollEnd := we\<rparr>" "d3 = d1"
      using assms by (auto simp: runIngest_def w r Inr s e)
    then show thesis
      using ingest_stream_counts [OF s [unfolded e]] on_world_frame [OF r]
      by (intro that [of items]) (simp_all add: w r Inr)
  qed
qed

lemma opened_row_present:
  assumes "openAttempt env src fromBeginning aid d = (Inr a, d1)"
  shows "ia_id a \<in> set (attempt_ids d1)"
proof (cases aid)
  case None
  then show ?thesis
    using assms by (auto simp: openAttempt_def createAdHocAttempt_def create_attempt_def Let_def draw_id_def
        attempt_ids_def split: if_splits)
next
  case (Some i)
  then have "ia_id a = i" "a \<in> set (rd_attempts d1)"
    using assms by (auto simp: openAttempt_def claimReservedAttempt_def Let_def find_attempt_def
        split: if_splits option.splits dest: find_SomeD)
  then show ?thesis unfolding attempt_ids_def set_map by blast
qed

lemma stamp_ids [simp]: "attempt_ids (stampDocsEstimated env src i d) = attempt_ids d"
proof -
  obtain x t where "rd_attempts (stampDocsEstimated env src i d) =
      map (\<lambda>a. if ia_id a = i \<and> x \<noteq> None then a\<lparr>ia_docs_estimated := x, ia_updated := t\<rparr> else a) (rd_attempts d)"
    using stamp_attempts by blast
  then show ?thesis unfolding attempt_ids_def by (simp only: ids_quiet [OF quiet_estimate])
qed

lemma finalize_answer: "fst (finalizeAttempt env src i stats runErr d) = runErr"
  by (simp add: finalizeAttempt_def Let_def split: prod.split)

text \<open>What the connector streams to a run that starts in \<open>d\<close>.\<close>

definition streamed ::
  "('v, 'w) rag_env \<Rightarrow> rag_source \<Rightarrow> index_attempt \<Rightarrow> 'w rag_db \<Rightarrow> string + stream_item list" where
  "streamed env src a d =
     fst (on_world (re_run env src (loadCheckpointBytes a)
       (fst (computeIngestWindow src (ia_from_beginning a) (db_now d)))
       (snd (computeIngestWindow src (ia_from_beginning a) (db_now d)))) d)"

text \<open>
  C30: an ingest task that opened its attempt and reports no error leaves the attempt finished: its
  row is there and says success, or completed with errors when the connector reported failures, and
  counts every document the connector streamed, whatever the batch size.
\<close>

theorem ingest_task_outcome:
  assumes src: "s \<noteq> uuid_nil" "find_source d s = Some src"
    and build: "on_world (re_build env src) d = (Inr True, d1)"
    and opened: "openAttempt env src fromBeginning aid d1 = (Inr a, d2)"
    and result: "HandleIngest env s fromBeginning aid d = (None, d')"
  shows "\<exists>items. streamed env src a (stampDocsEstimated env src (ia_id a) d2) = Inr items
    \<and> ia_id a \<in> ia_id ` set (rd_attempts d')
    \<and> (\<forall>r. r \<in> set (rd_attempts d') \<longrightarrow> ia_id r = ia_id a \<longrightarrow>
          ia_status r = (if failures_of items > 0 then IndexingStatusCompletedWithErrors else IndexingStatusSuccess)
          \<and> ia_new_docs r = Some (docs_of items))"
proof -
  let ?d3 = "stampDocsEstimated env src (ia_id a) d2"
  obtain stats runErr d4 where run: "runIngest env src a ?d3 = ((stats, runErr), d4)"
    by (metis prod.collapse)
  have fin: "finalizeAttempt env src (ia_id a) stats runErr d4 = (None, d')"
    using result by (simp add: HandleIngest_def src build opened run)
  have none: "runErr = None" using finalize_answer [of env src "ia_id a" stats runErr d4] by (simp add: fin)
  obtain items where items: "streamed env src a ?d3 = Inr items" "st_docsBatched stats = docs_of items"
    "st_failures stats = failures_of items" "attempt_ids d4 = attempt_ids ?d3"
    using runIngest_counts [OF run [unfolded none]] unfolding streamed_def by metis
  obtain cp where cp: "rd_attempts d' =
     map (\<lambda>r. if ia_id r = ia_id a then finish_row (db_now d4) stats None cp r else r) (rd_attempts d4)"
    using finalize_attempts [of env src "ia_id a" stats None d4] fin unfolding none by auto
  have "attempt_ids d' = attempt_ids d4"
    unfolding attempt_ids_def cp by (rule ids_quiet [OF quiet_finish])
  then have "ia_id a \<in> set (attempt_ids d')"
    using opened_row_present [OF opened] items(4) by simp
  moreover have "ia_status r = (if failures_of items > 0 then IndexingStatusCompletedWithErrors else IndexingStatusSuccess)
      \<and> ia_new_docs r = Some (docs_of items)" if r: "r \<in> set (rd_attempts d')" "ia_id r = ia_id a" for r
  proof -
    obtain q where "r = finish_row (db_now d4) stats None cp q"
      using r unfolding cp by (auto simp: finish_row_def split: if_splits)
    then show ?thesis by (simp add: finish_row_def terminal_status_def items)
  qed
  ultimately show ?thesis using items(1) by (intro exI [of _ items]) (auto simp: attempt_ids_def)
qed

section \<open>What a crawl is charged\<close>

definition crawl_charges :: "('v, 'w) rag_env \<Rightarrow> uuid \<Rightarrow> uuid \<Rightarrow> 'w rag_db \<Rightarrow> nat" where
  "crawl_charges env org i d =
     length (filter (\<lambda>e. le_org e = org \<and> le_reason e = ''rag_website_crawl''
       \<and> le_ref_type e = ''rag_source_attempt_credit'' \<and> le_ref_id e = re_ustr env i) (db_ledger d))"

definition charged_once :: "('v, 'w) rag_env \<Rightarrow> 'w rag_db \<Rightarrow> bool" where
  "charged_once env d \<longleftrightarrow> (\<forall>i. re_ustr env i \<noteq> []) \<and> (\<forall>org i. crawl_charges env org i d \<le> 1)"

lemma charged_once_ledger: "db_ledger d' = db_ledger d \<Longrightarrow> charged_once env d \<Longrightarrow> charged_once env d'"
  by (simp add: charged_once_def crawl_charges_def)

lemma on_world_ledger: "on_world f d = (x, d1) \<Longrightarrow> db_ledger d1 = db_ledger d"
  by (auto simp: on_world_def split: prod.splits)

lemma update_ledger [simp]: "db_ledger (update_attempts sel f d) = db_ledger d"
  "db_ledger (update_source i g d) = db_ledger d"
  by (simp_all add: update_attempts_def update_source_def)

lemma final_checkpoint_ledger:
  "final_checkpoint env src runErr d = (cp, d1) \<Longrightarrow> db_ledger d1 = db_ledger d"
  by (auto simp: final_checkpoint_def split: if_splits prod.splits sum.splits dest: on_world_ledger)

lemma Spend_row:
  assumes "Spend d org amount reason rt ri = Inr d1" "ri \<noteq> []"
  shows "\<exists>e. db_ledger d1 = db_ledger d @ [e] \<and> le_org e = org \<and> le_reason e = reason \<and> le_ref_type e = rt
    \<and> le_ref_id e = ri \<and> (\<forall>x \<in> set (db_ledger d). \<not> (le_org x = org \<and> le_reason x = reason
        \<and> le_ref_type x = rt \<and> le_ref_id x = ri))"
  using assms
  by (auto simp: Spend_def SpendWithTx_def create_entry_def Let_def draw_id_def ledgerEntryExists_def list_ex_iff
      split: sum.splits if_splits)

lemma charged_once_debit: "charged_once env d \<Longrightarrow> charged_once env (debitWebsiteCredits env src i stats d)"
proof -
  assume c: "charged_once env d"
  let ?sp = "Spend d (rs_org src) (st_docsBatched stats * WebsitePagePriceCredits)
    ''rag_website_crawl'' ''rag_source_attempt_credit'' (re_ustr env i)"
  show ?thesis
  proof (cases ?sp)
    case (Inl e)
    then show ?thesis using c by (simp add: debitWebsiteCredits_def)
  next
    case (Inr d1)
    obtain e where e: "db_ledger d1 = db_ledger d @ [e]" "le_org e = rs_org src" "le_ref_id e = re_ustr env i"
      "\<forall>x \<in> set (db_ledger d). \<not> (le_org x = rs_org src \<and> le_reason x = ''rag_website_crawl''
        \<and> le_ref_type x = ''rag_source_attempt_credit'' \<and> le_ref_id x = re_ustr env i)"
      using Spend_row [OF Inr] c by (auto simp: charged_once_def)
    have "crawl_charges env org j d1 \<le> 1" for org j
    proof (cases "org = rs_org src \<and> re_ustr env j = re_ustr env i")
      case True
      then have "crawl_charges env org j d = 0"
        using e(4) by (simp add: crawl_charges_def filter_empty_conv)
      then show ?thesis using True by (simp add: crawl_charges_def e)
    next
      case False
      then have "crawl_charges env org j d1 = crawl_charges env org j d"
        using e(2,3) by (auto simp: crawl_charges_def e(1))
      then show ?thesis using c by (simp add: charged_once_def)
    qed
    then have "charged_once env d1" using c by (simp add: charged_once_def)
    then show ?thesis using c by (simp add: debitWebsiteCredits_def Inr)
  qed
qed

lemma charged_once_finalize:
  "charged_once env d \<Longrightarrow> charged_once env (snd (finalizeAttempt env src i stats runErr d))"
proof -
  assume c: "charged_once env d"
  obtain cp d1 where cp: "final_checkpoint env src runErr d = (cp, d1)" by fastforce
  let ?d2 = "update_attempts (\<lambda>a. ia_id a = i) (finish_row (db_now d) stats runErr cp) d1"
  have d1: "db_ledger d1 = db_ledger d" by (rule final_checkpoint_ledger [OF cp])
  have d2: "db_ledger ?d2 = db_ledger d" using d1 by simp
  obtain n d3 where n: "on_world (ix_count (re_index env) (re_ustr env (rs_id src))) ?d2 = (n, d3)" by fastforce
  show ?thesis
  proof (cases runErr)
    case None
    have "charged_once env (update_source (rs_id src) g d3)" for g
      by (rule charged_once_ledger [OF _ c]) (simp add: on_world_ledger [OF n] d1)
    then show ?thesis
      unfolding finalizeAttempt_def Let_def cp prod.case n by (simp add: None charged_once_debit)
  next
    case (Some e)
    have "charged_once env (if b then update_source (rs_id src) g ?d2 else ?d2)" for b g
      by (rule charged_once_ledger [OF _ c]) (simp add: d1)
    then show ?thesis unfolding finalizeAttempt_def Let_def cp prod.case by (simp add: Some)
  qed
qed

text \<open>A call of the final write, by whichever worker holds the attempt.\<close>

type_synonym finish_call = "rag_source \<times> uuid \<times> ingestStats \<times> string option"

definition finish_attempt :: "('v, 'w) rag_env \<Rightarrow> finish_call \<Rightarrow> 'w rag_db \<Rightarrow> 'w rag_db" where
  "finish_attempt env call d =
     (case call of (src, i, stats, runErr) \<Rightarrow> snd (finalizeAttempt env src i stats runErr d))"

interpretation crawl: op_system "finish_attempt env" "charged_once env" for env
  by unfold_locales (simp add: finish_attempt_def charged_once_finalize split: prod.split)

text \<open>
  C31: a website crawl is charged at most once: on any ledger without crawl charges, however often,
  and with whatever counts, attempts are finished, it ends with at most one charge for each attempt.
\<close>

theorem website_crawl_charged_once:
  assumes "\<forall>i. re_ustr env i \<noteq> []" "\<forall>e \<in> set (db_ledger d). le_reason e \<noteq> ''rag_website_crawl''"
  shows "crawl_charges env org i (run_ops (finish_attempt env) calls d) \<le> 1"
proof -
  have "charged_once env d" using assms by (simp add: charged_once_def crawl_charges_def filter_False)
  from crawl.inv_run [OF this, of calls] show ?thesis by (simp add: charged_once_def)
qed

section \<open>Witnesses\<close>

definition demo_reserved :: "unit rag_db" where
  "demo_reserved =
     snd (ScanIngestDue (demo_rag True) defaultConfig
       (demo_rag_db\<lparr>db_ledger := [\<lparr>le_id = 1, le_org = 1, le_amount = 5, le_reason = ReasonTopup,
          le_ref_type = [], le_ref_id = [], le_expires_at = None, le_created_at = 0\<rparr>]\<rparr>))"

lemma demo_ingest:
  "fst (HandleIngest (demo_rag True) 3 False (Some 7) demo_reserved) = None"
  "map ia_id (rd_attempts (snd (HandleIngest (demo_rag True) 3 False (Some 7) demo_reserved))) = [7]"
  by code_simp+

lemma demo_open:
  "map_sum (\<lambda>_. ()) ia_id (fst (openAttempt (demo_rag True) demo_source False (Some 7) demo_reserved)) = Inr 7"
  "find_source demo_reserved 3 = Some demo_source"
  by code_simp+

lemma demo_build: "on_world (re_build (demo_rag True) demo_source) demo_reserved = (Inr True, demo_reserved)"
  by (simp add: on_world_def demo_rag_def)

theorem ingest_task_outcome_witness:
  "map (\<lambda>r. (ia_id r, ia_status r, ia_new_docs r))
     (rd_attempts (snd (HandleIngest (demo_rag True) 3 False (Some 7) demo_reserved)))
   = [(7, IndexingStatusCompletedWithErrors, Some 1)]"
proof -
  let ?h = "HandleIngest (demo_rag True) 3 False (Some 7) demo_reserved"
  let ?o = "openAttempt (demo_rag True) demo_source False (Some 7) demo_reserved"
  obtain a d2 where a: "?o = (Inr a, d2)" "ia_id a = 7"
    using demo_open(1) by (cases ?o; cases "fst ?o") auto
  have h: "?h = (None, snd ?h)" using demo_ingest(1) by (metis prod.collapse)
  have nz: "(3 :: uuid) \<noteq> uuid_nil" by simp
  obtain items where i: "streamed (demo_rag True) demo_source a
      (stampDocsEstimated (demo_rag True) demo_source (ia_id a) d2) = Inr items"
    "\<forall>r. r \<in> set (rd_attempts (snd ?h)) \<longrightarrow> ia_id r = ia_id a \<longrightarrow>
       ia_status r = (if failures_of items > 0 then IndexingStatusCompletedWithErrors else IndexingStatusSuccess)
       \<and> ia_new_docs r = Some (docs_of items)"
    using ingest_task_outcome [OF nz demo_open(2) demo_build a(1) h] by blast
  have items: "items = [StreamDoc demo_document, StreamFailure demo_failure]"
    using i(1) by (simp add: streamed_def on_world_def demo_rag_def)
  obtain r where r: "rd_attempts (snd ?h) = [r]" "ia_id r = 7"
    using demo_ingest(2) by auto
  have "ia_status r = IndexingStatusCompletedWithErrors \<and> ia_new_docs r = Some 1"
    using i(2) by (simp add: r items a(2))
  then show ?thesis by (simp add: r)
qed

text \<open>The same attempt finished twice, as after a redelivery of its task.\<close>

definition demo_crawl_stats :: ingestStats where
  "demo_crawl_stats =
     \<lparr>st_docsSeen = 2, st_docsBatched = 2, st_failures = 0, st_pollStart = 0, st_pollEnd = 0\<rparr>"

theorem website_crawl_charged_once_witness:
  "(let calls = [(demo_source, 7, demo_crawl_stats, None), (demo_source, 7, demo_crawl_stats, None)]
    in crawl_charges (demo_rag True) 1 7 (run_ops (finish_attempt (demo_rag True)) calls demo_reserved) \<le> 1)
   \<and> map le_amount (db_ledger (finish_attempt (demo_rag True) (demo_source, 7, demo_crawl_stats, None) demo_reserved))
       = [5, - 2]"
proof -
  have "\<forall>i. re_ustr (demo_rag True) i \<noteq> []" by (simp add: demo_rag_def dec_ustr_def)
  moreover have "\<forall>e \<in> set (db_ledger demo_reserved). le_reason e \<noteq> ''rag_website_crawl''" by code_simp
  moreover have "map le_amount (db_ledger
      (finish_attempt (demo_rag True) (demo_source, 7, demo_crawl_stats, None) demo_reserved)) = [5, - 2]"
    by code_simp
  ultimately show ?thesis unfolding Let_def by (intro conjI website_crawl_charged_once)
qed

end
