(* ===== verification/Orchestrator.thy ===== *)
theory Orchestrator
  imports WarmPool
begin

text \<open>
  Sandboxes and the orchestrator: \<open>internal/sandbox/orchestrator.go\<close>, \<open>orchestrator_active.go\<close>,
  \<open>orchestrator_create_employee.go\<close>, \<open>orchestrator_delete.go\<close>, \<open>orchestrator_employee_health.go\<close>,
  \<open>orchestrator_employee_lifecycle.go\<close>, \<open>orchestrator_health.go\<close>, \<open>orchestrator_lifecycle.go\<close>,
  \<open>orchestrator_wake.go\<close>, \<open>orchestrator_helpers.go\<close>, \<open>orchestrator_runtime_url.go\<close> and
  \<open>resource_checker.go\<close>, over the rows of \<open>internal/model/sandbox.go\<close> and
  \<open>employee_sandbox_upgrade.go\<close>. The tables extend the warm pool. The provider, the health endpoint
  of a runtime and the cipher are functions on a world of their own. A statement to the database
  may fail: \<open>oe_db\<close> answers, before each one, whether it does.
\<close>

section \<open>Statuses\<close>

definition StatusCreating :: string where "StatusCreating = ''creating''"
definition StatusRunning :: string where "StatusRunning = ''running''"
definition StatusStopped :: string where "StatusStopped = ''stopped''"
definition StatusStarting :: string where "StatusStarting = ''starting''"
definition StatusArchived :: string where "StatusArchived = ''archived''"
definition StatusArchiving :: string where "StatusArchiving = ''archiving''"
definition StatusError :: string where "StatusError = ''error''"

lemmas sandbox_status_defs = StatusCreating_def StatusRunning_def StatusStopped_def
  StatusStarting_def StatusArchived_def StatusArchiving_def StatusError_def

definition known_status :: "string \<Rightarrow> bool" where
  "known_status s \<longleftrightarrow> s \<in> {StatusCreating, StatusRunning, StatusStopped, StatusStarting,
     StatusArchived, StatusArchiving, StatusError}"

text \<open>
  The statuses of the drivers: Daytona's state names, Docker's container states, and the states of
  Railway's deployments in upper case.
\<close>

definition mapState :: "string \<Rightarrow> string" where
  "mapState state =
     (if state \<in> {''started'', ''running''} then StatusRunning
      else if state = ''stopped'' then StatusStopped
      else if state \<in> {''creating'', ''starting'', ''pending'', ''restoring''} then StatusStarting
      else if state = ''archived'' then StatusArchived
      else if state = ''archiving'' then StatusArchiving
      else StatusError)"

definition docker_status :: "(bool \<times> string) option \<Rightarrow> string" where
  "docker_status state =
     (case state of
        None \<Rightarrow> StatusError
      | Some (isRunning, status) \<Rightarrow>
          if isRunning then StatusRunning
          else if status \<in> {''created'', ''exited'', ''paused''} then StatusStopped
          else StatusError)"

definition railway_status :: "string list \<Rightarrow> string" where
  "railway_status deployments =
     (case deployments of
        [] \<Rightarrow> StatusCreating
      | status # _ \<Rightarrow>
          if status \<in> {''SUCCESS'', ''DEPLOYED''} then StatusRunning
          else if status \<in> {''BUILDING'', ''DEPLOYING'', ''INITIALIZING'', ''QUEUED''} then StatusCreating
          else if status \<in> {''REMOVED'', ''STOPPED''} then StatusStopped
          else StatusError)"

lemma drivers_known:
  "known_status (mapState s)" "known_status (docker_status c)" "known_status (railway_status ds)"
  by (simp_all add: known_status_def mapState_def docker_status_def railway_status_def
      split: option.split list.split)

section \<open>Rows\<close>

record resource_usage =
  ru_MemoryLimitBytes :: int
  ru_MemoryUsedBytes :: int
  ru_MemoryPeakBytes :: int
  ru_CPUQuota :: string
  ru_CPUUsageUsec :: int
  ru_CPUThrottledCount :: int
  ru_PIDCount :: int

record sandbox = sandbox_row +
  sn_org :: "uuid option"
  sn_employee :: "uuid option"
  sn_provider :: string
  sn_snapshot :: "string option"
  sn_error :: "string option"
  sn_stopped :: "gotime option"
  sn_usage :: "(resource_usage \<times> gotime) option"
  sn_created :: gotime

text \<open>
  The columns of an employee the orchestrator reads. \<open>em_repositories\<close> is what the first
  \<open>repository\<close> entry of its resources decodes to: pairs of a name and a full name, or the
  decoder's error.
\<close>

record employee =
  em_id :: uuid
  em_org :: "uuid option"
  em_name :: string
  em_status :: string
  em_harness :: string
  em_is_employee :: bool
  em_repositories :: "string + (string \<times> string) list"

record upgrade =
  ug_id :: uuid
  ug_org :: uuid
  ug_employee :: uuid
  ug_old :: "uuid option"
  ug_new :: "uuid option"
  ug_status :: string
  ug_phase :: string
  ug_backup_key :: "string option"
  ug_backup_sha :: "string option"
  ug_backup_bytes :: int
  ug_error :: "string option"
  ug_completed :: "gotime option"
  ug_created :: gotime

record 'w orch =
  or_pool :: "'w pool"
  or_sandboxes :: "sandbox list"
  or_employees :: "employee list"
  or_upgrades :: "upgrade list"

section \<open>Environment\<close>

datatype sb_error = SandboxNotFound | SbError string

fun err_text :: "sb_error \<Rightarrow> string" where
  "err_text SandboxNotFound = ''sandbox not found upstream''"
| "err_text (SbError e) = e"

definition wrap :: "string \<Rightarrow> sb_error \<Rightarrow> sb_error" where
  "wrap what e = SbError (what @ '': '' @ err_text e)"

definition daytona_GetStatus ::
  "(string \<Rightarrow> 'w \<Rightarrow> (sb_error + string) \<times> 'w) \<Rightarrow> string \<Rightarrow> 'w \<Rightarrow> (sb_error + string) \<times> 'w" where
  "daytona_GetStatus api i w =
     (case api i w of (Inl e, w1) \<Rightarrow> (Inl e, w1) | (Inr s, w1) \<Rightarrow> (Inr (mapState s), w1))"

definition docker_GetStatus ::
  "(string \<Rightarrow> 'w \<Rightarrow> (sb_error + (bool \<times> string) option) \<times> 'w) \<Rightarrow> string \<Rightarrow> 'w \<Rightarrow> (sb_error + string) \<times> 'w" where
  "docker_GetStatus inspect i w =
     (case inspect i w of (Inl e, w1) \<Rightarrow> (Inl e, w1) | (Inr s, w1) \<Rightarrow> (Inr (docker_status s), w1))"

definition railway_GetStatus ::
  "(string \<Rightarrow> 'w \<Rightarrow> (sb_error + string list) \<times> 'w) \<Rightarrow> string \<Rightarrow> 'w \<Rightarrow> (sb_error + string) \<times> 'w" where
  "railway_GetStatus deployments i w =
     (case deployments i w of (Inl e, w1) \<Rightarrow> (Inl e, w1) | (Inr ds, w1) \<Rightarrow> (Inr (railway_status ds), w1))"

text \<open>What the orchestrator relies on in a driver: it answers with one of the seven statuses.\<close>

locale status_driver =
  fixes get_status :: "string \<Rightarrow> 'w \<Rightarrow> (sb_error + string) \<times> 'w"
  assumes status_known: "get_status i w = (Inr s, w') \<Longrightarrow> known_status s"

interpretation daytona: status_driver "daytona_GetStatus api" for api
  by unfold_locales (auto simp: daytona_GetStatus_def drivers_known split: prod.splits sum.splits)

interpretation docker: status_driver "docker_GetStatus inspect" for inspect
  by unfold_locales (auto simp: docker_GetStatus_def drivers_known split: prod.splits sum.splits)

interpretation railway: status_driver "railway_GetStatus deployments" for deployments
  by unfold_locales (auto simp: railway_GetStatus_def drivers_known split: prod.splits sum.splits)

record create_opts =
  co_Name :: string
  co_TemplateRef :: string
  co_Labels :: "(string \<times> string) list"

datatype probe_answer = ProbeBadRequest string | ProbeTransport string | ProbeStatus int

record 'w orch_env =
  oe_pool :: "'w warm_env"
  oe_warm :: bool
  oe_meanwhile :: "nat \<Rightarrow> 'w pool \<Rightarrow> 'w pool option"
  oe_ustr :: "uuid \<Rightarrow> string"
  oe_db :: "'w \<Rightarrow> string option \<times> 'w"
  oe_create :: "create_opts \<Rightarrow> 'w \<Rightarrow> (sb_error + string) \<times> 'w"
  oe_start :: "string \<Rightarrow> 'w \<Rightarrow> sb_error option \<times> 'w"
  oe_stop :: "string \<Rightarrow> 'w \<Rightarrow> sb_error option \<times> 'w"
  oe_archive :: "string \<Rightarrow> 'w \<Rightarrow> sb_error option \<times> 'w"
  oe_delete :: "string \<Rightarrow> 'w \<Rightarrow> sb_error option \<times> 'w"
  oe_status :: "string \<Rightarrow> 'w \<Rightarrow> (sb_error + string) \<times> 'w"
  oe_endpoint :: "string \<Rightarrow> int \<Rightarrow> 'w \<Rightarrow> (sb_error + string) \<times> 'w"
  oe_exec :: "string \<Rightarrow> string \<Rightarrow> duration \<Rightarrow> 'w \<Rightarrow> (string + string) \<times> 'w"
  oe_exec_runtime :: "(string \<Rightarrow> string \<Rightarrow> string \<Rightarrow> duration \<Rightarrow> 'w \<Rightarrow> (string + string) \<times> 'w) option"
  oe_usage :: "string \<Rightarrow> 'w \<Rightarrow> (sb_error + resource_usage) \<times> 'w"
  oe_auto_off :: "string \<Rightarrow> 'w \<Rightarrow> 'w"
  oe_probe :: "string \<Rightarrow> 'w \<Rightarrow> probe_answer \<times> 'w"
  oe_docker_host :: "string \<Rightarrow> string option"
  oe_cancelled :: "'w \<Rightarrow> bool \<times> 'w"
  oe_employee_repo_dir :: string

definition onow :: "'w orch \<Rightarrow> gotime" where "onow d = wp_now (or_pool d)"

definition o_world :: "('w \<Rightarrow> 'a \<times> 'w) \<Rightarrow> 'w orch \<Rightarrow> 'a \<times> 'w orch" where
  "o_world f d = (case in_world f (or_pool d) of (x, p) \<Rightarrow> (x, d\<lparr>or_pool := p\<rparr>))"

text \<open>A statement that writes, one that reads (\<open>Inr None\<close>: no row), and a write whose failure is ignored.\<close>

definition db_exec ::
  "'w orch_env \<Rightarrow> ('w orch \<Rightarrow> 'w orch) \<Rightarrow> 'w orch \<Rightarrow> string option \<times> 'w orch" where
  "db_exec env f d =
     (case o_world (oe_db env) d of (Some e, d1) \<Rightarrow> (Some e, d1) | (None, d1) \<Rightarrow> (None, f d1))"

definition db_read ::
  "'w orch_env \<Rightarrow> ('w orch \<Rightarrow> 'a) \<Rightarrow> 'w orch \<Rightarrow> (string + 'a) \<times> 'w orch" where
  "db_read env f d =
     (case o_world (oe_db env) d of (Some e, d1) \<Rightarrow> (Inl e, d1) | (None, d1) \<Rightarrow> (Inr (f d1), d1))"

definition db_try :: "'w orch_env \<Rightarrow> ('w orch \<Rightarrow> 'w orch) \<Rightarrow> 'w orch \<Rightarrow> 'w orch" where
  "db_try env f d = snd (db_exec env f d)"

definition find_sandbox :: "'w orch \<Rightarrow> uuid \<Rightarrow> sandbox option" where
  "find_sandbox d i = find (\<lambda>s. sx_id s = i) (or_sandboxes d)"

definition update_sandbox :: "uuid \<Rightarrow> (sandbox \<Rightarrow> sandbox) \<Rightarrow> 'w orch \<Rightarrow> 'w orch" where
  "update_sandbox i f d = d\<lparr>or_sandboxes := map (\<lambda>s. if sx_id s = i then f s else s) (or_sandboxes d)\<rparr>"

text \<open>Deleting a sandbox clears the references upgrades hold to it (\<open>ON DELETE SET NULL\<close>).\<close>

definition forget :: "uuid \<Rightarrow> uuid option \<Rightarrow> uuid option" where
  "forget i r = (if r = Some i then None else r)"

definition delete_sandbox_row :: "uuid \<Rightarrow> 'w orch \<Rightarrow> 'w orch" where
  "delete_sandbox_row i d =
     d\<lparr>or_sandboxes := filter (\<lambda>s. sx_id s \<noteq> i) (or_sandboxes d),
       or_upgrades := map (\<lambda>u. u\<lparr>ug_old := forget i (ug_old u), ug_new := forget i (ug_new u)\<rparr>) (or_upgrades d)\<rparr>"

section \<open>Provider and endpoint\<close>

definition ProviderDaytona :: string where "ProviderDaytona = ''daytona''"
definition EmployeeSandboxPort :: int where "EmployeeSandboxPort = 7080"
definition runtimeURLRefreshBuffer :: duration where "runtimeURLRefreshBuffer = 5 * Minute"
definition runtimeURLTTL :: duration where "runtimeURLTTL = 55 * Minute"
definition employeeHealthTimeout :: duration where "employeeHealthTimeout = 90 * Second"
definition employeeHealthInterval :: duration where "employeeHealthInterval = 2 * Second"

definition ensureSandboxProvider :: "'w orch_env \<Rightarrow> sandbox \<Rightarrow> sb_error + sandbox" where
  "ensureSandboxProvider env sb =
     (let expected = we_id (oe_pool env) in
      if expected = [] then Inl (SbError ''sandbox provider not configured'')
      else let sb1 = (if sn_provider sb = [] then sb\<lparr>sn_provider := ProviderDaytona\<rparr> else sb) in
        if sn_provider sb1 \<noteq> expected
        then Inl (SbError (''sandbox '' @ oe_ustr env (sx_id sb1) @ '' was created by provider ''
               @ sn_provider sb1 @ ''; active provider is '' @ expected))
        else Inr sb1)"

definition needsURLRefresh :: "sandbox \<Rightarrow> gotime \<Rightarrow> bool" where
  "needsURLRefresh sb now \<longleftrightarrow>
     sx_runtime_url sb = []
     \<or> (case sx_url_expires sb of None \<Rightarrow> True | Some t \<Rightarrow> now + runtimeURLRefreshBuffer > t)"

definition RefreshEmployeeSandboxURL ::
  "'w orch_env \<Rightarrow> sandbox \<Rightarrow> 'w orch \<Rightarrow> (sb_error + sandbox) \<times> 'w orch" where
  "RefreshEmployeeSandboxURL env sb d =
     (case ensureSandboxProvider env sb of
        Inl e \<Rightarrow> (Inl e, d)
      | Inr sb1 \<Rightarrow>
          (case o_world (oe_endpoint env (sx_external sb1) EmployeeSandboxPort) d of
             (Inl e, d1) \<Rightarrow> (Inl (wrap ''get employee sandbox endpoint'' e), d1)
           | (Inr url, d1) \<Rightarrow>
               let f = (\<lambda>s :: sandbox. s\<lparr>sx_runtime_url := url, sx_url_expires := Some (onow d1 + runtimeURLTTL)\<rparr>)
               in (case db_exec env (update_sandbox (sx_id sb1) f) d1 of
                     (Some e, d2) \<Rightarrow> (Inl (SbError (''update sandbox url: '' @ e)), d2)
                   | (None, d2) \<Rightarrow> (Inr (f sb1), d2))))"

section \<open>Waiting for a runtime\<close>

definition health_url :: "string \<Rightarrow> string" where
  "health_url url = trim_right (\<lambda>c. c = CHR ''/'') url @ ''/healthz''"

text \<open>One probe, with the fallback for a host that only Docker resolves.\<close>

definition probe_once :: "'w orch_env \<Rightarrow> string \<Rightarrow> 'w orch \<Rightarrow> probe_answer \<times> 'w orch" where
  "probe_once env url d =
     (case o_world (oe_probe env url) d of
        (ProbeTransport e, d1) \<Rightarrow>
          (case oe_docker_host env url of
             None \<Rightarrow> (ProbeTransport e, d1)
           | Some fallback \<Rightarrow>
               (case o_world (oe_probe env fallback) d1 of
                  (ProbeStatus s, d2) \<Rightarrow> (ProbeStatus s, d2)
                | (_, d2) \<Rightarrow> (ProbeTransport e, d2)))
      | (a, d1) \<Rightarrow> (a, d1))"

lemma onow_o_world [simp]: "onow (snd (o_world f d)) = onow d"
  by (auto simp: onow_def o_world_def in_world_def split: prod.split)

lemma o_world_onow: "o_world f d = (x, d') \<Longrightarrow> onow d' = onow d"
  using onow_o_world [of f d] by simp

lemma probe_once_onow: "probe_once env url d = (x, d') \<Longrightarrow> onow d' = onow d"
  by (auto simp: probe_once_def split: prod.splits probe_answer.splits option.splits dest!: o_world_onow)

definition pass_time :: "duration \<Rightarrow> 'w orch \<Rightarrow> 'w orch" where
  "pass_time t d = d\<lparr>or_pool := (or_pool d)\<lparr>wp_now := wp_now (or_pool d) + t\<rparr>\<rparr>"

lemma onow_pass_time [simp]: "onow (pass_time t d) = onow d + t"
  by (simp add: onow_def pass_time_def)

function wait_live :: "'w orch_env \<Rightarrow> string \<Rightarrow> gotime \<Rightarrow> nat \<Rightarrow> 'w orch \<Rightarrow> sb_error option \<times> 'w orch" where
  "wait_live env url deadline attempt d =
     (if \<not> onow d < deadline
      then (Some (SbError (''employee runtime not live within 1m30s ('' @ show_nat attempt @ '' attempts)'')), d)
      else
        (case probe_once env url d of
           (ProbeBadRequest e, d1) \<Rightarrow> (Some (SbError (''build request: '' @ e)), d1)
         | (a, d1) \<Rightarrow>
             if a = ProbeStatus 200 then (None, d1)
             else
               (case o_world (oe_cancelled env) d1 of
                  (True, d2) \<Rightarrow> (Some (SbError ''context canceled''), d2)
                | (False, d2) \<Rightarrow> wait_live env url deadline (attempt + 1) (pass_time employeeHealthInterval d2))))"
  by pat_completeness auto
termination
  by (relation "measure (\<lambda>(env, url, deadline, attempt, d). nat (deadline - onow d))")
    (auto simp: employeeHealthInterval_def Second_def dest!: o_world_onow [OF sym] probe_once_onow [OF sym])

declare wait_live.simps [simp del]

definition waitForEmployeeRuntimeLive :: "'w orch_env \<Rightarrow> sandbox \<Rightarrow> 'w orch \<Rightarrow> sb_error option \<times> 'w orch" where
  "waitForEmployeeRuntimeLive env sb d =
     wait_live env (health_url (sx_runtime_url sb)) (onow d + employeeHealthTimeout) 0 d"

section \<open>Stopping, starting, deleting, archiving\<close>

definition stopped_row :: "gotime \<Rightarrow> sandbox \<Rightarrow> sandbox" where
  "stopped_row now s = s\<lparr>sx_status := StatusStopped, sn_stopped := Some now, sx_url_expires := None\<rparr>"

definition running_row :: "gotime \<Rightarrow> sandbox \<Rightarrow> sandbox" where
  "running_row now s =
     s\<lparr>sx_status := StatusRunning, sx_last_active := Some now, sn_stopped := None, sn_error := None\<rparr>"

definition purgeMissingSandbox ::
  "'w orch_env \<Rightarrow> sandbox \<Rightarrow> 'w orch \<Rightarrow> sb_error \<times> 'w orch" where
  "purgeMissingSandbox env sb d =
     (case db_exec env (delete_sandbox_row (sx_id sb)) d of
        (Some e, d1) \<Rightarrow> (SbError (''purging missing sandbox '' @ oe_ustr env (sx_id sb) @ '': '' @ e), d1)
      | (None, d1) \<Rightarrow> (SandboxNotFound, d1))"

definition StopSandbox :: "'w orch_env \<Rightarrow> sandbox \<Rightarrow> 'w orch \<Rightarrow> (sb_error + sandbox) \<times> 'w orch" where
  "StopSandbox env sb d =
     (case ensureSandboxProvider env sb of
        Inl e \<Rightarrow> (Inl e, d)
      | Inr sb1 \<Rightarrow>
          (case o_world (oe_stop env (sx_external sb1)) d of
             (Some SandboxNotFound, d1) \<Rightarrow> (let (e, d2) = purgeMissingSandbox env sb1 d1 in (Inl e, d2))
           | (Some (SbError e), d1) \<Rightarrow>
               (Inl (SbError (''stopping sandbox '' @ oe_ustr env (sx_id sb1) @ '': '' @ e)), d1)
           | (None, d1) \<Rightarrow>
               (case db_exec env (update_sandbox (sx_id sb1) (stopped_row (onow d1))) d1 of
                  (Some e, d2) \<Rightarrow> (Inl (SbError e), d2)
                | (None, d2) \<Rightarrow> (Inr (stopped_row (onow d1) sb1), d2))))"

definition StartEmployeeSandbox ::
  "'w orch_env \<Rightarrow> sandbox \<Rightarrow> 'w orch \<Rightarrow> (sb_error + sandbox) \<times> 'w orch" where
  "StartEmployeeSandbox env sb d =
     (case ensureSandboxProvider env sb of
        Inl e \<Rightarrow> (Inl e, d)
      | Inr sb1 \<Rightarrow>
          (case o_world (oe_start env (sx_external sb1)) d of
             (Some e, d1) \<Rightarrow> (Inl (wrap (''starting employee sandbox '' @ oe_ustr env (sx_id sb1)) e), d1)
           | (None, d1) \<Rightarrow>
               (case RefreshEmployeeSandboxURL env sb1 d1 of
                  (Inl e, d2) \<Rightarrow> (Inl e, d2)
                | (Inr sb2, d2) \<Rightarrow>
                    (case db_exec env (update_sandbox (sx_id sb2) (running_row (onow d2))) d2 of
                       (Some e, d3) \<Rightarrow> (Inl (SbError (''mark employee sandbox running: '' @ e)), d3)
                     | (None, d3) \<Rightarrow>
                         (case waitForEmployeeRuntimeLive env (running_row (onow d2) sb2) d3 of
                            (Some e, d4) \<Rightarrow> (Inl (wrap ''waiting for employee runtime'' e), d4)
                          | (None, d4) \<Rightarrow> (Inr (running_row (onow d2) sb2), d4))))))"

definition RestartEmployeeSandbox ::
  "'w orch_env \<Rightarrow> sandbox \<Rightarrow> 'w orch \<Rightarrow> (sb_error + sandbox) \<times> 'w orch" where
  "RestartEmployeeSandbox env sb d =
     (case StopSandbox env sb d of
        (Inl e, d1) \<Rightarrow> (Inl e, d1)
      | (Inr sb1, d1) \<Rightarrow> StartEmployeeSandbox env sb1 d1)"

definition DeleteSandbox :: "'w orch_env \<Rightarrow> sandbox \<Rightarrow> 'w orch \<Rightarrow> sb_error option \<times> 'w orch" where
  "DeleteSandbox env sb d =
     (case ensureSandboxProvider env sb of
        Inl e \<Rightarrow> (Some e, d)
      | Inr sb1 \<Rightarrow>
          (let (_, d1) = o_world (oe_delete env (sx_external sb1)) d;
               (e, d2) = db_exec env (delete_sandbox_row (sx_id sb1)) d1
           in (map_option SbError e, d2)))"

definition archived_row :: "sandbox \<Rightarrow> sandbox" where
  "archived_row s = s\<lparr>sx_status := StatusArchived, sx_url_expires := None\<rparr>"

definition DeleteSandboxResource ::
  "'w orch_env \<Rightarrow> sandbox \<Rightarrow> 'w orch \<Rightarrow> (sb_error + sandbox) \<times> 'w orch" where
  "DeleteSandboxResource env sb d =
     (case ensureSandboxProvider env sb of
        Inl e \<Rightarrow> (Inl e, d)
      | Inr sb1 \<Rightarrow>
          (case o_world (oe_delete env (sx_external sb1)) d of
             (Some (SbError e), d1) \<Rightarrow>
               (Inl (SbError (''delete sandbox resource '' @ oe_ustr env (sx_id sb1) @ '': '' @ e)), d1)
           | (_, d1) \<Rightarrow>
               let f = (\<lambda>s. (archived_row s)\<lparr>sn_stopped := Some (onow d1)\<rparr>)
               in (case db_exec env (update_sandbox (sx_id sb1) f) d1 of
                     (Some e, d2) \<Rightarrow> (Inl (SbError (''mark sandbox resource deleted: '' @ e)), d2)
                   | (None, d2) \<Rightarrow> (Inr (f sb1), d2))))"

definition archive_stopped :: "'w orch_env \<Rightarrow> sandbox \<Rightarrow> 'w orch \<Rightarrow> (sb_error + sandbox) \<times> 'w orch" where
  "archive_stopped env sb d =
     (case o_world (oe_archive env (sx_external sb)) d of
        (Some SandboxNotFound, d1) \<Rightarrow> (let (e, d2) = purgeMissingSandbox env sb d1 in (Inl e, d2))
      | (Some (SbError e), d1) \<Rightarrow>
          (Inl (SbError (''archiving sandbox '' @ oe_ustr env (sx_id sb) @ '': '' @ e)), d1)
      | (None, d1) \<Rightarrow>
          (case db_exec env (update_sandbox (sx_id sb) archived_row) d1 of
             (Some e, d2) \<Rightarrow> (Inl (SbError (''marking sandbox archived: '' @ e)), d2)
           | (None, d2) \<Rightarrow> (Inr (archived_row sb), d2)))"

definition ArchiveSandbox :: "'w orch_env \<Rightarrow> sandbox \<Rightarrow> 'w orch \<Rightarrow> (sb_error + sandbox) \<times> 'w orch" where
  "ArchiveSandbox env sb d =
     (case ensureSandboxProvider env sb of
        Inl e \<Rightarrow> (Inl e, d)
      | Inr sb1 \<Rightarrow>
          if sx_status sb1 \<noteq> StatusStopped then
            (case StopSandbox env sb1 d of
               (Inl SandboxNotFound, d1) \<Rightarrow> (Inr sb1, d1)
             | (Inl e, d1) \<Rightarrow> (Inl (wrap ''stopping sandbox before archive'' e), d1)
             | (Inr sb2, d1) \<Rightarrow> archive_stopped env sb2 d1)
          else archive_stopped env sb1 d)"

section \<open>Waking\<close>

definition WakeSandbox :: "'w orch_env \<Rightarrow> sandbox \<Rightarrow> 'w orch \<Rightarrow> (sb_error + sandbox) \<times> 'w orch" where
  "WakeSandbox env sb d =
     (case ensureSandboxProvider env sb of
        Inl e \<Rightarrow> (Inl e, d)
      | Inr sb1 \<Rightarrow>
          (case o_world (oe_start env (sx_external sb1)) d of
             (Some e, d1) \<Rightarrow> (Inl (wrap (''starting sandbox '' @ oe_ustr env (sx_id sb1)) e), d1)
           | (None, d1) \<Rightarrow>
               (case RefreshEmployeeSandboxURL env sb1 d1 of
                  (Inl e, d2) \<Rightarrow> (Inl (wrap ''refreshing runtime URL after wake'' e), d2)
                | (Inr sb2, d2) \<Rightarrow>
                    let d3 = db_try env (update_sandbox (sx_id sb2) (running_row (onow d2))) d2;
                        sb3 = (running_row (onow d2) sb2)\<lparr>sn_error := sn_error sb2\<rparr>
                    in (case waitForEmployeeRuntimeLive env sb3 d3 of
                          (Some e, d4) \<Rightarrow>
                            (Inl (wrap ''runtime not healthy after wake'' e),
                             db_try env (update_sandbox (sx_id sb3) (\<lambda>s. s\<lparr>sx_status := StatusError,
                               sn_error := Some (''runtime not healthy after wake: '' @ err_text e)\<rparr>)) d4)
                        | (None, d4) \<Rightarrow> (Inr sb3, d4)))))"

definition UnarchiveSandbox :: "'w orch_env \<Rightarrow> sandbox \<Rightarrow> 'w orch \<Rightarrow> (sb_error + sandbox) \<times> 'w orch" where
  "UnarchiveSandbox env sb d =
     (case ensureSandboxProvider env sb of
        Inl e \<Rightarrow> (Inl e, d)
      | Inr sb1 \<Rightarrow>
          WakeSandbox env (sb1\<lparr>sx_status := StatusStarting\<rparr>)
            (db_try env (update_sandbox (sx_id sb1) (\<lambda>s. s\<lparr>sx_status := StatusStarting\<rparr>)) d))"

text \<open>
  A status outside the known ones is asked of the provider and the function called again, which
  need not end: \<open>None\<close> is a call that does not return.
\<close>

partial_function (option) EnsureSandboxActive ::
  "'w orch_env \<Rightarrow> sandbox \<Rightarrow> 'w orch \<Rightarrow> ((sb_error + sandbox) \<times> 'w orch) option" where
  "EnsureSandboxActive env sb d =
     (case ensureSandboxProvider env sb of
        Inl e \<Rightarrow> Some (Inl e, d)
      | Inr sb1 \<Rightarrow>
          if sx_status sb1 = StatusRunning then Some (Inr sb1, d)
          else if sx_status sb1 = StatusStopped then Some (WakeSandbox env sb1 d)
          else if sx_status sb1 = StatusArchived \<or> sx_status sb1 = StatusArchiving
          then Some (UnarchiveSandbox env sb1 d)
          else if sx_status sb1 = StatusCreating \<or> sx_status sb1 = StatusStarting then
            (case waitForEmployeeRuntimeLive env sb1 d of
               (Some e, d1) \<Rightarrow> Some (Inl (wrap ''waiting for in-flight sandbox'' e), d1)
             | (None, d1) \<Rightarrow>
                 let f = (\<lambda>s. s\<lparr>sx_status := StatusRunning, sx_last_active := Some (onow d1)\<rparr>)
                 in Some (Inr (f sb1), db_try env (update_sandbox (sx_id sb1) f) d1))
          else if sx_status sb1 = StatusError
          then Some (Inl (SbError (''sandbox '' @ oe_ustr env (sx_id sb1) @ '' is in error state'')), d)
          else
            (case o_world (oe_status env (sx_external sb1)) d of
               (Inl e, d1) \<Rightarrow>
                 Some (Inl (wrap (''getting provider status for sandbox '' @ oe_ustr env (sx_id sb1)) e), d1)
             | (Inr status, d1) \<Rightarrow>
                 let sb2 = sb1\<lparr>sx_status := status\<rparr>;
                     d2 = db_try env (update_sandbox (sx_id sb1) (\<lambda>s. s\<lparr>sx_status := status\<rparr>)) d1
                 in if status = StatusRunning then Some (Inr sb2, d2) else EnsureSandboxActive env sb2 d2))"

text \<open>The client of a runtime is the URL and the key it was built with.\<close>

definition GetRuntimeClient ::
  "'w orch_env \<Rightarrow> sandbox \<Rightarrow> 'w orch \<Rightarrow> ((sb_error + string \<times> string) \<times> 'w orch) option" where
  "GetRuntimeClient env sb d =
     (case ensureSandboxProvider env sb of
        Inl e \<Rightarrow> Some (Inl e, d)
      | Inr sb1 \<Rightarrow>
          (case we_decrypt (oe_pool env) (sx_secret sb1) of
             Inl e \<Rightarrow> Some (Inl (SbError (''decrypting runtime secret: '' @ e)), d)
           | Inr apiKey \<Rightarrow>
               (case EnsureSandboxActive env sb1 d of
                  None \<Rightarrow> None
                | Some (Inl e, d1) \<Rightarrow> Some (Inl (wrap ''ensuring sandbox active'' e), d1)
                | Some (Inr sb2, d1) \<Rightarrow>
                    if needsURLRefresh sb2 (onow d1) then
                      (case RefreshEmployeeSandboxURL env sb2 d1 of
                         (Inl e, d2) \<Rightarrow> Some (Inl (wrap ''refreshing runtime URL'' e), d2)
                       | (Inr sb3, d2) \<Rightarrow> Some (Inr (sx_runtime_url sb3, apiKey), d2))
                    else Some (Inr (sx_runtime_url sb2, apiKey), d1))))"

section \<open>Background loops\<close>

definition employee_sandbox_owner :: "'w orch \<Rightarrow> sandbox \<Rightarrow> bool" where
  "employee_sandbox_owner d s \<longleftrightarrow>
     list_ex (\<lambda>a. Some (em_id a) = sn_employee s \<and> em_harness a = ''employee-sandbox'') (or_employees d)"

definition before_opt :: "gotime option \<Rightarrow> gotime \<Rightarrow> bool" where
  "before_opt t cutoff \<longleftrightarrow> (case t of None \<Rightarrow> False | Some u \<Rightarrow> u < cutoff)"

definition idle_running :: "'w orch \<Rightarrow> gotime \<Rightarrow> sandbox list" where
  "idle_running d now =
     filter (\<lambda>s. sx_status s = StatusRunning \<and> before_opt (sx_last_active s) (now - 10 * Minute)
       \<and> \<not> employee_sandbox_owner d s) (or_sandboxes d)"

definition stale_stopped :: "'w orch \<Rightarrow> gotime \<Rightarrow> sandbox list" where
  "stale_stopped d now =
     filter (\<lambda>s. sx_status s = StatusStopped \<and> before_opt (sn_stopped s) (now - 24 * Hour)
       \<and> \<not> employee_sandbox_owner d s) (or_sandboxes d)"

text \<open>A loop over rows loaded before it, whose errors are only logged.\<close>

fun for_each :: "(sandbox \<Rightarrow> 'w orch \<Rightarrow> 'w orch) \<Rightarrow> sandbox list \<Rightarrow> 'w orch \<Rightarrow> 'w orch" where
  "for_each f [] d = d"
| "for_each f (s # ss) d = for_each f ss (f s d)"

definition RunSandboxLifecycle :: "'w orch_env \<Rightarrow> 'w orch \<Rightarrow> 'w orch" where
  "RunSandboxLifecycle env d =
     (let now = onow d;
          d1 = (case db_read env (\<lambda>d. idle_running d now) d of
                  (Inl _, d1) \<Rightarrow> d1
                | (Inr ss, d1) \<Rightarrow> for_each (\<lambda>s d. snd (StopSandbox env s d)) ss d1)
      in (case db_read env (\<lambda>d. stale_stopped d now) d1 of
            (Inl _, d2) \<Rightarrow> d2
          | (Inr ss, d2) \<Rightarrow> for_each (\<lambda>s d. snd (ArchiveSandbox env s d)) ss d2))"

definition checkSandboxHealth :: "'w orch_env \<Rightarrow> sandbox \<Rightarrow> 'w orch \<Rightarrow> 'w orch" where
  "checkSandboxHealth env sb d =
     (case ensureSandboxProvider env sb of
        Inl _ \<Rightarrow> d
      | Inr sb1 \<Rightarrow>
          (case o_world (oe_status env (sx_external sb1)) d of
             (Inl _, d1) \<Rightarrow> d1
           | (Inr status, d1) \<Rightarrow>
               if status \<noteq> sx_status sb1
               then db_try env (update_sandbox (sx_id sb1) (\<lambda>s. s\<lparr>sx_status := status\<rparr>)) d1 else d1))"

definition running_sandboxes :: "'w orch \<Rightarrow> sandbox list" where
  "running_sandboxes d = filter (\<lambda>s. sx_status s = StatusRunning) (or_sandboxes d)"

definition RunHealthCheck :: "'w orch_env \<Rightarrow> 'w orch \<Rightarrow> 'w orch" where
  "RunHealthCheck env d =
     (case db_read env running_sandboxes d of
        (Inl _, d1) \<Rightarrow> d1 | (Inr ss, d1) \<Rightarrow> for_each (checkSandboxHealth env) ss d1)"

definition collectSandboxResources :: "'w orch_env \<Rightarrow> sandbox \<Rightarrow> 'w orch \<Rightarrow> 'w orch" where
  "collectSandboxResources env sb d =
     (case ensureSandboxProvider env sb of
        Inl _ \<Rightarrow> d
      | Inr sb1 \<Rightarrow>
          (case o_world (oe_usage env (sx_external sb1)) d of
             (Inl _, d1) \<Rightarrow> d1
           | (Inr stats, d1) \<Rightarrow>
               db_try env (update_sandbox (sx_id sb1) (\<lambda>s. s\<lparr>sn_usage := Some (stats, onow d1)\<rparr>)) d1))"

definition RunResourceCheck :: "'w orch_env \<Rightarrow> 'w orch \<Rightarrow> 'w orch" where
  "RunResourceCheck env d =
     (case db_read env running_sandboxes d of
        (Inl _, d1) \<Rightarrow> d1 | (Inr ss, d1) \<Rightarrow> for_each (collectSandboxResources env) ss d1)"

section \<open>Commands in a sandbox\<close>

definition ExecuteCommandWithTimeout ::
  "'w orch_env \<Rightarrow> sandbox \<Rightarrow> string \<Rightarrow> duration \<Rightarrow> 'w orch \<Rightarrow> (string + string) \<times> 'w orch" where
  "ExecuteCommandWithTimeout env sb command timeout d =
     (case ensureSandboxProvider env sb of
        Inl e \<Rightarrow> (Inl (err_text e), d)
      | Inr sb1 \<Rightarrow>
          (case oe_exec_runtime env of
             Some viaRuntime \<Rightarrow>
               (case we_decrypt (oe_pool env) (sx_secret sb1) of
                  Inl e \<Rightarrow> (Inl (''decrypt runtime secret: '' @ e), d)
                | Inr secret \<Rightarrow> o_world (viaRuntime (sx_runtime_url sb1) secret command timeout) d)
           | None \<Rightarrow> o_world (oe_exec env (sx_external sb1) command timeout) d))"

definition ExecuteCommand ::
  "'w orch_env \<Rightarrow> sandbox \<Rightarrow> string \<Rightarrow> 'w orch \<Rightarrow> (string + string) \<times> 'w orch" where
  "ExecuteCommand env sb command d = ExecuteCommandWithTimeout env sb command 0 d"

fun clone_each ::
  "'w orch_env \<Rightarrow> sandbox \<Rightarrow> string \<Rightarrow> (string \<times> string) list \<Rightarrow> 'w orch \<Rightarrow> string option \<times> 'w orch" where
  "clone_each env sb baseDir [] d = (None, d)"
| "clone_each env sb baseDir ((name, full) # repos) d =
     (case ExecuteCommand env sb
             (''git clone --depth=1 https://github.com/'' @ full @ ''.git '' @ baseDir @ ''/'' @ name) d of
        (Inl e, d1) \<Rightarrow> (Some (''cloning '' @ full @ '': '' @ e), d1)
      | (Inr _, d1) \<Rightarrow> clone_each env sb baseDir repos d1)"

definition cloneRepositories ::
  "'w orch_env \<Rightarrow> sandbox \<Rightarrow> (string \<times> string) list \<Rightarrow> string \<Rightarrow> 'w orch \<Rightarrow> string option \<times> 'w orch" where
  "cloneRepositories env sb repos baseDir d =
     (case ExecuteCommand env sb (''mkdir -p '' @ baseDir) d of
        (Inl e, d1) \<Rightarrow> (Some (''creating repos directory: '' @ e), d1)
      | (Inr _, d1) \<Rightarrow> clone_each env sb baseDir repos d1)"

definition loadSelectedGitHubRepositories ::
  "'w orch_env \<Rightarrow> uuid \<Rightarrow> 'w orch \<Rightarrow> (string + (string \<times> string) list) \<times> 'w orch" where
  "loadSelectedGitHubRepositories env agentID d =
     (case db_read env (\<lambda>d. find (\<lambda>a. em_id a = agentID) (or_employees d)) d of
        (Inl e, d1) \<Rightarrow> (Inl (''load employee github resources: '' @ e), d1)
      | (Inr None, d1) \<Rightarrow> (Inr [], d1)
      | (Inr (Some a), d1) \<Rightarrow>
          (case em_repositories a of
             Inl e \<Rightarrow> (Inl (''decode selected github repositories: '' @ e), d1)
           | Inr repos \<Rightarrow>
               (Inr (filter (\<lambda>(name, full). name \<noteq> [] \<and> full \<noteq> [])
                      (map (\<lambda>(name, full). (trim_space name, trim_space full)) repos)), d1)))"

definition cloneEmployeeSelectedRepositories ::
  "'w orch_env \<Rightarrow> sandbox \<Rightarrow> employee \<Rightarrow> 'w orch \<Rightarrow> string option \<times> 'w orch" where
  "cloneEmployeeSelectedRepositories env sb agent d =
     (case loadSelectedGitHubRepositories env (em_id agent) d of
        (Inl e, d1) \<Rightarrow> (Some e, d1)
      | (Inr repos, d1) \<Rightarrow>
          if repos = [] then (None, d1)
          else cloneRepositories env sb repos (oe_employee_repo_dir env) d1)"

section \<open>Creating a runtime\<close>

definition lower_char :: "char \<Rightarrow> char" where
  "lower_char c =
     (if 65 \<le> (of_char c :: nat) \<and> (of_char c :: nat) \<le> 90 then char_of ((of_char c :: nat) + 32) else c)"

definition name_char :: "char \<Rightarrow> bool" where
  "name_char c \<longleftrightarrow> (97 \<le> (of_char c :: nat) \<and> (of_char c :: nat) \<le> 122) \<or> is_digit c \<or> c = CHR ''-''"

definition sanitizeName :: "string \<Rightarrow> string" where
  "sanitizeName name = take 20 (filter name_char (map lower_char name))"

definition shortID :: "'w orch_env \<Rightarrow> uuid \<Rightarrow> string" where
  "shortID env i = take 12 (filter (\<lambda>c. c \<noteq> CHR ''-'') (oe_ustr env i))"

definition unix_seconds :: "gotime \<Rightarrow> int" where "unix_seconds t = t div Second - 62135596800"

text \<open>What differs between the runtime of an employee and the runtime of its specialists.\<close>

record runtime_kind =
  rk_func :: string
  rk_mode :: string
  rk_image :: string
  rk_prefix :: string
  rk_label :: "(string \<times> string) list"
  rk_what :: string
  rk_short :: string
  rk_saved :: string

definition employee_kind :: "'w orch_env \<Rightarrow> runtime_kind" where
  "employee_kind env =
     \<lparr>rk_func = ''CreateEmployeeSandbox'', rk_mode = ModeEmployee,
      rk_image = cfg_BaseImage (we_config (oe_pool env)), rk_prefix = ''hivy-employee-'',
      rk_label = [(''harness'', ''employee-sandbox'')], rk_what = ''employee'', rk_short = ''employee'',
      rk_saved = ''sandbox''\<rparr>"

definition specialist_kind :: "'w orch_env \<Rightarrow> runtime_kind" where
  "specialist_kind env =
     \<lparr>rk_func = ''CreateSpecialistRuntimeSandbox'', rk_mode = ModeSpecialist,
      rk_image = cfg_SpecialistImage (we_config (oe_pool env)), rk_prefix = ''hivy-specialist-'',
      rk_label = [(''harness'', ''runtime-specialist''), (''mode'', ''specialist'')],
      rk_what = ''specialist runtime'', rk_short = ''specialist'', rk_saved = ''specialist runtime sandbox''\<rparr>"

definition new_sandbox :: "'w orch_env \<Rightarrow> runtime_kind \<Rightarrow> employee \<Rightarrow> uuid \<Rightarrow> string \<Rightarrow> 'w orch \<Rightarrow> sandbox" where
  "new_sandbox env kind agent org secret d =
     \<lparr>sx_id = wp_gen (or_pool d) (wp_drawn (or_pool d)), sx_external = [], sx_runtime_url = [],
      sx_url_expires = None, sx_secret = secret, sx_status = StatusCreating, sx_last_active = None,
      sn_org = Some org, sn_employee = Some (em_id agent), sn_provider = we_id (oe_pool env),
      sn_snapshot = Some (rk_image kind), sn_error = None, sn_stopped = None, sn_usage = None,
      sn_created = onow d\<rparr>"

definition insert_sandbox :: "sandbox \<Rightarrow> 'w orch \<Rightarrow> 'w orch" where
  "insert_sandbox s d =
     d\<lparr>or_sandboxes := or_sandboxes d @ [s],
       or_pool := (or_pool d)\<lparr>wp_drawn := Suc (wp_drawn (or_pool d))\<rparr>\<rparr>"

definition duplicate_key :: string where
  "duplicate_key = ''duplicate key value violates unique constraint''"

definition set_claim :: "sandbox_row \<Rightarrow> sandbox \<Rightarrow> sandbox" where
  "set_claim r s =
     s\<lparr>sx_external := sx_external r, sx_runtime_url := sx_runtime_url r, sx_url_expires := sx_url_expires r,
       sx_secret := sx_secret r, sx_status := sx_status r, sx_last_active := sx_last_active r\<rparr>"

definition mark_error :: "'w orch_env \<Rightarrow> uuid \<Rightarrow> string \<Rightarrow> string \<Rightarrow> 'w orch \<Rightarrow> 'w orch" where
  "mark_error env i external msg d =
     db_try env (update_sandbox i (\<lambda>s. s\<lparr>sx_external := (if external = [] then sx_external s else external),
       sx_status := StatusError, sn_error := Some msg\<rparr>)) d"

definition clone_or_fail ::
  "'w orch_env \<Rightarrow> runtime_kind \<Rightarrow> employee \<Rightarrow> sandbox \<Rightarrow> 'w orch \<Rightarrow> (sb_error + sandbox) \<times> 'w orch" where
  "clone_or_fail env kind agent sb d =
     (case cloneEmployeeSelectedRepositories env sb agent d of
        (Some e, d1) \<Rightarrow>
          (Inl (SbError (''cloning '' @ rk_what kind @ '' repositories: '' @ e)),
           mark_error env (sx_id sb) [] (''repository cloning failed: '' @ e) d1)
      | (None, d1) \<Rightarrow> (Inr sb, d1))"

definition from_warm_pool ::
  "'w orch_env \<Rightarrow> runtime_kind \<Rightarrow> employee \<Rightarrow> sandbox \<Rightarrow> 'w orch \<Rightarrow> (sb_error + sandbox) \<times> 'w orch" where
  "from_warm_pool env kind agent sb d =
     (case claimWarmRuntime (oe_pool env) runtimeURLTTL (oe_meanwhile env) (sandbox_row.truncate sb)
             (rk_mode kind) (or_pool d) of
        ((Some e, r), p) \<Rightarrow>
          (Inl (SbError e), db_try env (delete_sandbox_row (sx_id sb))
             (update_sandbox (sx_id sb) (set_claim r) (d\<lparr>or_pool := p\<rparr>)))
      | ((None, r), p) \<Rightarrow>
          clone_or_fail env kind agent (set_claim r sb)
            (update_sandbox (sx_id sb) (set_claim r) (d\<lparr>or_pool := p\<rparr>)))"

definition placed_row :: "string \<Rightarrow> string \<Rightarrow> gotime \<Rightarrow> sandbox \<Rightarrow> sandbox" where
  "placed_row external url now s =
     s\<lparr>sx_external := external, sx_runtime_url := url, sx_url_expires := Some (now + runtimeURLTTL),
       sx_status := StatusRunning, sx_last_active := Some now\<rparr>"

definition from_provider ::
  "'w orch_env \<Rightarrow> runtime_kind \<Rightarrow> employee \<Rightarrow> uuid \<Rightarrow> sandbox \<Rightarrow> 'w orch \<Rightarrow> (sb_error + sandbox) \<times> 'w orch" where
  "from_provider env kind agent org sb d =
     (case o_world (oe_create env
             \<lparr>co_Name = rk_prefix kind @ sanitizeName (em_name agent) @ ''-'' @ shortID env (em_id agent)
                @ ''-'' @ show_int (unix_seconds (onow d)),
              co_TemplateRef = rk_image kind,
              co_Labels = [(''org_id'', oe_ustr env org), (''sandbox_id'', oe_ustr env (sx_id sb)),
                (''employee_id'', oe_ustr env (em_id agent))] @ rk_label kind\<rparr>) d of
        (Inl e, d1) \<Rightarrow> (Inl (wrap ''provider create'' e), db_try env (delete_sandbox_row (sx_id sb)) d1)
      | (Inr external, d1) \<Rightarrow>
          (case o_world (oe_endpoint env external EmployeeSandboxPort) d1 of
             (Inl e, d2) \<Rightarrow>
               (Inl (wrap (''getting '' @ rk_short kind @ '' runtime endpoint'') e),
                mark_error env (sx_id sb) external ''get endpoint failed'' d2)
           | (Inr url, d2) \<Rightarrow>
               let f = placed_row external url (onow d2)
               in (case db_exec env (update_sandbox (sx_id sb) f) d2 of
                     (Some e, d3) \<Rightarrow> (Inl (SbError (''updating sandbox: '' @ e)), d3)
                   | (None, d3) \<Rightarrow>
                       (case waitForEmployeeRuntimeLive env (f sb) d3 of
                          (Some e, d4) \<Rightarrow>
                            (Inl (wrap (''waiting for '' @ rk_short kind @ '' runtime'') e),
                             mark_error env (sx_id sb) [] (rk_short kind @ '' runtime not live'') d4)
                        | (None, d4) \<Rightarrow>
                            (case clone_or_fail env kind agent (f sb) d4 of
                               (Inl e, d5) \<Rightarrow> (Inl e, d5)
                             | (Inr sb1, d5) \<Rightarrow>
                                 (Inr sb1, snd (o_world (\<lambda>w. ((), oe_auto_off env external w)) d5)))))))"

definition save_and_place ::
  "'w orch_env \<Rightarrow> runtime_kind \<Rightarrow> employee \<Rightarrow> uuid \<Rightarrow> string \<Rightarrow> 'w orch \<Rightarrow> (sb_error + sandbox) \<times> 'w orch" where
  "save_and_place env kind agent org encrypted d =
     (case o_world (oe_db env) d of
        (Some e, d1) \<Rightarrow> (Inl (SbError (''saving '' @ rk_saved kind @ '': '' @ e)), d1)
      | (None, d1) \<Rightarrow>
          let sb = new_sandbox env kind agent org encrypted d1; d2 = insert_sandbox sb d1
          in if sx_id sb \<in> sx_id ` set (or_sandboxes d1)
             then (Inl (SbError (''saving '' @ rk_saved kind @ '': '' @ duplicate_key)), d1)
             else if oe_warm env then from_warm_pool env kind agent sb d2
             else from_provider env kind agent org sb d2)"

text \<open>
  The git identity is read for the environment of the runtime, which is not modelled; what stays
  is that the query may fail.
\<close>

definition create_runtime ::
  "'w orch_env \<Rightarrow> runtime_kind \<Rightarrow> employee \<Rightarrow> string \<Rightarrow> 'w orch \<Rightarrow> (sb_error + sandbox) \<times> 'w orch" where
  "create_runtime env kind agent proxyToken d =
     (case em_org agent of
        None \<Rightarrow> (Inl (SbError (rk_func kind @ '': agent must have org_id'')), d)
      | Some org \<Rightarrow>
          if proxyToken = [] then (Inl (SbError (rk_func kind @ '': proxy token is required'')), d)
          else
            (case (if em_is_employee agent then (Inr (), d) else db_read env (\<lambda>_. ()) d) of
               (Inl e, d1) \<Rightarrow> (Inl (SbError (''loading '' @ rk_what kind @ '' git identity: '' @ e)), d1)
             | (Inr _, d1) \<Rightarrow>
                 (case o_world (we_secret (oe_pool env)) d1 of
                    (Inl e, d2) \<Rightarrow> (Inl (SbError (''generating runtime secret: '' @ e)), d2)
                  | (Inr secret, d2) \<Rightarrow>
                      (case we_encrypt (oe_pool env) secret of
                         Inl e \<Rightarrow> (Inl (SbError (''encrypting runtime secret: '' @ e)), d2)
                       | Inr encrypted \<Rightarrow> save_and_place env kind agent org encrypted d2))))"

definition CreateEmployeeSandbox ::
  "'w orch_env \<Rightarrow> employee \<Rightarrow> string \<Rightarrow> 'w orch \<Rightarrow> (sb_error + sandbox) \<times> 'w orch" where
  "CreateEmployeeSandbox env agent proxyToken d =
     create_runtime env (employee_kind env) agent proxyToken d"

definition CreateSpecialistRuntimeSandbox ::
  "'w orch_env \<Rightarrow> employee \<Rightarrow> string \<Rightarrow> 'w orch \<Rightarrow> (sb_error + sandbox) \<times> 'w orch" where
  "CreateSpecialistRuntimeSandbox env agent proxyToken d =
     create_runtime env (specialist_kind env) agent proxyToken d"

end
