(* ===== verification/Upgrade.thy ===== *)
theory Upgrade
  imports Orchestrator
begin

text \<open>
  The upgrade of an employee's sandbox: the task of \<open>internal/tasks/employee_sandbox_upgrade.go\<close>,
  \<open>employee_sandbox_upgrade_state.go\<close>, \<open>employee_sandbox_upgrade_backup.go\<close>,
  \<open>employee_sandbox_upgrade_cleanup.go\<close> and \<open>employee_sandbox_upgrade_payload.go\<close>, the retirement of
  the old sandbox in \<open>employee_sandbox_retire.go\<close>, and the handler that queues an upgrade in
  \<open>internal/handler/employees_upgrade.go\<close> and \<open>employees_upgrade_tasks.go\<close>. Object storage, the HTTP
  client of a runtime, the compiler of its configuration and the task queue are functions on the
  world; so is the decoder of the metadata a backup prints.
\<close>

section \<open>Statuses, phases and texts\<close>

definition UpgradeQueued :: string where "UpgradeQueued = ''queued''"
definition UpgradeRunning :: string where "UpgradeRunning = ''running''"
definition UpgradeSucceeded :: string where "UpgradeSucceeded = ''succeeded''"
definition UpgradeFailed :: string where "UpgradeFailed = ''failed''"

lemmas upgrade_status_defs = UpgradeQueued_def UpgradeRunning_def UpgradeSucceeded_def UpgradeFailed_def

definition PhaseQueued :: string where "PhaseQueued = ''queued''"
definition PhaseBackup :: string where "PhaseBackup = ''backup''"
definition PhaseCreatingNew :: string where "PhaseCreatingNew = ''creating_new''"
definition PhaseRestore :: string where "PhaseRestore = ''restore''"
definition PhaseRestartNew :: string where "PhaseRestartNew = ''restart_new''"
definition PhaseSync :: string where "PhaseSync = ''sync''"
definition PhasePausingOld :: string where "PhasePausingOld = ''pausing_old''"
definition PhaseCleanupOld :: string where "PhaseCleanupOld = ''cleanup_old''"
definition PhaseCompleted :: string where "PhaseCompleted = ''completed''"

definition truncateUpgradeError :: "string \<Rightarrow> string" where
  "truncateUpgradeError msg =
     (let m = trim_space msg in if length m > 2000 then take 2000 m else m)"

text \<open>A word for the shell: every single quote closes the quotation, is escaped, and opens it again.\<close>

definition shellQuote :: "string \<Rightarrow> string" where
  "shellQuote s =
     CHR 0x27 # concat (map (\<lambda>c. if c = CHR 0x27 then [CHR 0x27, CHR 0x5C, CHR 0x27, CHR 0x27] else [c]) s)
     @ [CHR 0x27]"

definition newline :: char where "newline = CHR 0x0A"

text \<open>The last line of an output that looks like a JSON object, or the whole output.\<close>

fun last_json :: "string list \<Rightarrow> string option" where
  "last_json [] = None"
| "last_json (l # ls) =
     (let line = trim_space l in
      if has_prefix line ''{'' \<and> has_suffix line ''}'' then Some line else last_json ls)"

definition lastJSONLine :: "string \<Rightarrow> string" where
  "lastJSONLine output =
     (case last_json (rev (split_on newline (trim_space output))) of
        None \<Rightarrow> trim_space output | Some line \<Rightarrow> line)"

definition quoted :: "string \<Rightarrow> string" where "quoted s = CHR 0x22 # s @ [CHR 0x22]"

definition backupKey :: "(uuid \<Rightarrow> string) \<Rightarrow> uuid \<Rightarrow> uuid \<Rightarrow> uuid \<Rightarrow> string" where
  "backupKey ustr org agent up =
     ''employee-sqlite-backups/'' @ ustr org @ ''/'' @ ustr agent @ ''/upgrades/'' @ ustr up @ ''.db.gz''"

text \<open>
  The two scripts, line by line. A double quote is \<open>dq\<close>, a single one \<open>sq\<close>.
\<close>

abbreviation dq :: string where "dq \<equiv> [CHR 0x22]"
abbreviation sq :: string where "sq \<equiv> [CHR 0x27]"
abbreviation bs :: string where "bs \<equiv> [CHR 0x5C]"

definition script_head :: "string list" where
  "script_head =
     [''set -eu'',
      ''DB='' @ dq @ ''${HIVY_DB_PATH:-/app/data/hivy-sandboxes-runtime.db}'' @ dq,
      ''TMP_DIR='' @ dq @ ''$(mktemp -d)'' @ dq,
      ''trap '' @ sq @ ''rm -rf '' @ dq @ ''$TMP_DIR'' @ dq @ sq @ '' EXIT'']"

definition integrity_line :: "string \<Rightarrow> string \<Rightarrow> string" where
  "integrity_line var what =
     ''[ '' @ dq @ ''$'' @ var @ dq @ '' = '' @ dq @ ''ok'' @ dq @ '' ] || { echo '' @ dq @ what
     @ ''integrity_check failed: $'' @ var @ dq @ '' >&2; exit 2; }''"

definition check_line :: "string \<Rightarrow> string \<Rightarrow> string" where
  "check_line var db =
     var @ ''='' @ dq @ ''$(sqlite3 '' @ dq @ ''$'' @ db @ dq @ '' '' @ dq @ ''PRAGMA integrity_check;'' @ dq
     @ '')'' @ dq"

definition buildEmployeeSandboxBackupCommand :: "string \<Rightarrow> string" where
  "buildEmployeeSandboxBackupCommand uploadURL =
     str_join [newline] (script_head @
       [''SNAP='' @ dq @ ''$TMP_DIR/hivy-sandboxes-runtime.db'' @ dq,
        ''GZ='' @ dq @ ''$TMP_DIR/hivy-sandboxes-runtime.db.gz'' @ dq,
        ''test -f '' @ dq @ ''$DB'' @ dq,
        ''sqlite3 '' @ dq @ ''$DB'' @ dq @ '' '' @ dq @ ''PRAGMA wal_checkpoint(FULL);'' @ dq @ '' >/dev/null'',
        ''sqlite3 '' @ dq @ ''$DB'' @ dq @ '' '' @ dq @ ''VACUUM main INTO '' @ sq @ ''$SNAP'' @ sq @ '';'' @ dq,
        check_line ''CHECK'' ''SNAP'',
        integrity_line ''CHECK'' [],
        ''gzip -c '' @ dq @ ''$SNAP'' @ dq @ '' > '' @ dq @ ''$GZ'' @ dq,
        ''SHA='' @ dq @ ''$(sha256sum '' @ dq @ ''$GZ'' @ dq @ '' | awk '' @ sq @ ''{print $1}'' @ sq @ '')'' @ dq,
        ''BYTES='' @ dq @ ''$(wc -c < '' @ dq @ ''$GZ'' @ dq @ '' | tr -d '' @ sq @ '' '' @ sq @ '')'' @ dq,
        ''UPLOAD_URL='' @ shellQuote uploadURL,
        ''curl -fsS -X PUT --data-binary '' @ dq @ ''@$GZ'' @ dq @ '' '' @ dq @ ''$UPLOAD_URL'' @ dq @ '' >/dev/null'',
        ''printf '' @ sq @ ''{'' @ dq @ ''sha256'' @ dq @ '':'' @ dq @ ''%s'' @ dq @ '','' @ dq @ ''bytes'' @ dq
          @ '':%s}'' @ bs @ ''n'' @ sq @ '' '' @ dq @ ''$SHA'' @ dq @ '' '' @ dq @ ''$BYTES'' @ dq])"

definition buildEmployeeSandboxRestoreCommand :: "string \<Rightarrow> string \<Rightarrow> string" where
  "buildEmployeeSandboxRestoreCommand presignedURL sha =
     str_join [newline] (script_head @
       [''GZ='' @ dq @ ''$TMP_DIR/hivy-sandboxes-runtime.db.gz'' @ dq,
        ''RESTORE='' @ dq @ ''$TMP_DIR/hivy-sandboxes-runtime.db'' @ dq,
        ''curl -fsSL '' @ shellQuote presignedURL @ '' -o '' @ dq @ ''$GZ'' @ dq,
        ''printf '' @ sq @ ''%s  %s'' @ bs @ ''n'' @ sq @ '' '' @ shellQuote sha @ '' '' @ dq @ ''$GZ'' @ dq
          @ '' | sha256sum -c -'',
        ''gzip -dc '' @ dq @ ''$GZ'' @ dq @ '' > '' @ dq @ ''$RESTORE'' @ dq,
        check_line ''CHECK'' ''RESTORE'',
        integrity_line ''CHECK'' [],
        ''mkdir -p '' @ dq @ ''$(dirname '' @ dq @ ''$DB'' @ dq @ '')'' @ dq,
        ''rm -f '' @ dq @ ''$DB'' @ dq @ '' '' @ dq @ ''$DB-wal'' @ dq @ '' '' @ dq @ ''$DB-shm'' @ dq,
        ''install -m 600 '' @ dq @ ''$RESTORE'' @ dq @ '' '' @ dq @ ''$DB'' @ dq,
        check_line ''VERIFY'' ''DB'',
        integrity_line ''VERIFY'' ''post-restore '',
        ''printf '' @ sq @ ''{'' @ dq @ ''status'' @ dq @ '':'' @ dq @ ''ok'' @ dq @ ''}'' @ bs @ ''n'' @ sq])"

definition status_ok_text :: string where
  "status_ok_text = dq @ ''status'' @ dq @ '':'' @ dq @ ''ok'' @ dq"

section \<open>Environment\<close>

record retire_payload =
  rp_upgrade :: uuid
  rp_employee :: uuid
  rp_sandbox :: uuid

record backup_meta =
  bm_Key :: string
  bm_SHA256 :: string
  bm_Bytes :: int

record ('w, 'c) upgrade_env =
  ue_orch :: "'w orch_env"
  ue_presign_put :: "string \<Rightarrow> 'w \<Rightarrow> (string + string) \<times> 'w"
  ue_presign_get :: "string \<Rightarrow> 'w \<Rightarrow> (string + string) \<times> 'w"
  ue_head :: "string \<Rightarrow> 'w \<Rightarrow> (string + int) \<times> 'w"
  ue_parse_meta :: "string \<Rightarrow> string + string \<times> int"
  ue_startup :: "employee \<Rightarrow> 'w \<Rightarrow> (string + string) \<times> 'w"
  ue_build_config :: "employee \<Rightarrow> sandbox \<Rightarrow> string \<Rightarrow> 'w \<Rightarrow> (string + 'c) \<times> 'w"
  ue_healthz :: "string \<Rightarrow> string \<Rightarrow> 'w \<Rightarrow> string option \<times> 'w"
  ue_put_config :: "string \<Rightarrow> string \<Rightarrow> 'c \<Rightarrow> 'w \<Rightarrow> string option \<times> 'w"
  ue_readyz :: "string \<Rightarrow> string \<Rightarrow> 'w \<Rightarrow> string option \<times> 'w"
  ue_enqueue_retire :: "retire_payload \<Rightarrow> duration \<Rightarrow> 'w \<Rightarrow> enqueue_error option \<times> 'w"
  ue_enqueue_upgrade :: "uuid \<Rightarrow> uuid \<Rightarrow> 'w \<Rightarrow> enqueue_error option \<times> 'w"
  ue_delete_task :: "uuid \<Rightarrow> 'w \<Rightarrow> string option \<times> 'w"

definition employeeSandboxUpgradeCommandTimeout :: duration where
  "employeeSandboxUpgradeCommandTimeout = 60 * Minute"

definition employeeSandboxRetireDelay :: duration where
  "employeeSandboxRetireDelay = 24 * Hour"

definition update_upgrade :: "uuid \<Rightarrow> (upgrade \<Rightarrow> upgrade) \<Rightarrow> 'w orch \<Rightarrow> 'w orch" where
  "update_upgrade i f d = d\<lparr>or_upgrades := map (\<lambda>u. if ug_id u = i then f u else u) (or_upgrades d)\<rparr>"

definition find_upgrade :: "'w orch \<Rightarrow> uuid \<Rightarrow> upgrade option" where
  "find_upgrade d i = find (\<lambda>u. ug_id u = i) (or_upgrades d)"

section \<open>Phases and failures of an upgrade\<close>

definition phase_row :: "string \<Rightarrow> upgrade \<Rightarrow> upgrade" where
  "phase_row phase u = u\<lparr>ug_status := UpgradeRunning, ug_phase := phase\<rparr>"

definition markPhase ::
  "('w, 'c) upgrade_env \<Rightarrow> upgrade \<Rightarrow> string \<Rightarrow> 'w orch \<Rightarrow> (string + upgrade) \<times> 'w orch" where
  "markPhase env u phase d =
     (case db_exec (ue_orch env) (update_upgrade (ug_id u) (phase_row phase)) d of
        (Some e, d1) \<Rightarrow> (Inl (''mark employee sandbox upgrade '' @ phase @ '': '' @ e), d1)
      | (None, d1) \<Rightarrow> (Inr (phase_row phase u), d1))"

definition failed_row :: "string \<Rightarrow> string \<Rightarrow> gotime \<Rightarrow> upgrade \<Rightarrow> upgrade" where
  "failed_row phase msg now u =
     u\<lparr>ug_status := UpgradeFailed, ug_phase := phase, ug_error := Some msg, ug_completed := Some now\<rparr>"

definition markFailed ::
  "('w, 'c) upgrade_env \<Rightarrow> upgrade \<Rightarrow> string \<Rightarrow> string \<Rightarrow> 'w orch \<Rightarrow> 'w orch" where
  "markFailed env u phase msg d =
     db_try (ue_orch env) (update_upgrade (ug_id u) (failed_row phase (truncateUpgradeError msg) (onow d))) d"

section \<open>Starting\<close>

datatype started = StartError string | StartNothing | Started upgrade employee sandbox

definition current_sandboxes :: "upgrade \<Rightarrow> 'w orch \<Rightarrow> sandbox list" where
  "current_sandboxes u d =
     sort_key (\<lambda>s. (- sn_created s, sx_id s))
       (filter (\<lambda>s. sn_employee s = Some (ug_employee u) \<and> sn_org s = Some (ug_org u)
          \<and> sx_status s \<noteq> StatusError
          \<and> (case ug_old u of None \<Rightarrow> True | Some i \<Rightarrow> sx_id s = i)) (or_sandboxes d))"

definition load_employee :: "upgrade \<Rightarrow> 'w orch \<Rightarrow> employee option" where
  "load_employee u d =
     find (\<lambda>a. em_id a = ug_employee u \<and> em_org a = Some (ug_org u) \<and> em_status a \<noteq> ''archived'')
       (or_employees d)"

definition start_row :: "upgrade \<Rightarrow> upgrade" where
  "start_row u = phase_row PhaseCreatingNew u"

definition load_old ::
  "('w, 'c) upgrade_env \<Rightarrow> upgrade \<Rightarrow> employee \<Rightarrow> 'w orch \<Rightarrow> started \<times> 'w orch" where
  "load_old env u agent d =
     (case db_read (ue_orch env) (current_sandboxes u) d of
        (Inl e, d1) \<Rightarrow>
          (StartError (''load current sandbox: '' @ e),
           markFailed env u PhaseCreatingNew ''current sandbox not found'' d1)
      | (Inr [], d1) \<Rightarrow>
          (StartError ''load current sandbox: record not found'',
           markFailed env u PhaseCreatingNew ''current sandbox not found'' d1)
      | (Inr (old # _), d1) \<Rightarrow>
          if ug_old u = None then
            (case db_exec (ue_orch env) (update_upgrade (ug_id u) (\<lambda>r. r\<lparr>ug_old := Some (sx_id old)\<rparr>)) d1 of
               (Some e, d2) \<Rightarrow> (StartError (''record old sandbox: '' @ e), d2)
             | (None, d2) \<Rightarrow> (Started (u\<lparr>ug_old := Some (sx_id old)\<rparr>) agent old, d2))
          else (Started u agent old, d1))"

definition start_loaded ::
  "('w, 'c) upgrade_env \<Rightarrow> upgrade \<Rightarrow> 'w orch \<Rightarrow> started \<times> 'w orch" where
  "start_loaded env u0 d =
     (case db_exec (ue_orch env) (update_upgrade (ug_id u0) start_row) d of
        (Some e, d1) \<Rightarrow> (StartError (''load employee sandbox upgrade: '' @ e), d1)
      | (None, d1) \<Rightarrow>
          let u = start_row u0 in
          (case db_read (ue_orch env) (load_employee u) d1 of
             (Inl e, d2) \<Rightarrow>
               (StartError (''load employee: '' @ e),
                markFailed env u PhaseCreatingNew ''employee not found'' d2)
           | (Inr None, d2) \<Rightarrow>
               (StartError ''load employee: record not found'',
                markFailed env u PhaseCreatingNew ''employee not found'' d2)
           | (Inr (Some agent), d2) \<Rightarrow>
               if em_org agent = None
               then (StartError ''employee missing org'',
                     markFailed env u PhaseCreatingNew ''employee missing org'' d2)
               else load_old env u agent d2))"

text \<open>The row a task is for.\<close>

definition task_row :: "uuid \<Rightarrow> uuid \<Rightarrow> 'w orch \<Rightarrow> upgrade option" where
  "task_row i e d = find (\<lambda>u. ug_id u = i \<and> ug_employee u = e) (or_upgrades d)"

definition loadAndStart ::
  "('w, 'c) upgrade_env \<Rightarrow> uuid \<Rightarrow> uuid \<Rightarrow> 'w orch \<Rightarrow> started \<times> 'w orch" where
  "loadAndStart env upgradeID employeeID d =
     (case db_read (ue_orch env) (task_row upgradeID employeeID) d of
        (Inl e, d1) \<Rightarrow> (StartError (''load employee sandbox upgrade: '' @ e), d1)
      | (Inr None, d1) \<Rightarrow> (StartNothing, d1)
      | (Inr (Some u0), d1) \<Rightarrow>
          if ug_status u0 = UpgradeSucceeded \<or> ug_status u0 = UpgradeFailed then (StartNothing, d1)
          else if ug_status u0 \<noteq> UpgradeQueued \<and> ug_status u0 \<noteq> UpgradeRunning
          then (StartError (''load employee sandbox upgrade: unsupported employee sandbox upgrade status ''
                  @ quoted (ug_status u0)), d1)
          else start_loaded env u0 d1)"

section \<open>Runtime configuration\<close>

definition syncEmployeeRuntime ::
  "('w, 'c) upgrade_env \<Rightarrow> employee \<Rightarrow> sandbox \<Rightarrow> 'w orch \<Rightarrow> string option \<times> 'w orch" where
  "syncEmployeeRuntime env agent sb d =
     (case we_decrypt (oe_pool (ue_orch env)) (sx_secret sb) of
        Inl e \<Rightarrow> (Some (''decrypt runtime secret: '' @ e), d)
      | Inr apiKey \<Rightarrow>
          (case o_world (ue_build_config env agent sb apiKey) d of
             (Inl e, d1) \<Rightarrow> (Some (''build employee runtime config: '' @ e), d1)
           | (Inr cfg, d1) \<Rightarrow>
               (case o_world (ue_healthz env (sx_runtime_url sb) apiKey) d1 of
                  (Some e, d2) \<Rightarrow> (Some (''employee runtime healthz: '' @ e), d2)
                | (None, d2) \<Rightarrow>
                    (case o_world (ue_put_config env (sx_runtime_url sb) apiKey cfg) d2 of
                       (Some e, d3) \<Rightarrow> (Some (''employee runtime put config: '' @ e), d3)
                     | (None, d3) \<Rightarrow>
                         (case o_world (ue_readyz env (sx_runtime_url sb) apiKey) d3 of
                            (Some e, d4) \<Rightarrow> (Some (''employee runtime readyz: '' @ e), d4)
                          | (None, d4) \<Rightarrow>
                              if em_status agent = ''active'' then (None, d4)
                              else
                                (case db_exec (ue_orch env)
                                        (\<lambda>d. d\<lparr>or_employees := map (\<lambda>a.
                                            if em_id a = em_id agent \<and> em_org a = em_org agent
                                            then a\<lparr>em_status := ''active''\<rparr> else a) (or_employees d)\<rparr>) d4 of
                                   (Some e, d5) \<Rightarrow> (Some (''mark employee active: '' @ e), d5)
                                 | (None, d5) \<Rightarrow> (None, d5)))))))"

section \<open>Backup and restore\<close>

definition runBackup ::
  "('w, 'c) upgrade_env \<Rightarrow> upgrade \<Rightarrow> employee \<Rightarrow> sandbox \<Rightarrow> 'w orch \<Rightarrow> (string + backup_meta) \<times> 'w orch" where
  "runBackup env u agent sb d =
     (let key = backupKey (oe_ustr (ue_orch env)) (ug_org u) (em_id agent) (ug_id u) in
      case o_world (ue_presign_put env key) d of
        (Inl e, d1) \<Rightarrow> (Inl (''presign backup upload: '' @ e), d1)
      | (Inr uploadURL, d1) \<Rightarrow>
          (case ExecuteCommandWithTimeout (ue_orch env) sb (buildEmployeeSandboxBackupCommand uploadURL)
                  employeeSandboxUpgradeCommandTimeout d1 of
             (Inl e, d2) \<Rightarrow> (Inl (''backup command failed: '' @ e), d2)
           | (Inr out, d2) \<Rightarrow>
               (case ue_parse_meta env (lastJSONLine out) of
                  Inl e \<Rightarrow> (Inl (''parse backup metadata: '' @ e @ '': '' @ out), d2)
                | Inr (sha, bytes) \<Rightarrow>
                    if sha = [] \<or> bytes \<le> 0 then (Inl ''backup metadata missing sha256 or bytes'', d2)
                    else (Inr \<lparr>bm_Key = key, bm_SHA256 = sha, bm_Bytes = bytes\<rparr>, d2))))"

definition is_hex :: "char \<Rightarrow> bool" where
  "is_hex c \<longleftrightarrow> is_digit c \<or> (97 \<le> (of_char c :: nat) \<and> (of_char c :: nat) \<le> 102)
     \<or> (65 \<le> (of_char c :: nat) \<and> (of_char c :: nat) \<le> 70)"

definition verifyAndRecordBackup ::
  "('w, 'c) upgrade_env \<Rightarrow> upgrade \<Rightarrow> backup_meta \<Rightarrow> 'w orch \<Rightarrow> (string + upgrade) \<times> 'w orch" where
  "verifyAndRecordBackup env u meta d =
     (case o_world (ue_head env (bm_Key meta)) d of
        (Inl e, d1) \<Rightarrow> (Inl (''verify backup object: '' @ e), d1)
      | (Inr stored, d1) \<Rightarrow>
          if stored \<noteq> bm_Bytes meta
          then (Inl (''backup object size mismatch: command reported '' @ show_int (bm_Bytes meta)
                  @ '' bytes, S3 has '' @ show_int stored @ '' bytes''), d1)
          else if \<not> list_all is_hex (bm_SHA256 meta) \<or> length (bm_SHA256 meta) \<noteq> 64
          then (Inl ''backup sha256 is invalid'', d1)
          else
            let f = (\<lambda>r. r\<lparr>ug_backup_key := Some (bm_Key meta), ug_backup_sha := Some (bm_SHA256 meta),
                           ug_backup_bytes := bm_Bytes meta\<rparr>)
            in (case db_exec (ue_orch env) (update_upgrade (ug_id u) f) d1 of
                  (Some e, d2) \<Rightarrow> (Inl (''record backup metadata: '' @ e), d2)
                | (None, d2) \<Rightarrow> (Inr (f u), d2)))"

definition runRestore ::
  "('w, 'c) upgrade_env \<Rightarrow> backup_meta \<Rightarrow> sandbox \<Rightarrow> 'w orch \<Rightarrow> string option \<times> 'w orch" where
  "runRestore env meta sb d =
     (case o_world (ue_presign_get env (bm_Key meta)) d of
        (Inl e, d1) \<Rightarrow> (Some (''presign backup: '' @ e), d1)
      | (Inr url, d1) \<Rightarrow>
          (case ExecuteCommandWithTimeout (ue_orch env) sb
                  (buildEmployeeSandboxRestoreCommand url (bm_SHA256 meta))
                  employeeSandboxUpgradeCommandTimeout d1 of
             (Inl e, d2) \<Rightarrow> (Some (''restore command failed: '' @ e), d2)
           | (Inr out, d2) \<Rightarrow>
               if \<not> str_contains (lastJSONLine out) status_ok_text
               then (Some (''restore command did not confirm success: '' @ out), d2)
               else (None, d2)))"

section \<open>Rolling back\<close>

definition rollback_old ::
  "('w, 'c) upgrade_env \<Rightarrow> employee \<Rightarrow> sandbox \<Rightarrow> bool \<Rightarrow> 'w orch \<Rightarrow> string \<times> 'w orch" where
  "rollback_old env agent old oldPaused d =
     (if sx_id old = uuid_nil then ([], d)
      else if oldPaused then
        (case StartEmployeeSandbox (ue_orch env) old d of
           (Inl e, d1) \<Rightarrow> (''; failed to restart old sandbox during rollback: '' @ err_text e, d1)
         | (Inr old1, d1) \<Rightarrow>
             (case syncEmployeeRuntime env agent old1 d1 of
                (Some e, d2) \<Rightarrow> (''; failed to sync old sandbox during rollback: '' @ e, d2)
              | (None, d2) \<Rightarrow> ([], d2)))
      else
        ([], db_try (ue_orch env)
               (update_sandbox (sx_id old) (\<lambda>s. s\<lparr>sx_status := StatusRunning, sn_error := None\<rparr>)) d))"

definition rollback_new ::
  "('w, 'c) upgrade_env \<Rightarrow> sandbox option \<Rightarrow> 'w orch \<Rightarrow> string \<times> 'w orch" where
  "rollback_new env new d =
     (case new of
        None \<Rightarrow> ([], d)
      | Some n \<Rightarrow>
          if sx_id n = uuid_nil then ([], d)
          else
            (case DeleteSandbox (ue_orch env) n d of
               (Some e, d1) \<Rightarrow> (''; failed to delete new sandbox during rollback: '' @ err_text e, d1)
             | (None, d1) \<Rightarrow> ([], d1)))"

text \<open>The closure \<open>fail\<close> of the task; its answer is the cause.\<close>

definition fail_upgrade ::
  "('w, 'c) upgrade_env \<Rightarrow> employee \<Rightarrow> sandbox \<Rightarrow> bool \<Rightarrow> sandbox option \<Rightarrow> upgrade \<Rightarrow> string \<Rightarrow> string
     \<Rightarrow> 'w orch \<Rightarrow> string option \<times> 'w orch" where
  "fail_upgrade env agent old oldPaused new u phase cause d =
     (let (m1, d1) = rollback_new env new d;
          (m2, d2) = rollback_old env agent old oldPaused d1
      in (Some cause, markFailed env u phase (cause @ m1 @ m2) d2))"

section \<open>The phases, last to first\<close>

definition NewEmployeeSandboxRetireTask :: "retire_payload \<Rightarrow> string option" where
  "NewEmployeeSandboxRetireTask p =
     (if rp_upgrade p = uuid_nil \<or> rp_employee p = uuid_nil \<or> rp_sandbox p = uuid_nil
      then Some ''employee sandbox retire payload missing ids'' else None)"

definition scheduleOldSandboxRetirement ::
  "('w, 'c) upgrade_env \<Rightarrow> upgrade \<Rightarrow> sandbox \<Rightarrow> 'w orch \<Rightarrow> string option \<times> 'w orch" where
  "scheduleOldSandboxRetirement env u old d =
     (let p = \<lparr>rp_upgrade = ug_id u, rp_employee = ug_employee u, rp_sandbox = sx_id old\<rparr> in
      case NewEmployeeSandboxRetireTask p of
        Some e \<Rightarrow> (Some e, d)
      | None \<Rightarrow>
          (case o_world (ue_enqueue_retire env p employeeSandboxRetireDelay) d of
             (Some (ErrEnqueue e), d1) \<Rightarrow> (Some (''enqueue old sandbox retirement: '' @ e), d1)
           | (_, d1) \<Rightarrow> (None, d1)))"

definition succeeded_row :: "gotime \<Rightarrow> upgrade \<Rightarrow> upgrade" where
  "succeeded_row now u =
     u\<lparr>ug_status := UpgradeSucceeded, ug_phase := PhaseCompleted, ug_completed := Some now\<rparr>"

definition mark_succeeded ::
  "('w, 'c) upgrade_env \<Rightarrow> employee \<Rightarrow> sandbox \<Rightarrow> sandbox \<Rightarrow> upgrade \<Rightarrow> 'w orch \<Rightarrow> string option \<times> 'w orch" where
  "mark_succeeded env agent old new u d =
     (case db_exec (ue_orch env) (update_upgrade (ug_id u) (succeeded_row (onow d))) d of
        (Some e, d1) \<Rightarrow>
          fail_upgrade env agent old True (Some new) u PhaseCleanupOld
            (''mark employee sandbox upgrade succeeded: '' @ e) d1
      | (None, d1) \<Rightarrow> (None, d1))"

definition cleanup_old ::
  "('w, 'c) upgrade_env \<Rightarrow> employee \<Rightarrow> sandbox \<Rightarrow> sandbox \<Rightarrow> upgrade \<Rightarrow> 'w orch \<Rightarrow> string option \<times> 'w orch" where
  "cleanup_old env agent old new u d =
     (case markPhase env u PhaseCleanupOld d of
        (Inl e, d1) \<Rightarrow> fail_upgrade env agent old True (Some new) u PhaseCleanupOld e d1
      | (Inr u1, d1) \<Rightarrow>
          mark_succeeded env agent old new u1 (snd (scheduleOldSandboxRetirement env u1 old d1)))"

definition pause_old ::
  "('w, 'c) upgrade_env \<Rightarrow> employee \<Rightarrow> sandbox \<Rightarrow> sandbox \<Rightarrow> upgrade \<Rightarrow> 'w orch \<Rightarrow> string option \<times> 'w orch" where
  "pause_old env agent old new u d =
     (case markPhase env u PhasePausingOld d of
        (Inl e, d1) \<Rightarrow> fail_upgrade env agent old False (Some new) u PhasePausingOld e d1
      | (Inr u1, d1) \<Rightarrow>
          (case StopSandbox (ue_orch env) old d1 of
             (Inl e, d2) \<Rightarrow> fail_upgrade env agent old False (Some new) u1 PhasePausingOld (err_text e) d2
           | (Inr old1, d2) \<Rightarrow> cleanup_old env agent old1 new u1 d2))"

definition sync_new ::
  "('w, 'c) upgrade_env \<Rightarrow> employee \<Rightarrow> sandbox \<Rightarrow> sandbox \<Rightarrow> upgrade \<Rightarrow> 'w orch \<Rightarrow> string option \<times> 'w orch" where
  "sync_new env agent old new u d =
     (case markPhase env u PhaseSync d of
        (Inl e, d1) \<Rightarrow> fail_upgrade env agent old False (Some new) u PhaseSync e d1
      | (Inr u1, d1) \<Rightarrow>
          (case syncEmployeeRuntime env agent new d1 of
             (Some e, d2) \<Rightarrow> fail_upgrade env agent old False (Some new) u1 PhaseSync e d2
           | (None, d2) \<Rightarrow> pause_old env (agent\<lparr>em_status := ''active''\<rparr>) old new u1 d2))"

definition restart_new ::
  "('w, 'c) upgrade_env \<Rightarrow> employee \<Rightarrow> sandbox \<Rightarrow> sandbox \<Rightarrow> upgrade \<Rightarrow> 'w orch \<Rightarrow> string option \<times> 'w orch" where
  "restart_new env agent old new u d =
     (case markPhase env u PhaseRestartNew d of
        (Inl e, d1) \<Rightarrow> fail_upgrade env agent old False (Some new) u PhaseRestartNew e d1
      | (Inr u1, d1) \<Rightarrow>
          (case RestartEmployeeSandbox (ue_orch env) new d1 of
             (Inl e, d2) \<Rightarrow> fail_upgrade env agent old False (Some new) u1 PhaseRestartNew (err_text e) d2
           | (Inr new1, d2) \<Rightarrow> sync_new env agent old new1 u1 d2))"

definition restore_new ::
  "('w, 'c) upgrade_env \<Rightarrow> employee \<Rightarrow> sandbox \<Rightarrow> sandbox \<Rightarrow> backup_meta \<Rightarrow> upgrade \<Rightarrow> 'w orch
     \<Rightarrow> string option \<times> 'w orch" where
  "restore_new env agent old new meta u d =
     (case markPhase env u PhaseRestore d of
        (Inl e, d1) \<Rightarrow> fail_upgrade env agent old False (Some new) u PhaseRestore e d1
      | (Inr u1, d1) \<Rightarrow>
          (case runRestore env meta new d1 of
             (Some e, d2) \<Rightarrow> fail_upgrade env agent old False (Some new) u1 PhaseRestore e d2
           | (None, d2) \<Rightarrow> restart_new env agent old new u1 d2))"

definition create_new ::
  "('w, 'c) upgrade_env \<Rightarrow> employee \<Rightarrow> sandbox \<Rightarrow> backup_meta \<Rightarrow> upgrade \<Rightarrow> 'w orch
     \<Rightarrow> string option \<times> 'w orch" where
  "create_new env agent old meta u d =
     (case markPhase env u PhaseCreatingNew d of
        (Inl e, d1) \<Rightarrow> (Some e, d1)
      | (Inr u1, d1) \<Rightarrow>
          (case o_world (ue_startup env agent) d1 of
             (Inl e, d2) \<Rightarrow> fail_upgrade env agent old False None u1 PhaseCreatingNew e d2
           | (Inr token, d2) \<Rightarrow>
               (case CreateEmployeeSandbox (ue_orch env) agent token d2 of
                  (Inl e, d3) \<Rightarrow> fail_upgrade env agent old False None u1 PhaseCreatingNew (err_text e) d3
                | (Inr new, d3) \<Rightarrow>
                    let f = (\<lambda>r. r\<lparr>ug_new := Some (sx_id new)\<rparr>) in
                    (case db_exec (ue_orch env) (update_upgrade (ug_id u1) f) d3 of
                       (Some e, d4) \<Rightarrow> fail_upgrade env agent old False (Some new) u1 PhaseCreatingNew e d4
                     | (None, d4) \<Rightarrow> restore_new env agent old new meta (f u1) d4))))"

definition backup_old ::
  "('w, 'c) upgrade_env \<Rightarrow> employee \<Rightarrow> sandbox \<Rightarrow> upgrade \<Rightarrow> 'w orch \<Rightarrow> string option \<times> 'w orch" where
  "backup_old env agent old u d =
     (case markPhase env u PhaseBackup d of
        (Inl e, d1) \<Rightarrow> (Some e, d1)
      | (Inr u1, d1) \<Rightarrow>
          (case runBackup env u1 agent old d1 of
             (Inl e, d2) \<Rightarrow> fail_upgrade env agent old False None u1 PhaseBackup e d2
           | (Inr meta, d2) \<Rightarrow>
               (case verifyAndRecordBackup env u1 meta d2 of
                  (Inl e, d3) \<Rightarrow> fail_upgrade env agent old False None u1 PhaseBackup e d3
                | (Inr u2, d3) \<Rightarrow> create_new env agent old meta u2 d3)))"

definition run_upgrade ::
  "('w, 'c) upgrade_env \<Rightarrow> uuid \<Rightarrow> uuid \<Rightarrow> 'w orch \<Rightarrow> string option \<times> 'w orch" where
  "run_upgrade env upgradeID employeeID d =
     (case loadAndStart env upgradeID employeeID d of
        (StartError e, d1) \<Rightarrow> (Some e, d1)
      | (StartNothing, d1) \<Rightarrow> (None, d1)
      | (Started u agent old, d1) \<Rightarrow> backup_old env agent old u d1)"

definition HandleUpgrade ::
  "('w, 'c) upgrade_env \<Rightarrow> uuid \<Rightarrow> uuid \<Rightarrow> 'w orch \<Rightarrow> string option \<times> 'w orch" where
  "HandleUpgrade env upgradeID employeeID d =
     (if upgradeID = uuid_nil \<or> employeeID = uuid_nil
      then (Some ''employee sandbox upgrade payload missing ids'', d)
      else run_upgrade env upgradeID employeeID d)"

section \<open>Retiring the old sandbox\<close>

definition retire ::
  "('w, 'c) upgrade_env \<Rightarrow> retire_payload \<Rightarrow> 'w orch \<Rightarrow> string option \<times> 'w orch" where
  "retire env p d =
     (case db_read (ue_orch env) (task_row (rp_upgrade p) (rp_employee p)) d of
        (Inl e, d1) \<Rightarrow> (Some (''load employee sandbox upgrade: '' @ e), d1)
      | (Inr None, d1) \<Rightarrow> (None, d1)
      | (Inr (Some u), d1) \<Rightarrow>
          if ug_status u \<noteq> UpgradeSucceeded \<or> ug_phase u \<noteq> PhaseCompleted \<or> ug_old u \<noteq> Some (rp_sandbox p)
          then (None, d1)
          else
            (case db_read (ue_orch env) (\<lambda>d. find_sandbox d (rp_sandbox p)) d1 of
               (Inl e, d2) \<Rightarrow> (Some (''load old employee sandbox: '' @ e), d2)
             | (Inr None, d2) \<Rightarrow> (None, d2)
             | (Inr (Some sb), d2) \<Rightarrow>
                 if sn_employee sb \<noteq> Some (rp_employee p) \<or> sx_status sb \<noteq> StatusStopped then (None, d2)
                 else if ug_new u = Some (sx_id sb) then (None, d2)
                 else
                   (case DeleteSandbox (ue_orch env) sb d2 of
                      (Some e, d3) \<Rightarrow> (Some (''delete retired employee sandbox: '' @ err_text e), d3)
                    | (None, d3) \<Rightarrow> (None, d3))))"

definition HandleRetire ::
  "('w, 'c) upgrade_env \<Rightarrow> retire_payload \<Rightarrow> 'w orch \<Rightarrow> string option \<times> 'w orch" where
  "HandleRetire env p d =
     (if rp_upgrade p = uuid_nil \<or> rp_employee p = uuid_nil \<or> rp_sandbox p = uuid_nil
      then (Some ''employee sandbox retire payload missing ids'', d)
      else retire env p d)"

section \<open>Queueing an upgrade\<close>

datatype upgrade_response = Accepted upgrade | UpgradeRejected nat string

definition activeEmployeeSandboxUpgrade :: "uuid \<Rightarrow> uuid \<Rightarrow> 'w orch \<Rightarrow> upgrade option" where
  "activeEmployeeSandboxUpgrade org agentID d =
     (case sort_key (\<lambda>u. (- ug_created u, ug_id u))
             (filter (\<lambda>u. ug_org u = org \<and> ug_employee u = agentID
                \<and> (ug_status u = UpgradeQueued \<or> ug_status u = UpgradeRunning)) (or_upgrades d)) of
        [] \<Rightarrow> None | u # _ \<Rightarrow> Some u)"

definition markUpgradeFailed ::
  "('w, 'c) upgrade_env \<Rightarrow> upgrade \<Rightarrow> string \<Rightarrow> 'w orch \<Rightarrow> 'w orch" where
  "markUpgradeFailed env u msg d =
     db_try (ue_orch env) (update_upgrade (ug_id u) (failed_row PhaseQueued msg (onow d))) d"

definition new_upgrade :: "uuid \<Rightarrow> employee \<Rightarrow> sandbox \<Rightarrow> 'w orch \<Rightarrow> upgrade" where
  "new_upgrade org agent old d =
     \<lparr>ug_id = wp_gen (or_pool d) (wp_drawn (or_pool d)), ug_org = org, ug_employee = em_id agent,
      ug_old = Some (sx_id old), ug_new = None, ug_status = UpgradeQueued, ug_phase = PhaseQueued,
      ug_backup_key = None, ug_backup_sha = None, ug_backup_bytes = 0, ug_error = None,
      ug_completed = None, ug_created = onow d\<rparr>"

definition insert_upgrade :: "upgrade \<Rightarrow> 'w orch \<Rightarrow> 'w orch" where
  "insert_upgrade u d =
     d\<lparr>or_upgrades := or_upgrades d @ [u],
       or_pool := (or_pool d)\<lparr>wp_drawn := Suc (wp_drawn (or_pool d))\<rparr>\<rparr>"

text \<open>The second half of the handler: the row is written, then its task is queued.\<close>

definition queue_upgrade ::
  "('w, 'c) upgrade_env \<Rightarrow> uuid \<Rightarrow> employee \<Rightarrow> sandbox \<Rightarrow> 'w orch \<Rightarrow> upgrade_response \<times> 'w orch" where
  "queue_upgrade env org agent old d =
     (case o_world (oe_db (ue_orch env)) d of
        (Some _, d1) \<Rightarrow> (UpgradeRejected 500 ''failed to create upgrade'', d1)
      | (None, d1) \<Rightarrow>
          let u = new_upgrade org agent old d1; d2 = insert_upgrade u d1 in
          if ug_id u \<in> ug_id ` set (or_upgrades d1)
          then (UpgradeRejected 500 ''failed to create upgrade'', d1)
          else (case o_world (ue_enqueue_upgrade env (ug_id u) (em_id agent)) d2 of
             (None, d3) \<Rightarrow> (Accepted u, d3)
           | (Some (ErrEnqueue e), d3) \<Rightarrow>
               (UpgradeRejected 500 ''failed to enqueue upgrade'', markUpgradeFailed env u e d3)
           | (Some _, d3) \<Rightarrow>
               (case db_read (ue_orch env) (activeEmployeeSandboxUpgrade org (em_id agent))
                       (markUpgradeFailed env u ''task ID conflicts with another task'' d3) of
                  (Inr (Some other), d4) \<Rightarrow> (Accepted other, d4)
                | (_, d4) \<Rightarrow> (UpgradeRejected 500 ''failed to enqueue upgrade'', d4))))"

definition StartSandboxUpgrade ::
  "('w, 'c) upgrade_env \<Rightarrow> uuid \<Rightarrow> uuid \<Rightarrow> 'w orch \<Rightarrow> upgrade_response \<times> 'w orch" where
  "StartSandboxUpgrade env org agentID d =
     (case db_read (ue_orch env) (activeEmployeeSandboxUpgrade org agentID) d of
        (Inl _, d1) \<Rightarrow> (UpgradeRejected 500 ''failed to load active upgrade'', d1)
      | (Inr (Some u), d1) \<Rightarrow> (Accepted u, d1)
      | (Inr None, d1) \<Rightarrow>
          (case db_read (ue_orch env)
                  (\<lambda>d. find (\<lambda>a. em_id a = agentID \<and> em_org a = Some org \<and> em_status a \<noteq> ''archived'')
                         (or_employees d)) d1 of
             (Inl _, d2) \<Rightarrow> (UpgradeRejected 500 ''failed to load employee'', d2)
           | (Inr None, d2) \<Rightarrow> (UpgradeRejected 404 ''employee not found'', d2)
           | (Inr (Some agent), d2) \<Rightarrow>
               (case o_world (ue_delete_task env agentID) d2 of
                  (Some e, d3) \<Rightarrow>
                    (if str_contains e ''active state''
                     then UpgradeRejected 409 ''employee sandbox upgrade task is already running''
                     else UpgradeRejected 500 ''failed to clear stale upgrade task'', d3)
                | (None, d3) \<Rightarrow>
                    (case db_read (ue_orch env)
                            (\<lambda>d. sort_key (\<lambda>s. (- sn_created s, sx_id s))
                               (filter (\<lambda>s. sn_employee s = Some agentID \<and> sn_org s = Some org
                                  \<and> sx_status s \<noteq> StatusError) (or_sandboxes d))) d3 of
                       (Inl _, d4) \<Rightarrow> (UpgradeRejected 500 ''failed to load employee sandbox'', d4)
                     | (Inr [], d4) \<Rightarrow> (UpgradeRejected 409 ''sandbox not found for employee'', d4)
                     | (Inr (old # _), d4) \<Rightarrow> queue_upgrade env org agent old d4))))"

end
