(* ===== verification/UpgradeProps.thy ===== *)
theory UpgradeProps
  imports Upgrade
begin

text \<open>
  Properties of the orchestrator and of sandbox upgrades: waking a sandbox ends, waiting for a
  runtime is bounded, and an upgrade that succeeds has replaced the sandbox.
\<close>

section \<open>Waiting and waking\<close>

lemma o_world_tables:
  assumes "o_world f d = (x, d')"
  shows "or_sandboxes d' = or_sandboxes d" "or_upgrades d' = or_upgrades d"
    "or_employees d' = or_employees d" "wp_gen (or_pool d') = wp_gen (or_pool d)"
    "wp_drawn (or_pool d') = wp_drawn (or_pool d)" "wp_now (or_pool d') = wp_now (or_pool d)"
  using assms by (auto simp: o_world_def in_world_def split: prod.splits)

lemma wait_live_step:
  assumes "wait_live env url deadline attempt d = (r, d')" and "onow d < deadline"
  obtains (retry) d2 where "onow d2 = onow d"
      "wait_live env url deadline (attempt + 1) (pass_time employeeHealthInterval d2) = (r, d')"
  | (ended) "onow d' = onow d"
proof -
  obtain a d1 where p: "probe_once env url d = (a, d1)" by (metis prod.collapse)
  obtain c d2 where c: "o_world (oe_cancelled env) d1 = (c, d2)" by (metis prod.collapse)
  note t = probe_once_onow [OF p] o_world_onow [OF c]
  note eq = assms(1) [unfolded wait_live.simps [of env url deadline attempt d] p c prod.case]
  show thesis
  proof (cases a)
    case (ProbeBadRequest e)
    then show thesis using eq assms(2) t by (intro ended) auto
  next
    case (ProbeTransport e)
    then show thesis using eq assms(2) t by (cases c) (auto intro: retry ended)
  next
    case (ProbeStatus s)
    then show thesis using eq assms(2) t by (cases c; cases "s = 200") (auto intro: retry ended)
  qed
qed

lemma wait_live_time:
  "wait_live env url deadline attempt d = (r, d') \<Longrightarrow> onow d \<le> deadline + employeeHealthInterval
    \<Longrightarrow> onow d \<le> onow d' \<and> onow d' \<le> deadline + employeeHealthInterval \<and> (r = None \<longrightarrow> onow d' < deadline)"
proof (induction "nat (deadline - onow d)" arbitrary: attempt d rule: less_induct)
  case less
  have pos: "0 < employeeHealthInterval" by (simp add: employeeHealthInterval_def Second_def)
  show ?case
  proof (cases "onow d < deadline")
    case False
    then show ?thesis
      using less.prems wait_live.simps [of env url deadline attempt d] by auto
  next
    case True
    from less.prems(1) True show ?thesis
    proof (cases rule: wait_live_step)
      case (retry d2)
      have "onow (pass_time employeeHealthInterval d2) \<le> onow d' \<and> onow d' \<le> deadline + employeeHealthInterval
        \<and> (r = None \<longrightarrow> onow d' < deadline)"
        by (rule less.hyps [OF _ retry(2)]) (use True retry(1) pos in auto)
      then show ?thesis using retry(1) pos by simp
    next
      case ended
      then show ?thesis using True pos by simp
    qed
  qed
qed

text \<open>
  Waiting for a runtime sleeps at most ninety seconds and one more interval, and succeeds only
  before the ninety seconds are over. The time of a probe itself, which the client cuts off after
  five seconds, is not counted.
\<close>

theorem wait_for_runtime_bounded:
  "\<exists>r d'. waitForEmployeeRuntimeLive env sb d = (r, d')
    \<and> onow d \<le> onow d' \<and> onow d' \<le> onow d + 92 * Second
    \<and> \<not> (r = None \<and> onow d + 90 * Second \<le> onow d')"
proof -
  obtain r d' where w: "waitForEmployeeRuntimeLive env sb d = (r, d')" by (metis prod.collapse)
  have "0 \<le> Second" by (simp add: Second_def)
  then show ?thesis
    using w wait_live_time [OF w [unfolded waitForEmployeeRuntimeLive_def]]
    by (auto simp: employeeHealthTimeout_def employeeHealthInterval_def)
qed

definition active_result :: "((sb_error + sandbox) \<times> 'w orch) option \<Rightarrow> bool" where
  "active_result r \<longleftrightarrow>
     (case r of None \<Rightarrow> False | Some (Inl _, _) \<Rightarrow> True | Some (Inr s, _) \<Rightarrow> sx_status s = StatusRunning)"

lemma wake_running: "WakeSandbox env sb d = (Inr s, d') \<Longrightarrow> sx_status s = StatusRunning"
  by (auto simp: WakeSandbox_def Let_def running_row_def split: sum.splits prod.splits option.splits)

lemma wake_active: "active_result (Some (WakeSandbox env sb d))"
  by (cases "WakeSandbox env sb d"; cases "fst (WakeSandbox env sb d)")
    (auto simp: active_result_def dest: wake_running)

lemma unarchive_active: "active_result (Some (UnarchiveSandbox env sb d))"
  unfolding UnarchiveSandbox_def
  by (auto simp: wake_active split: sum.split) (auto simp: active_result_def)

text \<open>A status the code names ends the call at once; any other costs one question to the driver.\<close>

lemma known_status_active:
  assumes "ensureSandboxProvider env sb = Inr sb1" and "known_status (sx_status sb1)"
  shows "active_result (EnsureSandboxActive env sb d)"
proof (cases "sx_status sb1 = StatusCreating \<or> sx_status sb1 = StatusStarting")
  case True
  obtain e d1 where "waitForEmployeeRuntimeLive env sb1 d = (e, d1)" by (metis prod.collapse)
  then show ?thesis
    using assms True
    by (subst EnsureSandboxActive.simps)
      (auto simp: sandbox_status_defs Let_def active_result_def split: option.split)
next
  case False
  then show ?thesis
    using assms wake_active [of env sb1 d] unarchive_active [of env sb1 d]
    by (subst EnsureSandboxActive.simps) (auto simp: known_status_def, auto simp: active_result_def)
qed

context status_driver
begin

lemma ensure_active_returns:
  assumes "oe_status env = get_status"
  shows "active_result (EnsureSandboxActive env sb d)"
proof (cases "ensureSandboxProvider env sb")
  case (Inl e)
  then show ?thesis by (subst EnsureSandboxActive.simps) (simp add: active_result_def)
next
  case (Inr sb1)
  show ?thesis
  proof (cases "known_status (sx_status sb1)")
    case True
    with Inr show ?thesis by (rule known_status_active)
  next
    case False
    obtain a d1 where a: "o_world (oe_status env (sx_external sb1)) d = (a, d1)" by (metis prod.collapse)
    show ?thesis
    proof (cases a)
      case (Inl e)
      then show ?thesis using Inr a False
        by (subst EnsureSandboxActive.simps) (simp add: known_status_def active_result_def)
    next
      case status: (Inr s)
      have k: "known_status s"
        using a status assms status_known [of "sx_external sb1" "wp_world (or_pool d)" s]
        by (auto simp: o_world_def in_world_def split: prod.splits)
      let ?sb2 = "sb1\<lparr>sx_status := s\<rparr>"
      have p: "ensureSandboxProvider env ?sb2 = Inr ?sb2"
        using Inr by (auto simp: ensureSandboxProvider_def Let_def split: if_splits)
      have "active_result (EnsureSandboxActive env ?sb2 d2)" for d2
        by (rule known_status_active [OF p]) (simp add: k)
      then show ?thesis using Inr a status False
        by (subst EnsureSandboxActive.simps) (simp add: known_status_def Let_def, simp add: active_result_def)
    qed
  qed
qed

end

text \<open>
  C15: with the status mapping of any of the three drivers, making a sandbox active returns: an
  error, or a sandbox that is running.
\<close>

theorem ensure_active_terminates:
  "active_result (EnsureSandboxActive (env\<lparr>oe_status := daytona_GetStatus api\<rparr>) sb d)
    \<and> active_result (EnsureSandboxActive (env\<lparr>oe_status := docker_GetStatus inspect\<rparr>) sb d)
    \<and> active_result (EnsureSandboxActive (env\<lparr>oe_status := railway_GetStatus deployments\<rparr>) sb d)"
  by (intro conjI daytona.ensure_active_returns docker.ensure_active_returns railway.ensure_active_returns) simp_all

section \<open>Effects on the tables\<close>

text \<open>
  The tables as maps from identifiers to rows. \<open>upd_with i P m m'\<close>: at most the row \<open>i\<close>
  changes, and where it exists \<open>P\<close> relates it before and after.
\<close>

definition upd_with :: "'k \<Rightarrow> ('r \<Rightarrow> 'r \<Rightarrow> bool) \<Rightarrow> ('k \<Rightarrow> 'r option) \<Rightarrow> ('k \<Rightarrow> 'r option) \<Rightarrow> bool" where
  "upd_with i P m m' \<longleftrightarrow> (\<exists>g. m' = m(i := map_option g (m i)) \<and> (\<forall>r. P r (g r)))"

lemma upd_withI: "m' = m(i := map_option g (m i)) \<Longrightarrow> (\<And>r. P r (g r)) \<Longrightarrow> upd_with i P m m'"
  by (auto simp: upd_with_def)

lemma upd_with_refl: "(\<And>r. P r r) \<Longrightarrow> upd_with i P m m"
  by (rule upd_withI [of _ _ _ "\<lambda>r. r"]) (auto simp: option.map_ident)

lemma upd_with_trans:
  assumes "upd_with i P m m1" and "upd_with i Q m1 m2" and "\<And>r r1 r2. P r r1 \<Longrightarrow> Q r1 r2 \<Longrightarrow> R r r2"
  shows "upd_with i R m m2"
proof -
  obtain g h where "m1 = m(i := map_option g (m i))" "\<forall>r. P r (g r)"
    "m2 = m1(i := map_option h (m1 i))" "\<forall>r. Q r (h r)"
    using assms(1,2) by (auto simp: upd_with_def)
  then show ?thesis
    by (intro upd_withI [of _ _ _ "h \<circ> g"]) (auto simp: option.map_comp intro: assms(3))
qed

lemma upd_with_mono: "upd_with i P m m' \<Longrightarrow> (\<And>r r'. P r r' \<Longrightarrow> Q r r') \<Longrightarrow> upd_with i Q m m'"
  by (auto simp: upd_with_def)

lemma upd_with_other: "upd_with i P m m' \<Longrightarrow> j \<noteq> i \<Longrightarrow> m' j = m j"
  by (auto simp: upd_with_def)

lemma upd_with_row: "upd_with i P m m' \<Longrightarrow> m i = Some r \<Longrightarrow> \<exists>r'. m' i = Some r' \<and> P r r'"
  by (auto simp: upd_with_def)

lemma find_sandbox_update:
  assumes "\<And>s. sx_id (f s) = sx_id s"
  shows "find_sandbox (update_sandbox i f d) = (find_sandbox d)(i := map_option f (find_sandbox d i))"
  using assms by (auto simp: fun_eq_iff find_sandbox_def update_sandbox_def find_map_update)

lemma find_sandbox_delete: "find_sandbox (delete_sandbox_row i d) = (find_sandbox d)(i := None)"
proof
  fix j
  have "find (\<lambda>s. sx_id s = j) (filter (\<lambda>s. sx_id s \<noteq> i) ss)
      = (if j = i then None else find (\<lambda>s. sx_id s = j) ss)" for ss :: "sandbox list"
    by (induction ss) auto
  then show "find_sandbox (delete_sandbox_row i d) j = ((find_sandbox d)(i := None)) j"
    by (simp add: find_sandbox_def delete_sandbox_row_def)
qed

lemma find_sandbox_insert:
  assumes "sx_id s \<notin> sx_id ` set (or_sandboxes d)"
  shows "find_sandbox (insert_sandbox s d) = (find_sandbox d)(sx_id s \<mapsto> s)" "find_sandbox d (sx_id s) = None"
proof -
  have "find (\<lambda>r. sx_id r = j) (ss @ [s]) = (if j = sx_id s then Some s else find (\<lambda>r. sx_id r = j) ss)
      \<and> find (\<lambda>r. sx_id r = sx_id s) ss = None"
    if "sx_id s \<notin> sx_id ` set ss" for ss :: "sandbox list" and j
    using that by (induction ss) auto
  from this [OF assms] show "find_sandbox (insert_sandbox s d) = (find_sandbox d)(sx_id s \<mapsto> s)"
    "find_sandbox d (sx_id s) = None"
    by (auto simp: fun_eq_iff find_sandbox_def insert_sandbox_def)
qed

lemma find_upgrade_update:
  assumes "\<And>u. ug_id (f u) = ug_id u"
  shows "find_upgrade (update_upgrade i f d) = (find_upgrade d)(i := map_option f (find_upgrade d i))"
  using assms by (auto simp: fun_eq_iff find_upgrade_def update_upgrade_def find_map_update)

definition forget_both :: "uuid \<Rightarrow> upgrade \<Rightarrow> upgrade" where
  "forget_both i u = u\<lparr>ug_old := forget i (ug_old u), ug_new := forget i (ug_new u)\<rparr>"

lemma find_upgrade_delete: "find_upgrade (delete_sandbox_row i d) j = map_option (forget_both i) (find_upgrade d j)"
proof -
  have "find (\<lambda>u. ug_id u = j) (map (forget_both i) us) = map_option (forget_both i) (find (\<lambda>u. ug_id u = j) us)"
    for us by (induction us) (auto simp: forget_both_def)
  then show ?thesis
    by (simp add: find_upgrade_def delete_sandbox_row_def forget_both_def [abs_def])
qed

lemma tables_other [simp]:
  "find_upgrade (update_sandbox i f d) = find_upgrade d" "find_sandbox (update_upgrade j g d) = find_sandbox d"
  "find_upgrade (insert_sandbox s d) = find_upgrade d" "find_sandbox (insert_upgrade u d) = find_sandbox d"
  "or_upgrades (update_sandbox i f d) = or_upgrades d" "or_sandboxes (update_upgrade j g d) = or_sandboxes d"
  "or_upgrades (insert_sandbox s d) = or_upgrades d" "or_sandboxes (insert_upgrade u d) = or_sandboxes d"
  "find_upgrade (d\<lparr>or_pool := p\<rparr>) = find_upgrade d" "find_sandbox (d\<lparr>or_pool := p\<rparr>) = find_sandbox d"
  "find_upgrade (d\<lparr>or_employees := es\<rparr>) = find_upgrade d" "find_sandbox (d\<lparr>or_employees := es\<rparr>) = find_sandbox d"
  "find_upgrade (pass_time dt d) = find_upgrade d" "find_sandbox (pass_time dt d) = find_sandbox d"
  by (simp_all add: fun_eq_iff find_upgrade_def find_sandbox_def update_sandbox_def update_upgrade_def
      insert_sandbox_def insert_upgrade_def pass_time_def)

text \<open>The identifiers a state generates; a step that leaves them and both tables alone.\<close>

definition ids :: "'w orch \<Rightarrow> nat \<Rightarrow> uuid" where "ids d = wp_gen (or_pool d)"

lemma ids_simps [simp]:
  "ids (update_sandbox i f d) = ids d" "ids (update_upgrade j g d) = ids d" "ids (pass_time dt d) = ids d"
  "ids (delete_sandbox_row i d) = ids d" "ids (insert_sandbox s d) = ids d"
  "ids (d\<lparr>or_employees := es\<rparr>) = ids d"
  by (simp_all add: ids_def update_sandbox_def update_upgrade_def pass_time_def delete_sandbox_row_def
      insert_sandbox_def)

definition quiet :: "'w orch \<Rightarrow> 'w orch \<Rightarrow> bool" where
  "quiet d d' \<longleftrightarrow> find_sandbox d' = find_sandbox d \<and> find_upgrade d' = find_upgrade d \<and> ids d' = ids d"

lemma quiet_refl [simp]: "quiet d d" by (simp add: quiet_def)
lemma quiet_trans [trans]: "quiet d d1 \<Longrightarrow> quiet d1 d2 \<Longrightarrow> quiet d d2" by (simp add: quiet_def)

lemma quiet_world: "o_world f d = (x, d') \<Longrightarrow> quiet d d'"
  by (simp add: quiet_def fun_eq_iff find_sandbox_def find_upgrade_def ids_def o_world_tables)

lemma db_execE:
  assumes "db_exec env f d = (r, d')"
  obtains d1 where "quiet d d1" "onow d1 = onow d" "d' = (if r = None then f d1 else d1)"
  using assms by (fastforce simp: db_exec_def split: prod.splits option.splits dest: quiet_world o_world_onow)

lemma quiet_world_snd [simp]: "quiet d (snd (o_world f d))"
  by (rule quiet_world [of f d "fst (o_world f d)"]) simp

lemma quiet_read: "db_read env f d = (x, d') \<Longrightarrow> quiet d d'"
  by (auto simp: db_read_def split: prod.splits option.splits dest: quiet_world)

section \<open>Operations that succeed\<close>

lemma row_ids [simp]:
  "sx_id (running_row t s) = sx_id s" "sx_id (stopped_row t s) = sx_id s" "sx_id (archived_row s) = sx_id s"
  "sx_id (set_claim r s) = sx_id s" "sx_id (placed_row x url t s) = sx_id s"
  by (simp_all add: placed_row_def running_row_def stopped_row_def archived_row_def set_claim_def)

abbreviation becomes :: "string \<Rightarrow> sandbox \<Rightarrow> sandbox \<Rightarrow> bool" where
  "becomes st r r' \<equiv> sx_status r' = st"

lemma quiet_tables: "quiet d d' \<Longrightarrow> find_sandbox d' = find_sandbox d" "quiet d d' \<Longrightarrow> find_upgrade d' = find_upgrade d"
  by (simp_all add: quiet_def)

lemma ensure_id: "ensureSandboxProvider env sb = Inr sb1 \<Longrightarrow> sx_id sb1 = sx_id sb"
  by (auto simp: ensureSandboxProvider_def Let_def split: if_splits)

lemma exec_row:
  assumes "db_exec env (update_sandbox i f) d = (None, d')" and "\<And>s. sx_id (f s) = sx_id s"
  shows "find_sandbox d' = (find_sandbox d)(i := map_option f (find_sandbox d i))"
    "find_upgrade d' = find_upgrade d"
proof -
  from assms(1) obtain d1 where "quiet d d1" "d' = update_sandbox i f d1" by (auto elim: db_execE)
  then show "find_sandbox d' = (find_sandbox d)(i := map_option f (find_sandbox d i))"
    "find_upgrade d' = find_upgrade d"
    by (simp_all add: find_sandbox_update [OF assms(2)] quiet_tables)
qed

lemma stop_ok:
  assumes "StopSandbox env sb d = (Inr sb', d')"
  shows "upd_with (sx_id sb) (becomes StatusStopped) (find_sandbox d) (find_sandbox d')"
    "find_upgrade d' = find_upgrade d" "sx_id sb' = sx_id sb"
proof -
  from assms obtain sb1 d1 where e: "ensureSandboxProvider env sb = Inr sb1" "quiet d d1"
      "db_exec env (update_sandbox (sx_id sb1) (stopped_row (onow d1))) d1 = (None, d')"
      "sb' = stopped_row (onow d1) sb1"
    by (auto simp: StopSandbox_def Let_def purgeMissingSandbox_def dest: quiet_world
        split: sum.splits prod.splits option.splits sb_error.splits)
  note r = exec_row [OF e(3)]
  show "upd_with (sx_id sb) (becomes StatusStopped) (find_sandbox d) (find_sandbox d')"
    by (rule upd_withI [of _ _ _ "stopped_row (onow d1)"])
      (use r e ensure_id [OF e(1)] in \<open>simp_all add: stopped_row_def quiet_tables\<close>)
  show "find_upgrade d' = find_upgrade d" "sx_id sb' = sx_id sb"
    using r e ensure_id [OF e(1)] by (simp_all add: stopped_row_def quiet_tables)
qed

lemma wait_live_quiet: "wait_live env url deadline attempt d = (r, d') \<Longrightarrow> quiet d d'"
proof (induction "nat (deadline - onow d)" arbitrary: attempt d rule: less_induct)
  case less
  obtain a d1 where p: "probe_once env url d = (a, d1)" by (metis prod.collapse)
  obtain c d2 where c: "o_world (oe_cancelled env) d1 = (c, d2)" by (metis prod.collapse)
  have q: "quiet d d1"
    using p by (auto simp: probe_once_def split: prod.splits probe_answer.splits option.splits
        dest!: quiet_world intro: quiet_trans)
  have q2: "quiet d d2" using q quiet_world [OF c] by (rule quiet_trans)
  have t: "onow d2 = onow d" using probe_once_onow [OF p] o_world_onow [OF c] by simp
  have rec: "quiet d d'"
    if "wait_live env url deadline (attempt + 1) (pass_time employeeHealthInterval d2) = (r, d')" "onow d < deadline"
  proof -
    have "quiet (pass_time employeeHealthInterval d2) d'"
      by (rule less.hyps [OF _ that(1)]) (use that(2) t in \<open>simp add: employeeHealthInterval_def Second_def\<close>)
    then show ?thesis using q2 by (simp add: quiet_def)
  qed
  show ?case
    using less.prems [unfolded wait_live.simps [of env url deadline attempt d] p c prod.case] q q2
    by (cases "onow d < deadline"; cases a; cases c) (auto intro: rec split: if_splits)
qed

lemma wait_quiet: "waitForEmployeeRuntimeLive env sb d = (r, d') \<Longrightarrow> quiet d d'"
  unfolding waitForEmployeeRuntimeLive_def by (rule wait_live_quiet)

lemma refresh_ok:
  assumes "RefreshEmployeeSandboxURL env sb d = (Inr sb', d')"
  shows "upd_with (sx_id sb) (\<lambda>r r'. True) (find_sandbox d) (find_sandbox d')"
    "find_upgrade d' = find_upgrade d" "sx_id sb' = sx_id sb"
proof -
  from assms obtain sb1 d1 url where e: "ensureSandboxProvider env sb = Inr sb1" "quiet d d1"
      "db_exec env (update_sandbox (sx_id sb1) (\<lambda>s. s\<lparr>sx_runtime_url := url,
         sx_url_expires := Some (onow d1 + runtimeURLTTL)\<rparr>)) d1 = (None, d')"
      "sx_id sb' = sx_id sb1"
    by (auto simp: RefreshEmployeeSandboxURL_def Let_def dest: quiet_world
        split: sum.splits prod.splits option.splits)
  note r = exec_row [OF e(3)]
  show "upd_with (sx_id sb) (\<lambda>r r'. True) (find_sandbox d) (find_sandbox d')"
    by (rule upd_withI [of _ _ _ "\<lambda>s. s\<lparr>sx_runtime_url := url, sx_url_expires := Some (onow d1 + runtimeURLTTL)\<rparr>"])
      (use r e ensure_id [OF e(1)] in \<open>simp_all add: quiet_tables\<close>)
  show "find_upgrade d' = find_upgrade d" "sx_id sb' = sx_id sb"
    using r e ensure_id [OF e(1)] by (simp_all add: quiet_tables)
qed

lemma start_ok:
  assumes "StartEmployeeSandbox env sb d = (Inr sb', d')"
  shows "upd_with (sx_id sb) (becomes StatusRunning) (find_sandbox d) (find_sandbox d')"
    "find_upgrade d' = find_upgrade d" "sx_id sb' = sx_id sb"
proof -
  from assms obtain sb1 d1 sb2 d2 d3 where e: "ensureSandboxProvider env sb = Inr sb1" "quiet d d1"
      "RefreshEmployeeSandboxURL env sb1 d1 = (Inr sb2, d2)"
      "db_exec env (update_sandbox (sx_id sb2) (running_row (onow d2))) d2 = (None, d3)"
      "quiet d3 d'" "sx_id sb' = sx_id sb2"
    by (auto simp: StartEmployeeSandbox_def dest!: quiet_world wait_quiet
        split: sum.splits prod.splits option.splits)
  note f = refresh_ok [OF e(3)] and r = exec_row [OF e(4)] and i = ensure_id [OF e(1)]
  have "upd_with (sx_id sb) (becomes StatusRunning) (find_sandbox d2) (find_sandbox d3)"
    by (rule upd_withI [of _ _ _ "running_row (onow d2)"]) (use f r i in \<open>simp_all add: running_row_def\<close>)
  with f(1) show "upd_with (sx_id sb) (becomes StatusRunning) (find_sandbox d) (find_sandbox d')"
    using e i by (auto simp: quiet_tables elim: upd_with_trans)
  show "find_upgrade d' = find_upgrade d" "sx_id sb' = sx_id sb"
    using e f r i by (simp_all add: running_row_def quiet_tables)
qed

lemma restart_ok:
  assumes "RestartEmployeeSandbox env sb d = (Inr sb', d')"
  shows "upd_with (sx_id sb) (becomes StatusRunning) (find_sandbox d) (find_sandbox d')"
    "find_upgrade d' = find_upgrade d" "sx_id sb' = sx_id sb"
proof -
  from assms obtain sb1 d1 where e: "StopSandbox env sb d = (Inr sb1, d1)"
      "StartEmployeeSandbox env sb1 d1 = (Inr sb', d')"
    by (auto simp: RestartEmployeeSandbox_def split: prod.splits sum.splits)
  note a = stop_ok [OF e(1)] and b = start_ok [OF e(2)]
  show "upd_with (sx_id sb) (becomes StatusRunning) (find_sandbox d) (find_sandbox d')"
    using a(1) b(1) a(3) by (auto elim: upd_with_trans)
  show "find_upgrade d' = find_upgrade d" "sx_id sb' = sx_id sb" using a b by simp_all
qed

lemma exec_command_quiet: "ExecuteCommandWithTimeout env sb c dt d = (r, d') \<Longrightarrow> quiet d d'"
  by (auto simp: ExecuteCommandWithTimeout_def dest: quiet_world split: sum.splits option.splits)

lemma clone_each_quiet: "clone_each env sb dir repos d = (r, d') \<Longrightarrow> quiet d d'"
proof (induction repos arbitrary: d)
  case (Cons p repos)
  obtain name full where p: "p = (name, full)" by (cases p)
  from Cons.prems show ?case unfolding p
    by (auto simp: ExecuteCommand_def split: prod.splits sum.splits
        dest!: exec_command_quiet dest: Cons.IH intro: quiet_trans)
qed simp

lemma clone_quiet: "cloneEmployeeSelectedRepositories env sb agent d = (r, d') \<Longrightarrow> quiet d d'"
  by (auto simp: cloneEmployeeSelectedRepositories_def loadSelectedGitHubRepositories_def
      cloneRepositories_def ExecuteCommand_def
      split: prod.splits sum.splits option.splits if_splits
      dest!: exec_command_quiet clone_each_quiet quiet_read intro: quiet_trans)

lemma clone_or_fail_ok:
  "clone_or_fail env kind agent sb d = (Inr sb', d') \<Longrightarrow> quiet d d' \<and> sb' = sb"
  by (auto simp: clone_or_fail_def dest: clone_quiet split: prod.splits option.splits)

lemma claim_running:
  "claimWarmRuntime env ttl m sb mode d = ((None, r), p) \<Longrightarrow> sx_status r = StatusRunning"
  by (auto simp: claimWarmRuntime_def sandbox_status_defs Let_def split: prod.splits sum.splits option.splits)

text \<open>What a created runtime adds: one row, with a new identifier, that is running.\<close>

definition placed :: "uuid \<Rightarrow> (uuid \<Rightarrow> sandbox option) \<Rightarrow> (uuid \<Rightarrow> sandbox option) \<Rightarrow> bool" where
  "placed i m m' \<longleftrightarrow> m i = None \<and> (\<exists>s. sx_id s = i \<and> sx_status s = StatusRunning \<and> m' = m(i \<mapsto> s))"

definition added :: "uuid \<Rightarrow> 'w orch \<Rightarrow> 'w orch \<Rightarrow> bool" where
  "added i d d' \<longleftrightarrow> placed i (find_sandbox d) (find_sandbox d') \<and> find_upgrade d' = find_upgrade d"

lemma from_warm_pool_ok:
  assumes "from_warm_pool env kind agent sb d = (Inr sb', d')" and "find_sandbox d (sx_id sb) = Some sb"
  shows "\<exists>s. sx_id s = sx_id sb \<and> sx_status s = StatusRunning
      \<and> find_sandbox d' = (find_sandbox d)(sx_id sb \<mapsto> s) \<and> find_upgrade d' = find_upgrade d"
    "sx_id sb' = sx_id sb"
proof -
  from assms(1) obtain r p where
    c: "claimWarmRuntime (oe_pool env) runtimeURLTTL (oe_meanwhile env) (sandbox_row.truncate sb)
          (rk_mode kind) (or_pool d) = ((None, r), p)" and
    e: "clone_or_fail env kind agent (set_claim r sb)
          (update_sandbox (sx_id sb) (set_claim r) (d\<lparr>or_pool := p\<rparr>)) = (Inr sb', d')"
    by (auto simp: from_warm_pool_def split: prod.splits option.splits)
  from clone_or_fail_ok [OF e] show "sx_id sb' = sx_id sb" by simp
  from clone_or_fail_ok [OF e] claim_running [OF c] assms(2)
  show "\<exists>s. sx_id s = sx_id sb \<and> sx_status s = StatusRunning
      \<and> find_sandbox d' = (find_sandbox d)(sx_id sb \<mapsto> s) \<and> find_upgrade d' = find_upgrade d"
    by (intro exI [of _ "set_claim r sb"]) (auto simp: quiet_def find_sandbox_update, simp add: set_claim_def)
qed

lemma from_provider_ok:
  assumes "from_provider env kind agent org sb d = (Inr sb', d')" and "find_sandbox d (sx_id sb) = Some sb"
  shows "\<exists>s. sx_id s = sx_id sb \<and> sx_status s = StatusRunning
      \<and> find_sandbox d' = (find_sandbox d)(sx_id sb \<mapsto> s) \<and> find_upgrade d' = find_upgrade d"
    "sx_id sb' = sx_id sb"
proof -
  from assms(1) obtain d2 d3 ext url where
    x: "db_exec env (update_sandbox (sx_id sb) (placed_row ext url (onow d2))) d2 = (None, d3)" and
    q: "quiet d d2" and r: "quiet d3 d'" "sx_id sb' = sx_id sb"
    by (auto simp: from_provider_def Let_def split: prod.splits sum.splits option.splits
        dest!: quiet_world wait_quiet clone_or_fail_ok) (metis quiet_trans quiet_world_snd row_ids(5))
  show "sx_id sb' = sx_id sb" by (rule r)
  show "\<exists>s. sx_id s = sx_id sb \<and> sx_status s = StatusRunning
      \<and> find_sandbox d' = (find_sandbox d)(sx_id sb \<mapsto> s) \<and> find_upgrade d' = find_upgrade d"
    using exec_row [OF x] q r assms(2)
    by (intro exI [of _ "placed_row ext url (onow d2) sb"]) (auto simp: quiet_tables, simp add: placed_row_def)
qed

lemma quiet_added: "quiet d d1 \<Longrightarrow> added i d1 d' \<Longrightarrow> added i d d'"
  by (auto simp: added_def quiet_def)

lemma save_ok:
  assumes "save_and_place env kind agent org secret d = (Inr new, d')"
  shows "added (sx_id new) d d'"
proof -
  obtain r d1 where w: "o_world (oe_db env) d = (r, d1)" by (metis prod.collapse)
  let ?sb = "new_sandbox env kind agent org secret d1"
  from assms w have n: "sx_id ?sb \<notin> sx_id ` set (or_sandboxes d1)" and
    c: "(if oe_warm env then from_warm_pool env kind agent ?sb (insert_sandbox ?sb d1)
         else from_provider env kind agent org ?sb (insert_sandbox ?sb d1)) = (Inr new, d')"
    by (auto simp: save_and_place_def Let_def split: option.splits if_splits)
  note i = find_sandbox_insert [OF n]
  have s: "find_sandbox (insert_sandbox ?sb d1) (sx_id ?sb) = Some ?sb" by (simp add: i)
  have "\<exists>s. sx_id s = sx_id ?sb \<and> sx_status s = StatusRunning
      \<and> find_sandbox d' = (find_sandbox (insert_sandbox ?sb d1))(sx_id ?sb \<mapsto> s)
      \<and> find_upgrade d' = find_upgrade (insert_sandbox ?sb d1)" and e: "sx_id new = sx_id ?sb"
    using c from_warm_pool_ok [OF _ s] from_provider_ok [OF _ s] by (auto split: if_splits)
  then have "added (sx_id new) d1 d'" using i by (auto simp: added_def placed_def)
  with quiet_world [OF w] show ?thesis by (rule quiet_added)
qed

lemma create_ok:
  assumes "CreateEmployeeSandbox env agent token d = (Inr new, d')"
  shows "added (sx_id new) d d'"
  using assms
  by (auto simp: CreateEmployeeSandbox_def create_runtime_def split: option.splits if_splits prod.splits sum.splits
      dest!: quiet_world quiet_read save_ok intro: quiet_added)

lemma sync_quiet: "syncEmployeeRuntime env agent sb d = (r, d') \<Longrightarrow> quiet d d'"
  by (auto simp: syncEmployeeRuntime_def split: prod.splits sum.splits option.splits if_splits
      dest!: quiet_world elim!: db_execE) (simp_all add: quiet_def)

lemma runBackup_quiet: "runBackup env u agent sb d = (r, d') \<Longrightarrow> quiet d d'"
  by (auto simp: runBackup_def Let_def split: prod.splits sum.splits if_splits
      dest!: quiet_world exec_command_quiet intro: quiet_trans)

lemma runRestore_quiet: "runRestore env meta sb d = (r, d') \<Longrightarrow> quiet d d'"
  by (auto simp: runRestore_def split: prod.splits sum.splits if_splits
      dest!: quiet_world exec_command_quiet intro: quiet_trans)

lemma schedule_quiet: "quiet d (snd (scheduleOldSandboxRetirement env u old d))"
  by (auto simp: scheduleOldSandboxRetirement_def Let_def
      split: prod.splits option.splits enqueue_error.splits dest!: quiet_world)

section \<open>An upgrade that succeeds\<close>

lemma upgrade_ids [simp]:
  "ug_id (phase_row p u) = ug_id u" "ug_id (failed_row p m t u) = ug_id u" "ug_id (succeeded_row t u) = ug_id u"
  by (simp_all add: phase_row_def failed_row_def succeeded_row_def)

lemma exec_upgrade:
  assumes "db_exec env (update_upgrade i f) d = (None, d')" and "\<And>u. ug_id (f u) = ug_id u"
  shows "find_upgrade d' = (find_upgrade d)(i := map_option f (find_upgrade d i))"
    "find_sandbox d' = find_sandbox d"
proof -
  from assms(1) obtain d1 where "quiet d d1" "d' = update_upgrade i f d1" by (auto elim: db_execE)
  then show "find_upgrade d' = (find_upgrade d)(i := map_option f (find_upgrade d i))"
    "find_sandbox d' = find_sandbox d"
    by (simp_all add: find_upgrade_update [OF assms(2)] quiet_tables)
qed

lemma markPhase_ok:
  assumes "markPhase env u p d = (Inr u1, d')"
  shows "u1 = phase_row p u" "find_sandbox d' = find_sandbox d"
    "upd_with (ug_id u) (\<lambda>r r'. r' = phase_row p r) (find_upgrade d) (find_upgrade d')"
proof -
  from assms have e: "db_exec (ue_orch env) (update_upgrade (ug_id u) (phase_row p)) d = (None, d')"
    and u: "u1 = phase_row p u"
    by (auto simp: markPhase_def split: prod.splits option.splits)
  show "u1 = phase_row p u" by (rule u)
  show "find_sandbox d' = find_sandbox d" by (rule exec_upgrade [OF e]) simp
  show "upd_with (ug_id u) (\<lambda>r r'. r' = phase_row p r) (find_upgrade d) (find_upgrade d')"
    by (rule upd_withI [OF exec_upgrade(1) [OF e]]) simp_all
qed

lemma fail_not_ok [simp]: "fail_upgrade env agent old b new u p c d \<noteq> (None, d')"
  by (auto simp: fail_upgrade_def Let_def split: prod.splits)

definition same_refs :: "upgrade \<Rightarrow> upgrade \<Rightarrow> bool" where
  "same_refs r r' \<longleftrightarrow> ug_old r' = ug_old r \<and> ug_new r' = ug_new r \<and> ug_backup_key r' = ug_backup_key r
     \<and> ug_backup_sha r' = ug_backup_sha r \<and> ug_backup_bytes r' = ug_backup_bytes r"

definition finishes :: "upgrade \<Rightarrow> upgrade \<Rightarrow> bool" where
  "finishes r r' \<longleftrightarrow> ug_status r' = UpgradeSucceeded \<and> ug_phase r' = PhaseCompleted \<and> same_refs r r'"

lemma finishes_phase: "upd_with i (\<lambda>r r'. r' = phase_row p r) m m1 \<Longrightarrow> upd_with i finishes m1 m2
    \<Longrightarrow> upd_with i finishes m m2"
  by (erule (1) upd_with_trans) (auto simp: finishes_def same_refs_def phase_row_def)

lemma mark_succeeded_ok:
  assumes "mark_succeeded env agent old new u d = (None, d')"
  shows "find_sandbox d' = find_sandbox d"
    "upd_with (ug_id u) finishes (find_upgrade d) (find_upgrade d')"
proof -
  from assms have e: "db_exec (ue_orch env) (update_upgrade (ug_id u) (succeeded_row (onow d))) d = (None, d')"
    by (auto simp: mark_succeeded_def split: prod.splits option.splits)
  show "find_sandbox d' = find_sandbox d" by (rule exec_upgrade [OF e]) simp
  show "upd_with (ug_id u) finishes (find_upgrade d) (find_upgrade d')"
    by (rule upd_withI [OF exec_upgrade(1) [OF e]])
      (simp_all add: finishes_def same_refs_def succeeded_row_def)
qed

lemma cleanup_ok:
  assumes "cleanup_old env agent old new u d = (None, d')"
  shows "find_sandbox d' = find_sandbox d"
    "upd_with (ug_id u) finishes (find_upgrade d) (find_upgrade d')"
proof -
  from assms obtain u1 d1 where m: "markPhase env u PhaseCleanupOld d = (Inr u1, d1)"
    and s: "mark_succeeded env agent old new u1 (snd (scheduleOldSandboxRetirement env u1 old d1)) = (None, d')"
    by (auto simp: cleanup_old_def split: prod.splits sum.splits)
  note p = markPhase_ok [OF m] and q = mark_succeeded_ok [OF s] and r = schedule_quiet [of d1 env u1 old]
  show "find_sandbox d' = find_sandbox d" using p q r by (simp add: quiet_def)
  show "upd_with (ug_id u) finishes (find_upgrade d) (find_upgrade d')"
    using p q r by (auto simp: quiet_def intro: finishes_phase)
qed

lemma pause_ok:
  assumes "pause_old env agent old new u d = (None, d')"
  shows "upd_with (sx_id old) (becomes StatusStopped) (find_sandbox d) (find_sandbox d')"
    "upd_with (ug_id u) finishes (find_upgrade d) (find_upgrade d')"
proof -
  from assms obtain u1 d1 old1 d2 where m: "markPhase env u PhasePausingOld d = (Inr u1, d1)"
    and s: "StopSandbox (ue_orch env) old d1 = (Inr old1, d2)"
    and c: "cleanup_old env agent old1 new u1 d2 = (None, d')"
    by (auto simp: pause_old_def split: prod.splits sum.splits)
  note p = markPhase_ok [OF m] and q = stop_ok [OF s] and r = cleanup_ok [OF c]
  show "upd_with (sx_id old) (becomes StatusStopped) (find_sandbox d) (find_sandbox d')"
    using p q r by simp
  show "upd_with (ug_id u) finishes (find_upgrade d) (find_upgrade d')"
    using p q r by (auto intro: finishes_phase)
qed

text \<open>From the restore on: the new sandbox runs, then the old one is stopped.\<close>

definition replaced :: "uuid \<Rightarrow> uuid \<Rightarrow> (uuid \<Rightarrow> sandbox option) \<Rightarrow> (uuid \<Rightarrow> sandbox option) \<Rightarrow> bool" where
  "replaced old new m m' \<longleftrightarrow>
     (\<exists>m1. upd_with new (becomes StatusRunning) m m1 \<and> upd_with old (becomes StatusStopped) m1 m')"

lemma restart_new_ok:
  assumes "restart_new env agent old new u d = (None, d')"
  shows "replaced (sx_id old) (sx_id new) (find_sandbox d) (find_sandbox d')"
    "upd_with (ug_id u) finishes (find_upgrade d) (find_upgrade d')"
proof -
  from assms obtain u1 d1 new1 d2 u2 d3 d4 where m: "markPhase env u PhaseRestartNew d = (Inr u1, d1)"
    and s: "RestartEmployeeSandbox (ue_orch env) new d1 = (Inr new1, d2)"
    and m2: "markPhase env u1 PhaseSync d2 = (Inr u2, d3)"
    and y: "syncEmployeeRuntime env agent new1 d3 = (None, d4)"
    and c: "pause_old env (agent\<lparr>em_status := ''active''\<rparr>) old new1 u2 d4 = (None, d')"
    by (auto simp: restart_new_def sync_new_def split: prod.splits sum.splits option.splits)
  note p = markPhase_ok [OF m] markPhase_ok [OF m2] and q = restart_ok [OF s] and r = pause_ok [OF c]
    and z = sync_quiet [OF y]
  show "replaced (sx_id old) (sx_id new) (find_sandbox d) (find_sandbox d')"
    unfolding replaced_def
    by (rule exI [of _ "find_sandbox d4"]) (use p q r z in \<open>simp add: quiet_def\<close>)
  show "upd_with (ug_id u) finishes (find_upgrade d) (find_upgrade d')"
    using p q r z by (auto simp: quiet_def intro: finishes_phase)
qed

lemma restore_new_ok:
  assumes "restore_new env agent old new meta u d = (None, d')"
  shows "replaced (sx_id old) (sx_id new) (find_sandbox d) (find_sandbox d')"
    "upd_with (ug_id u) finishes (find_upgrade d) (find_upgrade d')"
    "\<exists>d1 d2. runRestore env meta new d1 = (None, d2)"
proof -
  from assms obtain u1 d1 d2 where m: "markPhase env u PhaseRestore d = (Inr u1, d1)"
    and s: "runRestore env meta new d1 = (None, d2)"
    and c: "restart_new env agent old new u1 d2 = (None, d')"
    by (auto simp: restore_new_def split: prod.splits sum.splits option.splits)
  note p = markPhase_ok [OF m] and q = runRestore_quiet [OF s] and r = restart_new_ok [OF c]
  show "replaced (sx_id old) (sx_id new) (find_sandbox d) (find_sandbox d')"
    using p q r by (simp add: quiet_def)
  show "upd_with (ug_id u) finishes (find_upgrade d) (find_upgrade d')"
    using p q r by (auto simp: quiet_def intro: finishes_phase)
  show "\<exists>d1 d2. runRestore env meta new d1 = (None, d2)" using s by blast
qed

definition backed_up :: "backup_meta \<Rightarrow> upgrade \<Rightarrow> bool" where
  "backed_up meta r \<longleftrightarrow> ug_backup_key r = Some (bm_Key meta) \<and> ug_backup_sha r = Some (bm_SHA256 meta)
     \<and> ug_backup_bytes r = bm_Bytes meta"

definition completes :: "uuid \<Rightarrow> upgrade \<Rightarrow> upgrade \<Rightarrow> bool" where
  "completes new r r' \<longleftrightarrow> ug_status r' = UpgradeSucceeded \<and> ug_phase r' = PhaseCompleted
     \<and> same_refs (r\<lparr>ug_new := Some new\<rparr>) r'"

definition upgraded :: "uuid \<Rightarrow> backup_meta \<Rightarrow> upgrade \<Rightarrow> upgrade \<Rightarrow> bool" where
  "upgraded new meta r r' \<longleftrightarrow> ug_status r' = UpgradeSucceeded \<and> ug_phase r' = PhaseCompleted
     \<and> ug_old r' = ug_old r \<and> ug_new r' = Some new \<and> backed_up meta r'"

text \<open>What the whole run after the backup amounts to.\<close>

definition switched :: "uuid \<Rightarrow> uuid \<Rightarrow> 'w orch \<Rightarrow> 'w orch \<Rightarrow> bool" where
  "switched old new d d' \<longleftrightarrow> (\<exists>m. placed new (find_sandbox d) m \<and> replaced old new m (find_sandbox d'))"

lemma create_new_ok:
  assumes "create_new env agent old meta u d = (None, d')"
  shows "\<exists>new. switched (sx_id old) (sx_id new) d d'
    \<and> upd_with (ug_id u) (completes (sx_id new)) (find_upgrade d) (find_upgrade d')
    \<and> (\<exists>d1 d2. runRestore env meta new d1 = (None, d2))"
proof -
  from assms obtain u1 d1 token d2 new d3 d4 where m: "markPhase env u PhaseCreatingNew d = (Inr u1, d1)"
    and w: "o_world (ue_startup env agent) d1 = (Inr token, d2)"
    and n: "CreateEmployeeSandbox (ue_orch env) agent token d2 = (Inr new, d3)"
    and x: "db_exec (ue_orch env) (update_upgrade (ug_id u1) (\<lambda>r. r\<lparr>ug_new := Some (sx_id new)\<rparr>)) d3 = (None, d4)"
    and c: "restore_new env agent old new meta (u1\<lparr>ug_new := Some (sx_id new)\<rparr>) d4 = (None, d')"
    by (auto simp: create_new_def Let_def split: prod.splits sum.splits option.splits)
  note p = markPhase_ok [OF m] and q = quiet_world [OF w] and a = create_ok [OF n]
    and y = exec_upgrade [OF x] and r = restore_new_ok [OF c]
  have i: "ug_id u1 = ug_id u" using p by simp
  have "placed (sx_id new) (find_sandbox d) (find_sandbox d4)" using a p q y by (simp add: added_def quiet_def)
  with r(1) have s: "switched (sx_id old) (sx_id new) d d'" unfolding switched_def by blast
  have "upd_with (ug_id u) (\<lambda>r r'. r' = r\<lparr>ug_new := Some (sx_id new)\<rparr>) (find_upgrade d3) (find_upgrade d4)"
    by (rule upd_withI [of _ _ _ "\<lambda>r. r\<lparr>ug_new := Some (sx_id new)\<rparr>"]) (use y i in auto)
  moreover have "find_upgrade d3 = find_upgrade d1" using a q by (simp add: added_def quiet_def)
  ultimately have "upd_with (ug_id u) (\<lambda>r r'. r' = (phase_row PhaseCreatingNew r)\<lparr>ug_new := Some (sx_id new)\<rparr>)
      (find_upgrade d) (find_upgrade d4)"
    using p(3) by (auto elim: upd_with_trans)
  moreover have "upd_with (ug_id u) finishes (find_upgrade d4) (find_upgrade d')" using r(2) i by simp
  ultimately have "upd_with (ug_id u) (completes (sx_id new)) (find_upgrade d) (find_upgrade d')"
    by (rule upd_with_trans) (auto simp: completes_def finishes_def same_refs_def phase_row_def)
  with s r(3) show ?thesis by blast
qed

lemma backup_old_ok:
  assumes "backup_old env agent old u d = (None, d')"
  shows "\<exists>new meta. switched (sx_id old) (sx_id new) d d'
    \<and> upd_with (ug_id u) (upgraded (sx_id new) meta) (find_upgrade d) (find_upgrade d')
    \<and> (\<exists>d1 d2. runRestore env meta new d1 = (None, d2))"
proof -
  from assms obtain u1 d1 meta d2 u2 d3 where m: "markPhase env u PhaseBackup d = (Inr u1, d1)"
    and b: "runBackup env u1 agent old d1 = (Inr meta, d2)"
    and v: "verifyAndRecordBackup env u1 meta d2 = (Inr u2, d3)"
    and c: "create_new env agent old meta u2 d3 = (None, d')"
    by (auto simp: backup_old_def split: prod.splits sum.splits)
  let ?f = "\<lambda>r. r\<lparr>ug_backup_key := Some (bm_Key meta), ug_backup_sha := Some (bm_SHA256 meta),
                 ug_backup_bytes := bm_Bytes meta\<rparr>"
  from v obtain d2' where h: "quiet d2 d2'"
    and x: "db_exec (ue_orch env) (update_upgrade (ug_id u1) ?f) d2' = (None, d3)" and u2: "u2 = ?f u1"
    by (auto simp: verifyAndRecordBackup_def Let_def split: prod.splits sum.splits option.splits if_splits
        dest!: quiet_world)
  note p = markPhase_ok [OF m] and q = runBackup_quiet [OF b] and y = exec_upgrade [OF x]
  have i: "ug_id u2 = ug_id u" using p u2 by simp
  have same: "find_sandbox d3 = find_sandbox d" "find_upgrade d2' = find_upgrade d1"
    using p q y h by (simp_all add: quiet_def)
  from create_new_ok [OF c] obtain new where n: "switched (sx_id old) (sx_id new) d3 d'"
    "upd_with (ug_id u2) (completes (sx_id new)) (find_upgrade d3) (find_upgrade d')"
    "\<exists>d1 d2. runRestore env meta new d1 = (None, d2)" by blast
  have "upd_with (ug_id u) (\<lambda>r r'. r' = ?f r) (find_upgrade d2') (find_upgrade d3)"
    by (rule upd_withI [of _ _ _ ?f]) (use y p in auto)
  with p(3) same have "upd_with (ug_id u) (\<lambda>r r'. r' = ?f (phase_row PhaseBackup r)) (find_upgrade d) (find_upgrade d3)"
    by (auto elim: upd_with_trans)
  then have "upd_with (ug_id u) (upgraded (sx_id new) meta) (find_upgrade d) (find_upgrade d')"
    using n(2) [unfolded i]
    by (rule upd_with_trans) (auto simp: upgraded_def completes_def same_refs_def backed_up_def phase_row_def)
  moreover have "switched (sx_id old) (sx_id new) d d'"
    using n(1) same by (auto simp: switched_def)
  ultimately show ?thesis using n(3) by blast
qed

lemma find_conj: "find P xs = Some x \<Longrightarrow> Q x \<Longrightarrow> find (\<lambda>y. P y \<and> Q y) xs = Some x"
  by (induction xs) (auto split: if_splits)

lemma find_quiet: "quiet d d1 \<Longrightarrow> find_upgrade d i = Some u \<Longrightarrow> Q u
    \<Longrightarrow> find (\<lambda>r. ug_id r = i \<and> Q r) (or_upgrades d1) = Some u"
  by (rule find_conj) (simp_all add: quiet_def find_upgrade_def fun_eq_iff)

lemma find_sandbox_mem: "s \<in> set (or_sandboxes d) \<Longrightarrow> find_sandbox d (sx_id s) \<noteq> None"
  by (auto simp: find_sandbox_def find_None_iff)

lemma markFailed_not_started: "(StartError e, markFailed env u p m d1) \<noteq> (Started v a s, d2)" by simp

lemma load_old_started:
  assumes "load_old env u agent d = (Started v a old, d')" and "find_upgrade d (ug_id u) = Some u"
  shows "find_sandbox d' = find_sandbox d" "find_upgrade d' = (find_upgrade d)(ug_id u \<mapsto> v)"
    "ug_id v = ug_id u" "ug_old v = Some (sx_id old)" "ug_org v = ug_org u" "a = agent"
    "find_sandbox d (sx_id old) \<noteq> None"
proof -
  obtain x d1 where x: "db_read (ue_orch env) (current_sandboxes u) d = (x, d1)" by (metis prod.collapse)
  note q = quiet_read [OF x]
  from assms(1) x obtain rest where r: "x = Inr (old # rest)" and "a = agent"
    by (auto simp: load_old_def split: sum.splits list.splits if_splits prod.splits option.splits)
  then show "a = agent" by simp
  have "current_sandboxes u d1 = old # rest"
    using x r by (auto simp: db_read_def split: prod.splits option.splits)
  then have "old \<in> set (current_sandboxes u d1)" by simp
  then have o: "old \<in> set (or_sandboxes d1)" "\<And>i. ug_old u = Some i \<Longrightarrow> sx_id old = i"
    by (auto simp: current_sandboxes_def)
  then show "find_sandbox d (sx_id old) \<noteq> None" using find_sandbox_mem q by (metis quiet_tables(1))
  have "find_sandbox d' = find_sandbox d \<and> find_upgrade d' = (find_upgrade d)(ug_id u \<mapsto> v)
      \<and> ug_id v = ug_id u \<and> ug_old v = Some (sx_id old) \<and> ug_org v = ug_org u"
  proof (cases "ug_old u")
    case None
    let ?f = "\<lambda>r. r\<lparr>ug_old := Some (sx_id old)\<rparr>"
    obtain y d2 where y: "db_exec (ue_orch env) (update_upgrade (ug_id u) ?f) d1 = (y, d2)"
      by (cases "db_exec (ue_orch env) (update_upgrade (ug_id u) ?f) d1")
    from assms(1) have "y = None" and v: "v = ?f u" "d' = d2"
      unfolding load_old_def x r by (auto simp: None y split: option.splits)
    from exec_upgrade [OF y [unfolded \<open>y = None\<close>]] q assms(2) show ?thesis
      unfolding v by (simp add: quiet_def)
  next
    case (Some i)
    from assms(1) have "v = u" "d' = d1" unfolding load_old_def x r by (simp_all add: Some)
    then show ?thesis using q o(2) [OF Some] Some assms(2) by (auto simp: quiet_def)
  qed
  then show "find_sandbox d' = find_sandbox d" "find_upgrade d' = (find_upgrade d)(ug_id u \<mapsto> v)"
    "ug_id v = ug_id u" "ug_old v = Some (sx_id old)" "ug_org v = ug_org u" by simp_all
qed

lemma task_row_found:
  assumes "db_read env (task_row i e) d = (x, d1)" and "find_upgrade d i = Some u" and "ug_employee u = e"
  shows "quiet d d1" "x = Inr (Some u) \<or> isl x"
proof -
  show q: "quiet d d1" by (rule quiet_read [OF assms(1)])
  have "task_row i e d1 = Some u"
    using find_quiet [OF q assms(2), of "\<lambda>u. ug_employee u = e"] assms(3) by (simp add: task_row_def)
  then show "x = Inr (Some u) \<or> isl x"
    using assms(1) by (auto simp: db_read_def split: prod.splits option.splits)
qed

lemma started_rows:
  assumes "start_loaded env u0 d = (Started u agent old, d')" and "find_upgrade d (ug_id u0) = Some u0"
  shows "find_sandbox d' = find_sandbox d" "find_upgrade d' = (find_upgrade d)(ug_id u0 \<mapsto> u)" "ug_id u = ug_id u0"
    "ug_old u = Some (sx_id old)" "ug_org u = ug_org u0" "find_sandbox d (sx_id old) \<noteq> None"
proof -
  obtain y d2 where y: "db_exec (ue_orch env) (update_upgrade (ug_id u0) start_row) d = (y, d2)"
    by (metis prod.collapse)
  obtain z d3 where z: "db_read (ue_orch env) (load_employee (start_row u0)) d2 = (z, d3)"
    by (metis prod.collapse)
  from assms(1) have yn: "y = None" unfolding start_loaded_def y by (auto split: option.splits)
  with assms(1) obtain a where l: "load_old env (start_row u0) a d3 = (Started u agent old, d')"
    unfolding start_loaded_def y by (auto simp: z Let_def split: if_splits option.splits sum.splits)
  have s: "ug_id (start_row u0) = ug_id u0" "ug_org (start_row u0) = ug_org u0"
    by (simp_all add: start_row_def phase_row_def)
  have t: "find_upgrade d3 = (find_upgrade d)(ug_id u0 \<mapsto> start_row u0)" "find_sandbox d3 = find_sandbox d"
    using exec_upgrade [OF y [unfolded yn]] quiet_read [OF z] assms(2)
    by (simp_all add: quiet_def start_row_def)
  then have "find_upgrade d3 (ug_id (start_row u0)) = Some (start_row u0)" using s by simp
  note st = load_old_started [OF l this]
  show "find_sandbox d' = find_sandbox d" "find_upgrade d' = (find_upgrade d)(ug_id u0 \<mapsto> u)" "ug_id u = ug_id u0"
    "ug_old u = Some (sx_id old)" "ug_org u = ug_org u0" "find_sandbox d (sx_id old) \<noteq> None"
    using st s t by simp_all
qed

definition pending :: "uuid \<Rightarrow> uuid \<Rightarrow> upgrade \<Rightarrow> 'w orch \<Rightarrow> bool" where
  "pending i e u d \<longleftrightarrow> find_upgrade d i = Some u \<and> ug_id u = i \<and> ug_employee u = e
     \<and> (ug_status u = UpgradeQueued \<or> ug_status u = UpgradeRunning)"

lemma pendingI: "find_upgrade d i = Some u \<Longrightarrow> ug_employee u = e
    \<Longrightarrow> ug_status u = UpgradeQueued \<or> ug_status u = UpgradeRunning \<Longrightarrow> pending i e u d"
  by (auto simp: pending_def find_upgrade_def dest: find_SomeD)

text \<open>The task of a pending row starts it, unless the database does not answer.\<close>

lemma run_pending:
  assumes "pending i e u0 d" and "HandleUpgrade env i e d = (r, d')"
  obtains (unread) "r \<noteq> None" "quiet d d'" "\<not> (\<forall>w. fst (oe_db (ue_orch env) w) = None) \<or> i = uuid_nil \<or> e = uuid_nil"
  | (read) d1 err where "quiet d d1" "start_loaded env u0 d1 = (StartError err, d')" "r = Some err"
  | (begun) d1 u agent old d2 where "quiet d d1" "start_loaded env u0 d1 = (Started u agent old, d2)"
      "backup_old env agent old u d2 = (r, d')"
proof -
  obtain x d1 where x: "db_read (ue_orch env) (task_row i e) d = (x, d1)" by (metis prod.collapse)
  have f: "find_upgrade d i = Some u0" "ug_employee u0 = e" using assms(1) by (auto simp: pending_def)
  note tr = task_row_found [OF x f]
  show thesis
  proof (cases "i = uuid_nil \<or> e = uuid_nil")
    case True
    then show thesis using assms(2) by (intro unread) (auto simp: HandleUpgrade_def)
  next
    case nonil: False
    show thesis
    proof (cases "isl x")
      case True
      have "fst (oe_db (ue_orch env) (wp_world (or_pool d))) \<noteq> None"
        using x True by (auto simp: db_read_def o_world_def in_world_def split: prod.splits option.splits)
      then show thesis
        using assms(2) nonil x tr(1) True
        by (intro unread) (auto simp: HandleUpgrade_def run_upgrade_def loadAndStart_def split: sum.splits)
    next
      case False
      obtain s d2 where s: "start_loaded env u0 d1 = (s, d2)" by (metis prod.collapse)
      have l: "loadAndStart env i e d = (s, d2)"
        using x tr(2) False s assms(1) by (auto simp: loadAndStart_def pending_def upgrade_status_defs)
      show thesis
      proof (cases s)
        case (StartError err)
        then show thesis using assms(2) nonil l s tr(1) by (intro read) (auto simp: HandleUpgrade_def run_upgrade_def)
      next
        case StartNothing
        then show thesis using s
          by (auto simp: start_loaded_def load_old_def Let_def
              split: prod.splits option.splits sum.splits list.splits if_splits)
      next
        case (Started u agent old)
        then show thesis using assms(2) nonil l s tr(1) by (intro begun) (auto simp: HandleUpgrade_def run_upgrade_def)
      qed
    qed
  qed
qed

text \<open>
  C9: an upgrade that reports success has created a new sandbox that runs, restored into it the
  backup whose key, checksum and size its row records, stopped the old sandbox, and touched no other.
\<close>

theorem upgrade_success:
  assumes "HandleUpgrade env i e d = (None, d')" and "find_upgrade d i = Some u0" and "ug_employee u0 = e"
    and "ug_status u0 = UpgradeQueued \<or> ug_status u0 = UpgradeRunning"
  shows "\<exists>u new old meta so sn. find_upgrade d' i = Some u
    \<and> ug_status u = UpgradeSucceeded \<and> ug_phase u = PhaseCompleted \<and> backed_up meta u
    \<and> ug_old u = Some old \<and> ug_new u = Some (sx_id new)
    \<and> (\<exists>d1 d2. runRestore env meta new d1 = (None, d2))
    \<and> find_sandbox d old \<noteq> None \<and> find_sandbox d (sx_id new) = None
    \<and> find_sandbox d' old = Some so \<and> sx_status so = StatusStopped
    \<and> find_sandbox d' (sx_id new) = Some sn \<and> sx_status sn = StatusRunning
    \<and> (\<forall>j. j \<notin> {old, sx_id new} \<longrightarrow> find_sandbox d' j = find_sandbox d j)"
proof -
  from run_pending [OF pendingI [OF assms(2-4)] assms(1)] obtain d0 u agent old d1 where q: "quiet d d0"
    and l: "start_loaded env u0 d0 = (Started u agent old, d1)"
    and b: "backup_old env agent old u d1 = (None, d')" by (metis option.distinct(1))
  have i: "ug_id u0 = i" using pendingI [OF assms(2-4)] by (simp add: pending_def)
  have f: "find_upgrade d0 (ug_id u0) = Some u0" using q assms(2) i by (simp add: quiet_def)
  note s = started_rows [OF l f, unfolded quiet_tables [OF q] i]
  from backup_old_ok [OF b] obtain new meta where n: "switched (sx_id old) (sx_id new) d1 d'"
    "upd_with i (upgraded (sx_id new) meta) (find_upgrade d1) (find_upgrade d')"
    "\<exists>d1 d2. runRestore env meta new d1 = (None, d2)" using s(3) by auto
  from upd_with_row [OF n(2)] s obtain u' where u': "find_upgrade d' i = Some u'" "upgraded (sx_id new) meta u u'"
    by auto
  from n(1) obtain m m1 sn where m: "find_sandbox d (sx_id new) = None" "sx_status sn = StatusRunning"
    "m = (find_sandbox d)(sx_id new \<mapsto> sn)"
    "upd_with (sx_id new) (becomes StatusRunning) m m1"
    "upd_with (sx_id old) (becomes StatusStopped) m1 (find_sandbox d')"
    by (auto simp: switched_def placed_def replaced_def s)
  have ne: "sx_id old \<noteq> sx_id new" using m(1) s(6) by auto
  obtain sn' where "m1 (sx_id new) = Some sn'" "sx_status sn' = StatusRunning"
    using upd_with_row [OF m(4)] m(3) by auto
  moreover obtain so where "find_sandbox d' (sx_id old) = Some so" "sx_status so = StatusStopped"
    using upd_with_row [OF m(5)] upd_with_other [OF m(4) ne] m(3) s(6) ne by auto
  moreover have "\<forall>j. j \<notin> {sx_id old, sx_id new} \<longrightarrow> find_sandbox d' j = find_sandbox d j"
    using upd_with_other [OF m(4)] upd_with_other [OF m(5)] m(3) by simp
  ultimately show ?thesis
    using u' n(3) s(4,6) m(1) upd_with_other [OF m(5), of "sx_id new"] ne
    by (intro exI [of _ u'] exI [of _ new] exI [of _ "sx_id old"] exI [of _ meta] exI [of _ so] exI [of _ sn'])
      (auto simp: upgraded_def)
qed

section \<open>A concrete run\<close>

definition demo_warm :: "unit warm_env" where
  "demo_warm = \<lparr>we_id = ''docker'', we_config = \<lparr>cfg_EmployeeSize = 0, cfg_SpecialistSize = 0,
     cfg_BaseImage = ''img'', cfg_SpecialistImage = ''img'', cfg_RuntimePort = 7080, cfg_Region = ''eu''\<rparr>,
     we_create = (\<lambda>_ w. (Inl ''off'', w)), we_delete = (\<lambda>_ w. w), we_status = (\<lambda>_ w. (Inl ''off'', w)),
     we_health = (\<lambda>_ w. (None, w)), we_live = (\<lambda>_ w. (None, w)), we_secret = (\<lambda>w. (Inr ''k'', w)),
     we_name = (\<lambda>w. (''n'', w)), we_encrypt = Inr, we_decrypt = Inr, we_enqueue = (\<lambda>_ w. (None, w))\<rparr>"

text \<open>The environment, by what the driver answers to a stop.\<close>

definition demo_orch :: "sb_error option \<Rightarrow> unit orch_env" where
  "demo_orch stop = \<lparr>oe_pool = demo_warm, oe_warm = False, oe_meanwhile = (\<lambda>_ _. None), oe_ustr = (\<lambda>_. ''u''),
     oe_db = (\<lambda>w. (None, w)), oe_create = (\<lambda>_ w. (Inr ''x2'', w)), oe_start = (\<lambda>_ w. (None, w)),
     oe_stop = (\<lambda>x w. (if x = ''x1'' then stop else None, w)), oe_archive = (\<lambda>_ w. (None, w)),
     oe_delete = (\<lambda>_ w. (None, w)), oe_status = (\<lambda>_ w. (Inr StatusRunning, w)),
     oe_endpoint = (\<lambda>_ _ w. (Inr ''http'', w)),
     oe_exec = (\<lambda>_ _ _ w. (Inr ([CHR 0x7B] @ status_ok_text @ [CHR 0x7D]), w)), oe_exec_runtime = None,
     oe_usage = (\<lambda>_ w. (Inl SandboxNotFound, w)), oe_auto_off = (\<lambda>_ w. w),
     oe_probe = (\<lambda>_ w. (ProbeStatus 200, w)), oe_docker_host = (\<lambda>_. None), oe_cancelled = (\<lambda>w. (False, w)),
     oe_employee_repo_dir = ''/r''\<rparr>"

definition demo_upgrade_env :: "sb_error option \<Rightarrow> (unit, unit) upgrade_env" where
  "demo_upgrade_env stop = \<lparr>ue_orch = demo_orch stop, ue_presign_put = (\<lambda>_ w. (Inr ''p'', w)),
     ue_presign_get = (\<lambda>_ w. (Inr ''g'', w)), ue_head = (\<lambda>_ w. (Inr 7, w)),
     ue_parse_meta = (\<lambda>_. Inr (replicate 64 (CHR ''a''), 7)), ue_startup = (\<lambda>_ w. (Inr ''t'', w)),
     ue_build_config = (\<lambda>_ _ _ w. (Inr (), w)), ue_healthz = (\<lambda>_ _ w. (None, w)),
     ue_put_config = (\<lambda>_ _ _ w. (None, w)), ue_readyz = (\<lambda>_ _ w. (None, w)),
     ue_enqueue_retire = (\<lambda>_ _ w. (None, w)), ue_enqueue_upgrade = (\<lambda>_ _ w. (None, w)),
     ue_delete_task = (\<lambda>_ w. (None, w))\<rparr>"

definition demo_sandbox :: sandbox where
  "demo_sandbox = \<lparr>sx_id = 4, sx_external = ''x1'', sx_runtime_url = ''http'', sx_url_expires = None,
     sx_secret = ''k'', sx_status = StatusRunning, sx_last_active = None, sn_org = Some 1, sn_employee = Some 2,
     sn_provider = ''docker'', sn_snapshot = None, sn_error = None, sn_stopped = None, sn_usage = None,
     sn_created = 0\<rparr>"

definition demo_upgrade :: "string \<Rightarrow> upgrade" where
  "demo_upgrade status = \<lparr>ug_id = 3, ug_org = 1, ug_employee = 2, ug_old = Some 4, ug_new = None, ug_status = status,
     ug_phase = PhaseQueued, ug_backup_key = None, ug_backup_sha = None, ug_backup_bytes = 0,
     ug_error = None, ug_completed = None, ug_created = 0\<rparr>"

definition demo_orch_state :: "string \<Rightarrow> unit orch" where
  "demo_orch_state status = \<lparr>or_pool = \<lparr>wp_slots = [], wp_gen = (\<lambda>_. 9), wp_drawn = 0, wp_now = 0, wp_world = ()\<rparr>,
     or_sandboxes = [demo_sandbox],
     or_employees = [\<lparr>em_id = 2, em_org = Some 1, em_name = ''e'', em_status = ''active'',
        em_harness = ''h'', em_is_employee = True, em_repositories = Inr []\<rparr>],
     or_upgrades = [demo_upgrade status]\<rparr>"

lemmas demo_defs = demo_upgrade_env_def demo_orch_def demo_warm_def demo_sandbox_def demo_upgrade_def demo_orch_state_def

lemmas step_defs = markPhase_def db_exec_def db_read_def o_world_def in_world_def Let_def phase_row_def update_upgrade_def
  ensureSandboxProvider_def ExecuteCommandWithTimeout_def update_sandbox_def onow_def

lemmas create_defs = HandleUpgrade_def run_upgrade_def loadAndStart_def start_loaded_def load_old_def task_row_def
  backup_old_def upgrade_status_defs load_employee_def start_row_def current_sandboxes_def sandbox_status_defs
  runBackup_def verifyAndRecordBackup_def is_hex_def create_new_def list_all_iff
  CreateEmployeeSandbox_def create_runtime_def save_and_place_def new_sandbox_def insert_sandbox_def
  from_provider_def employee_kind_def

lemmas live_defs = waitForEmployeeRuntimeLive_def wait_live.simps probe_once_def employeeHealthTimeout_def Second_def

lemma demo_restored:
  "str_contains (lastJSONLine ([CHR 0x7B] @ status_ok_text @ [CHR 0x7D])) status_ok_text"
  by code_simp

text \<open>The run phase by phase, with the scripts left as they are.\<close>

lemma demo_run: "fst (HandleUpgrade (demo_upgrade_env None) 3 2 (demo_orch_state UpgradeQueued)) = None"
  by (simp add: demo_defs step_defs create_defs,
      simp add: live_defs step_defs clone_or_fail_def cloneEmployeeSelectedRepositories_def
        loadSelectedGitHubRepositories_def placed_row_def,
      simp add: restore_new_def runRestore_def step_defs restart_new_def demo_restored [simplified],
      simp add: RestartEmployeeSandbox_def StopSandbox_def StartEmployeeSandbox_def stopped_row_def
        running_row_def RefreshEmployeeSandboxURL_def step_defs live_defs,
      simp add: sync_new_def syncEmployeeRuntime_def pause_old_def step_defs StopSandbox_def stopped_row_def
        cleanup_old_def scheduleOldSandboxRetirement_def NewEmployeeSandboxRetireTask_def mark_succeeded_def)

theorem upgrade_success_witness:
  "\<exists>u. find_upgrade (snd (HandleUpgrade (demo_upgrade_env None) 3 2 (demo_orch_state UpgradeQueued))) 3 = Some u
     \<and> ug_status u = UpgradeSucceeded \<and> ug_phase u = PhaseCompleted"
proof -
  let ?h = "HandleUpgrade (demo_upgrade_env None) 3 2 (demo_orch_state UpgradeQueued)"
  have h: "?h = (None, snd ?h)" using demo_run by (metis prod.collapse)
  have f: "find_upgrade (demo_orch_state UpgradeQueued) 3 = Some (demo_upgrade UpgradeQueued)"
    by (simp add: find_upgrade_def demo_orch_state_def demo_upgrade_def)
  have r: "ug_employee (demo_upgrade UpgradeQueued) = 2" "ug_status (demo_upgrade UpgradeQueued) = UpgradeQueued
      \<or> ug_status (demo_upgrade UpgradeQueued) = UpgradeRunning"
    by (simp_all add: demo_upgrade_def)
  from upgrade_success [OF h f r] show ?thesis by blast
qed

end
