(* ===== verification/RollbackProps.thy ===== *)
theory RollbackProps
  imports UpgradeProps
begin

text \<open>
  Upgrades that do not succeed: a failed one is rolled back, an interrupted one blocks the
  employee, the retirement deletes only what was replaced, and shell words survive quoting.
\<close>

section \<open>A database that answers\<close>

definition reliable :: "'w orch_env \<Rightarrow> bool" where
  "reliable env \<longleftrightarrow> (\<forall>w. fst (oe_db env w) = None)"

lemma reliable_exec: "reliable env \<Longrightarrow> db_exec env f d = (r, d') \<Longrightarrow> r = None"
  by (auto simp: db_exec_def reliable_def o_world_def in_world_def split: prod.splits option.splits)
    (metis fst_conv option.distinct(1))+


lemma reliable_try:
  assumes "reliable env"
  obtains d1 where "quiet d d1" "db_try env f d = f d1"
proof -
  obtain r d' where e: "db_exec env f d = (r, d')" by (metis prod.collapse)
  from reliable_exec [OF assms e] show thesis
    by (rule_tac db_execE [OF e]) (use e that in \<open>auto simp: db_try_def\<close>)
qed

section \<open>Operations that touch one row\<close>

abbreviation same_dom :: "'w orch \<Rightarrow> 'w orch \<Rightarrow> bool" where
  "same_dom d d' \<equiv> dom (find_upgrade d') = dom (find_upgrade d)"

lemma dom_upgrade_update [simp]:
  assumes "\<And>u. ug_id (f u) = ug_id u"
  shows "dom (find_upgrade (update_upgrade i f d)) = dom (find_upgrade d)"
  by (auto simp: find_upgrade_update [OF assms] split: if_splits)

lemma dom_upgrade_delete [simp]: "dom (find_upgrade (delete_sandbox_row i d)) = dom (find_upgrade d)"
  by (auto simp: dom_def find_upgrade_delete)

lemma upd_with_dom: "upd_with i P m m' \<Longrightarrow> dom m' = dom m"
  by (auto simp: upd_with_def split: if_splits)












section \<open>A creation that fails\<close>











definition ours :: "'w orch_env \<Rightarrow> sandbox \<Rightarrow> bool" where
  "ours env sb \<longleftrightarrow> sn_provider sb = we_id (oe_pool env) \<and> we_id (oe_pool env) \<noteq> []"

lemma ours_ensure: "ours env sb \<Longrightarrow> ensureSandboxProvider env sb = Inr sb"
  by (simp add: ours_def ensureSandboxProvider_def)

lemma ensure_ours: "ensureSandboxProvider env sb = Inr sb1 \<Longrightarrow> ours env sb1"
  by (auto simp: ours_def ensureSandboxProvider_def Let_def split: if_splits)

lemma row_provider [simp]:
  "ours env (running_row t s) = ours env s" "ours env (stopped_row t s) = ours env s"
  "ours env (set_claim r s) = ours env s" "ours env (placed_row x url t s) = ours env s"
  by (simp_all add: ours_def placed_row_def running_row_def stopped_row_def set_claim_def)

lemma stop_ours: "StopSandbox env sb d = (Inr sb', d') \<Longrightarrow> ours env sb'"
  by (auto simp: StopSandbox_def Let_def purgeMissingSandbox_def dest: ensure_ours
      split: sum.splits prod.splits option.splits sb_error.splits)





section \<open>An upgrade that fails\<close>



text \<open>The row of the old sandbox after a failure.\<close>

definition rolled_old :: "sandbox \<Rightarrow> sandbox" where
  "rolled_old s = s\<lparr>sx_status := StatusRunning, sn_error := None\<rparr>"

definition failed_at :: "uuid \<Rightarrow> string \<Rightarrow> 'w orch \<Rightarrow> bool" where
  "failed_at i phase d \<longleftrightarrow> (\<exists>u. find_upgrade d i = Some u \<and> ug_status u = UpgradeFailed
     \<and> ug_phase u = phase \<and> ug_completed u \<noteq> None \<and> ug_error u \<noteq> None)"

lemma markFailed_failed:
  assumes "reliable (ue_orch env)" and "ug_id u \<in> dom (find_upgrade d)"
  shows "failed_at (ug_id u) phase (markFailed env u phase msg d)"
    "find_sandbox (markFailed env u phase msg d) = find_sandbox d"
proof -
  let ?f = "failed_row phase (truncateUpgradeError msg) (onow d)"
  obtain d1 where d1: "quiet d d1" "markFailed env u phase msg d = update_upgrade (ug_id u) ?f d1"
    unfolding markFailed_def by (rule reliable_try [OF assms(1)])
  then have "find_upgrade d1 (ug_id u) \<noteq> None" using assms(2) by (auto simp: quiet_def)
  then show "failed_at (ug_id u) phase (markFailed env u phase msg d)"
    by (auto simp: d1(2) failed_at_def find_upgrade_update) (simp_all add: failed_row_def)
  show "find_sandbox (markFailed env u phase msg d) = find_sandbox d" using d1 by (simp add: quiet_def)
qed

lemma rollback_old_row:
  assumes "reliable (ue_orch env)" and "sx_id old \<noteq> uuid_nil"
    and "rollback_old env agent old False d = (m, d')"
  shows "find_sandbox d' = (find_sandbox d)(sx_id old := map_option rolled_old (find_sandbox d (sx_id old)))"
    "same_dom d d'"
proof -
  obtain d1 where d1: "quiet d d1" "d' = update_sandbox (sx_id old) rolled_old d1"
    using assms(2,3) reliable_try [OF assms(1)]
    by (auto simp: rollback_old_def rolled_old_def [abs_def])
  have "sx_id (rolled_old s) = sx_id s" for s by (simp add: rolled_old_def)
  then show "find_sandbox d' = (find_sandbox d)(sx_id old := map_option rolled_old (find_sandbox d (sx_id old)))"
    "same_dom d d'"
    using d1 by (simp_all add: find_sandbox_update quiet_def)
qed

lemma rollback_new_row:
  assumes "reliable (ue_orch env)" and "sx_id new \<noteq> uuid_nil" and "ours (ue_orch env) new"
    and "rollback_new env (Some new) d = (m, d')"
  shows "find_sandbox d' = (find_sandbox d)(sx_id new := None)" "same_dom d d'"
proof -
  obtain x d1 where x: "o_world (oe_delete (ue_orch env) (sx_external new)) d = (x, d1)" by (metis prod.collapse)
  obtain y d2 where y: "db_exec (ue_orch env) (delete_sandbox_row (sx_id new)) d1 = (y, d2)"
    by (metis prod.collapse)
  have "d' = d2" using assms(2,4) x y
    by (auto simp: rollback_new_def DeleteSandbox_def ours_ensure [OF assms(3)] split: option.splits)
  moreover obtain d3 where "quiet d1 d3" "d2 = delete_sandbox_row (sx_id new) d3"
    using reliable_exec [OF assms(1) y] by (rule_tac db_execE [OF y]) simp
  ultimately show "find_sandbox d' = (find_sandbox d)(sx_id new := None)" "same_dom d d'"
    using quiet_world [OF x] by (simp_all add: find_sandbox_delete quiet_def)
qed

lemma fail_rolls_back:
  assumes "reliable (ue_orch env)" and "sx_id old \<noteq> uuid_nil"
    and "\<And>s. new = Some s \<Longrightarrow> sx_id s \<noteq> uuid_nil \<and> ours (ue_orch env) s \<and> sx_id s \<noteq> sx_id old"
    and "ug_id u \<in> dom (find_upgrade d)"
    and "fail_upgrade env agent old False new u phase cause d = (r, d')"
  shows "failed_at (ug_id u) phase d'"
    "find_sandbox d' = (case new of None \<Rightarrow> find_sandbox d | Some s \<Rightarrow> (find_sandbox d)(sx_id s := None))
       (sx_id old := map_option rolled_old (find_sandbox d (sx_id old)))"
proof -
  obtain m1 d1 where n: "rollback_new env new d = (m1, d1)" by (metis prod.collapse)
  obtain m2 d2 where o: "rollback_old env agent old False d1 = (m2, d2)" by (metis prod.collapse)
  have d': "d' = markFailed env u phase (cause @ m1 @ m2) d2" using assms(5) n o by (simp add: fail_upgrade_def)
  have 1: "find_sandbox d1 = (case new of None \<Rightarrow> find_sandbox d | Some s \<Rightarrow> (find_sandbox d)(sx_id s := None))
      \<and> same_dom d d1"
  proof (cases new)
    case None
    then show ?thesis using n by (simp add: rollback_new_def)
  next
    case (Some s)
    then show ?thesis using assms(3) [OF Some] rollback_new_row [OF assms(1) _ _ n [unfolded Some]] by simp
  qed
  note 2 = rollback_old_row [OF assms(1,2) o]
  have "ug_id u \<in> dom (find_upgrade d2)" using 1 2 assms(4) by simp
  note m = markFailed_failed [OF assms(1) this, of phase "cause @ m1 @ m2"]
  show "failed_at (ug_id u) phase d'" unfolding d' by (rule m(1))
  have "find_sandbox d1 (sx_id old) = find_sandbox d (sx_id old)"
    using 1 assms(3) by (auto split: option.splits)
  then show "find_sandbox d' = (case new of None \<Rightarrow> find_sandbox d | Some s \<Rightarrow> (find_sandbox d)(sx_id s := None))
       (sx_id old := map_option rolled_old (find_sandbox d (sx_id old)))"
    unfolding d' m(2) using 1 2(1) by simp
qed



lemma markPhase_reliable:
  assumes "reliable (ue_orch env)" and "markPhase env u p d = (x, d')"
  shows "x = Inr (phase_row p u)" "find_sandbox d' = find_sandbox d" "same_dom d d'" "ids d' = ids d"
proof -
  obtain r d1 where r: "db_exec (ue_orch env) (update_upgrade (ug_id u) (phase_row p)) d = (r, d1)"
    by (metis prod.collapse)
  note n = reliable_exec [OF assms(1) r]
  show "x = Inr (phase_row p u)" using assms(2) r n by (simp add: markPhase_def)
  have "d' = d1" using assms(2) r n by (simp add: markPhase_def)
  moreover obtain d2 where "quiet d d2" "d1 = update_upgrade (ug_id u) (phase_row p) d2"
    using n by (rule_tac db_execE [OF r]) simp
  ultimately show "find_sandbox d' = find_sandbox d" "same_dom d d'" "ids d' = ids d"
    by (simp_all add: quiet_def)
qed


















section \<open>An upgrade that loses both sandboxes\<close>

lemma stop_missing:
  assumes "reliable env" and "ensureSandboxProvider env sb = Inr sb1"
    and "\<And>w. fst (oe_stop env (sx_external sb1) w) = Some SandboxNotFound"
  obtains d' where "StopSandbox env sb d = (Inl SandboxNotFound, d')"
    "find_sandbox d' = (find_sandbox d)(sx_id sb := None)" "same_dom d d'"
proof -
  obtain x d1 where x: "o_world (oe_stop env (sx_external sb1)) d = (x, d1)" by (metis prod.collapse)
  have "fst (o_world (oe_stop env (sx_external sb1)) d) = Some SandboxNotFound"
    using assms(3) [of "wp_world (or_pool d)"] by (cases "oe_stop env (sx_external sb1) (wp_world (or_pool d))")
      (simp add: o_world_def in_world_def)
  then have xs: "x = Some SandboxNotFound" using x by simp
  obtain y d2 where y: "db_exec env (delete_sandbox_row (sx_id sb1)) d1 = (y, d2)" by (metis prod.collapse)
  note yn = reliable_exec [OF assms(1) y]
  obtain d3 where d3: "quiet d1 d3" "d2 = delete_sandbox_row (sx_id sb1) d3"
    using yn by (rule_tac db_execE [OF y]) simp
  have "StopSandbox env sb d = (Inl SandboxNotFound, d2)"
    using assms(2) x xs y yn by (simp add: StopSandbox_def purgeMissingSandbox_def)
  then show thesis
    by (rule that)
      (use d3 quiet_world [OF x] ensure_id [OF assms(2)] in \<open>simp_all add: find_sandbox_delete quiet_def\<close>)
qed

text \<open>
  C11: when the provider no longer knows the old sandbox at the moment it is to be paused, the row
  of the old sandbox is purged and the rollback deletes the new one, which was restored, restarted
  and configured: the employee is left with neither.
\<close>

theorem pausing_loses_both:
  assumes "reliable (ue_orch env)" and "sx_id old \<noteq> uuid_nil" and "sx_id new \<noteq> uuid_nil"
    and "sx_id new \<noteq> sx_id old" and "ours (ue_orch env) old" and "ours (ue_orch env) new"
    and "find_upgrade d (ug_id u) \<noteq> None"
    and "\<And>w. fst (oe_stop (ue_orch env) (sx_external old) w) = Some SandboxNotFound"
  shows "\<exists>d'. pause_old env agent old new u d = (Some (err_text SandboxNotFound), d')
    \<and> failed_at (ug_id u) PhasePausingOld d'
    \<and> find_sandbox d' (sx_id old) = None \<and> find_sandbox d' (sx_id new) = None"
proof -
  obtain x d1 where x: "markPhase env u PhasePausingOld d = (x, d1)" by (metis prod.collapse)
  note p = markPhase_reliable [OF assms(1) x]
  let ?u = "phase_row PhasePausingOld u"
  obtain d2 where s: "StopSandbox (ue_orch env) old d1 = (Inl SandboxNotFound, d2)"
    "find_sandbox d2 = (find_sandbox d1)(sx_id old := None)" "same_dom d1 d2"
    by (rule stop_missing [OF assms(1) ours_ensure [OF assms(5)] assms(8)])
  obtain r d' where f: "fail_upgrade env agent old False (Some new) ?u PhasePausingOld
      (err_text SandboxNotFound) d2 = (r, d')" by (metis prod.collapse)
  have "ug_id ?u \<in> dom (find_upgrade d2)" using p(3) s(3) assms(7) by auto
  note g = fail_rolls_back [OF assms(1,2) _ this f]
  have "failed_at (ug_id u) PhasePausingOld d'" "find_sandbox d' (sx_id old) = None" "find_sandbox d' (sx_id new) = None"
    using g assms(3,4,6) s(2) by auto
  moreover have "r = Some (err_text SandboxNotFound)"
    using f by (auto simp: fail_upgrade_def Let_def split: prod.splits)
  ultimately show ?thesis using x p(1) s(1) f by (simp add: pause_old_def)
qed

theorem pausing_loses_both_witness:
  "\<exists>d'. pause_old (demo_upgrade_env (Some SandboxNotFound))
      (hd (or_employees (demo_orch_state UpgradeRunning))) demo_sandbox (demo_sandbox\<lparr>sx_id := 9, sx_external := ''x2''\<rparr>)
      (demo_upgrade UpgradeRunning) (insert_sandbox (demo_sandbox\<lparr>sx_id := 9, sx_external := ''x2''\<rparr>)
        (demo_orch_state UpgradeRunning)) = (Some ''sandbox not found upstream'', d')
     \<and> find_sandbox d' 4 = None \<and> find_sandbox d' 9 = None"
proof -
  let ?new = "demo_sandbox\<lparr>sx_id := 9, sx_external := ''x2''\<rparr>"
  let ?d = "insert_sandbox ?new (demo_orch_state UpgradeRunning)"
  have "\<exists>d'. pause_old (demo_upgrade_env (Some SandboxNotFound)) (hd (or_employees (demo_orch_state UpgradeRunning)))
      demo_sandbox ?new (demo_upgrade UpgradeRunning) ?d = (Some (err_text SandboxNotFound), d')
    \<and> failed_at (ug_id (demo_upgrade UpgradeRunning)) PhasePausingOld d'
    \<and> find_sandbox d' (sx_id demo_sandbox) = None \<and> find_sandbox d' (sx_id ?new) = None"
    by (rule pausing_loses_both)
      (simp_all add: reliable_def ours_def demo_upgrade_env_def demo_orch_def demo_warm_def demo_sandbox_def
        demo_upgrade_def demo_orch_state_def find_upgrade_def insert_sandbox_def)
  then show ?thesis by (auto simp: demo_sandbox_def)
qed

end
