(* ===== verification/StrandedProps.thy ===== *)
theory StrandedProps
  imports RollbackProps
begin

text \<open>
  What becomes of an upgrade whose worker is gone, what the retirement deletes, and the quoting of
  shell words.
\<close>

section \<open>An upgrade nobody finishes\<close>

text \<open>A running row of an employee.\<close>

definition running_at :: "uuid \<Rightarrow> uuid \<Rightarrow> uuid \<Rightarrow> 'w orch \<Rightarrow> bool" where
  "running_at i org e d \<longleftrightarrow> (\<exists>u. find_upgrade d i = Some u \<and> ug_org u = org \<and> ug_employee u = e
     \<and> ug_status u = UpgradeRunning)"

datatype uop = RequestUpgrade uuid uuid | RunUpgrade uuid uuid | RunRetire retire_payload
  | SandboxLifecycle | SandboxHealth | SandboxResources

fun ug_exec :: "('w, 'c) upgrade_env \<Rightarrow> uop \<Rightarrow> 'w orch \<Rightarrow> 'w orch" where
  "ug_exec env (RequestUpgrade org e) d = snd (StartSandboxUpgrade env org e d)"
| "ug_exec env (RunUpgrade i e) d = snd (HandleUpgrade env i e d)"
| "ug_exec env (RunRetire p) d = snd (HandleRetire env p d)"
| "ug_exec env SandboxLifecycle d = RunSandboxLifecycle (ue_orch env) d"
| "ug_exec env SandboxHealth d = RunHealthCheck (ue_orch env) d"
| "ug_exec env SandboxResources d = RunResourceCheck (ue_orch env) d"

lemma run_quiet: "quiet d d' \<Longrightarrow> running_at i org e d' = running_at i org e d"
  by (simp add: running_at_def quiet_def)

lemmas run_world = run_quiet [OF quiet_world] and run_read = run_quiet [OF quiet_read]

lemma run_steps [simp]:
  "running_at i org e (update_sandbox j f d) = running_at i org e d"
  "running_at i org e (delete_sandbox_row j d) = running_at i org e d"
  "running_at i org e (insert_sandbox s d) = running_at i org e d"
  "running_at i org e (d\<lparr>or_pool := p\<rparr>) = running_at i org e d"
  by (auto simp: running_at_def find_upgrade_delete forget_both_def)

lemma run_upgrade [simp]:
  "(\<And>u. ug_id (f u) = ug_id u) \<Longrightarrow> j \<noteq> i \<Longrightarrow> running_at i org e (update_upgrade j f d) = running_at i org e d"
  by (simp add: running_at_def find_upgrade_update)

lemma run_exec:
  assumes "db_exec env f d = (r, d')" and "\<And>d. running_at i org e (f d) = running_at i org e d"
  shows "running_at i org e d' = running_at i org e d"
  using assms(1) by (rule db_execE) (auto simp: assms(2) run_quiet)

lemmas run_exec_sandbox = run_exec [of _ "update_sandbox _ _", OF _ run_steps(1)]
  and run_exec_delete = run_exec [of _ "delete_sandbox_row _", OF _ run_steps(2)]

lemma run_try:
  assumes "\<And>d. running_at i org e (f d) = running_at i org e d"
  shows "running_at i org e (db_try env f d) = running_at i org e d"
  unfolding db_try_def by (metis run_exec [OF _ assms] prod.collapse)

lemma run_try_steps [simp]:
  "running_at i org e (db_try env (update_sandbox j f) d) = running_at i org e d"
  "running_at i org e (db_try env (delete_sandbox_row j) d) = running_at i org e d"
  by (simp_all add: run_try)

lemma run_stop: "StopSandbox env sb d = (r, d') \<Longrightarrow> running_at i org e d' = running_at i org e d"
  by (auto simp: StopSandbox_def purgeMissingSandbox_def Let_def
      split: prod.splits sum.splits option.splits sb_error.splits
      dest!: run_world run_exec_sandbox run_exec_delete)

lemma run_archive: "ArchiveSandbox env sb d = (r, d') \<Longrightarrow> running_at i org e d' = running_at i org e d"
  by (auto simp: ArchiveSandbox_def archive_stopped_def purgeMissingSandbox_def Let_def
      split: prod.splits sum.splits option.splits sb_error.splits if_splits
      dest!: run_world run_exec_sandbox run_exec_delete run_stop)

lemma run_delete: "DeleteSandbox env sb d = (r, d') \<Longrightarrow> running_at i org e d' = running_at i org e d"
  by (auto simp: DeleteSandbox_def Let_def split: prod.splits sum.splits
      dest!: run_world run_exec_delete)

lemma run_refresh: "RefreshEmployeeSandboxURL env sb d = (r, d') \<Longrightarrow> running_at i org e d' = running_at i org e d"
  by (auto simp: RefreshEmployeeSandboxURL_def Let_def split: prod.splits sum.splits option.splits
      dest!: run_world run_exec_sandbox)

lemma run_start: "StartEmployeeSandbox env sb d = (r, d') \<Longrightarrow> running_at i org e d' = running_at i org e d"
  by (auto simp: StartEmployeeSandbox_def split: prod.splits sum.splits option.splits
      dest!: run_world run_exec_sandbox run_refresh wait_quiet [THEN run_quiet])

lemma run_restart: "RestartEmployeeSandbox env sb d = (r, d') \<Longrightarrow> running_at i org e d' = running_at i org e d"
  by (auto simp: RestartEmployeeSandbox_def split: prod.splits sum.splits dest!: run_stop run_start)

lemma run_clone: "clone_or_fail env kind agent sb d = (r, d') \<Longrightarrow> running_at i org e d' = running_at i org e d"
  by (auto simp: clone_or_fail_def mark_error_def split: prod.splits option.splits
      dest!: clone_quiet [THEN run_quiet])

lemma run_create: "CreateEmployeeSandbox env agent token d = (r, d') \<Longrightarrow> running_at i org e d' = running_at i org e d"
proof -
  have w: "from_warm_pool env kind agent sb d = (r, d') \<Longrightarrow> running_at i org e d' = running_at i org e d" for kind sb d
    by (auto simp: from_warm_pool_def split: prod.splits option.splits dest!: run_clone)
  have p: "from_provider env kind agent org' sb d = (r, d') \<Longrightarrow> running_at i org e d' = running_at i org e d"
    for kind sb d org'
    by (auto simp: from_provider_def Let_def mark_error_def run_quiet [OF quiet_world_snd] split: prod.splits sum.splits option.splits
        dest!: run_world run_exec_sandbox wait_quiet [THEN run_quiet] run_clone)
  have s: "save_and_place env kind agent org' secret d = (r, d') \<Longrightarrow> running_at i org e d' = running_at i org e d"
    for kind secret d org'
    by (auto simp: save_and_place_def Let_def split: prod.splits option.splits if_splits dest!: run_world w p)
  show "CreateEmployeeSandbox env agent token d = (r, d') \<Longrightarrow> running_at i org e d' = running_at i org e d"
    by (auto simp: CreateEmployeeSandbox_def create_runtime_def split: option.splits if_splits prod.splits sum.splits
        dest!: run_world run_read s)
qed

text \<open>The task of another row.\<close>

lemma run_exec_upgrade:
  assumes "db_exec env (update_upgrade j f) d = (r, d')" and "j \<noteq> i" and "\<And>u. ug_id (f u) = ug_id u"
  shows "running_at i org e d' = running_at i org e d"
  by (rule run_exec [OF assms(1)]) (simp add: assms)

lemma run_mark:
  assumes "ug_id u \<noteq> i"
  shows "markPhase env u p d = (r, d') \<Longrightarrow> running_at i org e d' = running_at i org e d"
    "running_at i org e (markFailed env u p m d) = running_at i org e d"
proof -
  show "running_at i org e d' = running_at i org e d" if "markPhase env u p d = (r, d')"
  proof -
    obtain y d1 where y: "db_exec (ue_orch env) (update_upgrade (ug_id u) (phase_row p)) d = (y, d1)"
      by (metis prod.collapse)
    with that have "d' = d1" by (auto simp: markPhase_def split: option.splits)
    with run_exec_upgrade [OF y assms] show ?thesis by simp
  qed
  show "running_at i org e (markFailed env u p m d) = running_at i org e d"
    unfolding markFailed_def by (rule run_try) (simp add: assms)
qed

lemma run_fail:
  assumes "fail_upgrade env agent old b new u p c d = (r, d')" and "ug_id u \<noteq> i"
  shows "running_at i org e d' = running_at i org e d"
  using assms
  by (auto simp: fail_upgrade_def rollback_new_def rollback_old_def Let_def run_mark
      split: prod.splits option.splits if_splits sum.splits
      dest!: run_delete run_start sync_quiet [THEN run_quiet])

lemma mark_id: "markPhase env u p d = (Inr u1, d') \<Longrightarrow> ug_id u1 = ug_id u"
  by (auto dest: markPhase_ok)

text \<open>The same row runs before and after.\<close>

definition srun :: "uuid \<Rightarrow> uuid \<Rightarrow> uuid \<Rightarrow> 'w orch \<Rightarrow> 'w orch \<Rightarrow> bool" where
  "srun i org e d d' \<longleftrightarrow> running_at i org e d' = running_at i org e d"

lemma srun_trans: "srun i org e d d1 \<Longrightarrow> srun i org e d1 d2 \<Longrightarrow> srun i org e d d2"
  by (simp add: srun_def)

lemma srun_refl [simp]: "srun i org e d d" by (simp add: srun_def)

lemmas srun_quiet = run_quiet [folded srun_def]
  and srun_fail = run_fail [folded srun_def]
  and srun_mark = run_mark(1) [folded srun_def]
  and srun_markFailed = run_mark(2) [folded srun_def]
  and srun_stop = run_stop [folded srun_def]
  and srun_restart = run_restart [folded srun_def]
  and srun_world = run_world [folded srun_def]
  and srun_read = run_read [folded srun_def]
  and srun_create = run_create [folded srun_def]
  and srun_exec_upgrade = run_exec_upgrade [folded srun_def]

text \<open>A phase, and one step inside it.\<close>

lemma run_step:
  assumes "(case F of (x, d1) \<Rightarrow> K x d1) = (r, d')"
    and "\<And>x d1. F = (x, d1) \<Longrightarrow> srun i org e d d1"
    and "\<And>x d1. F = (x, d1) \<Longrightarrow> K x d1 = (r, d') \<Longrightarrow> srun i org e d1 d'"
  shows "srun i org e d d'"
  using assms by (cases F) (auto intro: srun_trans)

lemma run_phase:
  assumes "(case markPhase env u p d of (x, d1) \<Rightarrow>
      (case x of Inl m \<Rightarrow> fail_upgrade env agent old b new u p m d1 | Inr u1 \<Rightarrow> K u1 d1)) = (r, d')"
    and "ug_id u \<noteq> i"
    and "\<And>u1 d1. K u1 d1 = (r, d') \<Longrightarrow> ug_id u1 \<noteq> i \<Longrightarrow> srun i org e d1 d'"
  shows "srun i org e d d'"
  using assms(1)
proof (rule run_step)
  fix x d1
  assume m: "markPhase env u p d = (x, d1)"
  then show "srun i org e d d1" by (rule srun_mark [OF assms(2)])
  assume "(case x of Inl m \<Rightarrow> fail_upgrade env agent old b new u p m d1 | Inr u1 \<Rightarrow> K u1 d1) = (r, d')"
  then show "srun i org e d1 d'"
  proof (cases x)
    case (Inl e')
    assume "(case x of Inl m \<Rightarrow> fail_upgrade env agent old b new u p m d1 | Inr u1 \<Rightarrow> K u1 d1) = (r, d')"
    with Inl show ?thesis by (simp add: srun_fail [OF _ assms(2)])
  next
    case (Inr u1)
    assume "(case x of Inl m \<Rightarrow> fail_upgrade env agent old b new u p m d1 | Inr u1 \<Rightarrow> K u1 d1) = (r, d')"
    with Inr have "K u1 d1 = (r, d')" by simp
    moreover have "ug_id u1 \<noteq> i" using mark_id [OF m [unfolded Inr]] assms(2) by simp
    ultimately show ?thesis by (rule assms(3))
  qed
qed

lemma run_succeeded:
  assumes "mark_succeeded env agent old new u d = (r, d')" and "ug_id u \<noteq> i"
  shows "srun i org e d d'"
  using assms(1) unfolding mark_succeeded_def
proof (rule run_step)
  fix x d1
  assume "db_exec (ue_orch env) (update_upgrade (ug_id u) (succeeded_row (onow d))) d = (x, d1)"
  then show "srun i org e d d1" by (rule srun_exec_upgrade) (use assms(2) in simp_all)
next
  fix x d1
  assume "(case x of Some m \<Rightarrow> fail_upgrade env agent old True (Some new) u PhaseCleanupOld
      (''mark employee sandbox upgrade succeeded: '' @ m) d1 | None \<Rightarrow> (None, d1)) = (r, d')"
  then show "srun i org e d1 d'"
    by (cases x) (use assms(2) srun_fail in auto)
qed

lemma run_cleanup:
  assumes "cleanup_old env agent old new u d = (r, d')" and "ug_id u \<noteq> i"
  shows "srun i org e d d'"
  using assms(1) unfolding cleanup_old_def
proof (rule run_phase [OF _ assms(2)])
  fix u1 d1
  assume "mark_succeeded env agent old new u1 (snd (scheduleOldSandboxRetirement env u1 old d1)) = (r, d')"
    and "ug_id u1 \<noteq> i"
  from run_succeeded [OF this] show "srun i org e d1 d'"
    by (rule srun_trans [OF srun_quiet [OF schedule_quiet]])
qed

lemma run_pause:
  assumes "pause_old env agent old new u d = (r, d')" and "ug_id u \<noteq> i"
  shows "srun i org e d d'"
  using assms(1) unfolding pause_old_def
proof (rule run_phase [OF _ assms(2)])
  fix u1 d1
  assume "(case StopSandbox (ue_orch env) old d1 of
      (Inl m, d2) \<Rightarrow> fail_upgrade env agent old False (Some new) u1 PhasePausingOld (err_text m) d2
    | (Inr old1, d2) \<Rightarrow> cleanup_old env agent old1 new u1 d2) = (r, d')" and "ug_id u1 \<noteq> i"
  then show "srun i org e d1 d'"
    by (rule_tac run_step) (auto intro: srun_stop srun_fail run_cleanup split: sum.splits)
qed

lemma run_sync:
  assumes "sync_new env agent old new u d = (r, d')" and "ug_id u \<noteq> i"
  shows "srun i org e d d'"
  using assms(1) unfolding sync_new_def
proof (rule run_phase [OF _ assms(2)])
  fix u1 d1
  assume "(case syncEmployeeRuntime env agent new d1 of
      (Some m, d2) \<Rightarrow> fail_upgrade env agent old False (Some new) u1 PhaseSync m d2
    | (None, d2) \<Rightarrow> pause_old env (agent\<lparr>em_status := ''active''\<rparr>) old new u1 d2) = (r, d')" and "ug_id u1 \<noteq> i"
  then show "srun i org e d1 d'"
    by (rule_tac run_step) (auto intro: srun_quiet sync_quiet srun_fail run_pause split: option.splits)
qed

lemma run_restart_new:
  assumes "restart_new env agent old new u d = (r, d')" and "ug_id u \<noteq> i"
  shows "srun i org e d d'"
  using assms(1) unfolding restart_new_def
proof (rule run_phase [OF _ assms(2)])
  fix u1 d1
  assume "(case RestartEmployeeSandbox (ue_orch env) new d1 of
      (Inl m, d2) \<Rightarrow> fail_upgrade env agent old False (Some new) u1 PhaseRestartNew (err_text m) d2
    | (Inr new1, d2) \<Rightarrow> sync_new env agent old new1 u1 d2) = (r, d')" and "ug_id u1 \<noteq> i"
  then show "srun i org e d1 d'"
    by (rule_tac run_step) (auto intro: srun_restart srun_fail run_sync split: sum.splits)
qed

lemma run_restore:
  assumes "restore_new env agent old new meta u d = (r, d')" and "ug_id u \<noteq> i"
  shows "srun i org e d d'"
  using assms(1) unfolding restore_new_def
proof (rule run_phase [OF _ assms(2)])
  fix u1 d1
  assume "(case runRestore env meta new d1 of
      (Some m, d2) \<Rightarrow> fail_upgrade env agent old False (Some new) u1 PhaseRestore m d2
    | (None, d2) \<Rightarrow> restart_new env agent old new u1 d2) = (r, d')" and "ug_id u1 \<noteq> i"
  then show "srun i org e d1 d'"
    by (rule_tac run_step) (auto intro: srun_quiet runRestore_quiet srun_fail run_restart_new split: option.splits)
qed

lemma run_create_new:
  assumes "create_new env agent old meta u d = (r, d')" and "ug_id u \<noteq> i"
  shows "srun i org e d d'"
proof -
  obtain x d1 where x: "markPhase env u PhaseCreatingNew d = (x, d1)" by (metis prod.collapse)
  note rx = srun_mark [OF assms(2) x, where org = org and e = e]
  show ?thesis
  proof (cases x)
    case (Inl m)
    then show ?thesis using assms(1) x rx by (simp add: create_new_def)
  next
    case (Inr u1)
    have i1: "ug_id u1 \<noteq> i" using mark_id [OF x [unfolded Inr]] assms(2) by simp
    obtain y d2 where y: "o_world (ue_startup env agent) d1 = (y, d2)" by (metis prod.collapse)
    note ry = srun_trans [OF rx srun_world [OF y]]
    show ?thesis
    proof (cases y)
      case (Inl m)
      then have "fail_upgrade env agent old False None u1 PhaseCreatingNew m d2 = (r, d')"
        using assms(1) x y Inr by (simp add: create_new_def)
      from srun_trans [OF ry srun_fail [OF this i1]] show ?thesis .
    next
      case token: (Inr token)
      obtain z d3 where z: "CreateEmployeeSandbox (ue_orch env) agent token d2 = (z, d3)" by (metis prod.collapse)
      note rz = srun_trans [OF ry srun_create [OF z]]
      show ?thesis
      proof (cases z)
        case (Inl m)
        then have "fail_upgrade env agent old False None u1 PhaseCreatingNew (err_text m) d3 = (r, d')"
          using assms(1) x y z token Inr by (simp add: create_new_def)
        from srun_trans [OF rz srun_fail [OF this i1]] show ?thesis .
      next
        case new: (Inr new)
        let ?f = "\<lambda>r. r\<lparr>ug_new := Some (sx_id new)\<rparr>"
        obtain w d4 where w: "db_exec (ue_orch env) (update_upgrade (ug_id u1) ?f) d3 = (w, d4)"
          by (cases "db_exec (ue_orch env) (update_upgrade (ug_id u1) ?f) d3")
        have rw: "srun i org e d d4"
          by (rule srun_trans [OF rz]) (rule srun_exec_upgrade [OF w i1], simp)
        have k: "(case w of Some m \<Rightarrow> fail_upgrade env agent old False (Some new) u1 PhaseCreatingNew m d4
            | None \<Rightarrow> restore_new env agent old new meta (?f u1) d4) = (r, d')"
          using assms(1) x y z token Inr new w by (simp add: create_new_def Let_def)
        have "srun i org e d4 d'"
          using k i1 by (cases w) (auto intro: srun_fail run_restore)
        with rw show ?thesis by (rule srun_trans)
      qed
    qed
  qed
qed

lemma run_verify:
  assumes "verifyAndRecordBackup env u1 meta d1 = (x, d2)" and "ug_id u1 \<noteq> i"
  shows "srun i org e d1 d2" "x = Inr u2 \<Longrightarrow> ug_id u2 = ug_id u1"
proof -
  let ?f = "\<lambda>r. r\<lparr>ug_backup_key := Some (bm_Key meta), ug_backup_sha := Some (bm_SHA256 meta),
                 ug_backup_bytes := bm_Bytes meta\<rparr>"
  have "quiet d1 d2 \<or> (\<exists>d3 r. quiet d1 d3 \<and> db_exec (ue_orch env) (update_upgrade (ug_id u1) ?f) d3 = (r, d2))"
    using assms(1)
    by (auto simp: verifyAndRecordBackup_def Let_def split: prod.splits sum.splits option.splits if_splits
        dest!: quiet_world)
  then show "srun i org e d1 d2"
  proof
    assume "\<exists>d3 r. quiet d1 d3 \<and> db_exec (ue_orch env) (update_upgrade (ug_id u1) ?f) d3 = (r, d2)"
    then obtain d3 r where q: "quiet d1 d3"
      and y: "db_exec (ue_orch env) (update_upgrade (ug_id u1) ?f) d3 = (r, d2)" by blast
    have "srun i org e d3 d2" by (rule srun_exec_upgrade [OF y assms(2)]) simp
    with srun_quiet [OF q] show ?thesis by (rule srun_trans)
  qed (rule srun_quiet)
  show "x = Inr u2 \<Longrightarrow> ug_id u2 = ug_id u1"
    using assms(1) by (auto simp: verifyAndRecordBackup_def Let_def split: prod.splits sum.splits option.splits if_splits)
qed

lemma run_backup:
  assumes "backup_old env agent old u d = (r, d')" and "ug_id u \<noteq> i"
  shows "srun i org e d d'"
proof -
  have rec: "srun i org e d1 d'"
    if "(case verifyAndRecordBackup env u1 meta d1 of
      (Inl m, d2) \<Rightarrow> fail_upgrade env agent old False None u1 PhaseBackup m d2
    | (Inr u2, d2) \<Rightarrow> create_new env agent old meta u2 d2) = (r, d')" and "ug_id u1 \<noteq> i" for u1 meta d1
    using that(1)
  proof (rule run_step)
    fix x d2
    assume v: "verifyAndRecordBackup env u1 meta d1 = (x, d2)"
    show "srun i org e d1 d2" by (rule run_verify(1) [OF v that(2)])
    assume "(case x of Inl m \<Rightarrow> fail_upgrade env agent old False None u1 PhaseBackup m d2
      | Inr u2 \<Rightarrow> create_new env agent old meta u2 d2) = (r, d')"
    then show "srun i org e d2 d'"
      using run_verify(2) [OF v that(2)] that(2) by (cases x) (auto intro: srun_fail run_create_new)
  qed
  show ?thesis using assms(1) unfolding backup_old_def
  proof (rule run_step)
    fix x d1
    assume m: "markPhase env u PhaseBackup d = (x, d1)"
    then show "srun i org e d d1" by (rule srun_mark [OF assms(2)])
    assume k: "(case x of Inl m \<Rightarrow> (Some m, d1)
      | Inr u1 \<Rightarrow> (case runBackup env u1 agent old d1 of
          (Inl m, d2) \<Rightarrow> fail_upgrade env agent old False None u1 PhaseBackup m d2
        | (Inr meta, d2) \<Rightarrow> (case verifyAndRecordBackup env u1 meta d2 of
            (Inl m, d3) \<Rightarrow> fail_upgrade env agent old False None u1 PhaseBackup m d3
          | (Inr u2, d3) \<Rightarrow> create_new env agent old meta u2 d3))) = (r, d')"
    show "srun i org e d1 d'"
    proof (cases x)
      case (Inr u1)
      have u1: "ug_id u1 \<noteq> i" using mark_id [OF m [unfolded Inr]] assms(2) by simp
      from k [unfolded Inr sum.case] show ?thesis
        by (rule run_step) (use u1 in \<open>auto intro: srun_quiet runBackup_quiet srun_fail rec split: sum.splits\<close>)
    qed (use k in simp)
  qed
qed

text \<open>Starting another row.\<close>

lemma run_load_old:
  assumes "load_old env u agent d = (s, d')" and "ug_id u \<noteq> i"
  shows "srun i org e d d'" "s = Started v a old \<Longrightarrow> ug_id v = ug_id u"
proof -
  show "srun i org e d d'"
    using assms(1) unfolding load_old_def
  proof (rule run_step)
    fix x d1
    assume "db_read (ue_orch env) (current_sandboxes u) d = (x, d1)"
    then show "srun i org e d d1" by (rule srun_read)
    let ?f = "\<lambda>old r. r\<lparr>ug_old := Some (sx_id old)\<rparr>"
    assume k: "(case x of Inl m \<Rightarrow> (StartError (''load current sandbox: '' @ m),
           markFailed env u PhaseCreatingNew ''current sandbox not found'' d1)
      | Inr ss \<Rightarrow> (case ss of [] \<Rightarrow> (StartError ''load current sandbox: record not found'',
           markFailed env u PhaseCreatingNew ''current sandbox not found'' d1)
      | old # _ \<Rightarrow>
          if ug_old u = None then
            (case db_exec (ue_orch env) (update_upgrade (ug_id u) (?f old)) d1 of
               (Some m, d2) \<Rightarrow> (StartError (''record old sandbox: '' @ m), d2)
             | (None, d2) \<Rightarrow> (Started (u\<lparr>ug_old := Some (sx_id old)\<rparr>) agent old, d2))
          else (Started u agent old, d1))) = (s, d')"
    show "srun i org e d1 d'"
    proof (cases "\<exists>old rest. x = Inr (old # rest) \<and> ug_old u = None")
      case True
      then obtain old rest where o: "x = Inr (old # rest)" "ug_old u = None" by blast
      obtain y d2 where y: "db_exec (ue_orch env) (update_upgrade (ug_id u) (?f old)) d1 = (y, d2)"
        by (cases "db_exec (ue_orch env) (update_upgrade (ug_id u) (?f old)) d1")
      have "d' = d2" using k o y by (auto split: option.splits)
      with srun_exec_upgrade [OF y assms(2)] show ?thesis by simp
    next
      case False
      then have "d' = markFailed env u PhaseCreatingNew ''current sandbox not found'' d1 \<or> d' = d1"
        using k by (auto split: sum.splits list.splits if_splits)
      then show ?thesis using srun_markFailed [OF assms(2)] by auto
    qed
  qed
  show "s = Started v a old \<Longrightarrow> ug_id v = ug_id u"
    using assms(1)
    by (auto simp: load_old_def split: sum.splits list.splits if_splits prod.splits option.splits)
qed

lemma run_start_loaded:
  assumes "start_loaded env u0 d = (s, d')" and "ug_id u0 \<noteq> i"
  shows "srun i org e d d'" "s = Started v a old \<Longrightarrow> ug_id v = ug_id u0"
proof -
  let ?u = "start_row u0"
  have u: "ug_id ?u \<noteq> i" "ug_id ?u = ug_id u0" using assms(2) by (simp_all add: start_row_def)
  obtain x d1 where x: "db_exec (ue_orch env) (update_upgrade (ug_id u0) start_row) d = (x, d1)"
    by (metis prod.collapse)
  obtain y d2 where y: "db_read (ue_orch env) (load_employee ?u) d1 = (y, d2)" by (metis prod.collapse)
  have 1: "srun i org e d d1"
    by (rule srun_exec_upgrade [OF x assms(2)]) (simp add: start_row_def)
  have 2: "srun i org e d d2" by (rule srun_trans [OF 1 srun_read [OF y]])
  have m: "srun i org e d (markFailed env ?u PhaseCreatingNew msg d2)" for msg
    by (rule srun_trans [OF 2 srun_markFailed [OF u(1)]])
  have "srun i org e d d' \<and> (s = Started v a old \<longrightarrow> ug_id v = ug_id u0)"
  proof (cases "x = None \<and> (\<exists>a. y = Inr (Some a) \<and> em_org a \<noteq> None)")
    case True
    then obtain b where b: "x = None" "y = Inr (Some b)" "em_org b \<noteq> None" by auto
    then obtain org' where "em_org b = Some org'" by (cases "em_org b") simp_all
    then have l: "load_old env ?u b d2 = (s, d')"
      using assms(1) [unfolded start_loaded_def x b(1) prod.case option.case Let_def y b(2) sum.case] by simp
    show ?thesis
      using srun_trans [OF 2 run_load_old(1) [OF l u(1)]] run_load_old(2) [OF l u(1), of v a old] u(2) by auto
  next
    case no: False
    show ?thesis
    proof (cases x)
      case (Some msg)
      then show ?thesis using assms(1) x 1 by (auto simp: start_loaded_def)
    next
      case None
      note sl = assms(1) [unfolded start_loaded_def x None prod.case option.case Let_def y]
      have "s \<noteq> Started v a old \<and> (\<exists>msg. d' = markFailed env ?u PhaseCreatingNew msg d2)"
      proof (cases y)
        case (Inl msg)
        then show ?thesis using sl by auto
      next
        case (Inr w)
        then show ?thesis using sl no None by (cases w) auto
      qed
      then show ?thesis using m by blast
    qed
  qed
  then show "srun i org e d d'" "s = Started v a old \<Longrightarrow> ug_id v = ug_id u0" by simp_all
qed

lemma run_handle:
  assumes "i' \<noteq> i"
  shows "srun i org e d (snd (HandleUpgrade env i' e' d))"
proof (cases "i' = uuid_nil \<or> e' = uuid_nil")
  case True
  then show ?thesis by (auto simp: HandleUpgrade_def)
next
  case False
  obtain x d1 where x: "db_read (ue_orch env) (task_row i' e') d = (x, d1)" by (metis prod.collapse)
  note 1 = srun_read [OF x, where i = i and org = org and e = e]
  obtain r d' where h: "HandleUpgrade env i' e' d = (r, d')" by (metis prod.collapse)
  have "srun i org e d1 d'"
  proof (cases "\<exists>u0. x = Inr (Some u0) \<and> (ug_status u0 = UpgradeQueued \<or> ug_status u0 = UpgradeRunning)")
    case no: False
    then have "d' = d1" using h False x
      by (auto simp: HandleUpgrade_def run_upgrade_def loadAndStart_def
          split: sum.splits option.splits if_splits)
    then show ?thesis by simp
  next
    case True
    then obtain u0 where u0: "x = Inr (Some u0)" "ug_status u0 = UpgradeQueued \<or> ug_status u0 = UpgradeRunning"
      by blast
    have "task_row i' e' d1 = Some u0"
      using x u0(1) by (auto simp: db_read_def split: prod.splits option.splits)
    then have i0: "ug_id u0 \<noteq> i" using assms by (auto simp: task_row_def dest: find_SomeD)
    obtain s d2 where s: "start_loaded env u0 d1 = (s, d2)" by (metis prod.collapse)
    have "loadAndStart env i' e' d = (s, d2)"
      using x u0 s by (auto simp: loadAndStart_def upgrade_status_defs)
    then have "d' = d2 \<or> (\<exists>u a old. s = Started u a old \<and> backup_old env a old u d2 = (r, d'))"
      using h False by (auto simp: HandleUpgrade_def run_upgrade_def split: started.splits)
    then show ?thesis
    proof
      assume "d' = d2"
      then show ?thesis using run_start_loaded(1) [OF s i0] by simp
    next
      assume "\<exists>u a old. s = Started u a old \<and> backup_old env a old u d2 = (r, d')"
      then obtain u a old where b: "s = Started u a old" "backup_old env a old u d2 = (r, d')" by blast
      have "ug_id u \<noteq> i" using run_start_loaded(2) [OF s i0 b(1)] i0 by simp
      from srun_trans [OF run_start_loaded(1) [OF s i0] run_backup [OF b(2) this]] show ?thesis .
    qed
  qed
  from srun_trans [OF 1 this] h show ?thesis by simp
qed

lemma srun_sandbox_loop:
  assumes "\<And>s d. srun i org e d (f s d)"
  shows "srun i org e d (for_each f ss d)"
  by (induction ss arbitrary: d) (auto intro: srun_trans assms)

lemma srun_snd:
  assumes "\<And>r d'. f = (r, d') \<Longrightarrow> srun i org e d d'"
  shows "srun i org e d (snd f)"
  using assms by (cases f) simp

lemma run_read_loop:
  assumes "\<And>s d. srun i org e d (f s d)"
  shows "srun i org e d (case db_read env sel d of (Inl _, d1) \<Rightarrow> d1 | (Inr ss, d1) \<Rightarrow> for_each f ss d1)"
proof -
  obtain x d1 where x: "db_read env sel d = (x, d1)" by (metis prod.collapse)
  have "srun i org e d1 (for_each f ss d1)" for ss by (rule srun_sandbox_loop [OF assms])
  from srun_trans [OF srun_read [OF x] this] srun_read [OF x] x show ?thesis by (cases x) simp_all
qed

lemma run_lifecycle: "srun i org e d (RunSandboxLifecycle env d)"
proof -
  have "srun i org e d (snd (StopSandbox env s d))" "srun i org e d (snd (ArchiveSandbox env s d))" for s d
    by (rule srun_snd, erule run_stop [folded srun_def]) (rule srun_snd, erule run_archive [folded srun_def])
  then show ?thesis unfolding RunSandboxLifecycle_def Let_def
    by (intro srun_trans [OF run_read_loop run_read_loop])
qed

lemma srun_try_sandbox: "srun i org e d (db_try env (update_sandbox j f) d)" by (simp add: srun_def)

lemma run_health: "srun i org e d (RunHealthCheck env d)" "srun i org e d (RunResourceCheck env d)"
proof -
  have c: "srun i org e d (checkSandboxHealth env s d)" "srun i org e d (collectSandboxResources env s d)" for s d
    by (auto simp: checkSandboxHealth_def collectSandboxResources_def split: sum.splits prod.splits
        dest!: srun_world intro: srun_trans srun_try_sandbox)
  show "srun i org e d (RunHealthCheck env d)" unfolding RunHealthCheck_def by (rule run_read_loop [OF c(1)])
  show "srun i org e d (RunResourceCheck env d)" unfolding RunResourceCheck_def by (rule run_read_loop [OF c(2)])
qed

lemma run_retire: "srun i org e d (snd (HandleRetire env p d))"
proof (rule srun_snd)
  fix r d'
  assume "HandleRetire env p d = (r, d')"
  then show "srun i org e d d'"
    by (auto simp: HandleRetire_def retire_def split: if_splits prod.splits sum.splits option.splits
        dest!: srun_read run_delete [folded srun_def] intro: srun_trans)
qed

lemma active_upgrade_found:
  assumes "running_at i org e d"
  obtains u where "activeEmployeeSandboxUpgrade org e d = Some u" "u \<in> set (or_upgrades d)" "ug_org u = org"
    "ug_employee u = e" "ug_status u = UpgradeQueued \<or> ug_status u = UpgradeRunning"
proof -
  let ?us = "filter (\<lambda>u. ug_org u = org \<and> ug_employee u = e
                \<and> (ug_status u = UpgradeQueued \<or> ug_status u = UpgradeRunning)) (or_upgrades d)"
  let ?sorted = "sort_key (\<lambda>u. (- ug_created u, ug_id u)) ?us"
  from assms have "?us \<noteq> []"
    by (auto simp: running_at_def find_upgrade_def filter_empty_conv dest: find_SomeD)
  then have "length ?sorted \<noteq> 0" by simp
  then obtain u us where s: "?sorted = u # us" by (cases ?sorted) simp_all
  then have "u \<in> set ?sorted" by simp
  then have "u \<in> set ?us" by (simp only: set_sort)
  moreover note s
  ultimately show thesis by (intro that) (auto simp: activeEmployeeSandboxUpgrade_def)
qed

text \<open>The request for another upgrade: it finds the row and queues nothing.\<close>

lemma request_while_running:
  assumes "running_at i org e d" and "StartSandboxUpgrade env org e d = (a, d')"
  shows "d' = snd (o_world (oe_db (ue_orch env)) d)"
    "(\<exists>m. a = UpgradeRejected 500 m) \<or> (\<exists>u. a = Accepted u \<and> u \<in> set (or_upgrades d) \<and> ug_employee u = e
       \<and> (ug_status u = UpgradeQueued \<or> ug_status u = UpgradeRunning))"
proof -
  obtain r d1 where w: "o_world (oe_db (ue_orch env)) d = (r, d1)" by (metis prod.collapse)
  have "running_at i org e d1" using assms(1) run_world [OF w] by simp
  then obtain u where u: "activeEmployeeSandboxUpgrade org e d1 = Some u" "u \<in> set (or_upgrades d1)"
    "ug_employee u = e" "ug_status u = UpgradeQueued \<or> ug_status u = UpgradeRunning"
    by (rule active_upgrade_found)
  show "d' = snd (o_world (oe_db (ue_orch env)) d)"
    "(\<exists>m. a = UpgradeRejected 500 m) \<or> (\<exists>u. a = Accepted u \<and> u \<in> set (or_upgrades d) \<and> ug_employee u = e
       \<and> (ug_status u = UpgradeQueued \<or> ug_status u = UpgradeRunning))"
    using assms(2) u w o_world_tables(2) [OF w]
    by (auto simp: StartSandboxUpgrade_def db_read_def split: option.splits)
qed

text \<open>A request for another employee adds a row of its own.\<close>

lemma run_insert_upgrade:
  assumes "ug_status u = UpgradeQueued" and "running_at i org e d"
  shows "running_at i org e (insert_upgrade u d)"
proof -
  have "find P xs = Some x \<Longrightarrow> find P (xs @ [u]) = Some x" for P xs and x :: upgrade
    by (induction xs) auto
  then show ?thesis using assms(2) by (auto simp: running_at_def find_upgrade_def insert_upgrade_def)
qed

lemma run_queue:
  assumes "queue_upgrade env org' agent old d = (a, d')" and "running_at i org e d"
  shows "running_at i org e d'"
proof -
  obtain r d1 where w: "o_world (oe_db (ue_orch env)) d = (r, d1)" by (metis prod.collapse)
  have 1: "running_at i org e d1" using assms(2) run_world [OF w] by simp
  let ?u = "new_upgrade org' agent old d1"
  show ?thesis
  proof (cases "r = None \<and> ug_id ?u \<notin> ug_id ` set (or_upgrades d1)")
    case False
    then show ?thesis using assms(1) w 1 by (auto simp: queue_upgrade_def Let_def split: option.splits)
  next
    case True
    obtain v where "v \<in> set (or_upgrades d1)" "ug_id v = i"
      using 1 by (auto simp: running_at_def find_upgrade_def dest: find_SomeD)
    then have "ug_id ?u \<noteq> i" using True by force
    then have m: "running_at i org e (markUpgradeFailed env ?u msg dx) = running_at i org e dx" for msg dx
      unfolding markUpgradeFailed_def by (intro run_try) simp
    have 2: "running_at i org e (insert_upgrade ?u d1)"
      by (rule run_insert_upgrade [OF _ 1]) (simp add: new_upgrade_def)
    obtain x d3 where x: "o_world (ue_enqueue_upgrade env (ug_id ?u) (em_id agent)) (insert_upgrade ?u d1) = (x, d3)"
      by (metis prod.collapse)
    have 3: "running_at i org e d3" using 2 run_world [OF x] by simp
    show ?thesis using assms(1) w True x 3 m
      by (auto simp: queue_upgrade_def Let_def run_read
          split: option.splits enqueue_error.splits prod.splits sum.splits)
  qed
qed

lemma run_request:
  assumes "running_at i org e d"
  shows "running_at i org e (snd (StartSandboxUpgrade env org' e' d))"
proof -
  obtain a d' where s: "StartSandboxUpgrade env org' e' d = (a, d')" by (metis prod.collapse)
  with assms have "running_at i org e d'"
    by (auto simp: StartSandboxUpgrade_def split: prod.splits sum.splits option.splits list.splits if_splits
        dest!: run_read [where i = i and org = org and e = e] run_world [where i = i and org = org and e = e]
        dest: run_queue)
  with s show ?thesis by simp
qed

text \<open>All operations but the task of the row itself.\<close>

definition other_exec :: "('w, 'c) upgrade_env \<Rightarrow> uuid \<Rightarrow> uop \<Rightarrow> 'w orch \<Rightarrow> 'w orch" where
  "other_exec env i x d = (case x of RunUpgrade j e \<Rightarrow> if j = i then d else ug_exec env x d | _ \<Rightarrow> ug_exec env x d)"

lemma other_keeps:
  assumes r: "running_at i org e d"
  shows "running_at i org e (other_exec env i x d)"
proof (cases x)
  case (RequestUpgrade org' e')
  then show ?thesis using run_request [OF r] by (simp add: other_exec_def)
next
  case (RunUpgrade j e')
  then show ?thesis using r by (simp add: other_exec_def run_handle [unfolded srun_def])
next
  case (RunRetire p)
  then show ?thesis using r by (simp add: other_exec_def run_retire [unfolded srun_def])
qed (use r in \<open>simp_all add: other_exec_def run_lifecycle [unfolded srun_def] run_health [unfolded srun_def]\<close>)

interpretation stranded: op_system "other_exec env i" "running_at i org e" for env i org e
  by unfold_locales (rule other_keeps)

lemma run_others:
  "(\<And>e'. RunUpgrade i e' \<notin> set ops) \<Longrightarrow> run_ops (ug_exec env) ops d = run_ops (other_exec env i) ops d"
  by (induction ops arbitrary: d) (auto simp: other_exec_def split: uop.split)

text \<open>
  C12: an upgrade row left running by a worker that is gone blocks its employee for good: whatever
  requests, tasks of other upgrades, retirements and background loops follow, the row stays
  running, and every further request is answered with an active row or an error and queues nothing.
\<close>

theorem upgrade_stranded:
  assumes "running_at i org e d" and "\<And>e'. RunUpgrade i e' \<notin> set ops"
  shows "running_at i org e (run_ops (ug_exec env) ops d)
    \<and> (\<exists>a. StartSandboxUpgrade env org e (run_ops (ug_exec env) ops d)
            = (a, snd (o_world (oe_db (ue_orch env)) (run_ops (ug_exec env) ops d)))
        \<and> ((\<exists>m. a = UpgradeRejected 500 m) \<or> (\<exists>u. a = Accepted u \<and> ug_employee u = e
             \<and> (ug_status u = UpgradeQueued \<or> ug_status u = UpgradeRunning))))"
proof -
  let ?d = "run_ops (ug_exec env) ops d"
  have r: "running_at i org e ?d" unfolding run_others [OF assms(2)] by (rule stranded.inv_run [OF assms(1)])
  obtain a d' where s: "StartSandboxUpgrade env org e ?d = (a, d')" by (metis prod.collapse)
  from r request_while_running [OF r s] s show ?thesis by auto
qed

theorem upgrade_stranded_witness:
  "running_at 3 1 2 (run_ops (ug_exec (demo_upgrade_env None)) [RequestUpgrade 1 2, SandboxHealth]
     (demo_orch_state UpgradeRunning))"
proof -
  have r: "running_at 3 1 2 (demo_orch_state UpgradeRunning)"
    by (simp add: running_at_def demo_orch_state_def demo_upgrade_def find_upgrade_def)
  have "running_at 3 1 2 (run_ops (ug_exec (demo_upgrade_env None)) [RequestUpgrade 1 2, SandboxHealth]
      (demo_orch_state UpgradeRunning))
    \<and> (\<exists>a. StartSandboxUpgrade (demo_upgrade_env None) 1 2
          (run_ops (ug_exec (demo_upgrade_env None)) [RequestUpgrade 1 2, SandboxHealth] (demo_orch_state UpgradeRunning))
            = (a, snd (o_world (oe_db (ue_orch (demo_upgrade_env None)))
                (run_ops (ug_exec (demo_upgrade_env None)) [RequestUpgrade 1 2, SandboxHealth] (demo_orch_state UpgradeRunning))))
        \<and> ((\<exists>m. a = UpgradeRejected 500 m) \<or> (\<exists>u. a = Accepted u \<and> ug_employee u = 2
             \<and> (ug_status u = UpgradeQueued \<or> ug_status u = UpgradeRunning))))"
    by (rule upgrade_stranded [OF r]) simp
  then show ?thesis by simp
qed

section \<open>Retiring\<close>

text \<open>
  C13: the retirement touches no sandbox, or removes exactly the one its payload names, which the
  upgrade of the payload has replaced: the upgrade succeeded, its old sandbox is the one named, its
  new one is another, and the sandbox is a stopped one of the employee.
\<close>

theorem retire_removes_replaced:
  "find_sandbox (snd (HandleRetire env p d)) = find_sandbox d
   \<or> (\<exists>u sb. task_row (rp_upgrade p) (rp_employee p) d = Some u \<and> ug_status u = UpgradeSucceeded
       \<and> ug_old u = Some (rp_sandbox p) \<and> ug_new u \<noteq> Some (rp_sandbox p)
       \<and> find_sandbox d (rp_sandbox p) = Some sb \<and> sx_status sb = StatusStopped
       \<and> sn_employee sb = Some (rp_employee p)
       \<and> find_sandbox (snd (HandleRetire env p d)) = (find_sandbox d)(rp_sandbox p := None))"
proof -
  obtain r d' where h: "HandleRetire env p d = (r, d')" by (metis prod.collapse)
  have del: "find_sandbox d3 = find_sandbox d2 \<or> find_sandbox d3 = (find_sandbox d2)(sx_id sb := None)"
    if "DeleteSandbox (ue_orch env) sb d2 = (x, d3)" for sb d2 x d3
    using that by (auto simp: DeleteSandbox_def Let_def find_sandbox_delete quiet_def
        split: prod.splits sum.splits dest!: quiet_world ensure_id elim!: db_execE)
  have row: "task_row i e d1 = task_row i e d" if "or_upgrades d1 = or_upgrades d" for i e d1
    using that by (simp add: task_row_def)
  show ?thesis
  proof (cases "\<exists>d1 d2 u sb. db_read (ue_orch env) (task_row (rp_upgrade p) (rp_employee p)) d = (Inr (Some u), d1)
      \<and> db_read (ue_orch env) (\<lambda>d. find_sandbox d (rp_sandbox p)) d1 = (Inr (Some sb), d2)
      \<and> ug_status u = UpgradeSucceeded \<and> ug_old u = Some (rp_sandbox p)
      \<and> sn_employee sb = Some (rp_employee p) \<and> sx_status sb = StatusStopped \<and> ug_new u \<noteq> Some (sx_id sb)
      \<and> (\<exists>x. DeleteSandbox (ue_orch env) sb d2 = (x, d'))")
    case False
    then have "find_sandbox d' = find_sandbox d" using h
      by (auto simp: HandleRetire_def retire_def quiet_def split: if_splits prod.splits sum.splits option.splits
          dest!: quiet_read)
    then show ?thesis using h by simp
  next
    case True
    then obtain d1 d2 u sb x where a: "db_read (ue_orch env) (task_row (rp_upgrade p) (rp_employee p)) d = (Inr (Some u), d1)"
      "db_read (ue_orch env) (\<lambda>d. find_sandbox d (rp_sandbox p)) d1 = (Inr (Some sb), d2)"
      "ug_status u = UpgradeSucceeded" "ug_old u = Some (rp_sandbox p)" "sn_employee sb = Some (rp_employee p)"
      "sx_status sb = StatusStopped" "ug_new u \<noteq> Some (sx_id sb)" "DeleteSandbox (ue_orch env) sb d2 = (x, d')" by blast
    have u: "task_row (rp_upgrade p) (rp_employee p) d = Some u"
      using a(1) by (auto simp: db_read_def row [OF o_world_tables(2)] split: prod.splits option.splits)
    have f: "find_sandbox d1 (rp_sandbox p) = Some sb"
      using a(2) by (auto simp: db_read_def find_sandbox_def o_world_tables(1) split: prod.splits option.splits)
    have sb: "find_sandbox d (rp_sandbox p) = Some sb" "sx_id sb = rp_sandbox p"
      using f quiet_read [OF a(1)] by (simp_all add: quiet_def) (auto simp: find_sandbox_def dest: find_SomeD)
    have "find_sandbox d2 = find_sandbox d" using quiet_read [OF a(1)] quiet_read [OF a(2)] by (simp add: quiet_def)
    then show ?thesis using del [OF a(8)] a u sb h by auto
  qed
qed

section \<open>Shell words\<close>

text \<open>
  How a POSIX shell reads one word: outside quotes a backslash takes the next character as it is
  and a quote opens a quotation, which nothing but the next quote ends; a blank or a newline ends
  the word; any other character the shell could give a meaning is refused.
\<close>

definition plain_char :: "char \<Rightarrow> bool" where
  "plain_char c \<longleftrightarrow> is_hex c \<or> c \<in> set ''ghijklmnopqrstuvwxyzGHIJKLMNOPQRSTUVWXYZ_-./:@%+,''"

fun sh_word :: "bool \<Rightarrow> string \<Rightarrow> (string \<times> string) option" where
  "sh_word True [] = None"
| "sh_word True (c # cs) =
     (if c = CHR 0x27 then sh_word False cs else map_option (\<lambda>(w, rest). (c # w, rest)) (sh_word True cs))"
| "sh_word False [] = Some ([], [])"
| "sh_word False (c # cs) =
     (if c = CHR 0x27 then sh_word True cs
      else if c = CHR 0x5C then
        (case cs of [] \<Rightarrow> None | x # xs \<Rightarrow> map_option (\<lambda>(w, rest). (x # w, rest)) (sh_word False xs))
      else if c = CHR 0x20 \<or> c = newline then Some ([], c # cs)
      else if plain_char c then map_option (\<lambda>(w, rest). (c # w, rest)) (sh_word False cs)
      else None)"

lemma quoted_read:
  "sh_word True (concat (map (\<lambda>c. if c = CHR 0x27 then [CHR 0x27, CHR 0x5C, CHR 0x27, CHR 0x27] else [c]) s)
     @ CHR 0x27 # rest) = map_option (\<lambda>(w, r). (s @ w, r)) (sh_word False rest)"
  by (induction s) (auto simp: option.map_comp comp_def split_def option.map_ident)

text \<open>
  C14: a quoted text is read back by the shell as the text itself, at the end of the script and
  before a blank or a newline, whatever characters it holds.
\<close>

theorem shellQuote_read:
  "sh_word False (shellQuote s) = Some (s, [])
   \<and> sh_word False (shellQuote s @ CHR 0x20 # rest) = Some (s, CHR 0x20 # rest)
   \<and> sh_word False (shellQuote s @ newline # rest) = Some (s, newline # rest)"
  using quoted_read [of s "[]"] quoted_read [of s "CHR 0x20 # rest"] quoted_read [of s "newline # rest"]
  by (simp add: shellQuote_def newline_def)

end
