(* ===== verification/Streams.thy ===== *)
theory Streams
  imports Strs "HOL-Library.AList"
begin

text \<open>
  Live conversation events: the bus of \<open>internal/streaming/bus.go\<close>, \<open>bus_stream.go\<close> and
  \<open>bus_chunks.go\<close>, and the sweep of idle streams of \<open>cleanup.go\<close>. The Redis server is outside the
  repository: a record of commands on its own state, each of which may answer an error; what its
  manual documents of them is stated by the locales of \<open>StreamServer\<close>. \<open>ctx.Err()\<close> is a test of
  that state.
\<close>

section \<open>The server's commands\<close>

record stream_entry =
  se_ID :: string
  se_Values :: "(string \<times> string) list"

datatype redis_error = ReplyNil | CtxCanceled | CtxDeadline | ReplyError string

record 's stream_server =
  sr_XAdd :: "string \<Rightarrow> (string \<times> string) list \<Rightarrow> 's \<Rightarrow> (redis_error + string) \<times> 's"
  sr_XRange :: "string \<Rightarrow> string \<Rightarrow> string \<Rightarrow> 's \<Rightarrow> (redis_error + stream_entry list) \<times> 's"
  sr_XRevRangeN :: "string \<Rightarrow> string \<Rightarrow> string \<Rightarrow> int \<Rightarrow> 's \<Rightarrow> (redis_error + stream_entry list) \<times> 's"
  sr_XRead :: "string \<Rightarrow> string \<Rightarrow> int \<Rightarrow> 's \<Rightarrow> (redis_error + stream_entry list) \<times> 's"
  sr_XLen :: "string \<Rightarrow> 's \<Rightarrow> (redis_error + int) \<times> 's"
  sr_XTrimMaxLenApprox :: "string \<Rightarrow> int \<Rightarrow> int \<Rightarrow> 's \<Rightarrow> redis_error option \<times> 's"
  sr_XGroupCreateMkStream :: "string \<Rightarrow> string \<Rightarrow> string \<Rightarrow> 's \<Rightarrow> redis_error option \<times> 's"
  sr_XReadGroup ::
    "string \<Rightarrow> string \<Rightarrow> string \<Rightarrow> string \<Rightarrow> int \<Rightarrow> 's \<Rightarrow> (redis_error + stream_entry list) \<times> 's"
  sr_XAck :: "string \<Rightarrow> string \<Rightarrow> string list \<Rightarrow> 's \<Rightarrow> redis_error option \<times> 's"
  sr_SAdd :: "string \<Rightarrow> string \<Rightarrow> 's \<Rightarrow> redis_error option \<times> 's"
  sr_SRem :: "string \<Rightarrow> string \<Rightarrow> 's \<Rightarrow> redis_error option \<times> 's"
  sr_SMembers :: "string \<Rightarrow> 's \<Rightarrow> (redis_error + string list) \<times> 's"
  sr_Del :: "string \<Rightarrow> 's \<Rightarrow> redis_error option \<times> 's"
  sr_SetNX :: "string \<Rightarrow> string \<Rightarrow> duration \<Rightarrow> 's \<Rightarrow> (redis_error + bool) \<times> 's"
  sr_Get :: "string \<Rightarrow> 's \<Rightarrow> (redis_error + string) \<times> 's"
  sr_Append :: "string \<Rightarrow> string \<Rightarrow> 's \<Rightarrow> redis_error option \<times> 's"
  sr_Expire :: "string \<Rightarrow> duration \<Rightarrow> 's \<Rightarrow> redis_error option \<times> 's"
  sr_ctxErr :: "'s \<Rightarrow> bool"

text \<open>
  A pipeline sends its commands together; \<open>Exec\<close> answers the first error, after every command was
  sent.
\<close>

fun pipe_exec :: "('s \<Rightarrow> redis_error option \<times> 's) list \<Rightarrow> 's \<Rightarrow> redis_error option \<times> 's" where
  "pipe_exec [] s = (None, s)"
| "pipe_exec (c # cs) s =
     (case c s of
        (r, s1) \<Rightarrow>
          (case pipe_exec cs s1 of
             (rest, s2) \<Rightarrow> ((case r of Some e \<Rightarrow> Some e | None \<Rightarrow> rest), s2)))"

section \<open>Events\<close>

record StreamEvent =
  ev_ID :: string
  ev_EventType :: string
  ev_Data :: string

definition msgStringField :: "(string \<times> string) list \<Rightarrow> string \<Rightarrow> string" where
  "msgStringField values key = (case map_of values key of None \<Rightarrow> [] | Some v \<Rightarrow> v)"

definition event_of :: "stream_entry \<Rightarrow> StreamEvent" where
  "event_of msg =
     \<lparr>ev_ID = se_ID msg,
      ev_EventType = msgStringField (se_Values msg) ''event_type'',
      ev_Data = msgStringField (se_Values msg) ''data''\<rparr>"

definition bus_prefix :: string where "bus_prefix = ''conv:''"

definition streamKey :: "string \<Rightarrow> string" where "streamKey convID = bus_prefix @ convID"

definition active_key :: string where "active_key = bus_prefix @ ''active''"

definition Publish ::
  "'s stream_server \<Rightarrow> string \<Rightarrow> string \<Rightarrow> string \<Rightarrow> 's \<Rightarrow> (redis_error + string) \<times> 's"
where
  "Publish r convID eventType data s =
     (case sr_XAdd r (streamKey convID) [(''event_type'', eventType), (''data'', data)] s of
        (Inl e, s1) \<Rightarrow> (Inl e, s1)
      | (Inr i, s1) \<Rightarrow> (case sr_SAdd r active_key convID s1 of (_, s2) \<Rightarrow> (Inr i, s2)))"

definition ReadRange ::
  "'s stream_server \<Rightarrow> string \<Rightarrow> string \<Rightarrow> string \<Rightarrow> 's \<Rightarrow> (redis_error + StreamEvent list) \<times> 's"
where
  "ReadRange r convID start stop s =
     (case sr_XRange r (streamKey convID) start stop s of
        (Inl e, s1) \<Rightarrow> (Inl e, s1)
      | (Inr msgs, s1) \<Rightarrow> (Inr (map event_of msgs), s1))"

definition StreamLen :: "'s stream_server \<Rightarrow> string \<Rightarrow> 's \<Rightarrow> (redis_error + int) \<times> 's" where
  "StreamLen r convID s = sr_XLen r (streamKey convID) s"

definition Trim :: "'s stream_server \<Rightarrow> string \<Rightarrow> int \<Rightarrow> 's \<Rightarrow> redis_error option \<times> 's" where
  "Trim r convID maxLen s = sr_XTrimMaxLenApprox r (streamKey convID) maxLen 0 s"

definition DeleteStream :: "'s stream_server \<Rightarrow> string \<Rightarrow> 's \<Rightarrow> redis_error option \<times> 's" where
  "DeleteStream r convID s =
     pipe_exec [sr_Del r (streamKey convID), sr_SRem r active_key convID] s"

definition ActiveConversations :: "'s stream_server \<Rightarrow> 's \<Rightarrow> (redis_error + string list) \<times> 's" where
  "ActiveConversations r s = sr_SMembers r active_key s"

section \<open>Accumulated text of unfinished messages\<close>

definition chunkAccTTL :: duration where "chunkAccTTL = 10 * Minute"

definition chunkKey :: "string \<Rightarrow> string \<Rightarrow> string \<Rightarrow> string" where
  "chunkKey kind convID messageID = ''acc:'' @ kind @ '':'' @ convID @ '':'' @ messageID"

definition chunkSetKey :: "string \<Rightarrow> string \<Rightarrow> string" where
  "chunkSetKey kind convID = ''acc_msgs:'' @ kind @ '':'' @ convID"

definition activeChunkMessageKey :: "string \<Rightarrow> string \<Rightarrow> string" where
  "activeChunkMessageKey kind convID = ''acc_active:'' @ kind @ '':'' @ convID"

lemmas key_defs = chunkKey_def chunkSetKey_def activeChunkMessageKey_def streamKey_def
  bus_prefix_def active_key_def

definition ResolveAccumulatedMessageID ::
  "'s stream_server \<Rightarrow> string \<Rightarrow> string \<Rightarrow> string \<Rightarrow> string \<Rightarrow> 's \<Rightarrow> (redis_error + string) \<times> 's"
where
  "ResolveAccumulatedMessageID r kind convID explicitMessageID eventID s =
     (if explicitMessageID \<noteq> [] then (Inr explicitMessageID, s)
      else if eventID = [] then (Inr [], s)
      else
        let key = activeChunkMessageKey kind convID in
        (case sr_SetNX r key eventID chunkAccTTL s of
           (Inl e, s1) \<Rightarrow> (Inl e, s1)
         | (Inr True, s1) \<Rightarrow> (Inr eventID, s1)
         | (Inr False, s1) \<Rightarrow>
             (case sr_Get r key s1 of
                (Inl ReplyNil, s2) \<Rightarrow>
                  (case sr_SetNX r key eventID chunkAccTTL s2 of
                     (Inl e, s3) \<Rightarrow> (Inl e, s3)
                   | (Inr _, s3) \<Rightarrow> (Inr eventID, s3))
              | (Inl e, s2) \<Rightarrow> (Inl e, s2)
              | (Inr messageID, s2) \<Rightarrow>
                  (case sr_Expire r key chunkAccTTL s2 of (_, s3) \<Rightarrow> (Inr messageID, s3)))))"

definition AppendAccumulated ::
  "'s stream_server \<Rightarrow> string \<Rightarrow> string \<Rightarrow> string \<Rightarrow> string \<Rightarrow> 's \<Rightarrow> redis_error option \<times> 's"
where
  "AppendAccumulated r kind convID messageID delta s =
     (let key = chunkKey kind convID messageID; setKey = chunkSetKey kind convID in
      pipe_exec
        [sr_Append r key delta, sr_Expire r key chunkAccTTL,
         sr_SAdd r setKey messageID, sr_Expire r setKey chunkAccTTL] s)"

definition ClearActiveAccumulatedMessage ::
  "'s stream_server \<Rightarrow> string \<Rightarrow> string \<Rightarrow> 's \<Rightarrow> redis_error option \<times> 's"
where
  "ClearActiveAccumulatedMessage r kind convID s = sr_Del r (activeChunkMessageKey kind convID) s"

definition DropAccumulated ::
  "'s stream_server \<Rightarrow> string \<Rightarrow> string \<Rightarrow> string \<Rightarrow> 's \<Rightarrow> redis_error option \<times> 's"
where
  "DropAccumulated r kind convID messageID s =
     pipe_exec
       [sr_Del r (chunkKey kind convID messageID), sr_SRem r (chunkSetKey kind convID) messageID] s"

text \<open>
  The result of \<open>PeekAccumulated\<close> is a Go map: here the pairs in the order the members were read.
\<close>

fun peek_members ::
  "'s stream_server \<Rightarrow> string \<Rightarrow> string \<Rightarrow> string list \<Rightarrow> (string \<times> string) list \<Rightarrow> 's \<Rightarrow>
   (redis_error + (string \<times> string) list) \<times> 's"
where
  "peek_members r kind convID [] result s = (Inr result, s)"
| "peek_members r kind convID (mid # mids) result s =
     (case sr_Get r (chunkKey kind convID mid) s of
        (Inl ReplyNil, s1) \<Rightarrow> peek_members r kind convID mids result s1
      | (Inl e, s1) \<Rightarrow> (Inl e, s1)
      | (Inr content, s1) \<Rightarrow>
          peek_members r kind convID mids
            (if content \<noteq> [] then AList.update mid content result else result) s1)"

definition PeekAccumulated ::
  "'s stream_server \<Rightarrow> string \<Rightarrow> string \<Rightarrow> 's \<Rightarrow> (redis_error + (string \<times> string) list) \<times> 's"
where
  "PeekAccumulated r kind convID s =
     (case sr_SMembers r (chunkSetKey kind convID) s of
        (Inl e, s1) \<Rightarrow> (Inl e, s1)
      | (Inr messageIDs, s1) \<Rightarrow>
          if messageIDs = [] then (Inr [], s1)
          else peek_members r kind convID messageIDs [] s1)"

text \<open>The operations on the text of responses, by the name of their kind.\<close>

definition kind_response :: string where "kind_response = ''response''"
definition kind_reasoning :: string where "kind_reasoning = ''reasoning''"

definition ResolveChunkMessageID where
  "ResolveChunkMessageID r = ResolveAccumulatedMessageID r kind_response"

definition AppendChunk where "AppendChunk r = AppendAccumulated r kind_response"

definition ClearActiveChunkMessage where
  "ClearActiveChunkMessage r = ClearActiveAccumulatedMessage r kind_response"

definition DropChunk where "DropChunk r = DropAccumulated r kind_response"

definition PeekChunks where "PeekChunks r = PeekAccumulated r kind_response"

section \<open>Sweep of idle streams\<close>

definition idleTimeout :: duration where "idleTimeout = 30 * Minute"

text \<open>
  The milliseconds of an entry ID: the bytes before the first dash, each read as a digit in
  wrap-around arithmetic.
\<close>

definition byte_digit :: "char \<Rightarrow> int" where
  "byte_digit c = (int (of_char c) - 48) mod 256"

fun entry_ms :: "int64 \<Rightarrow> string \<Rightarrow> int64" where
  "entry_ms tsMs [] = tsMs"
| "entry_ms tsMs (c # cs) =
     (if c = CHR ''-'' then tsMs else entry_ms (i64 (i64 (tsMs * 10) + byte_digit c)) cs)"

definition unix_milli :: "int64 \<Rightarrow> gotime" where
  "unix_milli ms = 62135596800 * Second + ms * 1000000"

definition clean_conv :: "'s stream_server \<Rightarrow> gotime \<Rightarrow> string \<Rightarrow> 's \<Rightarrow> 's" where
  "clean_conv r cutoff convID s =
     (case sr_XRevRangeN r (bus_prefix @ convID) ''+'' ''-'' 1 s of
        (Inl _, s1) \<Rightarrow> snd (DeleteStream r convID s1)
      | (Inr [], s1) \<Rightarrow> snd (DeleteStream r convID s1)
      | (Inr (msg # _), s1) \<Rightarrow>
          if unix_milli (entry_ms 0 (se_ID msg)) < cutoff then snd (DeleteStream r convID s1) else s1)"

fun clean_convs :: "'s stream_server \<Rightarrow> gotime \<Rightarrow> string list \<Rightarrow> 's \<Rightarrow> 's" where
  "clean_convs r cutoff [] s = s"
| "clean_convs r cutoff (c # cs) s =
     (if sr_ctxErr r s then s else clean_convs r cutoff cs (clean_conv r cutoff c s))"

definition CleanIdle :: "'s stream_server \<Rightarrow> gotime \<Rightarrow> 's \<Rightarrow> 's" where
  "CleanIdle r now s =
     (case ActiveConversations r s of
        (Inl _, s1) \<Rightarrow> s1
      | (Inr convIDs, s1) \<Rightarrow> clean_convs r (now - idleTimeout) convIDs s1)"

end
