(* ===== verification/Taps.thy ===== *)
theory Taps
  imports Streams
begin

text \<open>
  Fan-out of a conversation's live events on one pod: \<open>bus_subscribe.go\<close> and \<open>bus_tap.go\<close>. Each
  call of \<open>Subscribe\<close> is a goroutine with a program point of its own, each tap another; a step is
  one critical section or one operation on a channel or on the server, so that the steps of
  different goroutines interleave freely. Taps and subscribers are numbered, as the code compares
  pointers; a Go map of subscribers is the list of their numbers, \<open>None\<close> the nil map.
\<close>

section \<open>State\<close>

record subscriber =
  sb_ch :: "StreamEvent list"
  sb_closed :: bool
  sb_evicted :: bool

datatype tap_pc =
    TapLoop
  | TapReading string
  | TapBroadcast stream_entry "stream_entry list"
  | TapAdvance string "stream_entry list"
  | TapLeaving
  | TapDone

record conv_tap =
  tp_convID :: string
  tp_cursor :: string
  tp_subscribers :: "nat list option"
  tp_cancelled :: bool
  tp_pc :: tap_pc

datatype client_pc =
    Starting
  | HasTap nat
  | Filling nat nat string
  | Sending nat nat "stream_entry list"
  | Receiving nat nat
  | Forwarding nat nat StreamEvent
  | Detaching nat nat
  | Unmapping nat
  | Cancelling nat
  | Awaiting nat
  | Returned

text \<open>\<open>cl_out\<close> is everything sent to the user channel, \<open>cl_taken\<close> how much of it was received.\<close>

record client =
  cl_convID :: string
  cl_cursor :: string
  cl_cancelled :: bool
  cl_pc :: client_pc
  cl_out :: "StreamEvent list"
  cl_taken :: nat

record 's bus =
  bs_server :: 's
  bs_taps :: "string \<rightharpoonup> nat"
  bs_tap :: "conv_tap list"
  bs_sub :: "subscriber list"
  bs_client :: "client list"

definition chan_size :: nat where "chan_size = 64"

definition set_tap :: "nat \<Rightarrow> (conv_tap \<Rightarrow> conv_tap) \<Rightarrow> 's bus \<Rightarrow> 's bus" where
  "set_tap t f b = b\<lparr>bs_tap := (bs_tap b)[t := f (bs_tap b ! t)]\<rparr>"

definition set_sub :: "nat \<Rightarrow> (subscriber \<Rightarrow> subscriber) \<Rightarrow> 's bus \<Rightarrow> 's bus" where
  "set_sub i f b = b\<lparr>bs_sub := (bs_sub b)[i := f (bs_sub b ! i)]\<rparr>"

definition set_client :: "nat \<Rightarrow> (client \<Rightarrow> client) \<Rightarrow> 's bus \<Rightarrow> 's bus" where
  "set_client c f b = b\<lparr>bs_client := (bs_client b)[c := f (bs_client b ! c)]\<rparr>"

abbreviation tap_to :: "nat \<Rightarrow> tap_pc \<Rightarrow> 's bus \<Rightarrow> 's bus" where
  "tap_to t p b \<equiv> set_tap t (tp_pc_update (\<lambda>_. p)) b"

abbreviation client_to :: "nat \<Rightarrow> client_pc \<Rightarrow> 's bus \<Rightarrow> 's bus" where
  "client_to c p b \<equiv> set_client c (cl_pc_update (\<lambda>_. p)) b"

section \<open>Taps\<close>

text \<open>Attaching to the nil map of a tap that has ended panics.\<close>

definition attach :: "nat \<Rightarrow> 's bus \<Rightarrow> ((nat \<times> string) \<times> 's bus) option" where
  "attach t b =
     (case tp_subscribers (bs_tap b ! t) of
        None \<Rightarrow> None
      | Some subs \<Rightarrow>
          let i = length (bs_sub b) in
          Some ((i, tp_cursor (bs_tap b ! t)),
                set_tap t (tp_subscribers_update (\<lambda>_. Some (i # subs)))
                  (b\<lparr>bs_sub := bs_sub b @ [\<lparr>sb_ch = [], sb_closed = False, sb_evicted = False\<rparr>]\<rparr>)))"

text \<open>
  \<open>broadcast\<close> under the tap's lock: a subscriber whose channel is full is dropped and its channels
  are closed.
\<close>

definition chan_full :: "subscriber \<Rightarrow> bool" where
  "chan_full s \<longleftrightarrow> chan_size \<le> length (sb_ch s)"

definition offer :: "StreamEvent \<Rightarrow> subscriber \<Rightarrow> subscriber" where
  "offer evt s =
     (if chan_full s then s\<lparr>sb_closed := True, sb_evicted := True\<rparr>
      else s\<lparr>sb_ch := sb_ch s @ [evt]\<rparr>)"

definition broadcast :: "nat \<Rightarrow> StreamEvent \<Rightarrow> 's bus \<Rightarrow> 's bus" where
  "broadcast t evt b =
     (case tp_subscribers (bs_tap b ! t) of
        None \<Rightarrow> b
      | Some subs \<Rightarrow>
          set_tap t (tp_subscribers_update (\<lambda>_. Some (filter (\<lambda>i. \<not> chan_full (bs_sub b ! i)) subs)))
            (fold (\<lambda>i. set_sub i (offer evt)) subs b))"

definition next_message :: "stream_entry list \<Rightarrow> tap_pc" where
  "next_message msgs = (case msgs of [] \<Rightarrow> TapLoop | m # ms \<Rightarrow> TapBroadcast m ms)"

definition close_all :: "nat \<Rightarrow> 's bus \<Rightarrow> 's bus" where
  "close_all t b =
     set_tap t (tp_subscribers_update (\<lambda>_. None))
       (fold (\<lambda>i. set_sub i (sb_closed_update (\<lambda>_. True)))
          (case tp_subscribers (bs_tap b ! t) of None \<Rightarrow> [] | Some subs \<Rightarrow> subs) b)"

definition tap_step :: "'s stream_server \<Rightarrow> nat \<Rightarrow> 's bus \<Rightarrow> 's bus option" where
  "tap_step r t b =
     (if t \<ge> length (bs_tap b) then None
      else
        let tap = bs_tap b ! t in
        (case tp_pc tap of
           TapLoop \<Rightarrow>
             Some (tap_to t (if tp_cancelled tap then TapLeaving else TapReading (tp_cursor tap)) b)
         | TapReading pos \<Rightarrow>
             (case sr_XRead r (streamKey (tp_convID tap)) pos 50 (bs_server b) of
                (Inl (ReplyError _), s1) \<Rightarrow>
                  Some (tap_to t (if tp_cancelled tap then TapLeaving else TapLoop) (b\<lparr>bs_server := s1\<rparr>))
              | (Inl _, s1) \<Rightarrow> Some (tap_to t TapLoop (b\<lparr>bs_server := s1\<rparr>))
              | (Inr msgs, s1) \<Rightarrow> Some (tap_to t (next_message msgs) (b\<lparr>bs_server := s1\<rparr>)))
         | TapBroadcast m ms \<Rightarrow> Some (tap_to t (TapAdvance (se_ID m) ms) (broadcast t (event_of m) b))
         | TapAdvance i ms \<Rightarrow>
             Some (tap_to t (next_message ms) (set_tap t (tp_cursor_update (\<lambda>_. i)) b))
         | TapLeaving \<Rightarrow> Some (tap_to t TapDone (close_all t b))
         | TapDone \<Rightarrow> None))"

section \<open>Subscriptions\<close>

text \<open>The look-up of a tap and, when there is none, its creation: one critical section.\<close>

definition getOrCreateTap :: "'s stream_server \<Rightarrow> string \<Rightarrow> 's bus \<Rightarrow> nat \<times> 's bus" where
  "getOrCreateTap r convID b =
     (case bs_taps b convID of
        Some t \<Rightarrow> (t, b)
      | None \<Rightarrow>
          (case sr_XRevRangeN r (streamKey convID) ''+'' ''-'' 1 (bs_server b) of
             (res, s1) \<Rightarrow>
               let startCursor = (case res of Inr (m # _) \<Rightarrow> se_ID m | _ \<Rightarrow> ''0-0'');
                   t = length (bs_tap b) in
               (t, b\<lparr>bs_server := s1,
                     bs_taps := (bs_taps b)(convID \<mapsto> t),
                     bs_tap := bs_tap b @
                       [\<lparr>tp_convID = convID, tp_cursor = startCursor, tp_subscribers = Some [],
                         tp_cancelled = False, tp_pc = TapLoop\<rparr>]\<rparr>)))"

definition backfillFrom :: "string \<Rightarrow> string" where
  "backfillFrom cursor = (if cursor = [] then ''0'' else cursor)"

definition backfill_start :: "string \<Rightarrow> string" where
  "backfill_start from = (if from = [] \<or> from = ''0'' then ''-'' else from)"

definition backfill_skips :: "string \<Rightarrow> stream_entry \<Rightarrow> bool" where
  "backfill_skips from m \<longleftrightarrow> se_ID m = from \<and> from \<noteq> [] \<and> from \<noteq> ''0'' \<and> from \<noteq> ''-''"

definition detach :: "nat \<Rightarrow> nat \<Rightarrow> 's bus \<Rightarrow> 's bus" where
  "detach t i b = set_tap t (tp_subscribers_update (map_option (filter (\<lambda>j. j \<noteq> i)))) b"

definition no_subscribers :: "conv_tap \<Rightarrow> bool" where
  "no_subscribers tap \<longleftrightarrow> (case tp_subscribers tap of None \<Rightarrow> True | Some subs \<Rightarrow> subs = [])"

definition unmap_tap :: "nat \<Rightarrow> string \<Rightarrow> 's bus \<Rightarrow> 's bus" where
  "unmap_tap t convID b =
     (if bs_taps b convID = Some t then b\<lparr>bs_taps := (bs_taps b)(convID := None)\<rparr> else b)"

definition send_out :: "StreamEvent \<Rightarrow> client_pc \<Rightarrow> nat \<Rightarrow> 's bus \<Rightarrow> 's bus option" where
  "send_out evt p c b =
     (let cl = bs_client b ! c in
      if length (cl_out cl) < cl_taken cl + chan_size
      then Some (set_client c (\<lambda>x. x\<lparr>cl_out := cl_out x @ [evt], cl_pc := p\<rparr>) b) else None)"

text \<open>Which ready case of a \<open>select\<close> the runtime takes.\<close>

datatype pick = PickDone | PickEvicted | PickChannel

definition client_step :: "'s stream_server \<Rightarrow> nat \<Rightarrow> pick \<Rightarrow> 's bus \<Rightarrow> 's bus option" where
  "client_step r c p b =
     (if c \<ge> length (bs_client b) then None
      else
        let cl = bs_client b ! c; from = backfillFrom (cl_cursor cl) in
        (case cl_pc cl of
           Starting \<Rightarrow>
             (case getOrCreateTap r (cl_convID cl) b of (t, b1) \<Rightarrow> Some (client_to c (HasTap t) b1))
         | HasTap t \<Rightarrow>
             (case attach t b of
                None \<Rightarrow> Some (client_to c Returned b)
              | Some ((i, attachCursor), b1) \<Rightarrow>
                  Some (client_to c
                    (if from \<noteq> ''$'' then Filling t i attachCursor else Receiving t i) b1))
         | Filling t i upTo \<Rightarrow>
             if upTo = [] \<or> upTo = ''0-0'' then Some (client_to c (Receiving t i) b)
             else
               (case sr_XRange r (streamKey (cl_convID cl)) (backfill_start from) upTo (bs_server b) of
                  (Inl _, s1) \<Rightarrow>
                    Some (client_to c (if cl_cancelled cl then Detaching t i else Receiving t i)
                      (b\<lparr>bs_server := s1\<rparr>))
                | (Inr msgs, s1) \<Rightarrow>
                    Some (client_to c (Sending t i (filter (\<lambda>m. \<not> backfill_skips from m) msgs))
                      (b\<lparr>bs_server := s1\<rparr>)))
         | Sending t i [] \<Rightarrow> Some (client_to c (Receiving t i) b)
         | Sending t i (m # ms) \<Rightarrow>
             (case p of
                PickDone \<Rightarrow> if cl_cancelled cl then Some (client_to c (Detaching t i) b) else None
              | PickEvicted \<Rightarrow> None
              | PickChannel \<Rightarrow> send_out (event_of m) (Sending t i ms) c b)
         | Receiving t i \<Rightarrow>
             (case p of
                PickDone \<Rightarrow> if cl_cancelled cl then Some (client_to c (Detaching t i) b) else None
              | PickEvicted \<Rightarrow>
                  if sb_evicted (bs_sub b ! i) then Some (client_to c (Detaching t i) b) else None
              | PickChannel \<Rightarrow>
                  (case sb_ch (bs_sub b ! i) of
                     [] \<Rightarrow> if sb_closed (bs_sub b ! i) then Some (client_to c (Detaching t i) b) else None
                   | e # es \<Rightarrow>
                       Some (client_to c (Forwarding t i e) (set_sub i (sb_ch_update (\<lambda>_. es)) b))))
         | Forwarding t i e \<Rightarrow>
             (case p of
                PickDone \<Rightarrow> if cl_cancelled cl then Some (client_to c (Detaching t i) b) else None
              | PickEvicted \<Rightarrow> None
              | PickChannel \<Rightarrow> send_out e (Receiving t i) c b)
         | Detaching t i \<Rightarrow>
             let b1 = detach t i b in
             Some (client_to c (if no_subscribers (bs_tap b1 ! t) then Unmapping t else Returned) b1)
         | Unmapping t \<Rightarrow> Some (client_to c (Cancelling t) (unmap_tap t (cl_convID cl) b))
         | Cancelling t \<Rightarrow>
             Some (client_to c (Awaiting t) (set_tap t (tp_cancelled_update (\<lambda>_. True)) b))
         | Awaiting t \<Rightarrow> if tp_pc (bs_tap b ! t) = TapDone then Some (client_to c Returned b) else None
         | Returned \<Rightarrow> None))"

section \<open>The pod\<close>

text \<open>
  What can happen next: a call of \<open>Subscribe\<close>, its caller receiving an event or giving up, an
  event being published, or a step of one of the goroutines.
\<close>

datatype bus_act =
    DoSubscribe string string
  | DoReceive nat
  | DoCancel nat
  | DoPublish string string string
  | DoTap nat
  | DoClient nat pick

definition Subscribe :: "string \<Rightarrow> string \<Rightarrow> 's bus \<Rightarrow> 's bus" where
  "Subscribe convID cursor b =
     b\<lparr>bs_client := bs_client b @
         [\<lparr>cl_convID = convID, cl_cursor = cursor, cl_cancelled = False, cl_pc = Starting,
           cl_out = [], cl_taken = 0\<rparr>]\<rparr>"

fun bus_do :: "'s stream_server \<Rightarrow> bus_act \<Rightarrow> 's bus \<Rightarrow> 's bus option" where
  "bus_do r (DoSubscribe convID cursor) b = Some (Subscribe convID cursor b)"
| "bus_do r (DoReceive c) b =
     (if c < length (bs_client b) \<and> cl_taken (bs_client b ! c) < length (cl_out (bs_client b ! c))
      then Some (set_client c (\<lambda>x. x\<lparr>cl_taken := cl_taken x + 1\<rparr>) b) else None)"
| "bus_do r (DoCancel c) b =
     (if c < length (bs_client b) then Some (set_client c (cl_cancelled_update (\<lambda>_. True)) b) else None)"
| "bus_do r (DoPublish convID eventType data) b =
     Some (b\<lparr>bs_server := snd (Publish r convID eventType data (bs_server b))\<rparr>)"
| "bus_do r (DoTap t) b = tap_step r t b"
| "bus_do r (DoClient c p) b = client_step r c p b"

definition bus_start :: "'s \<Rightarrow> 's bus" where
  "bus_start s =
     \<lparr>bs_server = s, bs_taps = Map.empty, bs_tap = [], bs_sub = [], bs_client = []\<rparr>"

inductive bus_reachable :: "'s stream_server \<Rightarrow> 's bus \<Rightarrow> bool" for r where
  start: "bus_reachable r (bus_start s)"
| step: "bus_reachable r b \<Longrightarrow> bus_do r a b = Some b' \<Longrightarrow> bus_reachable r b'"

text \<open>A schedule; it ends early when its next act is not possible.\<close>

fun bus_run :: "'s stream_server \<Rightarrow> bus_act list \<Rightarrow> 's bus \<Rightarrow> 's bus option" where
  "bus_run r [] b = Some b"
| "bus_run r (a # acts) b = (case bus_do r a b of None \<Rightarrow> None | Some b' \<Rightarrow> bus_run r acts b')"

lemma bus_run_reachable: "bus_run r acts b = Some b' \<Longrightarrow> bus_reachable r b \<Longrightarrow> bus_reachable r b'"
  by (induction acts arbitrary: b) (auto split: option.splits intro: bus_reachable.step)

end
