(* ===== verification/StreamServer.thy ===== *)
theory StreamServer
  imports Streams
begin

text \<open>
  What the bus and the flusher rely on in the Redis server, as the manual documents its commands:
  each touches only its own key, an answered command has its effect, and a consumer group hands
  out the entries after its last delivered one. The key space is seen through \<open>view\<close>; \<open>rank\<close> is the
  order of entry IDs. \<open>rdb_server\<close> is a server that satisfies all of it.
\<close>

section \<open>Values under a key\<close>

text \<open>A stream holds its entries and, per group, the last delivered rank and the pending IDs.\<close>

type_synonym groups = "string \<rightharpoonup> nat \<times> string set"

datatype rvalue =
    RStr string
  | RSet "string list"
  | RStream "stream_entry list" groups

fun text_of :: "rvalue option \<Rightarrow> string" where
  "text_of (Some (RStr t)) = t"
| "text_of _ = []"

fun members_of :: "rvalue option \<Rightarrow> string set" where
  "members_of (Some (RSet ms)) = set ms"
| "members_of _ = {}"

fun entries_of :: "rvalue option \<Rightarrow> stream_entry list" where
  "entries_of (Some (RStream es gs)) = es"
| "entries_of _ = []"

fun group_of :: "rvalue option \<Rightarrow> string \<Rightarrow> (nat \<times> string set) option" where
  "group_of (Some (RStream es gs)) g = gs g"
| "group_of _ g = None"

section \<open>The documented effects\<close>

locale stream_view =
  fixes r :: "'s stream_server"
    and view :: "'s \<Rightarrow> string \<rightharpoonup> rvalue"
    and rank :: "string \<Rightarrow> nat"
  assumes xrange_view: "view (snd (sr_XRange r k a b s)) = view s"
    and xrevrange_view: "view (snd (sr_XRevRangeN r k a b n s)) = view s"
    and xread_view: "view (snd (sr_XRead r k i n s)) = view s"
    and smembers_view: "view (snd (sr_SMembers r k s)) = view s"
    and get_view: "view (snd (sr_Get r k s)) = view s"
    and xadd_frame: "k' \<noteq> k \<Longrightarrow> view (snd (sr_XAdd r k fs s)) k' = view s k'"
    and xtrim_frame: "k' \<noteq> k \<Longrightarrow> view (snd (sr_XTrimMaxLenApprox r k n l s)) k' = view s k'"
    and xgroup_frame: "k' \<noteq> k \<Longrightarrow> view (snd (sr_XGroupCreateMkStream r k g i s)) k' = view s k'"
    and xreadgroup_frame: "k' \<noteq> k \<Longrightarrow> view (snd (sr_XReadGroup r k g c i n s)) k' = view s k'"
    and xack_frame: "k' \<noteq> k \<Longrightarrow> view (snd (sr_XAck r k g ids s)) k' = view s k'"
    and sadd_frame: "k' \<noteq> k \<Longrightarrow> view (snd (sr_SAdd r k v s)) k' = view s k'"
    and srem_frame: "k' \<noteq> k \<Longrightarrow> view (snd (sr_SRem r k v s)) k' = view s k'"
    and del_frame: "k' \<noteq> k \<Longrightarrow> view (snd (sr_Del r k s)) k' = view s k'"
    and setnx_frame: "k' \<noteq> k \<Longrightarrow> view (snd (sr_SetNX r k v ttl s)) k' = view s k'"
    and append_frame: "k' \<noteq> k \<Longrightarrow> view (snd (sr_Append r k v s)) k' = view s k'"
    and expire_frame: "k' \<noteq> k \<Longrightarrow> view (snd (sr_Expire r k ttl s)) k' = view s k'"
    and entries_sorted: "sorted_wrt (<) (map (rank \<circ> se_ID) (entries_of (view s k)))"
    and entries_positive: "e \<in> set (entries_of (view s k)) \<Longrightarrow> 0 < rank (se_ID e)"
    and entries_named: "e \<in> set (entries_of (view s k)) \<Longrightarrow> se_ID e \<noteq> []"
    and rank_zero: "rank ''0-0'' = 0"

text \<open>Streams: publishing, reading, ranges.\<close>

locale stream_reads = stream_view +
  assumes xadd_ok: "sr_XAdd r k fs s = (Inr i, s') \<Longrightarrow>
        entries_of (view s' k) = entries_of (view s k) @ [\<lparr>se_ID = i, se_Values = fs\<rparr>]"
    and xadd_error: "sr_XAdd r k fs s = (Inl err, s') \<Longrightarrow> view s' = view s"
    and sadd_entries: "entries_of (view (snd (sr_SAdd r k v s)) k) = entries_of (view s k)"
    and xread_ok: "sr_XRead r k i n s = (Inr msgs, s') \<Longrightarrow>
        \<exists>m. msgs = take m (filter (\<lambda>e. rank i < rank (se_ID e)) (entries_of (view s k)))"
    and xrange_all: "sr_XRange r k ''-'' b s = (Inr msgs, s') \<Longrightarrow>
        msgs = filter (\<lambda>e. rank (se_ID e) \<le> rank b) (entries_of (view s k))"
    and xrange_from: "sr_XRange r k a b s = (Inr msgs, s') \<Longrightarrow> a \<noteq> ''-'' \<Longrightarrow>
        msgs = filter (\<lambda>e. rank a \<le> rank (se_ID e) \<and> rank (se_ID e) \<le> rank b) (entries_of (view s k))"
    and xrevrange_last: "sr_XRevRangeN r k ''+'' ''-'' 1 s = (Inr msgs, s') \<Longrightarrow>
        msgs = (if entries_of (view s k) = [] then [] else [last (entries_of (view s k))])"

text \<open>
  Consumer groups. Whether or not the reply arrives, the last delivered rank of a group never
  goes back; a read of new entries hands out those after it and moves it on.
\<close>

locale stream_groups = stream_view +
  assumes xgroup_keeps: "group_of (view s k) g = Some q \<Longrightarrow>
        group_of (view (snd (sr_XGroupCreateMkStream r k g' i s)) k) g = Some q"
    and xgroup_entries: "entries_of (view (snd (sr_XGroupCreateMkStream r k g i s)) k) =
        entries_of (view s k)"
    and xreadgroup_new: "sr_XReadGroup r k g c ''>'' n s = (Inr msgs, s') \<Longrightarrow>
        \<exists>lst pend m. group_of (view s k) g = Some (lst, pend) \<and>
          msgs = take m (filter (\<lambda>e. lst < rank (se_ID e)) (entries_of (view s k))) \<and>
          group_of (view s' k) g = Some (if msgs = [] then lst else rank (se_ID (last msgs)),
                                          pend \<union> se_ID ` set msgs)"
    and xreadgroup_mono: "group_of (view s k) g = Some (lst, pend) \<Longrightarrow>
        \<exists>lst' pend'. group_of (view (snd (sr_XReadGroup r k g c i n s)) k) g = Some (lst', pend') \<and>
          lst \<le> lst' \<and> pend \<subseteq> pend'"
    and xack_keeps: "group_of (view s k) g = Some (lst, pend) \<Longrightarrow>
        \<exists>pend'. group_of (view (snd (sr_XAck r k g ids s)) k) g = Some (lst, pend') \<and>
          pend - set ids \<subseteq> pend'"
    and xtrim_keeps: "group_of (view s k) g = Some q \<Longrightarrow>
        group_of (view (snd (sr_XTrimMaxLenApprox r k n l s)) k) g = Some q"
    and sadd_groups: "group_of (view (snd (sr_SAdd r k v s)) k) = group_of (view s k)"
    and xadd_keeps: "group_of (view s k) g = Some q \<Longrightarrow>
        group_of (view (snd (sr_XAdd r k fs s)) k) g = Some q"

text \<open>Strings and sets, on a server that answers every command.\<close>

locale stream_texts = stream_view +
  assumes setnx_ok: "\<exists>b s'. sr_SetNX r k v ttl s = (Inr b, s') \<and> (b \<longleftrightarrow> view s k = None) \<and>
        view s' k = (if b then Some (RStr v) else view s k)"
    and get_ok: "sr_Get r k s = (Inr t, s') \<Longrightarrow> view s k = Some (RStr t)"
    and get_nil: "view s k = None \<Longrightarrow> fst (sr_Get r k s) = Inl ReplyNil"
    and get_some: "view s k = Some (RStr t) \<Longrightarrow> fst (sr_Get r k s) = Inr t"
    and append_ok: "view s k = None \<or> (\<exists>t. view s k = Some (RStr t)) \<Longrightarrow>
        fst (sr_Append r k d s) = None \<and>
        view (snd (sr_Append r k d s)) k = Some (RStr (text_of (view s k) @ d))"
    and expire_ok: "0 < ttl \<Longrightarrow> fst (sr_Expire r k ttl s) = None \<and> view (snd (sr_Expire r k ttl s)) k = view s k"
    and sadd_ok: "view s k = None \<or> (\<exists>ms. view s k = Some (RSet ms)) \<Longrightarrow>
        fst (sr_SAdd r k v s) = None \<and>
        (\<exists>ms. view (snd (sr_SAdd r k v s)) k = Some (RSet ms) \<and>
              set ms = insert v (members_of (view s k)))"
    and srem_ok: "view s k = None \<or> (\<exists>ms. view s k = Some (RSet ms)) \<Longrightarrow>
        fst (sr_SRem r k v s) = None \<and>
        members_of (view (snd (sr_SRem r k v s)) k) = members_of (view s k) - {v} \<and>
        (view (snd (sr_SRem r k v s)) k = None \<or>
          (\<exists>ms. view (snd (sr_SRem r k v s)) k = Some (RSet ms)))"
    and smembers_ok: "view s k = None \<or> (\<exists>ms. view s k = Some (RSet ms)) \<Longrightarrow>
        \<exists>ms. fst (sr_SMembers r k s) = Inr ms \<and> set ms = members_of (view s k) \<and> distinct ms"
    and del_ok: "fst (sr_Del r k s) = None \<and> view (snd (sr_Del r k s)) k = None"

lemma last_take_filter:
  assumes "take n (filter P xs) \<noteq> []"
  shows "P (last (take n (filter P xs)))"
proof -
  have "last (take n (filter P xs)) \<in> set (filter P xs)"
    by (rule in_set_takeD [OF last_in_set [OF assms]])
  then show ?thesis by simp
qed

section \<open>A server\<close>

text \<open>
  The key space as a map; a stream is kept as the number of entries trimmed from it and the values
  of the others, so that the IDs of a stream are consecutive milliseconds with sequence number 0.
  Commands on a value of another type answer an error; ranges find no entries there.
\<close>

datatype stored =
    KStr string
  | KSet "string list"
  | KStream nat "(string \<times> string) list list" groups

type_synonym rdb = "string \<rightharpoonup> stored"

definition rdb_id :: "nat \<Rightarrow> string" where "rdb_id n = show_nat n @ ''-0''"

definition rdb_rank :: "string \<Rightarrow> nat" where
  "rdb_rank i = (case read_digits 0 (takeWhile (\<lambda>c. c \<noteq> CHR ''-'') i) of None \<Rightarrow> 0 | Some n \<Rightarrow> n)"

fun number_from :: "nat \<Rightarrow> (string \<times> string) list list \<Rightarrow> stream_entry list" where
  "number_from n [] = []"
| "number_from n (f # fs) = \<lparr>se_ID = rdb_id n, se_Values = f\<rparr> # number_from (Suc n) fs"

fun stored_view :: "stored \<Rightarrow> rvalue" where
  "stored_view (KStr t) = RStr t"
| "stored_view (KSet ms) = RSet ms"
| "stored_view (KStream b fs gs) = RStream (number_from (Suc b) fs) gs"

definition rdb_view :: "rdb \<Rightarrow> string \<rightharpoonup> rvalue" where
  "rdb_view s k = map_option stored_view (s k)"

definition wrong_type :: redis_error where "wrong_type = ReplyError ''WRONGTYPE''"

fun stream_at :: "stored option \<Rightarrow> (nat \<times> (string \<times> string) list list \<times> groups) option" where
  "stream_at None = Some (0, [], Map.empty)"
| "stream_at (Some (KStream b fs gs)) = Some (b, fs, gs)"
| "stream_at (Some _) = None"

fun text_at :: "stored option \<Rightarrow> string option option" where
  "text_at None = Some None"
| "text_at (Some (KStr t)) = Some (Some t)"
| "text_at (Some _) = None"

fun set_at :: "stored option \<Rightarrow> string list option" where
  "set_at None = Some []"
| "set_at (Some (KSet ms)) = Some ms"
| "set_at (Some _) = None"

definition rdb_xadd :: "string \<Rightarrow> (string \<times> string) list \<Rightarrow> rdb \<Rightarrow> (redis_error + string) \<times> rdb" where
  "rdb_xadd k f s =
     (case stream_at (s k) of
        None \<Rightarrow> (Inl wrong_type, s)
      | Some (b, fs, gs) \<Rightarrow> (Inr (rdb_id (Suc (b + length fs))), s(k \<mapsto> KStream b (fs @ [f]) gs)))"

definition rdb_select ::
  "(stream_entry list \<Rightarrow> stream_entry list) \<Rightarrow> string \<Rightarrow> rdb \<Rightarrow> (redis_error + stream_entry list) \<times> rdb"
where
  "rdb_select f k s = (Inr (f (entries_of (rdb_view s k))), s)"

definition rdb_xread :: "string \<Rightarrow> string \<Rightarrow> int \<Rightarrow> rdb \<Rightarrow> (redis_error + stream_entry list) \<times> rdb" where
  "rdb_xread k i c s =
     (case rdb_select (\<lambda>es. take (nat c) (filter (\<lambda>e. rdb_rank i < rdb_rank (se_ID e)) es)) k s of
        (a, s1) \<Rightarrow> (if a = Inr [] then Inl ReplyNil else a, s1))"

definition rdb_xgroup :: "string \<Rightarrow> string \<Rightarrow> string \<Rightarrow> rdb \<Rightarrow> redis_error option \<times> rdb" where
  "rdb_xgroup k g i s =
     (case stream_at (s k) of
        None \<Rightarrow> (Some wrong_type, s)
      | Some (b, fs, gs) \<Rightarrow>
          if gs g \<noteq> None then (Some (ReplyError ''BUSYGROUP''), s)
          else (None, s(k \<mapsto> KStream b fs (gs(g \<mapsto> (rdb_rank i, {}))))))"

definition rdb_xreadgroup ::
  "string \<Rightarrow> string \<Rightarrow> string \<Rightarrow> string \<Rightarrow> int \<Rightarrow> rdb \<Rightarrow> (redis_error + stream_entry list) \<times> rdb"
where
  "rdb_xreadgroup k g c i n s =
     (case s k of
        Some (KStream b fs gs) \<Rightarrow>
          (case gs g of
             None \<Rightarrow> (Inl (ReplyError ''NOGROUP''), s)
           | Some (lst, pend) \<Rightarrow>
               if i = ''>'' then
                 let msgs = take (nat n) (filter (\<lambda>e. lst < rdb_rank (se_ID e)) (number_from (Suc b) fs)) in
                 if msgs = [] then (Inl ReplyNil, s)
                 else (Inr msgs, s(k \<mapsto> KStream b fs
                         (gs(g \<mapsto> (rdb_rank (se_ID (last msgs)), pend \<union> se_ID ` set msgs)))))
               else (Inr (take (nat n) (filter (\<lambda>e. se_ID e \<in> pend) (number_from (Suc b) fs))), s))
      | _ \<Rightarrow> (Inl (ReplyError ''NOGROUP''), s))"

definition rdb_xack :: "string \<Rightarrow> string \<Rightarrow> string list \<Rightarrow> rdb \<Rightarrow> redis_error option \<times> rdb" where
  "rdb_xack k g ids s =
     (case s k of
        Some (KStream b fs gs) \<Rightarrow>
          (case gs g of
             None \<Rightarrow> (None, s)
           | Some (lst, pend) \<Rightarrow> (None, s(k \<mapsto> KStream b fs (gs(g \<mapsto> (lst, pend - set ids))))))
      | _ \<Rightarrow> (None, s))"

definition rdb_xtrim :: "string \<Rightarrow> int \<Rightarrow> int \<Rightarrow> rdb \<Rightarrow> redis_error option \<times> rdb" where
  "rdb_xtrim k n l s =
     (case s k of
        Some (KStream b fs gs) \<Rightarrow>
          let d = length fs - nat n in (None, s(k \<mapsto> KStream (b + d) (drop d fs) gs))
      | _ \<Rightarrow> (None, s))"

definition rdb_setnx :: "string \<Rightarrow> string \<Rightarrow> duration \<Rightarrow> rdb \<Rightarrow> (redis_error + bool) \<times> rdb" where
  "rdb_setnx k v t s = (if s k = None then (Inr True, s(k \<mapsto> KStr v)) else (Inr False, s))"

definition rdb_get :: "string \<Rightarrow> rdb \<Rightarrow> (redis_error + string) \<times> rdb" where
  "rdb_get k s =
     ((case text_at (s k) of
         None \<Rightarrow> Inl wrong_type | Some None \<Rightarrow> Inl ReplyNil | Some (Some t) \<Rightarrow> Inr t), s)"

definition rdb_append :: "string \<Rightarrow> string \<Rightarrow> rdb \<Rightarrow> redis_error option \<times> rdb" where
  "rdb_append k d s =
     (case text_at (s k) of
        None \<Rightarrow> (Some wrong_type, s)
      | Some t \<Rightarrow> (None, s(k \<mapsto> KStr ((case t of None \<Rightarrow> [] | Some u \<Rightarrow> u) @ d))))"

definition rdb_smembers :: "string \<Rightarrow> rdb \<Rightarrow> (redis_error + string list) \<times> rdb" where
  "rdb_smembers k s =
     ((case set_at (s k) of None \<Rightarrow> Inl wrong_type | Some ms \<Rightarrow> Inr (remdups ms)), s)"

definition rdb_sadd :: "string \<Rightarrow> string \<Rightarrow> rdb \<Rightarrow> redis_error option \<times> rdb" where
  "rdb_sadd k m s =
     (case set_at (s k) of
        None \<Rightarrow> (Some wrong_type, s) | Some ms \<Rightarrow> (None, s(k \<mapsto> KSet (List.insert m ms))))"

definition rdb_srem :: "string \<Rightarrow> string \<Rightarrow> rdb \<Rightarrow> redis_error option \<times> rdb" where
  "rdb_srem k m s =
     (case set_at (s k) of
        None \<Rightarrow> (Some wrong_type, s)
      | Some ms \<Rightarrow>
          (None, s(k := (if removeAll m ms = [] then None else Some (KSet (removeAll m ms))))))"

definition rdb_server :: "rdb stream_server" where
  "rdb_server =
     \<lparr>sr_XAdd = rdb_xadd,
      sr_XRange = (\<lambda>k a b. rdb_select (filter (\<lambda>e.
         (a = ''-'' \<or> rdb_rank a \<le> rdb_rank (se_ID e)) \<and> rdb_rank (se_ID e) \<le> rdb_rank b)) k),
      sr_XRevRangeN = (\<lambda>k a b c. rdb_select (\<lambda>es. take (nat c) (rev es)) k),
      sr_XRead = rdb_xread,
      sr_XLen = (\<lambda>k s. (Inr (int (length (entries_of (rdb_view s k)))), s)),
      sr_XTrimMaxLenApprox = rdb_xtrim,
      sr_XGroupCreateMkStream = rdb_xgroup,
      sr_XReadGroup = rdb_xreadgroup,
      sr_XAck = rdb_xack,
      sr_SAdd = rdb_sadd,
      sr_SRem = rdb_srem,
      sr_SMembers = rdb_smembers,
      sr_Del = (\<lambda>k s. (None, s(k := None))),
      sr_SetNX = rdb_setnx,
      sr_Get = rdb_get,
      sr_Append = rdb_append,
      sr_Expire = (\<lambda>k t s. (None, s)),
      sr_ctxErr = (\<lambda>s. False)\<rparr>"

lemmas rdb_defs = rdb_xadd_def rdb_select_def rdb_xread_def rdb_xgroup_def rdb_xreadgroup_def
  rdb_xack_def rdb_xtrim_def rdb_setnx_def rdb_get_def rdb_append_def rdb_smembers_def
  rdb_sadd_def rdb_srem_def

lemma rdb_server_fields [simp]:
  "sr_XAdd rdb_server = rdb_xadd" "sr_XRead rdb_server = rdb_xread"
  "sr_XRange rdb_server = (\<lambda>k a b. rdb_select (filter (\<lambda>e.
     (a = ''-'' \<or> rdb_rank a \<le> rdb_rank (se_ID e)) \<and> rdb_rank (se_ID e) \<le> rdb_rank b)) k)"
  "sr_XRevRangeN rdb_server = (\<lambda>k a b c. rdb_select (\<lambda>es. take (nat c) (rev es)) k)"
  "sr_XTrimMaxLenApprox rdb_server = rdb_xtrim" "sr_XGroupCreateMkStream rdb_server = rdb_xgroup"
  "sr_XReadGroup rdb_server = rdb_xreadgroup" "sr_XAck rdb_server = rdb_xack"
  "sr_SAdd rdb_server = rdb_sadd" "sr_SRem rdb_server = rdb_srem"
  "sr_SMembers rdb_server = rdb_smembers" "sr_Del rdb_server = (\<lambda>k s. (None, s(k := None)))"
  "sr_SetNX rdb_server = rdb_setnx" "sr_Get rdb_server = rdb_get"
  "sr_Append rdb_server = rdb_append" "sr_Expire rdb_server = (\<lambda>k t s. (None, s))"
  "sr_ctxErr rdb_server = (\<lambda>s. False)"
  by (simp_all add: rdb_server_def)

lemma takeWhile_digits: "list_all is_digit ds \<Longrightarrow> takeWhile (\<lambda>c. c \<noteq> CHR ''-'') (ds @ CHR ''-'' # r) = ds"
  by (induction ds) (auto simp: is_digit_def)

lemma rdb_rank_id [simp]: "rdb_rank (rdb_id n) = n"
  using takeWhile_digits [OF show_nat_digits, of n "''0''"]
  by (simp add: rdb_rank_def rdb_id_def read_show_nat)

lemma number_from_ranks [simp]: "map (rdb_rank \<circ> se_ID) (number_from n fs) = [n..<n + length fs]"
  by (induction n fs rule: number_from.induct) (auto simp: upt_rec)

lemma number_from_append:
  "number_from n (fs @ gs) = number_from n fs @ number_from (n + length fs) gs"
  by (induction n fs rule: number_from.induct) auto

lemma number_from_positive: "e \<in> set (number_from (Suc b) fs) \<Longrightarrow> 0 < rdb_rank (se_ID e)"
proof -
  assume "e \<in> set (number_from (Suc b) fs)"
  then have "rdb_rank (se_ID e) \<in> set (map (rdb_rank \<circ> se_ID) (number_from (Suc b) fs))"
    by (auto simp del: number_from_ranks)
  then show ?thesis unfolding number_from_ranks by (simp del: upt_Suc)
qed

lemma number_from_named: "e \<in> set (number_from n fs) \<Longrightarrow> se_ID e \<noteq> []"
  by (induction n fs rule: number_from.induct) (auto simp: rdb_id_def)

lemma stored_cases:
  obtains "v = None" | t where "v = Some (KStr t)" | ms where "v = Some (KSet ms)"
    | b fs gs where "v = Some (KStream b fs gs)"
  by (metis not_None_eq stored.exhaust)


lemma rdb_frame:
  "k' \<noteq> k \<Longrightarrow> snd (rdb_xadd k f s) k' = s k'"
  "k' \<noteq> k \<Longrightarrow> snd (rdb_xtrim k n l s) k' = s k'"
  "k' \<noteq> k \<Longrightarrow> snd (rdb_xgroup k g i s) k' = s k'"
  "k' \<noteq> k \<Longrightarrow> snd (rdb_xreadgroup k g c i n s) k' = s k'"
  "k' \<noteq> k \<Longrightarrow> snd (rdb_xack k g ids s) k' = s k'"
  "k' \<noteq> k \<Longrightarrow> snd (rdb_sadd k m s) k' = s k'"
  "k' \<noteq> k \<Longrightarrow> snd (rdb_srem k m s) k' = s k'"
  "k' \<noteq> k \<Longrightarrow> snd (rdb_setnx k v t s) k' = s k'"
  "k' \<noteq> k \<Longrightarrow> snd (rdb_append k v s) k' = s k'"
  by (auto simp: rdb_defs Let_def split: option.splits stored.splits)

lemma rdb_reads [simp]:
  "snd (rdb_select f k s) = s" "snd (rdb_xread k i c s) = s" "snd (rdb_get k s) = s"
  "snd (rdb_smembers k s) = s"
  by (simp_all add: rdb_defs)

interpretation rdb: stream_view rdb_server rdb_view rdb_rank
proof unfold_locales
  show "sorted_wrt (<) (map (rdb_rank \<circ> se_ID) (entries_of (rdb_view s k)))" for s k
    by (cases "s k" rule: stored_cases) (simp_all add: rdb_view_def del: upt_Suc)
  show "e \<in> set (entries_of (rdb_view s k)) \<Longrightarrow> 0 < rdb_rank (se_ID e)" for e s k
    by (cases "s k" rule: stored_cases) (auto simp: rdb_view_def dest: number_from_positive)
  show "e \<in> set (entries_of (rdb_view s k)) \<Longrightarrow> se_ID e \<noteq> []" for e s k
    by (cases "s k" rule: stored_cases) (auto simp: rdb_view_def dest: number_from_named)
  show "rdb_rank ''0-0'' = 0" by code_simp
qed (simp_all add: rdb_view_def rdb_frame fun_eq_iff)

lemma rdb_entries_select:
  "fst (rdb_select f k s) = Inr msgs \<Longrightarrow> msgs = f (entries_of (rdb_view s k))"
  by (simp add: rdb_select_def)

lemma take1_rev: "take (nat 1) (rev es) = (if es = [] then [] else [last es])"
  by (cases es rule: rev_cases) auto

lemma removeAll_Nil: "removeAll x xs = [] \<longleftrightarrow> set xs \<subseteq> {x}"
  by (induction xs) auto

interpretation rdb: stream_reads rdb_server rdb_view rdb_rank
proof unfold_locales
  fix k fs i s s' assume a: "sr_XAdd rdb_server k fs s = (Inr i, s')"
  then show "entries_of (rdb_view s' k) = entries_of (rdb_view s k) @ [\<lparr>se_ID = i, se_Values = fs\<rparr>]"
    by (cases "s k" rule: stored_cases)
      (auto simp: rdb_xadd_def rdb_view_def number_from_append)
next
  fix k fs e s s' assume "sr_XAdd rdb_server k fs s = (Inl e, s')"
  then show "rdb_view s' = rdb_view s"
    by (cases "s k" rule: stored_cases) (auto simp: rdb_xadd_def)
next
  fix k m s show "entries_of (rdb_view (snd (sr_SAdd rdb_server k m s)) k) = entries_of (rdb_view s k)"
    by (cases "s k" rule: stored_cases) (auto simp: rdb_sadd_def rdb_view_def)
next
  fix k i c s msgs s' assume "sr_XRead rdb_server k i c s = (Inr msgs, s')"
  then have "fst (rdb_select (\<lambda>es. take (nat c) (filter (\<lambda>e. rdb_rank i < rdb_rank (se_ID e)) es)) k s) = Inr msgs"
    by (auto simp: rdb_xread_def split: prod.splits if_splits)
  from rdb_entries_select [OF this]
  show "\<exists>n. msgs = take n (filter (\<lambda>e. rdb_rank i < rdb_rank (se_ID e)) (entries_of (rdb_view s k)))"
    by blast
next
  fix k b s msgs s' assume "sr_XRange rdb_server k ''-'' b s = (Inr msgs, s')"
  then show "msgs = filter (\<lambda>e. rdb_rank (se_ID e) \<le> rdb_rank b) (entries_of (rdb_view s k))"
    by (simp add: rdb_entries_select)
next
  fix k a b s msgs s' assume "sr_XRange rdb_server k a b s = (Inr msgs, s')" "a \<noteq> ''-''"
  then show "msgs = filter (\<lambda>e. rdb_rank a \<le> rdb_rank (se_ID e) \<and> rdb_rank (se_ID e) \<le> rdb_rank b)
      (entries_of (rdb_view s k))"
    by (simp add: rdb_entries_select)
next
  fix k s msgs s' assume "sr_XRevRangeN rdb_server k ''+'' ''-'' 1 s = (Inr msgs, s')"
  then have "fst (rdb_select (\<lambda>es. take (nat 1) (rev es)) k s) = Inr msgs" by simp
  from rdb_entries_select [OF this]
  show "msgs = (if entries_of (rdb_view s k) = [] then [] else [last (entries_of (rdb_view s k))])"
    unfolding take1_rev .
qed

interpretation rdb: stream_groups rdb_server rdb_view rdb_rank
proof unfold_locales
  show "group_of (rdb_view s k) g = Some q \<Longrightarrow>
      group_of (rdb_view (snd (sr_XGroupCreateMkStream rdb_server k g' i s)) k) g = Some q" for s k g q g' i
    by (cases "s k" rule: stored_cases; cases q) (auto simp: rdb_xgroup_def rdb_view_def)
  show "entries_of (rdb_view (snd (sr_XGroupCreateMkStream rdb_server k g i s)) k) =
      entries_of (rdb_view s k)" for k g i s
    by (cases "s k" rule: stored_cases) (auto simp: rdb_xgroup_def rdb_view_def)
  show "\<exists>lst pend m. group_of (rdb_view s k) g = Some (lst, pend) \<and>
          msgs = take m (filter (\<lambda>e. lst < rdb_rank (se_ID e)) (entries_of (rdb_view s k))) \<and>
          group_of (rdb_view s' k) g = Some (if msgs = [] then lst else rdb_rank (se_ID (last msgs)),
                                          pend \<union> se_ID ` set msgs)"
    if "sr_XReadGroup rdb_server k g c ''>'' n s = (Inr msgs, s')" for k g c n s msgs s'
    using that
    by (cases "s k" rule: stored_cases)
      (auto simp: rdb_xreadgroup_def rdb_view_def Let_def split: option.splits if_splits,
        rule exI, rule refl)
  show "\<exists>lst' pend'. group_of (rdb_view (snd (sr_XReadGroup rdb_server k g c i n s)) k) g = Some (lst', pend') \<and>
          lst \<le> lst' \<and> pend \<subseteq> pend'"
    if "group_of (rdb_view s k) g = Some (lst, pend)" for s k g lst pend c i n
  proof (cases "s k" rule: stored_cases)
    case (4 b fs gs)
    let ?m = "take (nat n) (filter (\<lambda>e. lst < rdb_rank (se_ID e)) (number_from (Suc b) fs))"
    have "?m \<noteq> [] \<Longrightarrow> lst < rdb_rank (se_ID (last ?m))" by (rule last_take_filter)
    with 4 that show ?thesis
      by (cases "?m = []")
        (auto simp: rdb_xreadgroup_def rdb_view_def Let_def less_imp_le)
  qed (use that in \<open>auto simp: rdb_view_def\<close>)
  show "\<exists>pend'. group_of (rdb_view (snd (sr_XAck rdb_server k g ids s)) k) g = Some (lst, pend') \<and>
          pend - set ids \<subseteq> pend'"
    if "group_of (rdb_view s k) g = Some (lst, pend)" for s k g lst pend ids
    using that by (cases "s k" rule: stored_cases) (auto simp: rdb_xack_def rdb_view_def)
  show "group_of (rdb_view s k) g = Some q \<Longrightarrow>
      group_of (rdb_view (snd (sr_XTrimMaxLenApprox rdb_server k n l s)) k) g = Some q" for s k g q n l
    by (cases "s k" rule: stored_cases) (auto simp: rdb_xtrim_def rdb_view_def Let_def)
  show "group_of (rdb_view (snd (sr_SAdd rdb_server k v s)) k) = group_of (rdb_view s k)" for k v s
    by (cases "s k" rule: stored_cases) (auto simp: rdb_sadd_def rdb_view_def fun_eq_iff)
  show "group_of (rdb_view s k) g = Some q \<Longrightarrow>
      group_of (rdb_view (snd (sr_XAdd rdb_server k fs s)) k) g = Some q" for s k g q fs
    by (cases "s k" rule: stored_cases) (auto simp: rdb_xadd_def rdb_view_def)
qed

interpretation rdb: stream_texts rdb_server rdb_view rdb_rank
proof unfold_locales
  show "\<exists>b s'. sr_SetNX rdb_server k v t s = (Inr b, s') \<and> (b \<longleftrightarrow> rdb_view s k = None) \<and>
        rdb_view s' k = (if b then Some (RStr v) else rdb_view s k)" for k v t s
    by (auto simp: rdb_setnx_def rdb_view_def)
  show "sr_Get rdb_server k s = (Inr t, s') \<Longrightarrow> rdb_view s k = Some (RStr t)" for k s t s'
    by (cases "s k" rule: stored_cases) (auto simp: rdb_get_def rdb_view_def)
  show "rdb_view s k = None \<Longrightarrow> fst (sr_Get rdb_server k s) = Inl ReplyNil" for k s
    by (auto simp: rdb_get_def rdb_view_def)
  show "rdb_view s k = Some (RStr t) \<Longrightarrow> fst (sr_Get rdb_server k s) = Inr t" for k s t
    by (cases "s k" rule: stored_cases) (auto simp: rdb_get_def rdb_view_def)
  show "rdb_view s k = None \<or> (\<exists>t. rdb_view s k = Some (RStr t)) \<Longrightarrow>
        fst (sr_Append rdb_server k d s) = None \<and>
        rdb_view (snd (sr_Append rdb_server k d s)) k = Some (RStr (text_of (rdb_view s k) @ d))" for s k d
    by (cases "s k" rule: stored_cases) (auto simp: rdb_append_def rdb_view_def)
  show "0 < t \<Longrightarrow> fst (sr_Expire rdb_server k t s) = None \<and>
      rdb_view (snd (sr_Expire rdb_server k t s)) k = rdb_view s k" for t k s
    by simp
  show "rdb_view s k = None \<or> (\<exists>ms. rdb_view s k = Some (RSet ms)) \<Longrightarrow>
        fst (sr_SAdd rdb_server k m s) = None \<and>
        (\<exists>ms. rdb_view (snd (sr_SAdd rdb_server k m s)) k = Some (RSet ms) \<and>
              set ms = insert m (members_of (rdb_view s k)))" for s k m
    by (cases "s k" rule: stored_cases) (auto simp: rdb_sadd_def rdb_view_def)
  show "rdb_view s k = None \<or> (\<exists>ms. rdb_view s k = Some (RSet ms)) \<Longrightarrow>
        fst (sr_SRem rdb_server k m s) = None \<and>
        members_of (rdb_view (snd (sr_SRem rdb_server k m s)) k) = members_of (rdb_view s k) - {m} \<and>
        (rdb_view (snd (sr_SRem rdb_server k m s)) k = None \<or>
          (\<exists>ms. rdb_view (snd (sr_SRem rdb_server k m s)) k = Some (RSet ms)))" for s k m
    by (cases "s k" rule: stored_cases) (auto simp: rdb_srem_def rdb_view_def removeAll_Nil)
  show "rdb_view s k = None \<or> (\<exists>ms. rdb_view s k = Some (RSet ms)) \<Longrightarrow>
        \<exists>ms. fst (sr_SMembers rdb_server k s) = Inr ms \<and> set ms = members_of (rdb_view s k) \<and> distinct ms" for s k
    by (cases "s k" rule: stored_cases) (auto simp: rdb_smembers_def rdb_view_def)
  show "fst (sr_Del rdb_server k s) = None \<and> rdb_view (snd (sr_Del rdb_server k s)) k = None" for k s
    by (simp add: rdb_view_def)
qed

end
