(* ===== verification/TapsInv.thy ===== *)
theory TapsInv
  imports Taps StreamServer "HOL-Library.Sublist"
begin

text \<open>
  The invariant of the event bus: positions of taps, windows of subscribers and the links between
  goroutines, and that every step of a tap, of a subscription and of a publisher keeps it.
\<close>

section \<open>Lists ordered by a rank\<close>

definition below :: "('a \<Rightarrow> nat) \<Rightarrow> nat \<Rightarrow> 'a list \<Rightarrow> 'a list" where
  "below f x es = filter (\<lambda>e. f e \<le> x) es"

definition after :: "('a \<Rightarrow> nat) \<Rightarrow> nat \<Rightarrow> 'a list \<Rightarrow> 'a list" where
  "after f x es = filter (\<lambda>e. x < f e) es"

definition seg :: "('a \<Rightarrow> nat) \<Rightarrow> nat \<Rightarrow> nat \<Rightarrow> 'a list \<Rightarrow> 'a list" where
  "seg f lo hi es = filter (\<lambda>e. lo < f e \<and> f e \<le> hi) es"

text \<open>Every later entry ranks above \<open>x\<close>.\<close>

definition covered :: "('a \<Rightarrow> nat) \<Rightarrow> nat \<Rightarrow> 'a list \<Rightarrow> bool" where
  "covered f x es \<longleftrightarrow> x = 0 \<or> (\<exists>e \<in> set es. x \<le> f e)"

lemma ranked_split: "sorted_wrt (<) (map f es) \<Longrightarrow> es = below f x es @ after f x es"
proof (induction es)
  case (Cons a es)
  show ?case
  proof (cases "f a \<le> x")
    case True
    with Cons show ?thesis by (simp add: below_def after_def)
  next
    case False
    with Cons.prems have "\<forall>e \<in> set (a # es). x < f e" by auto
    then have "below f x (a # es) = []" "after f x (a # es) = a # es"
      by (auto simp: below_def after_def filter_empty_conv filter_id_conv)
    then show ?thesis by simp
  qed
qed (simp add: below_def after_def)

lemma after_Cons:
  assumes es: "sorted_wrt (<) (map f es)" and m: "m # ms = take n (after f x es)"
  shows "x < f m" "m \<in> set es" "after f x es = m # after f (f m) es" "\<exists>k. ms = take k (after f (f m) es)"
proof -
  obtain rest where a: "after f x es = m # rest" using m by (cases "after f x es"; cases n) auto
  then have mm: "m \<in> set (after f x es)" by simp
  then show "x < f m" and "m \<in> set es" by (simp_all add: after_def)
  have sorted: "sorted_wrt (<) (map f (after f x es))"
    using es unfolding after_def by (metis sorted_wrt_filter sorted_wrt_map)
  then have "after f (f m) (after f x es) = rest"
    unfolding a by (auto simp: after_def filter_id_conv)
  moreover have "after f (f m) (after f x es) = after f (f m) es"
    using \<open>x < f m\<close> unfolding after_def filter_filter by (intro filter_cong) auto
  ultimately have "rest = after f (f m) es" by simp
  with a m show "after f x es = m # after f (f m) es" "\<exists>k. ms = take k (after f (f m) es)"
    by (cases n; auto)+
qed

lemma below_step:
  assumes "sorted_wrt (<) (map f es)" and "after f x es = m # after f (f m) es" and "x < f m"
  shows "below f (f m) es = below f x es @ [m]"
proof -
  have "below f (f m) es = filter (\<lambda>e. f e \<le> f m) (below f x es @ m # after f (f m) es)"
    using ranked_split [OF assms(1), of x] assms(2) unfolding below_def by metis
  also have "\<dots> = below f x es @ [m]"
    using assms(3) by (simp add: below_def after_def filter_empty_conv) (intro filter_cong, auto)
  finally show ?thesis .
qed

lemma seg_below: "seg f lo hi es = after f lo (below f hi es)"
  by (simp add: seg_def after_def below_def conj_commute)

lemma seg_step:
  assumes "sorted_wrt (<) (map f es)" and "after f x es = m # after f (f m) es" and "x < f m"
    and "lo \<le> x"
  shows "seg f lo (f m) es = seg f lo x es @ [m]"
  using assms(3,4) unfolding seg_below below_step [OF assms(1-3)] by (simp add: after_def)

lemma below_seg:
  assumes es: "sorted_wrt (<) (map f es)" and "a \<le> p"
  shows "below f p es = below f a es @ seg f a p es"
proof -
  have "below f p es = filter (\<lambda>e. f e \<le> p) (below f a es @ after f a es)"
    using ranked_split [OF es, of a] unfolding below_def by metis
  also have "\<dots> = below f a es @ seg f a p es"
    using assms(2) by (simp add: below_def after_def seg_def conj_commute) (intro filter_cong, auto)
  finally show ?thesis .
qed

lemma seg_split:
  assumes es: "sorted_wrt (<) (map f es)" and "a \<le> m" and "m \<le> p"
  shows "seg f a p es = seg f a m es @ seg f m p es"
proof -
  have "seg f a p es = after f a (below f m es @ seg f m p es)"
    unfolding seg_below [of f a p] below_seg [OF es assms(3)] ..
  also have "\<dots> = seg f a m es @ seg f m p es"
    using assms(2) unfolding seg_below [of f a m] by (simp add: after_def seg_def) (intro filter_cong, auto)
  finally show ?thesis .
qed

lemma seg_self [simp]: "seg f x x es = []"
  by (simp add: seg_def filter_empty_conv)

lemma grow:
  assumes "sorted_wrt (<) (map f (es @ [e]))" and "0 < f e" and "covered f x es"
  shows "x < f e" "below f x (es @ [e]) = below f x es" "seg f lo x (es @ [e]) = seg f lo x es"
    "after f x (es @ [e]) = after f x es @ [e]" "covered f x (es @ [e])"
proof -
  show "x < f e" using assms by (auto simp: covered_def sorted_wrt_append)
  then show "below f x (es @ [e]) = below f x es" "seg f lo x (es @ [e]) = seg f lo x es"
    "after f x (es @ [e]) = after f x es @ [e]"
    by (simp_all add: below_def seg_def after_def)
  show "covered f x (es @ [e])" using assms(3) by (auto simp: covered_def)
qed

lemma covered_le: "covered f y es \<Longrightarrow> x \<le> y \<Longrightarrow> covered f x es"
  unfolding covered_def by (meson le_trans le_zero_eq)

lemma take_after_grow:
  assumes "sorted_wrt (<) (map f (es @ [e]))" and "0 < f e" and "covered f x es"
    and "ms = take n (after f x es)"
  shows "\<exists>k. ms = take k (after f x (es @ [e]))"
  using assms(4) grow(4) [OF assms(1-3)] by (metis append_take_drop_id take_all_iff nat_le_linear take_append append_Nil2 diff_is_0_eq take0)

section \<open>What one subscriber has been given\<close>

text \<open>
  The history sent on attaching at rank \<open>a\<close>, for the cursor the caller asked for. There is none
  (\<open>h\<close> is False) when the server answers the range command with an error; \<open>av\<close> says it never does.
\<close>

definition backfilled :: "(string \<Rightarrow> nat) \<Rightarrow> string \<Rightarrow> nat \<Rightarrow> stream_entry list \<Rightarrow> stream_entry list" where
  "backfilled rank from a es =
     (if from = ''$'' then []
      else filter (\<lambda>e. \<not> backfill_skips from e \<and> rank (se_ID e) \<le> a \<and>
                       (backfill_start from = ''-'' \<or> rank from \<le> rank (se_ID e))) es)"

abbreviation erank :: "(string \<Rightarrow> nat) \<Rightarrow> stream_entry \<Rightarrow> nat" where
  "erank rank e \<equiv> rank (se_ID e)"

definition given :: "(string \<Rightarrow> nat) \<Rightarrow> bool \<Rightarrow> string \<Rightarrow> nat \<Rightarrow> nat \<Rightarrow> nat \<Rightarrow> stream_entry list \<Rightarrow> StreamEvent list" where
  "given rank h cursor a lo p es =
     map event_of ((if h then backfilled rank (backfillFrom cursor) a es else []) @ seg (erank rank) lo p es)"

definition window ::
  "(string \<Rightarrow> nat) \<Rightarrow> stream_entry list \<Rightarrow> nat \<Rightarrow> nat \<Rightarrow> nat \<Rightarrow> nat \<Rightarrow> bool \<Rightarrow> bool"
where
  "window rank es a lo p pos att \<longleftrightarrow>
     a \<le> lo \<and> lo \<le> p \<and> p \<le> pos \<and> covered (erank rank) p es \<and>
     length (seg (erank rank) a lo es) \<le> 1 \<and> (att \<longrightarrow> p = pos)"

text \<open>Before the backfill is read, while events arrive, and after the last of them was sent.\<close>

definition filling :: "(string \<Rightarrow> nat) \<Rightarrow> stream_entry list \<Rightarrow> nat \<Rightarrow> nat \<Rightarrow> bool \<Rightarrow> StreamEvent list \<Rightarrow> bool" where
  "filling rank es a pos att ch \<longleftrightarrow>
     (\<exists>lo p. window rank es a lo p pos att \<and> ch = map event_of (seg (erank rank) lo p es))"

definition receiving :: "bool \<Rightarrow> (string \<Rightarrow> nat) \<Rightarrow> stream_entry list \<Rightarrow> string \<Rightarrow> nat \<Rightarrow> bool \<Rightarrow> StreamEvent list \<Rightarrow> bool" where
  "receiving av rank es cursor pos att evs \<longleftrightarrow>
     (\<exists>h a lo p. (av \<longrightarrow> h) \<and> window rank es a lo p pos att \<and> evs = given rank h cursor a lo p es)"

definition received :: "bool \<Rightarrow> (string \<Rightarrow> nat) \<Rightarrow> stream_entry list \<Rightarrow> string \<Rightarrow> StreamEvent list \<Rightarrow> bool" where
  "received av rank es cursor evs \<longleftrightarrow>
     (\<exists>h a lo p q. (av \<longrightarrow> h) \<and> window rank es a lo p q False \<and> prefix evs (given rank h cursor a lo p es))"

definition stream_ok ::
  "bool \<Rightarrow> (string \<Rightarrow> nat) \<Rightarrow> stream_entry list \<Rightarrow> nat \<Rightarrow> bool \<Rightarrow> StreamEvent list \<Rightarrow> client \<Rightarrow> bool"
where
  "stream_ok av rank es pos att ch cl =
     (case cl_pc cl of
        Starting \<Rightarrow> cl_out cl = []
      | HasTap t \<Rightarrow> cl_out cl = []
      | Filling t i up \<Rightarrow>
          cl_out cl = [] \<and> up \<noteq> [] \<and> backfillFrom (cl_cursor cl) \<noteq> ''$'' \<and>
          filling rank es (rank up) pos att ch
      | Sending t i ms \<Rightarrow>
          receiving av rank es (cl_cursor cl) pos att (cl_out cl @ map event_of ms @ ch)
      | Receiving t i \<Rightarrow> receiving av rank es (cl_cursor cl) pos att (cl_out cl @ ch)
      | Forwarding t i e \<Rightarrow> receiving av rank es (cl_cursor cl) pos att (cl_out cl @ e # ch)
      | _ \<Rightarrow> received av rank es (cl_cursor cl) (cl_out cl))"

fun sub_of :: "client_pc \<Rightarrow> (nat \<times> nat) option" where
  "sub_of (Filling t i up) = Some (t, i)"
| "sub_of (Sending t i ms) = Some (t, i)"
| "sub_of (Receiving t i) = Some (t, i)"
| "sub_of (Forwarding t i e) = Some (t, i)"
| "sub_of (Detaching t i) = Some (t, i)"
| "sub_of _ = None"

fun tap_of :: "client_pc \<Rightarrow> nat option" where
  "tap_of (HasTap t) = Some t"
| "tap_of (Unmapping t) = Some t"
| "tap_of (Cancelling t) = Some t"
| "tap_of (Awaiting t) = Some t"
| "tap_of p = map_option fst (sub_of p)"

definition tap_pos :: "(string \<Rightarrow> nat) \<Rightarrow> conv_tap \<Rightarrow> nat" where
  "tap_pos rank tap =
     (case tp_pc tap of TapAdvance i ms \<Rightarrow> rank i | _ \<Rightarrow> rank (tp_cursor tap))"

definition listed :: "conv_tap \<Rightarrow> nat list" where
  "listed tap = (case tp_subscribers tap of None \<Rightarrow> [] | Some subs \<Rightarrow> subs)"

definition tap_ok :: "(string \<Rightarrow> nat) \<Rightarrow> stream_entry list \<Rightarrow> nat \<Rightarrow> conv_tap \<Rightarrow> bool" where
  "tap_ok rank es n tap \<longleftrightarrow>
     covered (erank rank) (tap_pos rank tap) es \<and> tp_cursor tap \<noteq> [] \<and>
     rank (tp_cursor tap) \<le> tap_pos rank tap \<and>
     length (seg (erank rank) (rank (tp_cursor tap)) (tap_pos rank tap) es) \<le> 1 \<and>
     distinct (listed tap) \<and> (\<forall>i \<in> set (listed tap). i < n) \<and>
     (case tp_pc tap of
        TapReading p \<Rightarrow> p = tp_cursor tap
      | TapBroadcast m ms \<Rightarrow>
          (\<exists>k. m # ms = take k (after (erank rank) (rank (tp_cursor tap)) es))
      | TapAdvance i ms \<Rightarrow> i \<noteq> [] \<and> (\<exists>k. ms = take k (after (erank rank) (rank i) es))
      | _ \<Rightarrow> True)"

text \<open>How the goroutine of a client is tied to its tap and its subscriber.\<close>

definition link_ok :: "conv_tap list \<Rightarrow> nat \<Rightarrow> client \<Rightarrow> bool" where
  "link_ok taps n cl \<longleftrightarrow>
     (\<forall>t. tap_of (cl_pc cl) = Some t \<longrightarrow> t < length taps \<and> tp_convID (taps ! t) = cl_convID cl) \<and>
     (\<forall>t i. sub_of (cl_pc cl) = Some (t, i) \<longrightarrow>
        i < n \<and> (\<forall>t' < length taps. t' \<noteq> t \<longrightarrow> i \<notin> set (listed (taps ! t'))))"

definition sub_index :: "client \<Rightarrow> nat option" where
  "sub_index cl = map_option snd (sub_of (cl_pc cl))"

definition client_ok ::
  "bool \<Rightarrow> (string \<Rightarrow> nat) \<Rightarrow> (string \<Rightarrow> stream_entry list) \<Rightarrow> conv_tap list \<Rightarrow> subscriber list \<Rightarrow> client \<Rightarrow> bool"
where
  "client_ok av rank es taps subs cl =
     (case sub_of (cl_pc cl) of
        None \<Rightarrow> stream_ok av rank (es (cl_convID cl)) 0 False [] cl
      | Some (t, i) \<Rightarrow>
          stream_ok av rank (es (cl_convID cl)) (tap_pos rank (taps ! t)) (i \<in> set (listed (taps ! t)))
            (sb_ch (subs ! i)) cl)"

definition entries_at :: "('s \<Rightarrow> string \<rightharpoonup> rvalue) \<Rightarrow> 's \<Rightarrow> string \<Rightarrow> stream_entry list" where
  "entries_at view s convID = entries_of (view s (streamKey convID))"

definition bus_inv :: "bool \<Rightarrow> ('s \<Rightarrow> string \<rightharpoonup> rvalue) \<Rightarrow> (string \<Rightarrow> nat) \<Rightarrow> 's bus \<Rightarrow> bool" where
  "bus_inv av view rank b \<longleftrightarrow>
     (\<forall>t < length (bs_tap b).
        tap_ok rank (entries_at view (bs_server b) (tp_convID (bs_tap b ! t))) (length (bs_sub b)) (bs_tap b ! t)) \<and>
     (\<forall>convID t. bs_taps b convID = Some t \<longrightarrow>
        t < length (bs_tap b) \<and> tp_convID (bs_tap b ! t) = convID) \<and>
     (\<forall>cl \<in> set (bs_client b).
        link_ok (bs_tap b) (length (bs_sub b)) cl \<and>
        client_ok av rank (entries_at view (bs_server b)) (bs_tap b) (bs_sub b) cl) \<and>
     (\<forall>c < length (bs_client b). \<forall>c' < length (bs_client b). c \<noteq> c' \<longrightarrow>
        sub_index (bs_client b ! c) \<noteq> None \<longrightarrow> sub_index (bs_client b ! c) \<noteq> sub_index (bs_client b ! c'))"

section \<open>How it changes\<close>

text \<open>A new entry does not touch what the window covers.\<close>

lemma window_grow:
  assumes "sorted_wrt (<) (map (rank \<circ> se_ID) (es @ [e]))" and "0 < rank (se_ID e)"
    and w: "window rank es a lo p pos att"
  shows "window rank (es @ [e]) a lo p pos att"
    and "given rank h cursor a lo p (es @ [e]) = given rank h cursor a lo p es"
    and "seg (erank rank) lo p (es @ [e]) = seg (erank rank) lo p es"
proof -
  have s: "sorted_wrt (<) (map (erank rank) (es @ [e]))" using assms(1) by (simp add: comp_def)
  have p: "covered (erank rank) p es" and le: "a \<le> lo" "lo \<le> p"
    using w by (auto simp: window_def)
  note p_grow = grow [OF s assms(2) p]
  note lo_grow = grow [OF s assms(2) covered_le [OF p le(2)]]
  show "window rank (es @ [e]) a lo p pos att"
    using w p_grow(5) lo_grow(3) by (simp add: window_def)
  show "seg (erank rank) lo p (es @ [e]) = seg (erank rank) lo p es" by (rule p_grow(3))
  have "a < rank (se_ID e)" using le p_grow(1) by simp
  then show "given rank h cursor a lo p (es @ [e]) = given rank h cursor a lo p es"
    using p_grow(3) by (simp add: given_def backfilled_def)
qed

lemma phases_grow:
  assumes "sorted_wrt (<) (map (rank \<circ> se_ID) (es @ [e]))" and "0 < rank (se_ID e)"
  shows "filling rank es a pos att ch \<Longrightarrow> filling rank (es @ [e]) a pos att ch"
    and "receiving av rank es c pos att evs \<Longrightarrow> receiving av rank (es @ [e]) c pos att evs"
    and "received av rank es c evs \<Longrightarrow> received av rank (es @ [e]) c evs"
  using window_grow [OF assms] unfolding filling_def receiving_def received_def by metis+

lemma stream_ok_grow:
  assumes "sorted_wrt (<) (map (rank \<circ> se_ID) (es @ [e]))" and "0 < rank (se_ID e)"
    and "stream_ok av rank es pos att ch cl"
  shows "stream_ok av rank (es @ [e]) pos att ch cl"
  using assms(3) phases_grow [OF assms(1,2)]
  by (cases "cl_pc cl") (simp_all add: stream_ok_def)

text \<open>The tap moves on without this subscriber, or drops it.\<close>

lemma window_drop: "window rank es a lo p pos att \<Longrightarrow> pos \<le> pos' \<Longrightarrow> window rank es a lo p pos' False"
  by (simp add: window_def)

lemma phases_drop:
  assumes "pos \<le> pos'"
  shows "filling rank es a pos att ch \<Longrightarrow> filling rank es a pos' False ch"
    and "receiving av rank es c pos att evs \<Longrightarrow> receiving av rank es c pos' False evs"
  using window_drop [OF _ assms] unfolding filling_def receiving_def by metis+

lemma stream_ok_drop:
  "stream_ok av rank es pos att ch cl \<Longrightarrow> pos \<le> pos' \<Longrightarrow> stream_ok av rank es pos' False ch cl"
  using phases_drop [of pos pos'] by (cases "cl_pc cl") (auto simp: stream_ok_def)

lemma receiving_received: "receiving av rank es c pos att (evs @ rest) \<Longrightarrow> received av rank es c evs"
  unfolding receiving_def received_def by (metis prefixI window_drop order_refl)

text \<open>The tap hands it the next event.\<close>

lemma window_offer:
  assumes "window rank es a lo p pos True" and "pos < rank (se_ID m)" and "m \<in> set es"
  shows "p = pos" "lo \<le> pos" "window rank es a lo (rank (se_ID m)) (rank (se_ID m)) True"
  using assms by (auto simp: window_def covered_def)

lemma phases_offer:
  assumes sorted: "sorted_wrt (<) (map (erank rank) es)"
    and next_: "after (erank rank) pos es = m # after (erank rank) (rank (se_ID m)) es"
    and lt: "pos < rank (se_ID m)" and m: "m \<in> set es"
  shows "filling rank es a pos True ch \<Longrightarrow> filling rank es a (rank (se_ID m)) True (ch @ [event_of m])"
    and "receiving av rank es c pos True evs \<Longrightarrow> receiving av rank es c (rank (se_ID m)) True (evs @ [event_of m])"
proof -
  have seg: "lo \<le> pos \<Longrightarrow> seg (erank rank) lo (rank (se_ID m)) es = seg (erank rank) lo pos es @ [m]" for lo
    by (rule seg_step [OF sorted next_ lt])
  show "filling rank es a (rank (se_ID m)) True (ch @ [event_of m])" if f: "filling rank es a pos True ch"
  proof -
    from f obtain lo p where o: "window rank es a lo p pos True" "ch = map event_of (seg (erank rank) lo p es)"
      unfolding filling_def by blast
    then show ?thesis
      unfolding filling_def using window_offer [OF o(1) lt m] seg [of lo]
      by (intro exI [of _ lo] exI [of _ "rank (se_ID m)"]) simp
  qed
  show "receiving av rank es c (rank (se_ID m)) True (evs @ [event_of m])" if f: "receiving av rank es c pos True evs"
  proof -
    from f obtain h a lo p where o: "window rank es a lo p pos True" "evs = given rank h c a lo p es" "av \<longrightarrow> h"
      unfolding receiving_def by blast
    then show ?thesis
      unfolding receiving_def using window_offer [OF o(1) lt m] seg [of lo]
      by (intro exI [of _ h] exI [of _ a] exI [of _ lo] exI [of _ "rank (se_ID m)"]) (use o(3) in \<open>simp add: given_def\<close>)
  qed
qed

lemma stream_ok_offer:
  assumes ok: "stream_ok av rank es pos True ch cl"
    and "sorted_wrt (<) (map (erank rank) es)"
    and "after (erank rank) pos es = m # after (erank rank) (rank (se_ID m)) es"
    and "pos < rank (se_ID m)" and "m \<in> set es"
  shows "stream_ok av rank es (rank (se_ID m)) True (ch @ [event_of m]) cl"
  using ok phases_offer [OF assms(2-5)]
  by (cases "cl_pc cl") (simp_all add: stream_ok_def, (metis append.assoc append_Cons)+)

section \<open>Every step keeps it\<close>

lemma set_fields [simp]:
  "bs_server (set_tap t f b) = bs_server b" "bs_taps (set_tap t f b) = bs_taps b"
  "bs_sub (set_tap t f b) = bs_sub b" "bs_client (set_tap t f b) = bs_client b"
  "bs_tap (set_tap t f b) = (bs_tap b)[t := f (bs_tap b ! t)]"
  "bs_server (set_sub i g b) = bs_server b" "bs_taps (set_sub i g b) = bs_taps b"
  "bs_tap (set_sub i g b) = bs_tap b" "bs_client (set_sub i g b) = bs_client b"
  "bs_sub (set_sub i g b) = (bs_sub b)[i := g (bs_sub b ! i)]"
  "bs_server (set_client c h b) = bs_server b" "bs_taps (set_client c h b) = bs_taps b"
  "bs_tap (set_client c h b) = bs_tap b" "bs_sub (set_client c h b) = bs_sub b"
  "bs_client (set_client c h b) = (bs_client b)[c := h (bs_client b ! c)]"
  by (simp_all add: set_tap_def set_sub_def set_client_def)

lemma fold_set_sub [simp]:
  "bs_server (fold (\<lambda>i. set_sub i g) is b) = bs_server b"
  "bs_taps (fold (\<lambda>i. set_sub i g) is b) = bs_taps b"
  "bs_tap (fold (\<lambda>i. set_sub i g) is b) = bs_tap b"
  "bs_client (fold (\<lambda>i. set_sub i g) is b) = bs_client b"
  "length (bs_sub (fold (\<lambda>i. set_sub i g) is b)) = length (bs_sub b)"
  by (induction "is" arbitrary: b) simp_all

lemma fold_set_sub_nth:
  "distinct is \<Longrightarrow> j < length (bs_sub b) \<Longrightarrow>
   bs_sub (fold (\<lambda>i. set_sub i g) is b) ! j = (if j \<in> set is then g (bs_sub b ! j) else bs_sub b ! j)"
  by (induction "is" arbitrary: b) (auto simp: nth_list_update, metis nth_list_update_neq)

text \<open>The parts of the invariant, one by one.\<close>

lemma bus_invI:
  assumes "\<And>t. t < length (bs_tap b) \<Longrightarrow>
      tap_ok rank (entries_at view (bs_server b) (tp_convID (bs_tap b ! t))) (length (bs_sub b)) (bs_tap b ! t)"
    and "\<And>convID t. bs_taps b convID = Some t \<Longrightarrow> t < length (bs_tap b) \<and> tp_convID (bs_tap b ! t) = convID"
    and "\<And>c. c < length (bs_client b) \<Longrightarrow> link_ok (bs_tap b) (length (bs_sub b)) (bs_client b ! c)"
    and "\<And>c. c < length (bs_client b) \<Longrightarrow>
      client_ok av rank (entries_at view (bs_server b)) (bs_tap b) (bs_sub b) (bs_client b ! c)"
    and "\<And>c c'. c < length (bs_client b) \<Longrightarrow> c' < length (bs_client b) \<Longrightarrow> c \<noteq> c' \<Longrightarrow>
      sub_index (bs_client b ! c) \<noteq> None \<Longrightarrow> sub_index (bs_client b ! c) \<noteq> sub_index (bs_client b ! c')"
  shows "bus_inv av view rank b"
  using assms unfolding bus_inv_def by (auto simp: in_set_conv_nth)

lemma bus_invD:
  assumes "bus_inv av view rank b"
  shows "t < length (bs_tap b) \<Longrightarrow>
      tap_ok rank (entries_at view (bs_server b) (tp_convID (bs_tap b ! t))) (length (bs_sub b)) (bs_tap b ! t)"
    and "bs_taps b convID = Some t \<Longrightarrow> t < length (bs_tap b) \<and> tp_convID (bs_tap b ! t) = convID"
    and "c < length (bs_client b) \<Longrightarrow> link_ok (bs_tap b) (length (bs_sub b)) (bs_client b ! c)"
    and "c < length (bs_client b) \<Longrightarrow>
      client_ok av rank (entries_at view (bs_server b)) (bs_tap b) (bs_sub b) (bs_client b ! c)"
    and "c < length (bs_client b) \<Longrightarrow> c' < length (bs_client b) \<Longrightarrow> c \<noteq> c' \<Longrightarrow>
      sub_index (bs_client b ! c) \<noteq> None \<Longrightarrow> sub_index (bs_client b ! c) \<noteq> sub_index (bs_client b ! c')"
  using assms unfolding bus_inv_def by auto

text \<open>
  Steps of a tap: the others stay, and for each subscriber it lists the events handed out match
  the change of its position.
\<close>

lemma tap_change:
  assumes inv: "bus_inv av view rank b" and t: "t < length (bs_tap b)"
    and same: "bs_taps b' = bs_taps b" "bs_client b' = bs_client b"
      "length (bs_sub b') = length (bs_sub b)" "bs_tap b' = (bs_tap b)[t := tap']"
      "entries_at view (bs_server b') = entries_at view (bs_server b)"
    and conv: "tp_convID tap' = tp_convID (bs_tap b ! t)"
    and subs: "set (listed tap') \<subseteq> set (listed (bs_tap b ! t))"
    and ok: "tap_ok rank (entries_at view (bs_server b) (tp_convID tap')) (length (bs_sub b)) tap'"
    and others: "\<And>i. i < length (bs_sub b) \<Longrightarrow> i \<notin> set (listed (bs_tap b ! t)) \<Longrightarrow>
      sb_ch (bs_sub b' ! i) = sb_ch (bs_sub b ! i)"
    and mono: "tap_pos rank (bs_tap b ! t) \<le> tap_pos rank tap'"
    and moved: "\<And>i cl. i \<in> set (listed (bs_tap b ! t)) \<Longrightarrow>
      stream_ok av rank (entries_at view (bs_server b) (tp_convID tap')) (tap_pos rank (bs_tap b ! t)) True (sb_ch (bs_sub b ! i)) cl \<Longrightarrow>
      stream_ok av rank (entries_at view (bs_server b) (tp_convID tap')) (tap_pos rank tap')
        (i \<in> set (listed tap')) (sb_ch (bs_sub b' ! i)) cl"
  shows "bus_inv av view rank b'"
proof (rule bus_invI)
  note D = bus_invD [OF inv]
  show "tap_ok rank (entries_at view (bs_server b') (tp_convID (bs_tap b' ! u))) (length (bs_sub b')) (bs_tap b' ! u)"
    if "u < length (bs_tap b')" for u
    using that D(1) [of u] ok same by (cases "u = t") auto
  show "u < length (bs_tap b') \<and> tp_convID (bs_tap b' ! u) = convID" if "bs_taps b' convID = Some u" for convID u
    using that D(2) [of convID u] same conv by (cases "u = t") auto
  show "link_ok (bs_tap b') (length (bs_sub b')) (bs_client b' ! c)" if "c < length (bs_client b')" for c
  proof -
    have "set (listed (bs_tap b' ! u)) \<subseteq> set (listed (bs_tap b ! u)) \<and> tp_convID (bs_tap b' ! u) = tp_convID (bs_tap b ! u)"
      if "u < length (bs_tap b)" for u
      using that subs conv same t by (cases "u = t") auto
    then show ?thesis using D(3) [of c] that same unfolding link_ok_def by (auto; blast)
  qed
  show "client_ok av rank (entries_at view (bs_server b')) (bs_tap b') (bs_sub b') (bs_client b' ! c)"
    if c: "c < length (bs_client b')" for c
  proof -
    let ?cl = "bs_client b ! c"
    have cc: "c < length (bs_client b)" using c same by simp
    note L = D(3) [OF cc] and C = D(4) [OF cc]
    show ?thesis
    proof (cases "sub_of (cl_pc ?cl)")
      case None
      with C same show ?thesis by (simp add: client_ok_def)
    next
      case (Some ti)
      obtain u i where ti: "sub_of (cl_pc ?cl) = Some (u, i)" using Some by (cases ti) auto
      then have "tap_of (cl_pc ?cl) = Some u" by (cases "cl_pc ?cl") auto
      with L ti have u: "u < length (bs_tap b)" "tp_convID (bs_tap b ! u) = cl_convID ?cl" "i < length (bs_sub b)"
        "\<And>t'. t' < length (bs_tap b) \<Longrightarrow> t' \<noteq> u \<Longrightarrow> i \<notin> set (listed (bs_tap b ! t'))"
        by (auto simp: link_ok_def)
      have C': "stream_ok av rank (entries_at view (bs_server b) (cl_convID ?cl)) (tap_pos rank (bs_tap b ! u))
          (i \<in> set (listed (bs_tap b ! u))) (sb_ch (bs_sub b ! i)) ?cl"
        using C ti by (simp add: client_ok_def)
      show ?thesis
      proof (cases "u = t")
        case False
        with u t have "i \<notin> set (listed (bs_tap b ! t))" by blast
        with False C' u(3) others same ti show ?thesis by (simp add: client_ok_def)
      next
        case True
        show ?thesis
        proof (cases "i \<in> set (listed (bs_tap b ! t))")
          case True
          with C' moved [of i ?cl] \<open>u = t\<close> u conv same t ti show ?thesis by (simp add: client_ok_def)
        next
          case False
          with subs have "i \<notin> set (listed tap')" by blast
          with False C' stream_ok_drop [OF _ mono] \<open>u = t\<close> u others conv same t ti show ?thesis
            by (auto simp: client_ok_def)
        qed
      qed
    qed
  qed
  show "sub_index (bs_client b' ! c) \<noteq> sub_index (bs_client b' ! c')"
    if "c < length (bs_client b')" "c' < length (bs_client b')" "c \<noteq> c'" "sub_index (bs_client b' ! c) \<noteq> None" for c c'
    using that D(5) [of c c'] same by simp
qed

lemma offer_ch:
  "sb_ch (offer evt s) = (if chan_full s then sb_ch s else sb_ch s @ [evt])"
  by (simp add: offer_def)

lemma listed_simps [simp]:
  "listed (tap\<lparr>tp_pc := p\<rparr>) = listed tap" "listed (tap\<lparr>tp_cursor := i\<rparr>) = listed tap"
  "listed (tap\<lparr>tp_cancelled := x\<rparr>) = listed tap"
  "listed (tap\<lparr>tp_subscribers := Some subs\<rparr>) = subs" "listed (tap\<lparr>tp_subscribers := None\<rparr>) = []"
  by (simp_all add: listed_def)

lemma no_subs_update: "tp_subscribers tap = None \<Longrightarrow> tap\<lparr>tp_subscribers := None, tp_pc := q\<rparr> = tap\<lparr>tp_pc := q\<rparr>"
  by (cases tap) simp

context stream_reads
begin

lemma entries_ranked: "sorted_wrt (<) (map (erank rank) (entries_at view s convID))"
  using entries_sorted by (simp add: entries_at_def comp_def)

lemma xread_entries: "entries_at view (snd (sr_XRead r k i n s)) = entries_at view s"
  by (simp add: entries_at_def xread_view fun_eq_iff)

text \<open>A tap that changes only its program point, at the same position.\<close>

lemma tap_goto:
  assumes inv: "bus_inv av view rank b" and t: "t < length (bs_tap b)"
    and s: "entries_at view s = entries_at view (bs_server b)"
    and pos: "tap_pos rank tap' = tap_pos rank (bs_tap b ! t)"
    and tap': "listed tap' = listed (bs_tap b ! t)" "tp_convID tap' = tp_convID (bs_tap b ! t)"
    and ok: "tap_ok rank (entries_at view (bs_server b) (tp_convID (bs_tap b ! t))) (length (bs_sub b)) tap'"
  shows "bus_inv av view rank (set_tap t (\<lambda>_. tap') (b\<lparr>bs_server := s\<rparr>))"
  by (rule tap_change [OF inv t, where tap' = tap']) (use assms in \<open>auto simp: pos tap'\<close>)

lemma tap_broadcast:
  assumes inv: "bus_inv av view rank b" and t: "t < length (bs_tap b)"
    and pc: "tp_pc (bs_tap b ! t) = TapBroadcast m ms"
  shows "bus_inv av view rank (tap_to t (TapAdvance (se_ID m) ms) (broadcast t (event_of m) b))"
proof -
  let ?tap = "bs_tap b ! t"
  let ?es = "entries_at view (bs_server b) (tp_convID ?tap)"
  let ?b' = "tap_to t (TapAdvance (se_ID m) ms) (broadcast t (event_of m) b)"
  have ok: "tap_ok rank ?es (length (bs_sub b)) ?tap" by (rule bus_invD(1) [OF inv t])
  have pos: "tap_pos rank ?tap = rank (tp_cursor ?tap)" using pc by (simp add: tap_pos_def)
  obtain k where k: "m # ms = take k (after (erank rank) (rank (tp_cursor ?tap)) ?es)"
    using ok pc by (auto simp: tap_ok_def)
  note A = after_Cons [OF entries_ranked k]
  have seg1: "seg (erank rank) (rank (tp_cursor ?tap)) (rank (se_ID m)) ?es = [m]"
    using seg_step [OF entries_ranked A(3) A(1) order_refl] by simp
  let ?subs = "filter (\<lambda>i. \<not> chan_full (bs_sub b ! i)) (listed ?tap)"
  let ?tap' = "?tap\<lparr>tp_subscribers := map_option (\<lambda>_. ?subs) (tp_subscribers ?tap), tp_pc := TapAdvance (se_ID m) ms\<rparr>"
  have tap': "bs_tap ?b' = (bs_tap b)[t := ?tap']"
    using t by (cases "tp_subscribers ?tap") (simp_all add: broadcast_def listed_def no_subs_update)
  have listed': "listed ?tap' = ?subs" by (cases "tp_subscribers ?tap") (simp_all add: listed_def)
  have pos': "tap_pos rank ?tap' = rank (se_ID m)" by (simp add: tap_pos_def)
  have d: "distinct (listed ?tap)" and lt: "\<And>i. i \<in> set (listed ?tap) \<Longrightarrow> i < length (bs_sub b)"
    using ok by (auto simp: tap_ok_def)
  have ch: "bs_sub ?b' ! i = (if i \<in> set (listed ?tap) then offer (event_of m) (bs_sub b ! i) else bs_sub b ! i)"
    if "i < length (bs_sub b)" for i
    using that d by (cases "tp_subscribers ?tap") (simp_all add: broadcast_def listed_def fold_set_sub_nth)
  show ?thesis
  proof (rule tap_change [OF inv t, where tap' = ?tap'])
    show "bs_taps ?b' = bs_taps b" "bs_client ?b' = bs_client b" "length (bs_sub ?b') = length (bs_sub b)"
      "entries_at view (bs_server ?b') = entries_at view (bs_server b)"
      by (cases "tp_subscribers ?tap"; simp add: broadcast_def)+
    show "tap_ok rank (entries_at view (bs_server b) (tp_convID ?tap')) (length (bs_sub b)) ?tap'"
      unfolding tap_ok_def pos' listed' using d lt A seg1 ok entries_named
      by (auto simp: covered_def tap_ok_def entries_at_def)
    show "tap_pos rank ?tap \<le> tap_pos rank ?tap'" using A(1) by (simp add: pos pos')
    fix i cl
    assume i: "i \<in> set (listed ?tap)"
      and so: "stream_ok av rank (entries_at view (bs_server b) (tp_convID ?tap')) (tap_pos rank ?tap) True (sb_ch (bs_sub b ! i)) cl"
    show "stream_ok av rank (entries_at view (bs_server b) (tp_convID ?tap')) (tap_pos rank ?tap')
        (i \<in> set (listed ?tap')) (sb_ch (bs_sub ?b' ! i)) cl"
    proof -
      have mem: "(i \<in> set (listed ?tap')) = (\<not> chan_full (bs_sub b ! i))"
        unfolding listed' using i by simp
      have sb: "sb_ch (bs_sub ?b' ! i) =
          (if chan_full (bs_sub b ! i) then sb_ch (bs_sub b ! i) else sb_ch (bs_sub b ! i) @ [event_of m])"
        unfolding ch [OF lt [OF i]] using i by (simp add: offer_ch)
      show ?thesis
        unfolding mem sb pos'
        using stream_ok_drop [OF so, of "rank (se_ID m)"] stream_ok_offer [OF so entries_ranked, of m] A(1-3) pos
        by simp
    qed
  next
    show "bs_tap ?b' = (bs_tap b)[t := ?tap']" by (rule tap')
    show "set (listed ?tap') \<subseteq> set (listed ?tap)" unfolding listed' by auto
    show "sb_ch (bs_sub ?b' ! i) = sb_ch (bs_sub b ! i)"
      if "i < length (bs_sub b)" "i \<notin> set (listed ?tap)" for i
      using that by (simp only: ch if_False)
  qed simp
qed

lemma tap_leave:
  assumes inv: "bus_inv av view rank b" and t: "t < length (bs_tap b)"
    and pc: "tp_pc (bs_tap b ! t) = TapLeaving"
  shows "bus_inv av view rank (tap_to t TapDone (close_all t b))"
proof -
  let ?tap = "bs_tap b ! t"
  let ?tap' = "?tap\<lparr>tp_subscribers := None, tp_pc := TapDone\<rparr>"
  have ok: "tap_ok rank (entries_at view (bs_server b) (tp_convID ?tap)) (length (bs_sub b)) ?tap"
    by (rule bus_invD(1) [OF inv t])
  have d: "distinct (listed ?tap)" using ok by (simp add: tap_ok_def)
  have pos: "tap_pos rank ?tap' = tap_pos rank ?tap" using pc by (simp add: tap_pos_def)
  have ca: "close_all t b = set_tap t (tp_subscribers_update (\<lambda>_. None))
      (fold (\<lambda>i. set_sub i (sb_closed_update (\<lambda>_. True))) (listed ?tap) b)"
    by (simp add: close_all_def listed_def)
  have ch: "sb_ch (bs_sub (tap_to t TapDone (close_all t b)) ! i) = sb_ch (bs_sub b ! i)" if "i < length (bs_sub b)" for i
    using that by (simp add: ca fold_set_sub_nth [OF d])
  show ?thesis
    by (rule tap_change [OF inv t, where tap' = ?tap'])
      (use ok pc ch t in \<open>auto simp: ca tap_ok_def pos intro: stream_ok_drop\<close>)
qed

text \<open>Every step of a tap.\<close>

lemma tap_settle:
  assumes ok: "tap_ok rank es n tap" and pc: "\<And>i ms. tp_pc tap \<noteq> TapAdvance i ms"
    and p: "p = TapLoop \<or> p = TapLeaving \<or> p = TapReading (tp_cursor tap) \<or>
      (\<exists>m ms k. p = TapBroadcast m ms \<and> m # ms = take k (after (erank rank) (rank (tp_cursor tap)) es))"
  shows "tap_ok rank es n (tap\<lparr>tp_pc := p\<rparr>)" "tap_pos rank (tap\<lparr>tp_pc := p\<rparr>) = tap_pos rank tap"
proof -
  have "tap_pos rank tap = rank (tp_cursor tap)"
    using pc by (auto simp: tap_pos_def split: tap_pc.split)
  moreover have "tap_pos rank (tap\<lparr>tp_pc := p\<rparr>) = rank (tp_cursor tap)" using p by (auto simp: tap_pos_def)
  ultimately show "tap_pos rank (tap\<lparr>tp_pc := p\<rparr>) = tap_pos rank tap" by simp
  with ok p show "tap_ok rank es n (tap\<lparr>tp_pc := p\<rparr>)" by (auto simp: tap_ok_def)
qed

lemma next_message_cases:
  assumes "msgs = take k es"
  shows "next_message msgs = TapLoop \<or> (\<exists>m ms k. next_message msgs = TapBroadcast m ms \<and> m # ms = take k es)"
proof (cases msgs)
  case (Cons m ms)
  then have "next_message msgs = TapBroadcast m ms" by (simp add: next_message_def)
  moreover have "m # ms = take k es" using Cons assms by simp
  ultimately show ?thesis by blast
qed (simp add: next_message_def)

lemma tap_move:
  assumes inv: "bus_inv av view rank b" and t: "t < length (bs_tap b)"
    and pc: "\<And>i ms. tp_pc (bs_tap b ! t) \<noteq> TapAdvance i ms"
    and s: "entries_at view s = entries_at view (bs_server b)"
    and p: "p = TapLoop \<or> p = TapLeaving \<or> p = TapReading (tp_cursor (bs_tap b ! t)) \<or>
      (\<exists>m ms k. p = TapBroadcast m ms \<and> m # ms = take k (after (erank rank) (rank (tp_cursor (bs_tap b ! t)))
         (entries_at view (bs_server b) (tp_convID (bs_tap b ! t)))))"
  shows "bus_inv av view rank (tap_to t p (b\<lparr>bs_server := s\<rparr>))"
proof -
  note S = tap_settle [OF bus_invD(1) [OF inv t] pc p]
  have eq: "tap_to t p (b\<lparr>bs_server := s\<rparr>) = set_tap t (\<lambda>_. (bs_tap b ! t)\<lparr>tp_pc := p\<rparr>) (b\<lparr>bs_server := s\<rparr>)"
    by (simp add: set_tap_def)
  show ?thesis unfolding eq by (rule tap_goto [OF inv t s S(2)]) (use S(1) in simp_all)
qed

lemma tap_advance:
  assumes inv: "bus_inv av view rank b" and t: "t < length (bs_tap b)"
    and pc: "tp_pc (bs_tap b ! t) = TapAdvance i ms"
  shows "bus_inv av view rank (tap_to t (next_message ms) (set_tap t (tp_cursor_update (\<lambda>_. i)) b))"
proof -
  let ?tap' = "(bs_tap b ! t)\<lparr>tp_cursor := i, tp_pc := next_message ms\<rparr>"
  let ?es = "entries_at view (bs_server b) (tp_convID (bs_tap b ! t))"
  have ok: "tap_ok rank ?es (length (bs_sub b)) (bs_tap b ! t)" by (rule bus_invD(1) [OF inv t])
  then obtain k where k: "ms = take k (after (erank rank) (rank i) ?es)" and i: "i \<noteq> []"
    using pc by (auto simp: tap_ok_def)
  note next_message_cases [OF k]
  then have pos: "tap_pos rank ?tap' = rank i" and ok': "tap_ok rank ?es (length (bs_sub b)) ?tap'"
    using ok pc i by (auto simp: tap_ok_def tap_pos_def)
  have eq: "tap_to t (next_message ms) (set_tap t (tp_cursor_update (\<lambda>_. i)) b) =
      set_tap t (\<lambda>_. ?tap') (b\<lparr>bs_server := bs_server b\<rparr>)"
    using t by (simp add: set_tap_def)
  show ?thesis unfolding eq
  proof (rule tap_goto [OF inv t refl])
    show "tap_pos rank ?tap' = tap_pos rank (bs_tap b ! t)" using pc by (simp only: pos) (simp add: tap_pos_def)
  qed (use ok' in simp_all)
qed

lemma tap_step_inv:
  assumes inv: "bus_inv av view rank b" and step: "tap_step r t b = Some b'"
  shows "bus_inv av view rank b'"
proof -
  have t: "t < length (bs_tap b)" using step by (auto simp: tap_step_def split: if_splits)
  let ?tap = "bs_tap b ! t"
  show ?thesis
  proof (cases "tp_pc ?tap")
    case TapLoop
    then show ?thesis using step t tap_move [OF inv t _ refl]
      by (auto simp: tap_step_def Let_def split: if_splits)
  next
    case (TapReading pos)
    have pos: "pos = tp_cursor ?tap" using bus_invD(1) [OF inv t] TapReading by (simp add: tap_ok_def)
    obtain a s1 where x: "sr_XRead r (streamKey (tp_convID ?tap)) pos 50 (bs_server b) = (a, s1)"
      by (cases "sr_XRead r (streamKey (tp_convID ?tap)) pos 50 (bs_server b)")
    have s1: "entries_at view s1 = entries_at view (bs_server b)"
      using xread_entries [of "streamKey (tp_convID ?tap)" pos 50 "bs_server b"] x by simp
    note M = tap_move [OF inv t _ s1]
    show ?thesis
    proof (cases a)
      case (Inl e)
      then show ?thesis using step t TapReading x M
        by (cases e) (auto simp: tap_step_def Let_def split: if_splits)
    next
      case (Inr msgs)
      then obtain k where "msgs = take k (after (erank rank) (rank pos) (entries_at view (bs_server b) (tp_convID ?tap)))"
        using xread_ok x unfolding entries_at_def after_def by blast
      note N = next_message_cases [OF this]
      have "b' = tap_to t (next_message msgs) (b\<lparr>bs_server := s1\<rparr>)"
        using step t TapReading x Inr by (simp add: tap_step_def)
      then show ?thesis using M [of "next_message msgs"] N TapReading pos by auto
    qed
  next
    case (TapBroadcast m ms)
    then show ?thesis using step t tap_broadcast [OF inv t TapBroadcast] by (simp add: tap_step_def)
  next
    case (TapAdvance i ms)
    then show ?thesis using step t tap_advance [OF inv t TapAdvance] by (simp add: tap_step_def)
  next
    case TapLeaving
    then show ?thesis using step t tap_leave [OF inv t TapLeaving] by (simp add: tap_step_def)
  next
    case TapDone
    then show ?thesis using step t by (simp add: tap_step_def)
  qed
qed

end

section \<open>Steps of a client\<close>

lemma client_change:
  assumes inv: "bus_inv av view rank b" and c: "c < length (bs_client b)"
    and client: "bs_client b' = (bs_client b)[c := cl']"
    and es: "entries_at view (bs_server b') = entries_at view (bs_server b)"
    and taps: "length (bs_tap b) \<le> length (bs_tap b')"
      "\<And>t. t < length (bs_tap b) \<Longrightarrow> tap_pos rank (bs_tap b' ! t) = tap_pos rank (bs_tap b ! t) \<and>
         tp_convID (bs_tap b' ! t) = tp_convID (bs_tap b ! t)"
      "\<And>t j. t < length (bs_tap b) \<Longrightarrow> j < length (bs_sub b) \<Longrightarrow> sub_index (bs_client b ! c) \<noteq> Some j \<Longrightarrow>
         j \<in> set (listed (bs_tap b' ! t)) \<longleftrightarrow> j \<in> set (listed (bs_tap b ! t))"
      "\<And>t. length (bs_tap b) \<le> t \<Longrightarrow> t < length (bs_tap b') \<Longrightarrow> listed (bs_tap b' ! t) = []"
    and subs: "length (bs_sub b) \<le> length (bs_sub b')"
      "\<And>j. j < length (bs_sub b) \<Longrightarrow> sub_index (bs_client b ! c) \<noteq> Some j \<Longrightarrow>
         sb_ch (bs_sub b' ! j) = sb_ch (bs_sub b ! j)"
    and ok: "\<And>t. t < length (bs_tap b') \<Longrightarrow>
      tap_ok rank (entries_at view (bs_server b) (tp_convID (bs_tap b' ! t))) (length (bs_sub b')) (bs_tap b' ! t)"
      "\<And>convID t. bs_taps b' convID = Some t \<Longrightarrow> t < length (bs_tap b') \<and> tp_convID (bs_tap b' ! t) = convID"
      "link_ok (bs_tap b') (length (bs_sub b')) cl'"
      "client_ok av rank (entries_at view (bs_server b)) (bs_tap b') (bs_sub b') cl'"
    and index: "sub_index cl' = None \<or> sub_index cl' = sub_index (bs_client b ! c) \<or>
      sub_index cl' = Some (length (bs_sub b))"
  shows "bus_inv av view rank b'"
proof (rule bus_invI)
  note D = bus_invD [OF inv]
  have own: "j < length (bs_sub b)" if "d < length (bs_client b)" "sub_index (bs_client b ! d) = Some j" for d j
    using D(3) [OF that(1)] that(2) unfolding link_ok_def sub_index_def by force
  have other: "link_ok (bs_tap b') (length (bs_sub b')) (bs_client b ! d) \<and>
      client_ok av rank (entries_at view (bs_server b)) (bs_tap b') (bs_sub b') (bs_client b ! d)"
    if d: "d < length (bs_client b)" "d \<noteq> c" for d
  proof -
    let ?d = "bs_client b ! d"
    note L = D(3) [OF d(1)] and C = D(4) [OF d(1)]
    have tap: "u < length (bs_tap b)" "tp_convID (bs_tap b ! u) = cl_convID ?d" if "tap_of (cl_pc ?d) = Some u" for u
      using L that by (auto simp: link_ok_def)
    show ?thesis
    proof (cases "sub_of (cl_pc ?d)")
      case None
      then show ?thesis using C tap taps(1,2) by (fastforce simp: client_ok_def link_ok_def)
    next
      case (Some ui)
      obtain u j where uj: "sub_of (cl_pc ?d) = Some (u, j)" using Some by (cases ui) auto
      then have tu: "tap_of (cl_pc ?d) = Some u" by (cases "cl_pc ?d") auto
      have j: "j < length (bs_sub b)" and free: "\<And>t'. t' < length (bs_tap b) \<Longrightarrow> t' \<noteq> u \<Longrightarrow> j \<notin> set (listed (bs_tap b ! t'))"
        using L uj by (auto simp: link_ok_def)
      have "sub_index ?d = Some j" using uj by (simp add: sub_index_def)
      then have own_c: "sub_index (bs_client b ! c) \<noteq> Some j" using D(5) [OF d(1) c d(2)] by simp
      have "j \<notin> set (listed (bs_tap b' ! t'))" if "t' < length (bs_tap b')" "t' \<noteq> u" for t'
        using that free taps(3) [OF _ j own_c] taps(4) by (cases "t' < length (bs_tap b)") auto
      then have "link_ok (bs_tap b') (length (bs_sub b')) ?d"
        using tap [OF tu] tu uj j taps(1,2) subs(1) by (fastforce simp: link_ok_def)
      moreover have "client_ok av rank (entries_at view (bs_server b)) (bs_tap b') (bs_sub b') ?d"
        using C uj tap(1) [OF tu] taps(2) taps(3) [OF _ j own_c] subs(2) [OF j own_c] by (simp add: client_ok_def)
      ultimately show ?thesis by blast
    qed
  qed
  have len: "length (bs_client b') = length (bs_client b)" using client by simp
  show "tap_ok rank (entries_at view (bs_server b') (tp_convID (bs_tap b' ! t))) (length (bs_sub b')) (bs_tap b' ! t)"
    if "t < length (bs_tap b')" for t using ok(1) [OF that] es by simp
  show "t < length (bs_tap b') \<and> tp_convID (bs_tap b' ! t) = convID" if "bs_taps b' convID = Some t" for convID t
    by (rule ok(2) [OF that])
  show "link_ok (bs_tap b') (length (bs_sub b')) (bs_client b' ! d)" if "d < length (bs_client b')" for d
    using that other [of d] ok(3) client c len by (cases "d = c") auto
  show "client_ok av rank (entries_at view (bs_server b')) (bs_tap b') (bs_sub b') (bs_client b' ! d)"
    if "d < length (bs_client b')" for d
    using that other [of d] ok(4) client c len es by (cases "d = c") auto
  show "sub_index (bs_client b' ! d) \<noteq> sub_index (bs_client b' ! d')"
    if "d < length (bs_client b')" "d' < length (bs_client b')" "d \<noteq> d'" "sub_index (bs_client b' ! d) \<noteq> None" for d d'
  proof -
    have fresh: "sub_index (bs_client b ! e) \<noteq> Some (length (bs_sub b))" if "e < length (bs_client b)" for e
      using own [OF that] by fastforce
    have sep: "sub_index (bs_client b ! e) \<noteq> sub_index cl' \<or> sub_index cl' = None"
      if "e < length (bs_client b)" "e \<noteq> c" for e
      using index fresh [OF that(1)] D(5) [OF c that(1)] that(2) by (metis (no_types))
    show ?thesis
      using that len client c D(5) [of d d'] sep [of d] sep [of d']
      by (cases "d = c"; cases "d' = c") auto
  qed
qed

lemma link_ok_local:
  assumes "link_ok taps n cl" and "cl_convID cl' = cl_convID cl"
    and "tap_of (cl_pc cl') = None \<or> tap_of (cl_pc cl') = tap_of (cl_pc cl)"
    and "sub_of (cl_pc cl') = None \<or> sub_of (cl_pc cl') = sub_of (cl_pc cl)"
  shows "link_ok taps n cl'"
  using assms unfolding link_ok_def by (metis option.distinct(1))

text \<open>A step of a client that leaves taps and subscribers alone.\<close>

lemma client_local:
  assumes inv: "bus_inv av view rank b" and c: "c < length (bs_client b)"
    and es: "entries_at view s = entries_at view (bs_server b)"
    and same: "cl_convID cl' = cl_convID (bs_client b ! c)"
    and tap: "tap_of (cl_pc cl') = None \<or> tap_of (cl_pc cl') = tap_of (cl_pc (bs_client b ! c))"
    and sub: "sub_of (cl_pc cl') = None \<or> sub_of (cl_pc cl') = sub_of (cl_pc (bs_client b ! c))"
    and ok: "client_ok av rank (entries_at view (bs_server b)) (bs_tap b) (bs_sub b) (bs_client b ! c) \<Longrightarrow>
      client_ok av rank (entries_at view (bs_server b)) (bs_tap b) (bs_sub b) cl'"
  shows "bus_inv av view rank (set_client c (\<lambda>_. cl') (b\<lparr>bs_server := s\<rparr>))"
proof -
  note D = bus_invD [OF inv]
  show ?thesis
  proof (rule client_change [OF inv c, where cl' = cl'])
    show "link_ok (bs_tap (set_client c (\<lambda>_. cl') (b\<lparr>bs_server := s\<rparr>)))
        (length (bs_sub (set_client c (\<lambda>_. cl') (b\<lparr>bs_server := s\<rparr>)))) cl'"
      using link_ok_local [OF D(3) [OF c] same tap sub] by simp
    show "sub_index cl' = None \<or> sub_index cl' = sub_index (bs_client b ! c) \<or> sub_index cl' = Some (length (bs_sub b))"
      using sub by (auto simp: sub_index_def)
  qed (use D(1,2) ok [OF D(4) [OF c]] es in auto)
qed

lemma received_Nil: "received av rank es c []"
  unfolding received_def window_def covered_def
  by (intro exI [of _ True] exI [of _ "0::nat"]) simp

lemma tap_ok_more: "tap_ok rank es n tap \<Longrightarrow> n \<le> n' \<Longrightarrow> tap_ok rank es n' tap"
  by (auto simp: tap_ok_def)

lemma tap_ok_subs:
  "tap_ok rank es n tap \<Longrightarrow> distinct (listed (tap\<lparr>tp_subscribers := x\<rparr>)) \<Longrightarrow>
   \<forall>i \<in> set (listed (tap\<lparr>tp_subscribers := x\<rparr>)). i < n \<Longrightarrow> tap_ok rank es n (tap\<lparr>tp_subscribers := x\<rparr>)"
  by (auto simp: tap_ok_def tap_pos_def cong: tap_pc.case_cong)

lemma tap_pos_fields [simp]:
  "tap_pos rank (tap\<lparr>tp_subscribers := x\<rparr>) = tap_pos rank tap"
  "tap_pos rank (tap\<lparr>tp_cancelled := y\<rparr>) = tap_pos rank tap"
  by (simp_all add: tap_pos_def cong: tap_pc.case_cong)

lemma tap_ok_cancelled: "tap_ok rank es n (tap\<lparr>tp_cancelled := y\<rparr>) = tap_ok rank es n tap"
  by (simp add: tap_ok_def cong: tap_pc.case_cong)

text \<open>The window of a subscriber that just attached.\<close>

lemma attach_window:
  assumes "tap_ok rank es n tap"
  shows "window rank es (rank (tp_cursor tap)) (tap_pos rank tap) (tap_pos rank tap) (tap_pos rank tap) True"
  using assms by (simp add: tap_ok_def window_def)

context stream_reads
begin

lemma reads_entries:
  "entries_at view (snd (sr_XRevRangeN r k a b n s)) = entries_at view s"
  "entries_at view (snd (sr_XRange r k a b s)) = entries_at view s"
  by (simp_all add: entries_at_def xrange_view xrevrange_view fun_eq_iff)

lemma start_inv:
  assumes inv: "bus_inv av view rank b" and c: "c < length (bs_client b)"
    and pc: "cl_pc (bs_client b ! c) = Starting"
    and create: "getOrCreateTap r (cl_convID (bs_client b ! c)) b = (t, b1)"
  shows "bus_inv av view rank (client_to c (HasTap t) b1)"
proof -
  note D = bus_invD [OF inv]
  let ?cl = "bs_client b ! c" and ?cl' = "(bs_client b ! c)\<lparr>cl_pc := HasTap t\<rparr>"
  have out: "cl_out ?cl = []" using D(4) [OF c] pc by (simp add: client_ok_def stream_ok_def)
  have fin: "client_ok av rank es taps subs ?cl'" for es taps subs
    using out by (simp add: client_ok_def stream_ok_def)
  show ?thesis
  proof (cases "bs_taps b (cl_convID ?cl)")
    case (Some t')
    with create have b1: "b1 = b" "t' = t" by (simp_all add: getOrCreateTap_def)
    with D(2) [OF Some] have t: "t < length (bs_tap b)" "tp_convID (bs_tap b ! t) = cl_convID ?cl" by auto
    show ?thesis unfolding b1
      by (rule client_change [OF inv c, where cl' = ?cl'])
        (use t D(1,2) fin in \<open>auto simp: link_ok_def sub_index_def\<close>)
  next
    case None
    obtain res s1 where x: "sr_XRevRangeN r (streamKey (cl_convID ?cl)) ''+'' ''-'' 1 (bs_server b) = (res, s1)"
      by (cases "sr_XRevRangeN r (streamKey (cl_convID ?cl)) ''+'' ''-'' 1 (bs_server b)")
    let ?cur = "case res of Inr (m # _) \<Rightarrow> se_ID m | _ \<Rightarrow> ''0-0''"
    let ?tap = "\<lparr>tp_convID = cl_convID ?cl, tp_cursor = ?cur, tp_subscribers = Some [],
                 tp_cancelled = False, tp_pc = TapLoop\<rparr>"
    have b1: "b1 = b\<lparr>bs_server := s1, bs_taps := (bs_taps b)(cl_convID ?cl \<mapsto> length (bs_tap b)),
        bs_tap := bs_tap b @ [?tap]\<rparr>" and t: "t = length (bs_tap b)"
      using create None x by (auto simp: getOrCreateTap_def Let_def)
    have s1: "entries_at view s1 = entries_at view (bs_server b)"
      using reads_entries(1) [of "streamKey (cl_convID ?cl)" "''+''" "''-''" 1 "bs_server b"] x by simp
    have cur: "?cur = ''0-0'' \<or> (\<exists>m \<in> set (entries_at view (bs_server b) (cl_convID ?cl)). ?cur = se_ID m)"
    proof (cases res)
      case (Inr msgs)
      with xrevrange_last x have "msgs = (if entries_at view (bs_server b) (cl_convID ?cl) = [] then []
          else [last (entries_at view (bs_server b) (cl_convID ?cl))])"
        unfolding entries_at_def by blast
      then show ?thesis using Inr by (cases msgs) (auto split: if_splits)
    qed simp
    then have "tap_ok rank (entries_at view (bs_server b) (cl_convID ?cl)) (length (bs_sub b)) ?tap"
      using rank_zero entries_named entries_named [THEN not_sym]
      by (auto simp: tap_ok_def tap_pos_def covered_def listed_def entries_at_def)
    then show ?thesis unfolding b1 t
      by (intro client_change [OF inv c, where cl' = "?cl\<lparr>cl_pc := HasTap (length (bs_tap b))\<rparr>"])
        (use D(1,2) fin s1 t in \<open>auto simp: nth_append link_ok_def sub_index_def less_Suc_eq listed_def split: if_splits\<close>)
  qed
qed

lemma attach_inv:
  assumes inv: "bus_inv av view rank b" and c: "c < length (bs_client b)"
    and pc: "cl_pc (bs_client b ! c) = HasTap t"
    and at: "attach t b = Some ((i, cur), b1)"
    and from_: "from = backfillFrom (cl_cursor (bs_client b ! c))"
  shows "bus_inv av view rank (client_to c (if from \<noteq> ''$'' then Filling t i cur else Receiving t i) b1)"
proof -
  note D = bus_invD [OF inv]
  let ?cl = "bs_client b ! c" and ?tap = "bs_tap b ! t"
  let ?es = "entries_at view (bs_server b) (cl_convID ?cl)"
  have t: "t < length (bs_tap b)" "tp_convID ?tap = cl_convID ?cl"
    using D(3) [OF c] pc by (auto simp: link_ok_def)
  have out: "cl_out ?cl = []" using D(4) [OF c] pc by (simp add: client_ok_def stream_ok_def)
  obtain subs where subs: "tp_subscribers ?tap = Some subs" "i = length (bs_sub b)" "cur = tp_cursor ?tap"
    and b1: "b1 = set_tap t (tp_subscribers_update (\<lambda>_. Some (i # subs)))
      (b\<lparr>bs_sub := bs_sub b @ [\<lparr>sb_ch = [], sb_closed = False, sb_evicted = False\<rparr>]\<rparr>)"
    using at by (auto simp: attach_def Let_def split: option.splits)
  have ok: "tap_ok rank ?es (length (bs_sub b)) ?tap" using D(1) [OF t(1)] t(2) by simp
  have listed: "listed ?tap = subs" using subs by (simp add: listed_def)
  have ok': "tap_ok rank ?es (Suc (length (bs_sub b))) (?tap\<lparr>tp_subscribers := Some (i # subs)\<rparr>)"
    using tap_ok_more [OF ok, of "Suc (length (bs_sub b))"] ok listed subs(2)
    by (intro tap_ok_subs) (auto simp: tap_ok_def)
  let ?pc = "if from \<noteq> ''$'' then Filling t i cur else Receiving t i"
  let ?cl' = "?cl\<lparr>cl_pc := ?pc\<rparr>"
  have others: "i \<notin> set (listed (bs_tap b ! t'))" if "t' < length (bs_tap b)" for t'
    using D(1) [OF that] subs(2) by (auto simp: tap_ok_def)
  have w: "window rank ?es (rank cur) (tap_pos rank ?tap) (tap_pos rank ?tap) (tap_pos rank ?tap) True"
    using attach_window [OF ok] subs(3) by simp
  have "filling rank ?es (rank cur) (tap_pos rank ?tap) True []"
    unfolding filling_def using w by (intro exI [of _ "tap_pos rank ?tap"]) simp
  moreover have "from = ''$'' \<Longrightarrow> receiving av rank ?es (cl_cursor ?cl) (tap_pos rank ?tap) True []"
    unfolding receiving_def using w from_
    by (intro exI [of _ True] exI [of _ "rank cur"] exI [of _ "tap_pos rank ?tap"])
      (simp add: given_def backfilled_def)
  moreover have "cur \<noteq> []" using ok subs(3) by (simp add: tap_ok_def)
  ultimately have so: "stream_ok av rank ?es (tap_pos rank ?tap) True [] ?cl'"
    using out from_ by (auto simp: stream_ok_def)
  have sub: "sub_of ?pc = Some (t, i)" "tap_of ?pc = Some t" by simp_all
  show ?thesis unfolding b1
  proof (rule client_change [OF inv c, where cl' = ?cl'])
    let ?b' = "client_to c ?pc (set_tap t (tp_subscribers_update (\<lambda>_. Some (i # subs)))
      (b\<lparr>bs_sub := bs_sub b @ [\<lparr>sb_ch = [], sb_closed = False, sb_evicted = False\<rparr>]\<rparr>))"
    show "link_ok (bs_tap ?b') (length (bs_sub ?b')) ?cl'"
      using sub t subs others by (auto simp: link_ok_def nth_list_update)
    show "client_ok av rank (entries_at view (bs_server b)) (bs_tap ?b') (bs_sub ?b') ?cl'"
      using so sub t subs(2) by (simp add: client_ok_def)
    show "tap_ok rank (entries_at view (bs_server b) (tp_convID (bs_tap ?b' ! u))) (length (bs_sub ?b')) (bs_tap ?b' ! u)"
      if "u < length (bs_tap ?b')" for u
      using that ok' t tap_ok_more [OF D(1) [of u], of "Suc (length (bs_sub b))"] by (cases "u = t") auto
    show "j \<in> set (listed (bs_tap ?b' ! u)) \<longleftrightarrow> j \<in> set (listed (bs_tap b ! u))"
      if "u < length (bs_tap b)" "j < length (bs_sub b)" for u j
      using that listed subs(2) by (cases "u = t") auto
    show "sub_index ?cl' = None \<or> sub_index ?cl' = sub_index ?cl \<or> sub_index ?cl' = Some (length (bs_sub b))"
      using subs(2) by (simp add: sub_index_def)
    show "tap_pos rank (bs_tap ?b' ! u) = tap_pos rank (bs_tap b ! u) \<and> tp_convID (bs_tap ?b' ! u) = tp_convID (bs_tap b ! u)"
      if "u < length (bs_tap b)" for u using that by (cases "u = t") auto
    show "u < length (bs_tap ?b') \<and> tp_convID (bs_tap ?b' ! u) = convID" if "bs_taps ?b' convID = Some u" for u convID
      using that D(2) [of convID u] by (cases "u = t") auto
  qed (use listed in \<open>auto simp: nth_append\<close>)
qed

end

lemma client_goto:
  assumes inv: "bus_inv av view rank b" and c: "c < length (bs_client b)"
    and es: "entries_at view s = entries_at view (bs_server b)"
    and cl': "cl' = (bs_client b ! c)\<lparr>cl_out := out, cl_pc := p\<rparr>"
    and tap: "tap_of p = None \<or> tap_of p = tap_of (cl_pc (bs_client b ! c))"
    and sub: "sub_of p = None \<or> sub_of p = sub_of (cl_pc (bs_client b ! c))"
    and ok: "client_ok av rank (entries_at view (bs_server b)) (bs_tap b) (bs_sub b) (bs_client b ! c) \<Longrightarrow>
      client_ok av rank (entries_at view (bs_server b)) (bs_tap b) (bs_sub b) cl'"
    and b': "b' = set_client c (\<lambda>x. x\<lparr>cl_out := out, cl_pc := p\<rparr>) (b\<lparr>bs_server := s\<rparr>)"
  shows "bus_inv av view rank b'"
proof -
  have "b' = set_client c (\<lambda>_. cl') (b\<lparr>bs_server := s\<rparr>)" using b' cl' by (simp add: set_client_def)
  then show ?thesis using client_local [OF inv c es, of cl'] tap sub cl' ok by simp
qed

lemma client_to_out:
  "client_to c p (b\<lparr>bs_server := s\<rparr>) =
     set_client c (\<lambda>x. x\<lparr>cl_out := cl_out (bs_client b ! c), cl_pc := p\<rparr>) (b\<lparr>bs_server := s\<rparr>)"
  by (simp add: set_client_def)

lemma client_to_out':
  "client_to c p b =
     set_client c (\<lambda>x. x\<lparr>cl_out := cl_out (bs_client b ! c), cl_pc := p\<rparr>) (b\<lparr>bs_server := bs_server b\<rparr>)"
  by (simp add: set_client_def)

text \<open>Leaving for good: what was sent stays a prefix.\<close>

lemma client_leave:
  assumes inv: "bus_inv av view rank b" and c: "c < length (bs_client b)"
    and es: "entries_at view s = entries_at view (bs_server b)"
    and p: "p \<in> {Detaching t i, Unmapping t, Cancelling t, Awaiting t, Returned}"
    and pc: "(\<exists>up. cl_pc (bs_client b ! c) = Filling t i up) \<or> (\<exists>ms. cl_pc (bs_client b ! c) = Sending t i ms) \<or>
      cl_pc (bs_client b ! c) = Receiving t i \<or> (\<exists>e. cl_pc (bs_client b ! c) = Forwarding t i e)"
  shows "bus_inv av view rank (client_to c p (b\<lparr>bs_server := s\<rparr>))"
proof (rule client_goto [OF inv c es refl _ _ _ client_to_out])
  show "tap_of p = None \<or> tap_of p = tap_of (cl_pc (bs_client b ! c))" using p pc by auto
  show "sub_of p = None \<or> sub_of p = sub_of (cl_pc (bs_client b ! c))" using p pc by auto
  show "client_ok av rank (entries_at view (bs_server b)) (bs_tap b) (bs_sub b)
      ((bs_client b ! c)\<lparr>cl_out := cl_out (bs_client b ! c), cl_pc := p\<rparr>)"
    if ok: "client_ok av rank (entries_at view (bs_server b)) (bs_tap b) (bs_sub b) (bs_client b ! c)"
    using ok p pc by (auto simp: client_ok_def stream_ok_def received_Nil dest: receiving_received)
qed

context stream_reads
begin

lemma backfill_range:
  assumes x: "sr_XRange r (streamKey convID) (backfill_start from) up s = (Inr msgs, s')"
    and "from \<noteq> ''$''"
  shows "filter (\<lambda>m. \<not> backfill_skips from m) msgs = backfilled rank from (rank up) (entries_at view s convID)"
proof (cases "backfill_start from = ''-''")
  case True
  then have "msgs = filter (\<lambda>e. rank (se_ID e) \<le> rank up) (entries_at view s convID)"
    using xrange_all x unfolding entries_at_def by simp
  then show ?thesis using True assms(2) by (simp add: backfilled_def conj_commute)
next
  case False
  then have "backfill_start from = from" by (auto simp: backfill_start_def split: if_splits)
  with False x have "msgs = filter (\<lambda>e. rank from \<le> rank (se_ID e) \<and> rank (se_ID e) \<le> rank up) (entries_at view s convID)"
    using xrange_from unfolding entries_at_def by simp
  then show ?thesis using False assms(2) by (simp add: backfilled_def conj_ac)
qed

lemma backfilled_zero: "backfilled rank from 0 (entries_at view s convID) = []"
  using entries_positive by (fastforce simp: backfilled_def filter_empty_conv entries_at_def)

lemma fill_inv:
  assumes inv: "bus_inv av view rank b" and c: "c < length (bs_client b)"
    and pc: "cl_pc (bs_client b ! c) = Filling t i up"
    and av: "av \<Longrightarrow> \<forall>k a b s. \<not> isl (fst (sr_XRange r k a b s))"
    and step: "client_step r c p b = Some b'"
  shows "bus_inv av view rank b'"
proof -
  let ?cl = "bs_client b ! c"
  let ?from = "backfillFrom (cl_cursor ?cl)"
  let ?es = "entries_at view (bs_server b) (cl_convID ?cl)"
  let ?pos = "tap_pos rank (bs_tap b ! t)" and ?att = "i \<in> set (listed (bs_tap b ! t))"
  let ?ch = "sb_ch (bs_sub b ! i)"
  have C: "cl_out ?cl = []" "up \<noteq> []" "?from \<noteq> ''$''" "filling rank ?es (rank up) ?pos ?att ?ch"
    using bus_invD(4) [OF inv c] pc by (auto simp: client_ok_def stream_ok_def)
  from C(4) obtain lo q where w: "window rank ?es (rank up) lo q ?pos ?att"
      "?ch = map event_of (seg (erank rank) lo q ?es)" by (auto simp: filling_def)
  have go: "bus_inv av view rank (client_to c p' (b\<lparr>bs_server := s\<rparr>))"
    if es: "entries_at view s = entries_at view (bs_server b)"
      and p': "p' = Receiving t i \<and> evs = [] \<or> (\<exists>ms. p' = Sending t i ms \<and> evs = map event_of ms)"
      and evs: "(av \<longrightarrow> h) \<and> evs = map event_of (if h then backfilled rank ?from (rank up) ?es else [])" for s p' evs h
  proof (rule client_goto [OF inv c es refl _ _ _ client_to_out])
    show "tap_of p' = None \<or> tap_of p' = tap_of (cl_pc ?cl)" using p' pc by auto
    show "sub_of p' = None \<or> sub_of p' = sub_of (cl_pc ?cl)" using p' pc by auto
    have "receiving av rank ?es (cl_cursor ?cl) ?pos ?att (evs @ ?ch)"
      unfolding receiving_def using w evs
      by (intro exI [of _ h] exI [of _ "rank up"] exI [of _ lo] exI [of _ q]) (simp add: given_def)
    then show "client_ok av rank (entries_at view (bs_server b)) (bs_tap b) (bs_sub b)
        (?cl\<lparr>cl_out := cl_out ?cl, cl_pc := p'\<rparr>)"
      using p' pc C(1) by (auto simp: client_ok_def stream_ok_def)
  qed
  show ?thesis
  proof (cases "up = ''0-0''")
    case True
    then have "b' = client_to c (Receiving t i) (b\<lparr>bs_server := bs_server b\<rparr>)"
      using step c pc by (simp add: client_step_def Let_def)
    then show ?thesis using go [OF refl, of "Receiving t i" "[]" True] True rank_zero backfilled_zero by simp
  next
    case False
    obtain a s1 where x: "sr_XRange r (streamKey (cl_convID ?cl)) (backfill_start ?from) up (bs_server b) = (a, s1)"
      by (cases "sr_XRange r (streamKey (cl_convID ?cl)) (backfill_start ?from) up (bs_server b)")
    have s1: "entries_at view s1 = entries_at view (bs_server b)"
      using reads_entries(2) [of "streamKey (cl_convID ?cl)" "backfill_start ?from" up "bs_server b"] x by simp
    show ?thesis
    proof (cases a)
      case (Inl e)
      then have "\<not> av" using av x by (metis fst_conv isl_def)
      then show ?thesis
        using step c pc C(2) False x Inl go [OF s1, of "Receiving t i" "[]" False]
          client_leave [OF inv c s1, of "Detaching t i" t i]
        by (auto simp: client_step_def Let_def split: if_splits)
    next
      case (Inr msgs)
      then show ?thesis
        using step c pc C(2) False x go [OF s1, of "Sending t i (filter (\<lambda>m. \<not> backfill_skips ?from m) msgs)" _ True]
          backfill_range [OF _ C(3)] by (auto simp: client_step_def Let_def)
    qed
  qed
qed

end

lemma client_to_same: "client_to c p b = client_to c p (b\<lparr>bs_server := bs_server b\<rparr>)"
  by (simp add: set_client_def)

text \<open>Sending one event to the user channel.\<close>

lemma send_inv:
  assumes inv: "bus_inv av view rank b" and c: "c < length (bs_client b)"
    and send: "send_out evt p c b = Some b'"
    and pc: "(\<exists>m ms. cl_pc (bs_client b ! c) = Sending t i (m # ms) \<and> evt = event_of m \<and> p = Sending t i ms) \<or>
      cl_pc (bs_client b ! c) = Forwarding t i evt \<and> p = Receiving t i"
  shows "bus_inv av view rank b'"
proof -
  have b': "b' = set_client c (\<lambda>x. x\<lparr>cl_out := cl_out (bs_client b ! c) @ [evt], cl_pc := p\<rparr>) (b\<lparr>bs_server := bs_server b\<rparr>)"
    using send by (auto simp: send_out_def Let_def set_client_def split: if_splits)
  show ?thesis
    by (rule client_goto [OF inv c refl refl _ _ _ b']) (use pc in \<open>auto simp: client_ok_def stream_ok_def\<close>)
qed

text \<open>Taking an event from the subscriber's channel.\<close>

lemma take_inv:
  assumes inv: "bus_inv av view rank b" and c: "c < length (bs_client b)"
    and pc: "cl_pc (bs_client b ! c) = Receiving t i" and ch: "sb_ch (bs_sub b ! i) = e # es"
  shows "bus_inv av view rank (client_to c (Forwarding t i e) (set_sub i (sb_ch_update (\<lambda>_. es)) b))"
proof -
  note D = bus_invD [OF inv]
  let ?cl = "bs_client b ! c" and ?b' = "client_to c (Forwarding t i e) (set_sub i (sb_ch_update (\<lambda>_. es)) b)"
  let ?cl' = "?cl\<lparr>cl_pc := Forwarding t i e\<rparr>"
  have i: "i < length (bs_sub b)" using D(3) [OF c] pc by (simp add: link_ok_def)
  have own: "sub_index ?cl = Some i" using pc by (simp add: sub_index_def)
  show ?thesis
  proof (rule client_change [OF inv c, where cl' = ?cl'])
    show "link_ok (bs_tap ?b') (length (bs_sub ?b')) ?cl'"
      using link_ok_local [OF D(3) [OF c], of ?cl'] pc by simp
    show "client_ok av rank (entries_at view (bs_server b)) (bs_tap ?b') (bs_sub ?b') ?cl'"
      using D(4) [OF c] pc ch i by (simp add: client_ok_def stream_ok_def)
    show "sub_index ?cl' = None \<or> sub_index ?cl' = sub_index ?cl \<or> sub_index ?cl' = Some (length (bs_sub b))"
      using pc by (simp add: sub_index_def)
    show "sb_ch (bs_sub ?b' ! j) = sb_ch (bs_sub b ! j)" if "j < length (bs_sub b)" "sub_index ?cl \<noteq> Some j" for j
      using that own by (cases "j = i") auto
  qed (use D(1,2) in auto)
qed

text \<open>Detaching, and the steps that end an abandoned tap.\<close>

lemma tp_subscribers_update_value:
  "tp_subscribers_update f tap = tap\<lparr>tp_subscribers := f (tp_subscribers tap)\<rparr>"
  by (cases tap) simp

lemma listed_filter: "listed (tap\<lparr>tp_subscribers := map_option (filter P) (tp_subscribers tap)\<rparr>) = filter P (listed tap)"
  by (cases "tp_subscribers tap") (simp_all add: listed_def)

lemma detach_inv:
  assumes inv: "bus_inv av view rank b" and c: "c < length (bs_client b)"
    and pc: "cl_pc (bs_client b ! c) = Detaching t i" and p: "p = Unmapping t \<or> p = Returned"
  shows "bus_inv av view rank (client_to c p (detach t i b))"
proof -
  note D = bus_invD [OF inv]
  let ?cl = "bs_client b ! c" and ?tap = "bs_tap b ! t"
  let ?tap' = "?tap\<lparr>tp_subscribers := map_option (filter (\<lambda>j. j \<noteq> i)) (tp_subscribers ?tap)\<rparr>"
  let ?b' = "client_to c p (detach t i b)"
  let ?cl' = "?cl\<lparr>cl_pc := p\<rparr>"
  have t: "t < length (bs_tap b)" "tp_convID ?tap = cl_convID ?cl"
    using D(3) [OF c] pc by (auto simp: link_ok_def)
  have own: "sub_index ?cl = Some i" using pc by (simp add: sub_index_def)
  have tap': "bs_tap ?b' = (bs_tap b)[t := ?tap']"
    unfolding detach_def set_fields
    by (subst tp_subscribers_update_value) (rule refl)
  have rest: "bs_sub ?b' = bs_sub b" "bs_server ?b' = bs_server b" "bs_taps ?b' = bs_taps b"
    "bs_client ?b' = (bs_client b)[c := ?cl']" by (simp_all add: detach_def)
  note ok = D(1) [OF t(1)]
  have ok': "tap_ok rank (entries_at view (bs_server b) (tp_convID ?tap)) (length (bs_sub b)) ?tap'"
    using ok by (intro tap_ok_subs) (auto simp: listed_filter tap_ok_def)
  show ?thesis
  proof (rule client_change [OF inv c, where cl' = ?cl'], unfold tap' rest)
    show "link_ok ((bs_tap b)[t := ?tap']) (length (bs_sub b)) ?cl'"
      using p t by (auto simp: link_ok_def)
    show "client_ok av rank (entries_at view (bs_server b)) ((bs_tap b)[t := ?tap']) (bs_sub b) ?cl'"
      using D(4) [OF c] pc p by (auto simp: client_ok_def stream_ok_def)
    show "tap_ok rank (entries_at view (bs_server b) (tp_convID ((bs_tap b)[t := ?tap'] ! u))) (length (bs_sub b)) ((bs_tap b)[t := ?tap'] ! u)"
      if "u < length ((bs_tap b)[t := ?tap'])" for u
      using that ok' D(1) [of u] by (cases "u = t") auto
    show "tap_pos rank ((bs_tap b)[t := ?tap'] ! u) = tap_pos rank (bs_tap b ! u) \<and>
        tp_convID ((bs_tap b)[t := ?tap'] ! u) = tp_convID (bs_tap b ! u)" if "u < length (bs_tap b)" for u
      using that by (cases "u = t") auto
    show "j \<in> set (listed ((bs_tap b)[t := ?tap'] ! u)) \<longleftrightarrow> j \<in> set (listed (bs_tap b ! u))"
      if "u < length (bs_tap b)" "sub_index ?cl \<noteq> Some j" for u j
      using that own by (cases "u = t") (auto simp: listed_filter)
    show "u < length ((bs_tap b)[t := ?tap']) \<and> tp_convID ((bs_tap b)[t := ?tap'] ! u) = convID"
      if "bs_taps b convID = Some u" for u convID
      using that D(2) [of convID u] by (cases "u = t") auto
    show "sub_index ?cl' = None \<or> sub_index ?cl' = sub_index ?cl \<or> sub_index ?cl' = Some (length (bs_sub b))"
      using p by (auto simp: sub_index_def)
  qed simp_all
qed

lemma unmap_inv:
  assumes inv: "bus_inv av view rank b" and c: "c < length (bs_client b)"
    and pc: "cl_pc (bs_client b ! c) = Unmapping t"
  shows "bus_inv av view rank (client_to c (Cancelling t) (unmap_tap t convID b))"
proof -
  note D = bus_invD [OF inv]
  let ?b' = "client_to c (Cancelling t) (unmap_tap t convID b)"
  have same: "bs_tap ?b' = bs_tap b" "bs_sub ?b' = bs_sub b" "bs_server ?b' = bs_server b"
    "bs_client ?b' = (bs_client b)[c := (bs_client b ! c)\<lparr>cl_pc := Cancelling t\<rparr>]"
    by (simp_all add: unmap_tap_def)
  have map: "bs_taps ?b' k = Some u \<Longrightarrow> bs_taps b k = Some u" for k u
    by (auto simp: unmap_tap_def split: if_splits)
  show ?thesis
  proof (rule client_change [OF inv c, where cl' = "(bs_client b ! c)\<lparr>cl_pc := Cancelling t\<rparr>"], unfold same)
    show "u < length (bs_tap b) \<and> tp_convID (bs_tap b ! u) = k" if "bs_taps ?b' k = Some u" for k u
      by (rule D(2) [OF map [OF that]])
    show "link_ok (bs_tap b) (length (bs_sub b)) ((bs_client b ! c)\<lparr>cl_pc := Cancelling t\<rparr>)"
      using link_ok_local [OF D(3) [OF c]] pc by simp
    show "client_ok av rank (entries_at view (bs_server b)) (bs_tap b) (bs_sub b) ((bs_client b ! c)\<lparr>cl_pc := Cancelling t\<rparr>)"
      using D(4) [OF c] pc by (simp add: client_ok_def stream_ok_def)
  qed (use D(1) in \<open>auto simp: sub_index_def\<close>)
qed

lemma cancel_inv:
  assumes inv: "bus_inv av view rank b" and c: "c < length (bs_client b)"
    and pc: "cl_pc (bs_client b ! c) = Cancelling t"
  shows "bus_inv av view rank (client_to c (Awaiting t) (set_tap t (tp_cancelled_update (\<lambda>_. True)) b))"
proof -
  note D = bus_invD [OF inv]
  let ?b' = "client_to c (Awaiting t) (set_tap t (tp_cancelled_update (\<lambda>_. True)) b)"
  let ?tap' = "(bs_tap b ! t)\<lparr>tp_cancelled := True\<rparr>"
  have t: "t < length (bs_tap b)" using D(3) [OF c] pc by (simp add: link_ok_def)
  have tap': "bs_tap ?b' = (bs_tap b)[t := ?tap']" by simp
  have rest: "bs_sub ?b' = bs_sub b" "bs_server ?b' = bs_server b" "bs_taps ?b' = bs_taps b"
    "bs_client ?b' = (bs_client b)[c := (bs_client b ! c)\<lparr>cl_pc := Awaiting t\<rparr>]" by simp_all
  have nth: "u < length (bs_tap b) \<Longrightarrow> (bs_tap b)[t := ?tap'] ! u = (if u = t then ?tap' else bs_tap b ! u)" for u
    by simp
  show ?thesis
  proof (rule client_change [OF inv c, where cl' = "(bs_client b ! c)\<lparr>cl_pc := Awaiting t\<rparr>"], unfold tap' rest)
    show "tap_ok rank (entries_at view (bs_server b) (tp_convID ((bs_tap b)[t := ?tap'] ! u))) (length (bs_sub b)) ((bs_tap b)[t := ?tap'] ! u)"
      if "u < length ((bs_tap b)[t := ?tap'])" for u
      using that D(1) [of u] by (cases "u = t") (auto simp: tap_ok_cancelled)
    show "link_ok ((bs_tap b)[t := ?tap']) (length (bs_sub b)) ((bs_client b ! c)\<lparr>cl_pc := Awaiting t\<rparr>)"
      using D(3) [OF c] pc t by (auto simp: link_ok_def)
    show "client_ok av rank (entries_at view (bs_server b)) ((bs_tap b)[t := ?tap']) (bs_sub b) ((bs_client b ! c)\<lparr>cl_pc := Awaiting t\<rparr>)"
      using D(4) [OF c] pc by (simp add: client_ok_def stream_ok_def)
    show "u < length ((bs_tap b)[t := ?tap']) \<and> tp_convID ((bs_tap b)[t := ?tap'] ! u) = convID"
      if "bs_taps b convID = Some u" for u convID using D(2) [OF that] by (cases "u = t") auto
  qed (auto simp: nth sub_index_def)
qed

section \<open>The invariant holds in every reachable state\<close>

lemma stream_ok_fields [simp]:
  "stream_ok av rank es pos att ch (cl\<lparr>cl_taken := n\<rparr>) = stream_ok av rank es pos att ch cl"
  "stream_ok av rank es pos att ch (cl\<lparr>cl_cancelled := x\<rparr>) = stream_ok av rank es pos att ch cl"
  by (simp_all add: stream_ok_def cong: client_pc.case_cong)

lemma client_ok_fields [simp]:
  "client_ok av rank es taps subs (cl\<lparr>cl_taken := n\<rparr>) = client_ok av rank es taps subs cl"
  "client_ok av rank es taps subs (cl\<lparr>cl_cancelled := x\<rparr>) = client_ok av rank es taps subs cl"
  by (simp_all add: client_ok_def split: option.split)

lemma tap_ok_grow:
  assumes sorted: "sorted_wrt (<) (map (erank rank) (es @ [e]))" and e: "0 < rank (se_ID e)"
    and ok: "tap_ok rank es n tap"
  shows "tap_ok rank (es @ [e]) n tap"
proof -
  let ?cur = "rank (tp_cursor tap)" and ?pos = "tap_pos rank tap"
  have pos: "covered (erank rank) ?pos es" and "?cur \<le> ?pos" using ok by (auto simp: tap_ok_def)
  then have cur: "covered (erank rank) ?cur es" by (rule covered_le)
  have seg: "seg (erank rank) ?cur ?pos (es @ [e]) = seg (erank rank) ?cur ?pos es"
    by (rule grow(3) [OF sorted e pos])
  note g = take_after_grow [OF sorted e cur]
  show ?thesis
  proof (cases "tp_pc tap")
    case (TapAdvance i ms)
    then have "?pos = rank i" by (simp add: tap_pos_def)
    then show ?thesis
      using ok TapAdvance grow(5) [OF sorted e pos] seg take_after_grow [OF sorted e pos]
      by (auto simp: tap_ok_def)
  next
    case (TapBroadcast m ms)
    then show ?thesis using ok grow(5) [OF sorted e pos] seg g [of "m # ms"] by (auto simp: tap_ok_def)
  qed (use ok grow(5) [OF sorted e pos] seg in \<open>auto simp: tap_ok_def\<close>)
qed

context stream_reads
begin

lemma client_step_inv:
  assumes inv: "bus_inv av view rank b"
    and av: "av \<Longrightarrow> \<forall>k a b s. \<not> isl (fst (sr_XRange r k a b s))"
    and step: "client_step r c p b = Some b'"
  shows "bus_inv av view rank b'"
proof -
  have c: "c < length (bs_client b)" using step by (auto simp: client_step_def split: if_splits)
  note D = bus_invD [OF inv]
  note leave = client_leave [OF inv c refl, folded client_to_same]
  show ?thesis
  proof (cases "cl_pc (bs_client b ! c)")
    case Starting
    then show ?thesis
      using step c start_inv [OF inv c Starting] by (auto simp: client_step_def Let_def split: prod.splits)
  next
    case (HasTap t)
    show ?thesis
    proof (cases "attach t b")
      case None
      then have "b' = client_to c Returned b" using step c HasTap by (simp add: client_step_def Let_def)
      moreover have "bus_inv av view rank (client_to c Returned b)"
        by (rule client_goto [OF inv c refl refl _ _ _ client_to_out'])
          (use HasTap in \<open>auto simp: client_ok_def stream_ok_def received_Nil\<close>)
      ultimately show ?thesis by simp
    next
      case (Some x)
      obtain i cur b1 where x: "x = ((i, cur), b1)" by (metis prod.collapse)
      show ?thesis using step c HasTap Some x attach_inv [OF inv c HasTap Some [unfolded x] refl]
        by (simp add: client_step_def Let_def)
    qed
  next
    case (Filling t i up)
    show ?thesis by (rule fill_inv [OF inv c Filling av step])
  next
    case (Sending t i ms)
    show ?thesis
    proof (cases ms)
      case Nil
      then have "b' = client_to c (Receiving t i) b" using step c Sending by (simp add: client_step_def Let_def)
      moreover have "bus_inv av view rank (client_to c (Receiving t i) b)"
        by (rule client_goto [OF inv c refl refl _ _ _ client_to_out'])
          (use Sending Nil in \<open>auto simp: client_ok_def stream_ok_def\<close>)
      ultimately show ?thesis by simp
    next
      case (Cons m ms')
      then show ?thesis
        using step c Sending leave [of "Detaching t i" t i] send_inv [OF inv c, of "event_of m" "Sending t i ms'" b' t i]
        by (cases p) (auto simp: client_step_def Let_def split: if_splits)
    qed
  next
    case (Receiving t i)
    then show ?thesis
      using step c leave [of "Detaching t i" t i] take_inv [OF inv c Receiving]
      by (cases p) (auto simp: client_step_def Let_def split: if_splits list.splits)
  next
    case (Forwarding t i e)
    then show ?thesis
      using step c leave [of "Detaching t i" t i] send_inv [OF inv c, of e "Receiving t i" b' t i]
      by (cases p) (auto simp: client_step_def Let_def split: if_splits)
  next
    case (Detaching t i)
    then show ?thesis using step c detach_inv [OF inv c Detaching]
      by (auto simp: client_step_def Let_def split: if_splits)
  next
    case (Unmapping t)
    then show ?thesis using step c unmap_inv [OF inv c Unmapping, of "cl_convID (bs_client b ! c)"] by (simp add: client_step_def Let_def)
  next
    case (Cancelling t)
    then show ?thesis using step c cancel_inv [OF inv c Cancelling] by (simp add: client_step_def Let_def)
  next
    case (Awaiting t)
    then have "b' = client_to c Returned b" using step c by (simp add: client_step_def Let_def split: if_splits)
    moreover have "bus_inv av view rank (client_to c Returned b)"
      by (rule client_goto [OF inv c refl refl _ _ _ client_to_out'])
        (use Awaiting in \<open>auto simp: client_ok_def stream_ok_def\<close>)
    ultimately show ?thesis by simp
  next
    case Returned
    then show ?thesis using step c by (simp add: client_step_def)
  qed
qed

text \<open>Publishing appends one entry to one stream.\<close>

lemma publish_entries:
  obtains "entries_at view (snd (Publish r convID ty dat s)) = entries_at view s"
  | e where "entries_at view (snd (Publish r convID ty dat s)) =
      (entries_at view s)(convID := entries_at view s convID @ [e])"
proof -
  obtain a s1 where x: "sr_XAdd r (streamKey convID) [(''event_type'', ty), (''data'', dat)] s = (a, s1)"
    by (cases "sr_XAdd r (streamKey convID) [(''event_type'', ty), (''data'', dat)] s")
  have key: "streamKey c' = streamKey convID \<longleftrightarrow> c' = convID" for c' by (simp add: streamKey_def)
  have frame: "entries_at view s1 c' = entries_at view s c'" if "c' \<noteq> convID" for c'
    using xadd_frame [of "streamKey c'" "streamKey convID" _ s] x that key
    unfolding entries_at_def by (metis snd_conv)
  have sadd: "entries_at view (snd (sr_SAdd r k v s1)) = entries_at view s1" for k v
  proof
    show "entries_at view (snd (sr_SAdd r k v s1)) c' = entries_at view s1 c'" for c'
      using sadd_entries [of k v s1] sadd_frame [of "streamKey c'" k v s1]
      unfolding entries_at_def by (cases "streamKey c' = k") auto
  qed
  show ?thesis
  proof (cases a)
    case (Inl e)
    with x xadd_error have "view s1 = view s" by blast
    then have "entries_at view s1 = entries_at view s" by (simp add: entries_at_def fun_eq_iff)
    with x Inl that(1) show ?thesis by (simp add: Publish_def)
  next
    case (Inr i)
    then have "entries_at view s1 convID = entries_at view s convID @
        [\<lparr>se_ID = i, se_Values = [(''event_type'', ty), (''data'', dat)]\<rparr>]"
      using xadd_ok x unfolding entries_at_def by blast
    with frame have "entries_at view s1 = (entries_at view s)(convID := entries_at view s convID @
        [\<lparr>se_ID = i, se_Values = [(''event_type'', ty), (''data'', dat)]\<rparr>])" by auto
    moreover have "entries_at view (snd (Publish r convID ty dat s)) = entries_at view s1"
      using x Inr sadd by (simp add: Publish_def split: prod.split) (metis snd_conv)
    ultimately show ?thesis using that(2) by simp
  qed
qed

lemma publish_inv:
  assumes inv: "bus_inv av view rank b"
  shows "bus_inv av view rank (b\<lparr>bs_server := snd (Publish r convID ty dat (bs_server b))\<rparr>)"
proof -
  note D = bus_invD [OF inv]
  let ?s = "snd (Publish r convID ty dat (bs_server b))"
  show ?thesis
  proof (rule publish_entries [of convID ty dat "bs_server b"])
    assume "entries_at view ?s = entries_at view (bs_server b)"
    then show ?thesis using inv by (simp add: bus_inv_def)
  next
    fix e assume es: "entries_at view ?s =
        (entries_at view (bs_server b))(convID := entries_at view (bs_server b) convID @ [e])"
    let ?es = "entries_at view (bs_server b) convID"
    have "entries_at view ?s convID = ?es @ [e]" using es by simp
    then have sorted: "sorted_wrt (<) (map (erank rank) (?es @ [e]))" and pos: "0 < rank (se_ID e)"
      using entries_ranked [of ?s convID] entries_positive [of e ?s "streamKey convID"]
      by (auto simp: entries_at_def)
    have tap: "tap_ok rank (entries_at view ?s (tp_convID tap)) n tap"
      if ok: "tap_ok rank (entries_at view (bs_server b) (tp_convID tap)) n tap" for tap n
      using that tap_ok_grow [OF sorted pos] by (cases "tp_convID tap = convID") (auto simp: es)
    have cl: "client_ok av rank (entries_at view ?s) taps subs cl"
      if "client_ok av rank (entries_at view (bs_server b)) taps subs cl" for taps subs cl
      using that stream_ok_grow [OF sorted [folded comp_def] pos] sorted pos stream_ok_grow [of rank ?es e]
      by (auto simp: client_ok_def es comp_def split: option.splits)
    show ?thesis by (rule bus_invI) (use D tap cl in auto)
  qed
qed

lemma bus_do_inv:
  assumes inv: "bus_inv av view rank b"
    and av: "av \<Longrightarrow> \<forall>k a b s. \<not> isl (fst (sr_XRange r k a b s))"
    and step: "bus_do r act b = Some b'"
  shows "bus_inv av view rank b'"
proof (cases act)
  case (DoSubscribe convID cursor)
  note D = bus_invD [OF inv]
  let ?new = "\<lparr>cl_convID = convID, cl_cursor = cursor, cl_cancelled = False, cl_pc = Starting,
           cl_out = [], cl_taken = 0\<rparr>"
  have b': "b' = b\<lparr>bs_client := bs_client b @ [?new]\<rparr>" using step DoSubscribe by (simp add: Subscribe_def)
  show ?thesis
  proof (rule bus_invI, unfold b')
    show "sub_index (bs_client (b\<lparr>bs_client := bs_client b @ [?new]\<rparr>) ! c) \<noteq> sub_index (bs_client (b\<lparr>bs_client := bs_client b @ [?new]\<rparr>) ! c')"
      if "c < length (bs_client (b\<lparr>bs_client := bs_client b @ [?new]\<rparr>))" "c' < length (bs_client (b\<lparr>bs_client := bs_client b @ [?new]\<rparr>))"
        "c \<noteq> c'" "sub_index (bs_client (b\<lparr>bs_client := bs_client b @ [?new]\<rparr>) ! c) \<noteq> None" for c c'
      using that D(5) [of c c'] by (auto simp: nth_append sub_index_def less_Suc_eq)
  qed (use D in \<open>auto simp: nth_append less_Suc_eq link_ok_def client_ok_def stream_ok_def\<close>)
next
  case (DoReceive c)
  then have c: "c < length (bs_client b)" and b': "b' = set_client c (\<lambda>_. (bs_client b ! c)\<lparr>cl_taken := cl_taken (bs_client b ! c) + 1\<rparr>) (b\<lparr>bs_server := bs_server b\<rparr>)"
    using step by (auto simp: set_client_def split: if_splits)
  show ?thesis unfolding b'
    by (rule client_local [OF inv c refl]) simp_all
next
  case (DoCancel c)
  then have c: "c < length (bs_client b)" and b': "b' = set_client c (\<lambda>_. (bs_client b ! c)\<lparr>cl_cancelled := True\<rparr>) (b\<lparr>bs_server := bs_server b\<rparr>)"
    using step by (auto simp: set_client_def split: if_splits)
  show ?thesis unfolding b'
    by (rule client_local [OF inv c refl]) simp_all
next
  case (DoPublish convID ty dat)
  then show ?thesis using step publish_inv [OF inv] by auto
next
  case (DoTap t)
  then show ?thesis using step tap_step_inv [OF inv] by simp
next
  case (DoClient c p)
  then show ?thesis using step client_step_inv [OF inv av] by simp
qed

lemma reachable_inv:
  assumes "bus_reachable r b" and "av \<Longrightarrow> \<forall>k a b s. \<not> isl (fst (sr_XRange r k a b s))"
  shows "bus_inv av view rank b"
  using assms(1)
proof induction
  case (start s)
  show ?case by (simp add: bus_inv_def bus_start_def)
next
  case (step b act b')
  show ?case by (rule bus_do_inv [OF step.IH assms(2) step.hyps(2)])
qed

end

end
