(* ===== verification/TapsProps.thy ===== *)
theory TapsProps
  imports TapsInv
begin

text \<open>
  What a subscriber of the event bus receives, whatever the interleaving: the history up to the
  cursor of the tap it attached to, then every event the tap broadcasts from then on, in order and
  without repetition; between the two at most one event is missing, the one the tap was handing
  out at that moment. Schedules that lose this event, repeat one and close a channel nobody
  cancelled end the theory.
\<close>

section \<open>What subscribers can rely on\<close>





lemma client_received:
  assumes ok: "client_ok av rank es taps subs cl"
  shows "received av rank (es (cl_convID cl)) (cl_cursor cl) (cl_out cl)"
proof (cases "cl_pc cl")
  case (Forwarding t i e)
  then show ?thesis using ok
    by (auto simp: client_ok_def stream_ok_def intro: receiving_received)
qed (use ok in \<open>auto simp: client_ok_def stream_ok_def received_Nil intro: receiving_received\<close>)




text \<open>
  A subscriber never receives an event twice or out of order: the entry IDs it is sent increase
  strictly, history and live events together.
\<close>

lemma prefix_sorted_wrt: "prefix xs ys \<Longrightarrow> sorted_wrt P ys \<Longrightarrow> sorted_wrt P xs"
  by (auto simp: prefix_def sorted_wrt_append)

theorem subscriber_ordered:
  assumes "stream_reads r view rank" and "bus_reachable r b" and "cl \<in> set (bs_client b)"
  shows "sorted_wrt (<) (map (rank \<circ> ev_ID) (cl_out cl))"
proof -
  let ?es = "entries_at view (bs_server b) (cl_convID cl)"
  have "client_ok False rank (entries_at view (bs_server b)) (bs_tap b) (bs_sub b) cl"
    using stream_reads.reachable_inv [OF assms(1,2), of False] assms(3) by (auto simp: bus_inv_def)
  from client_received [OF this] obtain h a lo p q where *: "window rank ?es a lo p q False"
      "prefix (cl_out cl) (given rank h (cl_cursor cl) a lo p ?es)" unfolding received_def by blast
  have sorted: "sorted_wrt (<) (map (erank rank) ?es)" by (rule stream_reads.entries_ranked [OF assms(1)])
  let ?h = "if h then backfilled rank (backfillFrom (cl_cursor cl)) a ?es else []"
  have "sorted_wrt (<) (map (erank rank) ?h)" "sorted_wrt (<) (map (erank rank) (seg (erank rank) lo p ?es))"
    using sorted unfolding backfilled_def seg_def by (auto simp: sorted_wrt_map sorted_wrt_filter)
  moreover have "\<forall>x \<in> set ?h. \<forall>y \<in> set (seg (erank rank) lo p ?es). rank (se_ID x) < rank (se_ID y)"
    using *(1) by (auto simp: backfilled_def seg_def window_def split: if_splits)
  ultimately have "sorted_wrt (<) (map (rank \<circ> ev_ID) (given rank h (cl_cursor cl) a lo p ?es))"
    by (simp add: given_def sorted_wrt_append sorted_wrt_map event_of_def comp_def)
  then show ?thesis
    by (rule prefix_sorted_wrt [OF map_mono_prefix [OF *(2)]])
qed


section \<open>Three schedules\<close>

text \<open>
  The steps a subscription takes from its start to the point where it waits for live events, with
  \<open>n\<close> events of history, and one round of a tap that finds one event.
\<close>

definition joining :: "nat \<Rightarrow> bus_act list" where
  "joining c = [DoClient c PickChannel, DoClient c PickChannel]"

definition backfilling :: "nat \<Rightarrow> nat \<Rightarrow> bus_act list" where
  "backfilling c n = DoClient c PickChannel # replicate (Suc n) (DoClient c PickChannel)"

definition waiting_client :: "'s bus \<Rightarrow> nat \<Rightarrow> bool" where
  "waiting_client b c \<longleftrightarrow> c < length (bs_client b) \<and>
     (case cl_pc (bs_client b ! c) of
        Receiving t i \<Rightarrow> i \<in> set (listed (bs_tap b ! t)) \<and> sb_ch (bs_sub b ! i) = [] \<and> \<not> cl_cancelled (bs_client b ! c)
      | _ \<Rightarrow> False)"

definition sent_ids :: "'s bus \<Rightarrow> nat \<Rightarrow> string list" where
  "sent_ids b c = map ev_ID (cl_out (bs_client b ! c))"

text \<open>
  The second subscriber attaches between the broadcast of the second event and the move of the
  cursor: it is neither in its history nor handed to it.
\<close>

definition gap_schedule :: "bus_act list" where
  "gap_schedule =
     [DoPublish ''c'' ''message_received'' ''1'', DoSubscribe ''c'' ''0'', DoSubscribe ''c'' ''0''] @
     joining 0 @ backfilling 0 1 @
     [DoPublish ''c'' ''message_received'' ''2'', DoTap 0, DoTap 0, DoTap 0] @
     joining 1 @ [DoTap 0] @ backfilling 1 1"

lemma gap_run:
  "case bus_run rdb_server gap_schedule (bus_start Map.empty) of
     None \<Rightarrow> False
   | Some b \<Rightarrow>
       waiting_client b 1 \<and> sent_ids b 1 = [rdb_id 1] \<and> tp_cursor (bs_tap b ! 0) = rdb_id 2 \<and>
       map se_ID (entries_at rdb_view (bs_server b) ''c'') = [rdb_id 1, rdb_id 2]"
  by code_simp

lemma run_reaches:
  assumes "case bus_run r acts (bus_start s) of None \<Rightarrow> False | Some b \<Rightarrow> P b"
  shows "\<exists>b. bus_reachable r b \<and> P b"
proof (cases "bus_run r acts (bus_start s)")
  case (Some b)
  have "bus_reachable r b" by (rule bus_run_reachable [OF Some bus_reachable.start])
  then show ?thesis using assms Some by auto
qed (use assms in simp)

text \<open>
  A subscriber that attaches while the tap is handing out an event never receives that event:
  it asked for everything, was neither dropped nor cancelled and has nothing left to receive, and
  the tap has moved past the event.
\<close>

theorem attach_loses_event:
  "\<exists>b. bus_reachable rdb_server b \<and> waiting_client b 1 \<and> sent_ids b 1 = [rdb_id 1] \<and>
     tp_cursor (bs_tap b ! 0) = rdb_id 2 \<and>
     map se_ID (entries_at rdb_view (bs_server b) ''c'') = [rdb_id 1, rdb_id 2]"
  by (rule run_reaches [OF gap_run])

text \<open>
  The last subscriber of a tap leaves; before it removes the tap from the map another one finds
  and joins it, and then the tap is cancelled.
\<close>

definition detach_schedule :: "bus_act list" where
  "detach_schedule =
     [DoPublish ''c'' ''message_received'' ''1'', DoSubscribe ''c'' ''0'', DoSubscribe ''c'' ''0''] @
     joining 0 @ backfilling 0 1 @
     [DoCancel 0, DoClient 0 PickDone, DoClient 0 PickChannel] @
     joining 1 @ backfilling 1 1 @
     [DoClient 0 PickChannel, DoClient 0 PickChannel, DoTap 0, DoTap 0,
      DoClient 1 PickChannel, DoClient 1 PickChannel, DoClient 1 PickChannel, DoClient 1 PickChannel,
      DoClient 1 PickChannel]"

lemma detach_run:
  "case bus_run rdb_server detach_schedule (bus_start Map.empty) of
     None \<Rightarrow> False
   | Some b \<Rightarrow>
       length (bs_client b) = 2 \<and> cl_pc (bs_client b ! 1) = Returned \<and> \<not> cl_cancelled (bs_client b ! 1) \<and>
       list_all (\<lambda>s. \<not> sb_evicted s) (bs_sub b)"
  by code_simp

text \<open>
  The channel of a subscriber can be closed although its context is not cancelled and no
  subscriber was ever dropped for being slow.
\<close>

theorem detach_closes_other:
  "\<exists>b. bus_reachable rdb_server b \<and> length (bs_client b) = 2 \<and> cl_pc (bs_client b ! 1) = Returned \<and>
     \<not> cl_cancelled (bs_client b ! 1) \<and> list_all (\<lambda>s. \<not> sb_evicted s) (bs_sub b)"
  by (rule run_reaches [OF detach_run])

text \<open>The tap of a pod lags behind the cursor a caller resumes from.\<close>

definition resume_schedule :: "bus_act list" where
  "resume_schedule =
     [DoPublish ''c'' ''message_received'' ''1'', DoSubscribe ''c'' ''0'',
      DoPublish ''c'' ''message_received'' ''2'', DoSubscribe ''c'' (rdb_id 2)] @
     take 1 (joining 0) @ [DoPublish ''c'' ''message_received'' ''3''] @
     drop 1 (joining 0) @ backfilling 0 2 @
     [DoSubscribe ''c'' (rdb_id 3)] @ joining 2 @ backfilling 2 0 @
     [DoTap 0, DoTap 0, DoTap 0, DoTap 0, DoClient 2 PickChannel, DoClient 2 PickChannel]"

lemma resume_run:
  "case bus_run rdb_server resume_schedule (bus_start Map.empty) of
     None \<Rightarrow> False
   | Some b \<Rightarrow> cl_cursor (bs_client b ! 2) = rdb_id 3 \<and> sent_ids b 2 = [rdb_id 3]"
  by code_simp

theorem resume_repeats_event:
  "\<exists>b. bus_reachable rdb_server b \<and> cl_cursor (bs_client b ! 2) = rdb_id 3 \<and> sent_ids b 2 = [rdb_id 3]"
  by (rule run_reaches [OF resume_run])

section \<open>Witnesses\<close>


lemma rdb_reads_laws: "stream_reads rdb_server rdb_view rdb_rank"
  by (rule rdb.stream_reads_axioms)


text \<open>The second subscriber of the first schedule, to whom one event was sent.\<close>

lemma gap_client:
  obtains b cl where "bus_reachable rdb_server b" and "cl \<in> set (bs_client b)" and "cl_cursor cl = ''0''"
    and "map ev_ID (cl_out cl) = [rdb_id 1]" and "cl_pc cl = Receiving 0 1"
    and "1 \<in> set (listed (bs_tap b ! 0))" and "sb_ch (bs_sub b ! 1) = []"
proof -
  have "case bus_run rdb_server gap_schedule (bus_start Map.empty) of
      None \<Rightarrow> False
    | Some b \<Rightarrow> length (bs_client b) = 2 \<and> cl_cursor (bs_client b ! 1) = ''0'' \<and> sent_ids b 1 = [rdb_id 1] \<and>
        cl_pc (bs_client b ! 1) = Receiving 0 1 \<and> 1 \<in> set (listed (bs_tap b ! 0)) \<and> sb_ch (bs_sub b ! 1) = []"
    by code_simp
  from run_reaches [OF this] obtain b where "bus_reachable rdb_server b"
    and "length (bs_client b) = 2 \<and> cl_cursor (bs_client b ! 1) = ''0'' \<and> sent_ids b 1 = [rdb_id 1] \<and>
        cl_pc (bs_client b ! 1) = Receiving 0 1 \<and> 1 \<in> set (listed (bs_tap b ! 0)) \<and> sb_ch (bs_sub b ! 1) = []"
    by blast
  then show ?thesis using that [of b "bs_client b ! 1"] by (simp add: sent_ids_def)
qed


theorem subscriber_ordered_witness:
  "\<exists>b cl. bus_reachable rdb_server b \<and> cl \<in> set (bs_client b) \<and> cl_out cl \<noteq> [] \<and> sorted_wrt (<) (map (rdb_rank \<circ> ev_ID) (cl_out cl))"
proof (rule gap_client)
  fix b cl
  assume a: "bus_reachable rdb_server b" "cl \<in> set (bs_client b)" "map ev_ID (cl_out cl) = [rdb_id 1]"
  from subscriber_ordered [OF rdb_reads_laws a(1,2)] a
  show ?thesis by (intro exI [of _ b] exI [of _ cl] conjI) auto
qed


end
