(* ===== verification/Json.thy ===== *)
theory Json
  imports Dispatch
begin

text \<open>
  Decoding a JSON value into a Go struct, as \<open>encoding/json\<close> does it for the structs the sources
  declare: \<open>null\<close> leaves a field alone, a value of another type is an error of the whole call,
  unknown keys are skipped, a repeated key is decoded again, and a key is matched exactly or, failing
  that, without regard to the case of ASCII letters. The text of a value is parsed outside the model.
\<close>

type_synonym 'a decoder = "json \<Rightarrow> 'a \<Rightarrow> 'a option"

definition ascii_lower :: "char \<Rightarrow> char" where
  "ascii_lower c =
     (let n = (of_char c :: nat) in if 65 \<le> n \<and> n \<le> 90 then char_of (n + 32) else c)"

definition field_for :: "(string \<times> 'a decoder) list \<Rightarrow> string \<Rightarrow> 'a decoder option" where
  "field_for fs k =
     (case map_of fs k of
        Some d \<Rightarrow> Some d
      | None \<Rightarrow> map_option snd (find (\<lambda>(n, _). map ascii_lower n = map ascii_lower k) fs))"

fun dec_fields :: "(string \<times> 'a decoder) list \<Rightarrow> (string \<times> json) list \<Rightarrow> 'a \<Rightarrow> 'a option" where
  "dec_fields fs [] a = Some a"
| "dec_fields fs ((k, v) # kvs) a =
     (case field_for fs k of
        None \<Rightarrow> dec_fields fs kvs a
      | Some d \<Rightarrow> (case d v a of None \<Rightarrow> None | Some a' \<Rightarrow> dec_fields fs kvs a'))"

fun dec_struct :: "(string \<times> 'a decoder) list \<Rightarrow> 'a decoder" where
  "dec_struct fs JNull a = Some a"
| "dec_struct fs (JObj kvs) a = dec_fields fs kvs a"
| "dec_struct fs _ a = None"

fun dec_string :: "(string \<Rightarrow> 'a \<Rightarrow> 'a) \<Rightarrow> 'a decoder" where
  "dec_string put JNull a = Some a"
| "dec_string put (JStr s) a = Some (put s a)"
| "dec_string put _ a = None"

text \<open>Numbers and instants, with the conversion of their text as a parameter.\<close>

fun dec_number :: "(json \<Rightarrow> int64 option) \<Rightarrow> (int64 \<Rightarrow> 'a \<Rightarrow> 'a) \<Rightarrow> 'a decoder" where
  "dec_number conv put JNull a = Some a"
| "dec_number conv put v a = (case conv v of None \<Rightarrow> None | Some n \<Rightarrow> Some (put n a))"

fun dec_time :: "(string \<Rightarrow> gotime option) \<Rightarrow> (gotime \<Rightarrow> 'a \<Rightarrow> 'a) \<Rightarrow> 'a decoder" where
  "dec_time conv put JNull a = Some a"
| "dec_time conv put (JStr s) a = (case conv s of None \<Rightarrow> None | Some t \<Rightarrow> Some (put t a))"
| "dec_time conv put _ a = None"

text \<open>A \<open>json.RawMessage\<close> keeps whatever value it meets.\<close>

definition dec_raw :: "(json \<Rightarrow> 'a \<Rightarrow> 'a) \<Rightarrow> 'a decoder" where
  "dec_raw put v a = Some (put v a)"

lemma dec_fields_append:
  "dec_fields fs (xs @ ys) a =
     (case dec_fields fs xs a of None \<Rightarrow> None | Some a' \<Rightarrow> dec_fields fs ys a')"
  by (induction fs xs a rule: dec_fields.induct) (auto split: option.splits)

end
