(* ===== verification/Flusher.thy ===== *)
theory Flusher
  imports Streams Json "HOL-Library.List_Lexorder" "HOL-Library.Char_ord"
begin

text \<open>
  The background writer of conversation events: \<open>internal/streaming/flusher.go\<close>,
  \<open>flusher_stream.go\<close>, \<open>flusher_helpers.go\<close>, the event names of \<open>internal/runtimeevents\<close> and the rows of
  \<open>internal/model/employee_session.go\<close> and \<open>employee_session_event.go\<close>. A batch of stream entries is
  read through a consumer group, text deltas are accumulated in Redis, other events become rows, and
  the entries are acknowledged once the rows are stored. Logging and error reporting are left out.
\<close>

section \<open>Events and rows\<close>

definition EventAgentError :: string where "EventAgentError = ''agent_error''"
definition EventConversationEnded :: string where "EventConversationEnded = ''conversation_ended''"
definition EventDone :: string where "EventDone = ''done''"
definition EventReasoningDelta :: string where "EventReasoningDelta = ''reasoning_delta''"
definition EventResponseChunk :: string where "EventResponseChunk = ''response_chunk''"
definition EventResponseCompleted :: string where "EventResponseCompleted = ''response_completed''"
definition EventTurnCompleted :: string where "EventTurnCompleted = ''turn_completed''"
definition EventReasoningCompleted :: string where "EventReasoningCompleted = ''reasoning_completed''"

lemmas event_defs = EventAgentError_def EventConversationEnded_def EventDone_def
  EventReasoningDelta_def EventResponseChunk_def EventResponseCompleted_def EventTurnCompleted_def
  EventReasoningCompleted_def

definition IsTerminalEventType :: "string \<Rightarrow> bool" where
  "IsTerminalEventType eventType \<longleftrightarrow>
     eventType \<in> {EventAgentError, EventConversationEnded, EventDone, EventTurnCompleted}"

record employee_session =
  sn_id :: uuid
  sn_org :: uuid
  sn_employee :: uuid
  sn_sandbox :: uuid
  sn_runtime_conversation :: string
  sn_source :: string

record session_event =
  ve_org :: uuid
  ve_employee :: uuid
  ve_sandbox :: uuid
  ve_session :: uuid
  ve_runtime_session :: string
  ve_event_id :: string
  ve_type :: string
  ve_source :: string
  ve_sequence :: int64
  ve_payload :: "json option"
  ve_at :: gotime

record 's flush_st =
  fl_world :: 's
  fl_sessions :: "employee_session list"
  fl_events :: "session_event list"

text \<open>
  What the flusher calls: the server, the parsers of UUIDs, JSON texts, numbers and instants, the
  clock, and whether the database answers the next statement.
\<close>

record 's flush_env =
  fe_redis :: "'s stream_server"
  fe_consumer :: string
  fe_uuid :: "string \<Rightarrow> uuid option"
  fe_json :: "string \<Rightarrow> json option"
  fe_int64 :: "json \<Rightarrow> int64 option"
  fe_time :: "string \<Rightarrow> gotime option"
  fe_now :: "'s \<Rightarrow> gotime"
  fe_db :: "'s \<Rightarrow> string option \<times> 's"

definition on_server :: "('s \<Rightarrow> 'a \<times> 's) \<Rightarrow> 's flush_st \<Rightarrow> 'a \<times> 's flush_st" where
  "on_server f st = (case f (fl_world st) of (a, s) \<Rightarrow> (a, st\<lparr>fl_world := s\<rparr>))"

section \<open>Text deltas\<close>

record delta_envelope =
  de_EventID :: string
  de_Delta :: string
  de_MessageID :: string
  de_Text :: string
  de_ContentType :: string
  de_ContentText :: string

definition no_delta :: delta_envelope where
  "no_delta = \<lparr>de_EventID = [], de_Delta = [], de_MessageID = [], de_Text = [], de_ContentType = [],
     de_ContentText = []\<rparr>"

definition delta_decoder :: "delta_envelope decoder" where
  "delta_decoder = dec_struct
     [(''event_id'', dec_string (\<lambda>s. de_EventID_update (\<lambda>_. s))),
      (''data'', dec_struct
         [(''delta'', dec_string (\<lambda>s. de_Delta_update (\<lambda>_. s))),
          (''message_id'', dec_string (\<lambda>s. de_MessageID_update (\<lambda>_. s))),
          (''text'', dec_string (\<lambda>s. de_Text_update (\<lambda>_. s))),
          (''content'', dec_struct
             [(''type'', dec_string (\<lambda>s. de_ContentType_update (\<lambda>_. s))),
              (''text'', dec_string (\<lambda>s. de_ContentText_update (\<lambda>_. s)))])])]"

definition delta_text :: "delta_envelope \<Rightarrow> string" where
  "delta_text envelope =
     (let delta = de_Delta envelope;
          delta = (if delta = [] \<and> (de_ContentType envelope = [] \<or> de_ContentType envelope = ''text'')
                   then de_ContentText envelope else delta)
      in if delta = [] then de_Text envelope else delta)"

definition accumulateDelta :: "'s flush_env \<Rightarrow> string \<Rightarrow> string \<Rightarrow> string \<Rightarrow> 's \<Rightarrow> 's" where
  "accumulateDelta env kind convID dataStr s =
     (case Option.bind (fe_json env dataStr) (\<lambda>v. delta_decoder v no_delta) of
        None \<Rightarrow> s
      | Some envelope \<Rightarrow>
          if delta_text envelope = [] then s
          else
            (case ResolveAccumulatedMessageID (fe_redis env) kind convID (de_MessageID envelope)
                    (de_EventID envelope) s of
               (Inl _, s1) \<Rightarrow> s1
             | (Inr messageID, s1) \<Rightarrow>
                 if messageID = [] then s1
                 else snd (AppendAccumulated (fe_redis env) kind convID messageID (delta_text envelope) s1)))"

definition accumulateChunk where "accumulateChunk env = accumulateDelta env kind_response"
definition accumulateReasoning where "accumulateReasoning env = accumulateDelta env kind_reasoning"

section \<open>Rows of recovered messages\<close>

definition recoveredEventID :: "string \<Rightarrow> string \<Rightarrow> string" where
  "recoveredEventID eventType messageID =
     (if eventType = EventResponseCompleted then ''recovered-'' @ messageID
      else ''recovered-'' @ eventType @ ''-'' @ messageID)"

definition buildRecoveredAccumulatedEvent ::
  "'s flush_env \<Rightarrow> employee_session \<Rightarrow> session_event \<Rightarrow> string \<Rightarrow> string \<Rightarrow> string \<Rightarrow> string \<Rightarrow> 's \<Rightarrow> session_event"
where
  "buildRecoveredAccumulatedEvent env conv terminal messageID content eventType contentField s =
     \<lparr>ve_org = sn_org conv,
      ve_employee = ve_employee terminal,
      ve_sandbox = sn_sandbox conv,
      ve_session = sn_id conv,
      ve_runtime_session = sn_runtime_conversation conv,
      ve_event_id = recoveredEventID eventType messageID,
      ve_type = eventType,
      ve_source = (if sn_source conv = [] then ''manual'' else sn_source conv),
      ve_sequence = (if ve_sequence terminal > 0 then ve_sequence terminal - 1 else ve_sequence terminal),
      ve_payload = Some (JObj [(contentField, JStr content), (''message_id'', JStr messageID),
                               (''recovered'', JBool True)]),
      ve_at = (if is_zero (ve_at terminal) then fe_now env s else ve_at terminal)\<rparr>"

definition buildRecoveredEvent where
  "buildRecoveredEvent env conv terminal messageID content =
     buildRecoveredAccumulatedEvent env conv terminal messageID content EventResponseCompleted ''full_response''"

definition buildRecoveredReasoningEvent where
  "buildRecoveredReasoningEvent env conv terminal messageID content =
     buildRecoveredAccumulatedEvent env conv terminal messageID content EventReasoningCompleted ''full_reasoning''"

text \<open>What the loop over a batch collects.\<close>

record batch =
  ba_events :: "session_event list"
  ba_entryIDs :: "string list"
  ba_recovered :: "string list"
  ba_recoveredReasoning :: "string list"
  ba_seen :: "string list"
  ba_reasoningSeen :: "string list"

definition empty_batch :: batch where
  "empty_batch = \<lparr>ba_events = [], ba_entryIDs = [], ba_recovered = [], ba_recoveredReasoning = [],
     ba_seen = [], ba_reasoningSeen = []\<rparr>"

text \<open>The messages with accumulated text, in the order of their IDs, once each.\<close>

type_synonym recovery = "session_event list \<times> string list \<times> string list"

fun recover_messages ::
  "(string \<Rightarrow> string \<Rightarrow> session_event) \<Rightarrow> (string \<times> string) list \<Rightarrow> string list \<Rightarrow> recovery \<Rightarrow> recovery"
where
  "recover_messages build recovered [] (events, ids, seen) = (events, ids, seen)"
| "recover_messages build recovered (messageID # mids) (events, ids, seen) =
     (if messageID \<in> set seen then recover_messages build recovered mids (events, ids, seen)
      else recover_messages build recovered mids
             (events @ [build messageID (msgStringField recovered messageID)], ids @ [messageID],
              messageID # seen))"

definition recover_kind ::
  "'s flush_env \<Rightarrow> string \<Rightarrow> string \<Rightarrow> ('s \<Rightarrow> string \<Rightarrow> string \<Rightarrow> session_event) \<Rightarrow> recovery \<Rightarrow> 's \<Rightarrow> recovery \<times> 's"
where
  "recover_kind env kind convID build rec s =
     (case PeekAccumulated (fe_redis env) kind convID s of
        (res, s1) \<Rightarrow>
          (case res of
             Inl _ \<Rightarrow> rec
           | Inr recovered \<Rightarrow> recover_messages (build s1) recovered (sort (map fst recovered)) rec,
           snd (ClearActiveAccumulatedMessage (fe_redis env) kind convID s1)))"

definition appendRecoveredEvents ::
  "'s flush_env \<Rightarrow> string \<Rightarrow> employee_session \<Rightarrow> session_event \<Rightarrow> batch \<Rightarrow> 's \<Rightarrow> batch \<times> 's"
where
  "appendRecoveredEvents env convID conv terminal b s =
     (case recover_kind env kind_response convID
             (\<lambda>s1 mid content. buildRecoveredEvent env conv terminal mid content s1)
             (ba_events b, ba_recovered b, ba_seen b) s of
        ((events, ids, seen), s1) \<Rightarrow>
          (b\<lparr>ba_events := events, ba_recovered := ids, ba_seen := seen\<rparr>, s1))"

definition appendRecoveredReasoningEvents ::
  "'s flush_env \<Rightarrow> string \<Rightarrow> employee_session \<Rightarrow> session_event \<Rightarrow> batch \<Rightarrow> 's \<Rightarrow> batch \<times> 's"
where
  "appendRecoveredReasoningEvents env convID conv terminal b s =
     (case recover_kind env kind_reasoning convID
             (\<lambda>s1 mid content. buildRecoveredReasoningEvent env conv terminal mid content s1)
             (ba_events b, ba_recoveredReasoning b, ba_reasoningSeen b) s of
        ((events, ids, seen), s1) \<Rightarrow>
          (b\<lparr>ba_events := events, ba_recoveredReasoning := ids, ba_reasoningSeen := seen\<rparr>, s1))"

section \<open>One entry\<close>

record event_payload =
  ep_EventID :: string
  ep_EmployeeID :: string
  ep_ConversationID :: string
  ep_Timestamp :: gotime
  ep_SequenceNumber :: int64
  ep_Data :: "json option"

definition no_payload :: event_payload where
  "no_payload = \<lparr>ep_EventID = [], ep_EmployeeID = [], ep_ConversationID = [], ep_Timestamp = zero_time,
     ep_SequenceNumber = 0, ep_Data = None\<rparr>"

definition payload_decoder :: "'s flush_env \<Rightarrow> event_payload decoder" where
  "payload_decoder env = dec_struct
     [(''event_id'', dec_string (\<lambda>s. ep_EventID_update (\<lambda>_. s))),
      (''employee_id'', dec_string (\<lambda>s. ep_EmployeeID_update (\<lambda>_. s))),
      (''conversation_id'', dec_string (\<lambda>s. ep_ConversationID_update (\<lambda>_. s))),
      (''timestamp'', dec_time (fe_time env) (\<lambda>t. ep_Timestamp_update (\<lambda>_. t))),
      (''sequence_number'', dec_number (fe_int64 env) (\<lambda>n. ep_SequenceNumber_update (\<lambda>_. n))),
      (''data'', dec_raw (\<lambda>v. ep_Data_update (\<lambda>_. Some v)))]"

text \<open>\<open>message_id\<close> of the data of a completed message; empty data are an error.\<close>

definition data_message_id :: "json option \<Rightarrow> string option" where
  "data_message_id dat =
     Option.bind dat (\<lambda>v. dec_struct [(''message_id'', dec_string (\<lambda>s _. s))] v [])"

definition drop_completed :: "'s flush_env \<Rightarrow> string \<Rightarrow> string \<Rightarrow> json option \<Rightarrow> 's \<Rightarrow> 's" where
  "drop_completed env kind convID dat s =
     (case data_message_id dat of
        None \<Rightarrow> s
      | Some mid \<Rightarrow> if mid \<noteq> [] then snd (DropAccumulated (fe_redis env) kind convID mid s) else s)"

definition db_event ::
  "'s flush_env \<Rightarrow> employee_session \<Rightarrow> string \<Rightarrow> event_payload \<Rightarrow> 's \<Rightarrow> session_event"
where
  "db_event env conv eventType full s =
     \<lparr>ve_org = sn_org conv,
      ve_employee = sn_employee conv,
      ve_sandbox = sn_sandbox conv,
      ve_session = sn_id conv,
      ve_runtime_session =
        (if ep_ConversationID full = [] then sn_runtime_conversation conv else ep_ConversationID full),
      ve_event_id = ep_EventID full,
      ve_type = eventType,
      ve_source = (if sn_source conv = [] then ''manual'' else sn_source conv),
      ve_sequence = ep_SequenceNumber full,
      ve_payload = ep_Data full,
      ve_at = (if is_zero (ep_Timestamp full) then fe_now env s else ep_Timestamp full)\<rparr>"

definition add_entry :: "stream_entry \<Rightarrow> batch \<Rightarrow> batch" where
  "add_entry msg b = b\<lparr>ba_entryIDs := ba_entryIDs b @ [se_ID msg]\<rparr>"

definition flush_message ::
  "'s flush_env \<Rightarrow> string \<Rightarrow> employee_session \<Rightarrow> stream_entry \<Rightarrow> batch \<Rightarrow> 's \<Rightarrow> batch \<times> 's"
where
  "flush_message env convID conv msg b s =
     (let eventType = msgStringField (se_Values msg) ''event_type'';
          dataStr = msgStringField (se_Values msg) ''data'' in
      if eventType = EventResponseChunk then (add_entry msg b, accumulateChunk env convID dataStr s)
      else if eventType = EventReasoningDelta then (add_entry msg b, accumulateReasoning env convID dataStr s)
      else
        (case Option.bind (fe_json env dataStr) (\<lambda>v. payload_decoder env v no_payload) of
           None \<Rightarrow> (add_entry msg b, s)
         | Some full \<Rightarrow>
             let dbEvent = db_event env conv eventType full s;
                 b0 = add_entry msg b;
                 s1 = (if eventType = EventResponseCompleted
                       then drop_completed env kind_response convID (ep_Data full) s else s);
                 s2 = (if eventType = EventReasoningCompleted
                       then drop_completed env kind_reasoning convID (ep_Data full) s1 else s1) in
             (case (if IsTerminalEventType eventType
                    then (case appendRecoveredEvents env convID conv dbEvent b0 s2 of
                            (b1, s3) \<Rightarrow> appendRecoveredReasoningEvents env convID conv dbEvent b1 s3)
                    else (b0, s2)) of
                (b2, s4) \<Rightarrow> (b2\<lparr>ba_events := ba_events b2 @ [dbEvent]\<rparr>, s4))))"

fun flush_messages ::
  "'s flush_env \<Rightarrow> string \<Rightarrow> employee_session \<Rightarrow> stream_entry list \<Rightarrow> batch \<Rightarrow> 's \<Rightarrow> batch \<times> 's"
where
  "flush_messages env convID conv [] b s = (b, s)"
| "flush_messages env convID conv (msg # msgs) b s =
     (case flush_message env convID conv msg b s of
        (b1, s1) \<Rightarrow> flush_messages env convID conv msgs b1 s1)"

section \<open>One stream\<close>

definition flusherGroup :: string where "flusherGroup = ''db-flusher''"
definition flushBatchSize :: int where "flushBatchSize = 100"
definition trimMaxLen :: int where "trimMaxLen = 500"

text \<open>
  \<open>CreateInBatches\<close> with batches of \<open>n\<close> rows: without a surrounding transaction, as the connection
  is configured, the rows of the batches before a failed one stay.
\<close>

function create_in_batches ::
  "'s flush_env \<Rightarrow> nat \<Rightarrow> session_event list \<Rightarrow> 's flush_st \<Rightarrow> string option \<times> 's flush_st"
where
  "create_in_batches env n events st =
     (if events = [] \<or> n = 0 then (None, st)
      else
        (case on_server (fe_db env) st of
           (Some e, st1) \<Rightarrow> (Some e, st1)
         | (None, st1) \<Rightarrow>
             create_in_batches env n (drop n events)
               (st1\<lparr>fl_events := fl_events st1 @ take n events\<rparr>)))"
  by auto

termination
  by (relation "measure (\<lambda>(env, n, events, st). length events)") (auto simp: not_le)

declare create_in_batches.simps [simp del]

definition find_session :: "'s flush_env \<Rightarrow> uuid \<Rightarrow> 's flush_st \<Rightarrow> (string + employee_session) \<times> 's flush_st" where
  "find_session env i st =
     (case on_server (fe_db env) st of
        (Some e, st1) \<Rightarrow> (Inl e, st1)
      | (None, st1) \<Rightarrow>
          ((case find (\<lambda>c. sn_id c = i) (fl_sessions st1) of
              None \<Rightarrow> Inl ''record not found'' | Some c \<Rightarrow> Inr c), st1))"

text \<open>The entries of the next batch; none when there is nothing new or the read fails.\<close>

definition flush_read :: "'s flush_env \<Rightarrow> string \<Rightarrow> 's \<Rightarrow> stream_entry list \<times> 's" where
  "flush_read env convID s =
     (let streamKey = bus_prefix @ convID;
          s1 = snd (sr_XGroupCreateMkStream (fe_redis env) streamKey flusherGroup ''0'' s) in
      (case sr_XReadGroup (fe_redis env) streamKey flusherGroup (fe_consumer env) ''>'' flushBatchSize s1 of
         (Inl _, s2) \<Rightarrow> ([], s2)
       | (Inr msgs, s2) \<Rightarrow> (msgs, s2)))"

fun ack_each :: "'s flush_env \<Rightarrow> string \<Rightarrow> stream_entry list \<Rightarrow> 's \<Rightarrow> 's" where
  "ack_each env convID [] s = s"
| "ack_each env convID (msg # msgs) s =
     ack_each env convID msgs
       (snd (sr_XAck (fe_redis env) (bus_prefix @ convID) flusherGroup [se_ID msg] s))"

fun drop_each :: "'s flush_env \<Rightarrow> string \<Rightarrow> string \<Rightarrow> string list \<Rightarrow> 's \<Rightarrow> 's" where
  "drop_each env kind convID [] s = s"
| "drop_each env kind convID (mid # mids) s =
     drop_each env kind convID mids (snd (DropAccumulated (fe_redis env) kind convID mid s))"

text \<open>After the rows are stored: acknowledge, forget the recovered texts, trim.\<close>

definition flush_settle :: "'s flush_env \<Rightarrow> string \<Rightarrow> batch \<Rightarrow> 's \<Rightarrow> 's" where
  "flush_settle env convID b s =
     (let s1 = (if ba_entryIDs b \<noteq> []
                then snd (sr_XAck (fe_redis env) (bus_prefix @ convID) flusherGroup (ba_entryIDs b) s) else s);
          s2 = drop_each env kind_response convID (ba_recovered b) s1;
          s3 = drop_each env kind_reasoning convID (ba_recoveredReasoning b) s2 in
      snd (Trim (fe_redis env) convID trimMaxLen s3))"

definition flush_batch :: "'s flush_env \<Rightarrow> string \<Rightarrow> stream_entry list \<Rightarrow> 's flush_st \<Rightarrow> 's flush_st" where
  "flush_batch env convID msgs st =
     (case fe_uuid env convID of
        None \<Rightarrow> st
      | Some convUUID \<Rightarrow>
          (case find_session env convUUID st of
             (Inl _, st1) \<Rightarrow> st1\<lparr>fl_world := ack_each env convID msgs (fl_world st1)\<rparr>
           | (Inr conv, st1) \<Rightarrow>
               (case flush_messages env convID conv msgs empty_batch (fl_world st1) of
                  (b, s2) \<Rightarrow>
                    (case create_in_batches env 50 (ba_events b) (st1\<lparr>fl_world := s2\<rparr>) of
                       (Some _, st3) \<Rightarrow> st3
                     | (None, st3) \<Rightarrow> st3\<lparr>fl_world := flush_settle env convID b (fl_world st3)\<rparr>))))"

definition flushStream :: "'s flush_env \<Rightarrow> string \<Rightarrow> 's flush_st \<Rightarrow> 's flush_st" where
  "flushStream env convID st =
     (case on_server (flush_read env convID) st of
        (msgs, st1) \<Rightarrow> if msgs = [] then st1 else flush_batch env convID msgs st1)"

section \<open>All streams\<close>

fun flush_convs :: "'s flush_env \<Rightarrow> string list \<Rightarrow> 's flush_st \<Rightarrow> 's flush_st" where
  "flush_convs env [] st = st"
| "flush_convs env (c # cs) st =
     (if sr_ctxErr (fe_redis env) (fl_world st) then st else flush_convs env cs (flushStream env c st))"

definition flushAll :: "'s flush_env \<Rightarrow> 's flush_st \<Rightarrow> 's flush_st" where
  "flushAll env st =
     (case on_server (ActiveConversations (fe_redis env)) st of
        (Inl _, st1) \<Rightarrow> st1
      | (Inr convIDs, st1) \<Rightarrow> flush_convs env convIDs st1)"

text \<open>
  The entries read but not acknowledged: the ones this consumer was handed before are looked up,
  and when there are any the stream is flushed, which reads its new entries.
\<close>

definition pending_entries :: "'s flush_env \<Rightarrow> string \<Rightarrow> 's \<Rightarrow> stream_entry list \<times> 's" where
  "pending_entries env convID s =
     (let streamKey = bus_prefix @ convID;
          s1 = snd (sr_XGroupCreateMkStream (fe_redis env) streamKey flusherGroup ''0'' s) in
      (case sr_XReadGroup (fe_redis env) streamKey flusherGroup (fe_consumer env) ''0'' flushBatchSize s1 of
         (Inl _, s2) \<Rightarrow> ([], s2)
       | (Inr msgs, s2) \<Rightarrow> (msgs, s2)))"

fun pending_convs :: "'s flush_env \<Rightarrow> string list \<Rightarrow> 's flush_st \<Rightarrow> 's flush_st" where
  "pending_convs env [] st = st"
| "pending_convs env (c # cs) st =
     (if sr_ctxErr (fe_redis env) (fl_world st) then st
      else
        (case on_server (pending_entries env c) st of
           (msgs, st1) \<Rightarrow> pending_convs env cs (if msgs = [] then st1 else flushStream env c st1)))"

definition processPending :: "'s flush_env \<Rightarrow> 's flush_st \<Rightarrow> 's flush_st" where
  "processPending env st =
     (case on_server (ActiveConversations (fe_redis env)) st of
        (Inl _, st1) \<Rightarrow> st1
      | (Inr convIDs, st1) \<Rightarrow> pending_convs env convIDs st1)"

end
