(* ===== verification/FlusherProps.thy ===== *)
theory FlusherProps
  imports Flusher StreamServer
begin

text \<open>
  The writer of conversation events, on any server that keeps the documented laws: an entry is
  handed to at most one flush, whoever runs it; entries are acknowledged only when their rows are
  stored or their session cannot be read; a batch whose rows cannot be stored is never offered
  again; and accumulated text follows an abstract store of texts, so that a recovered message is the
  concatenation of its deltas.
\<close>

section \<open>Keys\<close>

lemma acc_keys_not_stream [simp]:
  "streamKey c \<noteq> chunkKey kind conv mid" "streamKey c \<noteq> chunkSetKey kind conv"
  "streamKey c \<noteq> activeChunkMessageKey kind conv"
  "chunkKey kind conv mid \<noteq> streamKey c" "chunkSetKey kind conv \<noteq> streamKey c"
  "activeChunkMessageKey kind conv \<noteq> streamKey c"
  by (simp_all add: key_defs)

lemma prefix_is_streamKey: "bus_prefix @ convID = streamKey convID"
  by (simp add: streamKey_def)

section \<open>Groups only move forward\<close>

text \<open>
  Between two states of the server every group of the flusher that exists keeps its entries below
  its last delivered rank, and keeps pending what is not in \<open>A\<close>.
\<close>

definition groups_le ::
  "('s \<Rightarrow> string \<rightharpoonup> rvalue) \<Rightarrow> (string \<Rightarrow> string set) \<Rightarrow> 's \<Rightarrow> 's \<Rightarrow> bool"
where
  "groups_le view A s s' \<longleftrightarrow>
     (\<forall>c l p. group_of (view s (streamKey c)) flusherGroup = Some (l, p) \<longrightarrow>
        (\<exists>l' p'. group_of (view s' (streamKey c)) flusherGroup = Some (l', p') \<and>
           l \<le> l' \<and> p - A c \<subseteq> p'))"

lemma groups_le_refl [simp]: "groups_le view A s s"
  by (simp add: groups_le_def)

lemma groups_le_trans:
  assumes "groups_le view A s s'" and "groups_le view A s' s''"
  shows "groups_le view A s s''"
  unfolding groups_le_def
proof (intro allI impI)
  fix c l p assume "group_of (view s (streamKey c)) flusherGroup = Some (l, p)"
  with assms(1) obtain l' p' where 1: "group_of (view s' (streamKey c)) flusherGroup = Some (l', p')"
      "l \<le> l'" "p - A c \<subseteq> p'" unfolding groups_le_def by blast
  with assms(2) obtain l'' p'' where "group_of (view s'' (streamKey c)) flusherGroup = Some (l'', p'')"
      "l' \<le> l''" "p' - A c \<subseteq> p''" unfolding groups_le_def by blast
  with 1 show "\<exists>l'' p''. group_of (view s'' (streamKey c)) flusherGroup = Some (l'', p'') \<and>
      l \<le> l'' \<and> p - A c \<subseteq> p''" by (intro exI [of _ l''] exI [of _ p'']) auto
qed

lemma groups_le_more: "groups_le view A s s' \<Longrightarrow> (\<And>c. A c \<subseteq> B c) \<Longrightarrow> groups_le view B s s'"
  unfolding groups_le_def by (meson Diff_mono dual_order.trans order_refl)

lemma groups_leD:
  "groups_le view A s s' \<Longrightarrow> group_of (view s (streamKey c)) flusherGroup = Some (l, p) \<Longrightarrow>
   \<exists>l' p'. group_of (view s' (streamKey c)) flusherGroup = Some (l', p') \<and> l \<le> l' \<and> p - A c \<subseteq> p'"
  by (simp add: groups_le_def)

text \<open>No stream is touched at all.\<close>

definition same_streams :: "('s \<Rightarrow> string \<rightharpoonup> rvalue) \<Rightarrow> 's \<Rightarrow> 's \<Rightarrow> bool" where
  "same_streams view s s' \<longleftrightarrow> (\<forall>c. view s' (streamKey c) = view s (streamKey c))"

lemma same_streams_refl [simp]: "same_streams view s s"
  by (simp add: same_streams_def)

lemma same_streams_trans: "same_streams view s s' \<Longrightarrow> same_streams view s' s'' \<Longrightarrow> same_streams view s s''"
  by (simp add: same_streams_def)

lemma same_streams_groups: "same_streams view s s' \<Longrightarrow> groups_le view A s s'"
  by (auto simp: same_streams_def groups_le_def)

lemma pipe_exec_same:
  assumes "\<And>c s. c \<in> set cs \<Longrightarrow> same_streams view s (snd (c s))"
  shows "same_streams view s (snd (pipe_exec cs s))"
  using assms
proof (induction cs arbitrary: s)
  case (Cons c cs)
  obtain a s1 where c: "c s = (a, s1)" by (cases "c s")
  obtain a' s2 where cs: "pipe_exec cs s1 = (a', s2)" by (cases "pipe_exec cs s1")
  have "same_streams view s s1" using Cons.prems [of c s] c by simp
  moreover have "same_streams view s1 s2" using Cons.IH [of s1] Cons.prems cs by simp
  ultimately have "same_streams view s s2" by (rule same_streams_trans)
  then show ?case using c cs by (simp split: option.split)
qed simp

context stream_view
begin

lemma other_keys:
  "same_streams view s (snd (sr_SetNX r (activeChunkMessageKey kind conv) v ttl s))"
  "same_streams view s (snd (sr_Get r k s))"
  "same_streams view s (snd (sr_Expire r (activeChunkMessageKey kind conv) ttl s))"
  "same_streams view s (snd (sr_Expire r (chunkKey kind conv mid) ttl s))"
  "same_streams view s (snd (sr_Expire r (chunkSetKey kind conv) ttl s))"
  "same_streams view s (snd (sr_Append r (chunkKey kind conv mid) v s))"
  "same_streams view s (snd (sr_SAdd r (chunkSetKey kind conv) v s))"
  "same_streams view s (snd (sr_SRem r (chunkSetKey kind conv) v s))"
  "same_streams view s (snd (sr_Del r (chunkKey kind conv mid) s))"
  "same_streams view s (snd (sr_Del r (activeChunkMessageKey kind conv) s))"
  "same_streams view s (snd (sr_SMembers r k s))"
  by (simp_all add: same_streams_def setnx_frame get_view expire_frame append_frame sadd_frame
      srem_frame del_frame smembers_view)

lemma peek_members_same: "same_streams view s (snd (peek_members r kind conv mids res s))"
proof (induction mids arbitrary: res s)
  case (Cons mid mids)
  obtain a s1 where g: "sr_Get r (chunkKey kind conv mid) s = (a, s1)"
    by (cases "sr_Get r (chunkKey kind conv mid) s")
  have s1: "same_streams view s s1" using other_keys(2) [of s "chunkKey kind conv mid"] g by simp
  have "same_streams view s1 (snd (peek_members r kind conv mids x s1))" for x by (rule Cons.IH)
  then show ?case
    using g s1 same_streams_trans [OF s1] by (auto split: sum.split redis_error.split)
qed simp

lemma accumulators_same:
  "same_streams view s (snd (ResolveAccumulatedMessageID r kind conv explicit ev s))"
  "same_streams view s (snd (AppendAccumulated r kind conv mid delta s))"
  "same_streams view s (snd (DropAccumulated r kind conv mid s))"
  "same_streams view s (snd (PeekAccumulated r kind conv s))"
  "same_streams view s (snd (ClearActiveAccumulatedMessage r kind conv s))"
proof -
  let ?k = "activeChunkMessageKey kind conv"
  obtain a s1 where n: "sr_SetNX r ?k ev chunkAccTTL s = (a, s1)" by (cases "sr_SetNX r ?k ev chunkAccTTL s")
  obtain g s2 where g: "sr_Get r ?k s1 = (g, s2)" by (cases "sr_Get r ?k s1")
  obtain a3 s3 where n3: "sr_SetNX r ?k ev chunkAccTTL s2 = (a3, s3)" by (cases "sr_SetNX r ?k ev chunkAccTTL s2")
  obtain a4 s4 where e4: "sr_Expire r ?k chunkAccTTL s2 = (a4, s4)" by (cases "sr_Expire r ?k chunkAccTTL s2")
  have s1: "same_streams view s s1" using other_keys(1) [of s kind conv ev chunkAccTTL] n by simp
  have "same_streams view s1 s2" using other_keys(2) [of s1 ?k] g by simp
  with s1 have s2: "same_streams view s s2" by (rule same_streams_trans)
  have "same_streams view s2 s3" using other_keys(1) [of s2 kind conv ev chunkAccTTL] n3 by simp
  with s2 have s3: "same_streams view s s3" by (rule same_streams_trans)
  have "same_streams view s2 s4" using other_keys(3) [of s2 kind conv chunkAccTTL] e4 by simp
  with s2 have s4: "same_streams view s s4" by (rule same_streams_trans)
  show "same_streams view s (snd (ResolveAccumulatedMessageID r kind conv explicit ev s))"
    unfolding ResolveAccumulatedMessageID_def Let_def n
    using s1 s2 s3 s4 by (auto simp: g n3 e4 split: sum.split redis_error.split bool.split)
  show "same_streams view s (snd (AppendAccumulated r kind conv mid delta s))"
    unfolding AppendAccumulated_def Let_def by (rule pipe_exec_same) (auto simp: other_keys)
  show "same_streams view s (snd (DropAccumulated r kind conv mid s))"
    unfolding DropAccumulated_def by (rule pipe_exec_same) (auto simp: other_keys)
  show "same_streams view s (snd (ClearActiveAccumulatedMessage r kind conv s))"
    by (simp add: ClearActiveAccumulatedMessage_def other_keys)
  obtain m s5 where m: "sr_SMembers r (chunkSetKey kind conv) s = (m, s5)"
    by (cases "sr_SMembers r (chunkSetKey kind conv) s")
  have s5: "same_streams view s s5" using other_keys(11) [of s "chunkSetKey kind conv"] m by simp
  then show "same_streams view s (snd (PeekAccumulated r kind conv s))"
    using m same_streams_trans [OF s5 peek_members_same] by (auto simp: PeekAccumulated_def split: sum.split)
qed

lemma accumulateDelta_same:
  assumes "fe_redis env = r"
  shows "same_streams view s (accumulateDelta env kind conv dat s)"
proof (cases "Option.bind (fe_json env dat) (\<lambda>v. delta_decoder v no_delta)")
  case (Some e)
  obtain a s1 where x: "ResolveAccumulatedMessageID r kind conv (de_MessageID e) (de_EventID e) s = (a, s1)"
    by (cases "ResolveAccumulatedMessageID r kind conv (de_MessageID e) (de_EventID e) s")
  have s1: "same_streams view s s1"
    using accumulators_same(1) [of s kind conv "de_MessageID e" "de_EventID e"] x by simp
  then show ?thesis
    using Some x assms same_streams_trans [OF s1 accumulators_same(2)]
    by (auto simp: accumulateDelta_def split: sum.split)
qed (simp add: accumulateDelta_def)

lemma recover_kind_same:
  assumes "fe_redis env = r"
  shows "same_streams view s (snd (recover_kind env kind conv build rec s))"
proof -
  obtain a s1 where x: "PeekAccumulated r kind conv s = (a, s1)" by (cases "PeekAccumulated r kind conv s")
  have "same_streams view s s1" using accumulators_same(4) [of s kind conv] x by simp
  then show ?thesis
    using x assms accumulators_same(5) [of s1 kind conv] same_streams_trans
    by (auto simp: recover_kind_def)
qed

lemma flush_message_same:
  assumes "fe_redis env = r"
  shows "same_streams view s (snd (flush_message env conv sess msg b s))"
proof -
  have drop: "same_streams view s (drop_completed env kind conv dat s)" for kind dat s
    using accumulators_same(3) assms by (auto simp: drop_completed_def split: option.split)
  have app: "same_streams view s (snd (appendRecoveredEvents env conv sess t b s))"
      "same_streams view s (snd (appendRecoveredReasoningEvents env conv sess t b s))" for t b s
    using recover_kind_same [OF assms, of s kind_response conv]
      recover_kind_same [OF assms, of s kind_reasoning conv]
    by (auto simp: appendRecoveredEvents_def appendRecoveredReasoningEvents_def split: prod.split)
      (metis snd_conv)+
  let ?ty = "msgStringField (se_Values msg) ''event_type''"
  define s1 where "s1 dat = (if ?ty = EventResponseCompleted then drop_completed env kind_response conv dat s else s)" for dat
  define s2 where "s2 dat = (if ?ty = EventReasoningCompleted then drop_completed env kind_reasoning conv dat (s1 dat) else s1 dat)" for dat
  have s2: "same_streams view s (s2 dat)" for dat
    using drop same_streams_trans [OF drop drop] by (auto simp: s1_def s2_def)
  have rec: "same_streams view s (snd (case appendRecoveredEvents env conv sess t b' (s2 dat) of
      (b1, s3) \<Rightarrow> appendRecoveredReasoningEvents env conv sess t b1 s3))" for dat t b'
  proof -
    obtain b1 s3 where x: "appendRecoveredEvents env conv sess t b' (s2 dat) = (b1, s3)"
      by (cases "appendRecoveredEvents env conv sess t b' (s2 dat)")
    have "same_streams view (s2 dat) s3" using app(1) [of "s2 dat" t b'] x by simp
    with s2 have "same_streams view s s3" by (rule same_streams_trans)
    then show ?thesis using x same_streams_trans [OF \<open>same_streams view s s3\<close> app(2)] by simp
  qed
  have pair: "snd (case x of (b2, s4) \<Rightarrow> (f b2, s4)) = snd x" for x :: "batch \<times> 's" and f :: "batch \<Rightarrow> batch"
    by (cases x) simp
  show ?thesis
    unfolding flush_message_def Let_def accumulateChunk_def accumulateReasoning_def
      s1_def [symmetric] s2_def [symmetric]
    using accumulateDelta_same [OF assms] s2 rec by (simp add: pair split: option.split)
qed

lemma flush_messages_same:
  assumes "fe_redis env = r"
  shows "same_streams view s (snd (flush_messages env conv sess msgs b s))"
proof (induction msgs arbitrary: b s)
  case (Cons m ms)
  obtain b1 s1 where x: "flush_message env conv sess m b s = (b1, s1)" by (cases "flush_message env conv sess m b s")
  have "same_streams view s s1" using flush_message_same [OF assms, of s conv sess m b] x by simp
  then show ?case using x same_streams_trans [OF \<open>same_streams view s s1\<close> Cons.IH] by simp
qed simp

end

section \<open>Storing rows\<close>

lemma create_in_batches_ok:
  "create_in_batches env n events st = (None, st') \<Longrightarrow> n \<noteq> 0 \<Longrightarrow>
     fl_events st' = fl_events st @ events \<and> fl_sessions st' = fl_sessions st"
proof (induction env n events st arbitrary: st' rule: create_in_batches.induct)
  case (1 env n events st)
  show ?case
  proof (cases "events = []")
    case True
    with 1(2) show ?thesis by (simp add: create_in_batches.simps)
  next
    case False
    obtain a st1 where a: "on_server (fe_db env) st = (a, st1)" by (cases "on_server (fe_db env) st")
    then have st1: "fl_events st1 = fl_events st" "fl_sessions st1 = fl_sessions st"
      by (auto simp: on_server_def split: prod.splits)
    have None: "a = None" using 1(2,3) a False by (cases a) (simp_all add: create_in_batches.simps [of env n events st])
    let ?st2 = "st1\<lparr>fl_events := fl_events st1 @ take n events\<rparr>"
    have r: "create_in_batches env n (drop n events) ?st2 = (None, st')"
      using 1(2,3) a None False by (simp add: create_in_batches.simps [of env n events st])
    have n: "\<not> (events = [] \<or> n = 0)" using False 1(3) by simp
    from 1(1) [OF n a [symmetric] None r 1(3)] show ?thesis using st1 by simp
  qed
qed

lemma create_in_batches_error:
  "create_in_batches env n events st = (Some e, st') \<Longrightarrow> n \<noteq> 0 \<Longrightarrow>
     \<exists>k. k * n < length events \<and> fl_events st' = fl_events st @ take (k * n) events"
proof (induction env n events st arbitrary: st' rule: create_in_batches.induct)
  case (1 env n events st)
  have ne: "events \<noteq> []" using 1(2,3) by (auto simp: create_in_batches.simps [of env n events st])
  obtain a st1 where a: "on_server (fe_db env) st = (a, st1)" by (cases "on_server (fe_db env) st")
  then have st1: "fl_events st1 = fl_events st" by (auto simp: on_server_def split: prod.splits)
  show ?case
  proof (cases a)
    case (Some e')
    then have "fl_events st' = fl_events st" using 1(2,3) a ne st1 by (simp add: create_in_batches.simps [of env n events st])
    then show ?thesis using ne by (intro exI [of _ 0]) simp
  next
    case None
    let ?st2 = "st1\<lparr>fl_events := fl_events st1 @ take n events\<rparr>"
    have r: "create_in_batches env n (drop n events) ?st2 = (Some e, st')"
      using 1(2,3) a None ne by (simp add: create_in_batches.simps [of env n events st])
    have n: "\<not> (events = [] \<or> n = 0)" using ne 1(3) by simp
    from 1(1) [OF n a [symmetric] None r 1(3)] obtain k where
      k: "k * n < length (drop n events)" "fl_events st' = fl_events ?st2 @ take (k * n) (drop n events)" by blast
    have "take (Suc k * n) events = take n events @ take (k * n) (drop n events)"
      by (simp add: take_add)
    then show ?thesis using k st1 by (intro exI [of _ "Suc k"]) auto
  qed
qed

text \<open>The database does not touch the Redis server.\<close>

definition db_apart :: "'s flush_env \<Rightarrow> ('s \<Rightarrow> string \<rightharpoonup> rvalue) \<Rightarrow> bool" where
  "db_apart env view \<longleftrightarrow> (\<forall>s. view (snd (fe_db env s)) = view s)"

lemma db_apart_step:
  "db_apart env view \<Longrightarrow> on_server (fe_db env) st = (a, st1) \<Longrightarrow> view (fl_world st1) = view (fl_world st)"
  unfolding on_server_def db_apart_def by (auto split: prod.splits) (metis snd_conv)

lemma create_in_batches_apart:
  "db_apart env view \<Longrightarrow> view (fl_world (snd (create_in_batches env n events st))) = view (fl_world st)"
proof (induction env n events st rule: create_in_batches.induct)
  case (1 env n events st)
  obtain a st1 where a: "on_server (fe_db env) st = (a, st1)" by (cases "on_server (fe_db env) st")
  note w = db_apart_step [OF 1(2) a]
  show ?case
  proof (cases "events = [] \<or> n = 0 \<or> a \<noteq> None")
    case True
    then show ?thesis using a w by (auto simp: create_in_batches.simps [of env n events st])
  next
    case False
    then have "\<not> (events = [] \<or> n = 0)" and None: "a = None" by auto
    from 1(1) [OF this(1) a [symmetric] None 1(2)] show ?thesis
      using False a w by (simp add: create_in_batches.simps [of env n events st])
  qed
qed

lemma find_session_apart:
  "db_apart env view \<Longrightarrow> find_session env i st = (x, st1) \<Longrightarrow>
     view (fl_world st1) = view (fl_world st) \<and> fl_events st1 = fl_events st \<and> fl_sessions st1 = fl_sessions st"
  using db_apart_step [of env view st "fst (on_server (fe_db env) st)" "snd (on_server (fe_db env) st)"]
  by (auto simp: find_session_def on_server_def split: prod.splits option.splits)

section \<open>Groups through a flush\<close>

text \<open>The acknowledged entries of one stream.\<close>

definition only_acks :: "string \<Rightarrow> string set \<Rightarrow> string \<Rightarrow> string set" where
  "only_acks conv ids c = (if c = conv then ids else {})"

lemma view_groups: "view s' = view s \<Longrightarrow> groups_le view A s s'"
  by (simp add: groups_le_def)

context stream_groups
begin

lemma group_frame:
  assumes "\<And>k'. k' \<noteq> streamKey conv \<Longrightarrow> view s' k' = view s k'"
    and "\<And>l p. group_of (view s (streamKey conv)) flusherGroup = Some (l, p) \<Longrightarrow>
      \<exists>l' p'. group_of (view s' (streamKey conv)) flusherGroup = Some (l', p') \<and> l \<le> l' \<and> p - ids \<subseteq> p'"
  shows "groups_le view (only_acks conv ids) s s'"
  unfolding groups_le_def
proof (intro allI impI)
  fix c l p assume g: "group_of (view s (streamKey c)) flusherGroup = Some (l, p)"
  show "\<exists>l' p'. group_of (view s' (streamKey c)) flusherGroup = Some (l', p') \<and> l \<le> l' \<and> p - only_acks conv ids c \<subseteq> p'"
  proof (cases "c = conv")
    case True
    then show ?thesis using assms(2) g by (simp add: only_acks_def)
  next
    case False
    then have "streamKey c \<noteq> streamKey conv" by (simp add: streamKey_def)
    then show ?thesis using assms(1) g by simp
  qed
qed

lemma stream_commands:
  "groups_le view (only_acks conv (set ids)) s (snd (sr_XAck r (streamKey conv) flusherGroup ids s))"
  "groups_le view (only_acks conv ids') s (snd (sr_XTrimMaxLenApprox r (streamKey conv) n l s))"
  "groups_le view (only_acks conv ids') s (snd (sr_XGroupCreateMkStream r (streamKey conv) g i s))"
  "groups_le view (only_acks conv ids') s (snd (sr_XReadGroup r (streamKey conv) flusherGroup cs i n s))"
  "groups_le view (only_acks conv ids') s (snd (sr_XAdd r (streamKey conv) fs s))"
proof -
  show "groups_le view (only_acks conv (set ids)) s (snd (sr_XAck r (streamKey conv) flusherGroup ids s))"
  proof (rule group_frame [OF xack_frame])
    fix l p assume "group_of (view s (streamKey conv)) flusherGroup = Some (l, p)"
    from xack_keeps [OF this, of ids]
    show "\<exists>l' p'. group_of (view (snd (sr_XAck r (streamKey conv) flusherGroup ids s)) (streamKey conv)) flusherGroup =
        Some (l', p') \<and> l \<le> l' \<and> p - set ids \<subseteq> p'" by blast
  qed
  show "groups_le view (only_acks conv ids') s (snd (sr_XTrimMaxLenApprox r (streamKey conv) n l s))"
    by (rule group_frame) (use xtrim_frame xtrim_keeps in auto)
  show "groups_le view (only_acks conv ids') s (snd (sr_XGroupCreateMkStream r (streamKey conv) g i s))"
    by (rule group_frame) (use xgroup_frame xgroup_keeps in auto)
  show "groups_le view (only_acks conv ids') s (snd (sr_XReadGroup r (streamKey conv) flusherGroup cs i n s))"
  proof (rule group_frame [OF xreadgroup_frame])
    fix l p assume "group_of (view s (streamKey conv)) flusherGroup = Some (l, p)"
    from xreadgroup_mono [OF this, of cs i n]
    show "\<exists>l' p'. group_of (view (snd (sr_XReadGroup r (streamKey conv) flusherGroup cs i n s)) (streamKey conv))
        flusherGroup = Some (l', p') \<and> l \<le> l' \<and> p - ids' \<subseteq> p'" by blast
  qed
  show "groups_le view (only_acks conv ids') s (snd (sr_XAdd r (streamKey conv) fs s))"
    by (rule group_frame) (use xadd_frame xadd_keeps in auto)
qed

lemma drop_each_same: "fe_redis env = r \<Longrightarrow> same_streams view s (drop_each env kind conv mids s)"
proof (induction mids arbitrary: s)
  case (Cons mid mids)
  show ?case
    using same_streams_trans [OF accumulators_same(3) Cons.IH] Cons.prems by simp
qed simp

lemma ack_each_groups:
  "fe_redis env = r \<Longrightarrow> groups_le view (only_acks conv (se_ID ` set msgs)) s (ack_each env conv msgs s)"
proof (induction msgs arbitrary: s)
  case (Cons m ms)
  let ?s1 = "snd (sr_XAck r (streamKey conv) flusherGroup [se_ID m] s)"
  have "groups_le view (only_acks conv {se_ID m}) s ?s1"
    using stream_commands(1) [of conv "[se_ID m]" s] by simp
  then have 1: "groups_le view (only_acks conv (se_ID ` set (m # ms))) s ?s1"
    by (rule groups_le_more) (auto simp: only_acks_def)
  have "groups_le view (only_acks conv (se_ID ` set ms)) ?s1 (ack_each env conv ms ?s1)"
    by (rule Cons.IH [OF Cons.prems])
  then have 2: "groups_le view (only_acks conv (se_ID ` set (m # ms))) ?s1 (ack_each env conv ms ?s1)"
    by (rule groups_le_more) (auto simp: only_acks_def)
  show ?case using groups_le_trans [OF 1 2] Cons.prems by (simp add: prefix_is_streamKey)
qed simp

lemma flush_settle_groups:
  assumes "fe_redis env = r"
  shows "groups_le view (only_acks conv (set (ba_entryIDs b))) s (flush_settle env conv b s)"
proof -
  define s1 where "s1 = (if ba_entryIDs b \<noteq> [] then snd (sr_XAck r (streamKey conv) flusherGroup (ba_entryIDs b) s) else s)"
  define s3 where "s3 = drop_each env kind_reasoning conv (ba_recoveredReasoning b)
    (drop_each env kind_response conv (ba_recovered b) s1)"
  have "groups_le view (only_acks conv (set (ba_entryIDs b))) s s1"
    using stream_commands(1) by (simp add: s1_def)
  moreover have "same_streams view s1 s3"
    unfolding s3_def by (rule same_streams_trans [OF drop_each_same drop_each_same]) (simp_all add: assms)
  ultimately have "groups_le view (only_acks conv (set (ba_entryIDs b))) s s3"
    by (blast intro: groups_le_trans same_streams_groups)
  moreover have "groups_le view (only_acks conv (set (ba_entryIDs b))) s3 (snd (Trim r conv trimMaxLen s3))"
    unfolding Trim_def by (rule stream_commands)
  ultimately have "groups_le view (only_acks conv (set (ba_entryIDs b))) s (snd (Trim r conv trimMaxLen s3))"
    by (rule groups_le_trans)
  then show ?thesis
    unfolding flush_settle_def Let_def prefix_is_streamKey assms s1_def [symmetric] s3_def [symmetric] .
qed

end

text \<open>Every entry of the batch is recorded for acknowledgement.\<close>

lemma flush_message_entries: "ba_entryIDs (fst (flush_message env conv sess m b s)) = ba_entryIDs b @ [se_ID m]"
proof -
  have app: "ba_entryIDs (fst (appendRecoveredEvents env conv sess t b s)) = ba_entryIDs b"
      "ba_entryIDs (fst (appendRecoveredReasoningEvents env conv sess t b s)) = ba_entryIDs b" for t b s
    by (simp_all add: appendRecoveredEvents_def appendRecoveredReasoningEvents_def split: prod.split)
  have rec: "ba_entryIDs (fst (case appendRecoveredEvents env conv sess t b s of
      (b1, s3) \<Rightarrow> appendRecoveredReasoningEvents env conv sess t b1 s3)) = ba_entryIDs b" for t b s
    using app(1) [of t b s] app(2) by (cases "appendRecoveredEvents env conv sess t b s") simp
  have pair: "ba_entryIDs (fst (case x of (b2, s4) \<Rightarrow> (b2\<lparr>ba_events := f b2\<rparr>, s4))) = ba_entryIDs (fst x)"
    for x :: "batch \<times> 'a" and f
    by (cases x) simp
  show ?thesis
    by (simp add: flush_message_def Let_def add_entry_def pair rec split: option.split)
qed

lemma flush_messages_entries:
  "ba_entryIDs (fst (flush_messages env conv sess msgs b s)) = ba_entryIDs b @ map se_ID msgs"
proof (induction msgs arbitrary: b s)
  case (Cons m ms)
  obtain b1 s1 where x: "flush_message env conv sess m b s = (b1, s1)" by (cases "flush_message env conv sess m b s")
  show ?case using Cons.IH [of b1 s1] flush_message_entries [of env conv sess m b s] x by simp
qed simp

text \<open>
  The branches of a flush: an unusable conversation ID and a failed insert leave everything
  pending, a session that cannot be read discards the batch, and otherwise all rows are stored.
\<close>

datatype flush_outcome = BadID | NoSession | InsertFailed | Stored

definition outcome_of :: "'s flush_env \<Rightarrow> string \<Rightarrow> stream_entry list \<Rightarrow> 's flush_st \<Rightarrow> flush_outcome" where
  "outcome_of env convID msgs st =
     (case fe_uuid env convID of
        None \<Rightarrow> BadID
      | Some i \<Rightarrow>
          (case find_session env i st of
             (Inl _, _) \<Rightarrow> NoSession
           | (Inr conv, st1) \<Rightarrow>
               (case flush_messages env convID conv msgs empty_batch (fl_world st1) of
                  (b, s2) \<Rightarrow>
                    if fst (create_in_batches env 50 (ba_events b) (st1\<lparr>fl_world := s2\<rparr>)) = None
                    then Stored else InsertFailed)))"

definition acked_by :: "flush_outcome \<Rightarrow> stream_entry list \<Rightarrow> string set" where
  "acked_by oc msgs = (if oc \<in> {NoSession, Stored} then se_ID ` set msgs else {})"

context stream_groups
begin

lemma flush_batch_groups:
  assumes env: "fe_redis env = r" and db: "db_apart env view"
  shows "groups_le view (only_acks conv (acked_by (outcome_of env conv msgs st) msgs))
    (fl_world st) (fl_world (flush_batch env conv msgs st))"
proof (cases "fe_uuid env conv")
  case None
  then show ?thesis by (simp add: flush_batch_def)
next
  case (Some i)
  obtain x st1 where f: "find_session env i st = (x, st1)" by (cases "find_session env i st")
  note w1 = find_session_apart [OF db f]
  show ?thesis
  proof (cases x)
    case (Inl e)
    have 1: "groups_le view A (fl_world st) (fl_world st1)" for A by (rule view_groups) (use w1 in simp)
    show ?thesis
      using groups_le_trans [OF 1 ack_each_groups [OF env, of conv msgs "fl_world st1"]] Some f Inl
      by (simp add: flush_batch_def outcome_of_def acked_by_def)
  next
    case (Inr sess)
    obtain b s2 where m: "flush_messages env conv sess msgs empty_batch (fl_world st1) = (b, s2)"
      by (cases "flush_messages env conv sess msgs empty_batch (fl_world st1)")
    obtain y st3 where c: "create_in_batches env 50 (ba_events b) (st1\<lparr>fl_world := s2\<rparr>) = (y, st3)"
      by (cases "create_in_batches env 50 (ba_events b) (st1\<lparr>fl_world := s2\<rparr>)")
    have ids: "set (ba_entryIDs b) = se_ID ` set msgs"
      using flush_messages_entries [of env conv sess msgs empty_batch "fl_world st1"] m by (simp add: empty_batch_def)
    have 1: "groups_le view A (fl_world st) (fl_world st1)" for A by (rule view_groups) (use w1 in simp)
    have 2: "groups_le view A (fl_world st1) s2" for A
      using flush_messages_same [OF env, of "fl_world st1" conv sess msgs empty_batch] m
      by (simp add: same_streams_groups)
    have 3: "groups_le view A s2 (fl_world st3)" for A
      by (rule view_groups) (use create_in_batches_apart [OF db, of 50 "ba_events b" "st1\<lparr>fl_world := s2\<rparr>"] c in simp)
    note to3 = groups_le_trans [OF groups_le_trans [OF 1 2] 3]
    show ?thesis
    proof (cases y)
      case (Some e)
      then show ?thesis using to3 \<open>fe_uuid env conv = Some i\<close> f Inr m c
        by (simp add: flush_batch_def outcome_of_def)
    next
      case None
      have "groups_le view (only_acks conv (se_ID ` set msgs)) (fl_world st3) (flush_settle env conv b (fl_world st3))"
        using flush_settle_groups [OF env, of conv b "fl_world st3"] ids by simp
      then show ?thesis using groups_le_trans [OF to3] None \<open>fe_uuid env conv = Some i\<close> f Inr m c
        by (simp add: flush_batch_def outcome_of_def acked_by_def)
    qed
  qed
qed

end

section \<open>Runs of several flushers\<close>

text \<open>
  Instances, named by their consumer, read batches, work on any batch they hold and look up pending
  entries, in any order and with publishers between them. A run answers the entries handed out.
\<close>

datatype flush_act =
    FPublish string string string
  | FRead string string
  | FHandle string string "stream_entry list"
  | FPending string string

definition instance_env :: "'s flush_env \<Rightarrow> string \<Rightarrow> 's flush_env" where
  "instance_env env name = env\<lparr>fe_consumer := name\<rparr>"

fun flush_do :: "'s flush_env \<Rightarrow> flush_act \<Rightarrow> 's flush_st \<Rightarrow> (string \<times> stream_entry) list \<times> 's flush_st" where
  "flush_do env (FPublish c ty dat) st =
     ([], st\<lparr>fl_world := snd (Publish (fe_redis env) c ty dat (fl_world st))\<rparr>)"
| "flush_do env (FRead name c) st =
     (case on_server (flush_read (instance_env env name) c) st of (msgs, st1) \<Rightarrow> (map (Pair c) msgs, st1))"
| "flush_do env (FHandle name c msgs) st = ([], flush_batch (instance_env env name) c msgs st)"
| "flush_do env (FPending name c) st = ([], snd (on_server (pending_entries (instance_env env name) c) st))"

fun flush_run :: "'s flush_env \<Rightarrow> flush_act list \<Rightarrow> 's flush_st \<Rightarrow> (string \<times> stream_entry) list \<times> 's flush_st" where
  "flush_run env [] st = ([], st)"
| "flush_run env (a # acts) st =
     (case flush_do env a st of
        (es, st1) \<Rightarrow> (case flush_run env acts st1 of (rest, st2) \<Rightarrow> (es @ rest, st2)))"

definition batch_of :: "'s flush_env \<Rightarrow> string \<Rightarrow> stream_entry list \<Rightarrow> 's flush_st \<Rightarrow> batch" where
  "batch_of env convID msgs st =
     (case find_session env (case fe_uuid env convID of None \<Rightarrow> uuid_nil | Some i \<Rightarrow> i) st of
        (Inl _, _) \<Rightarrow> empty_batch
      | (Inr conv, st1) \<Rightarrow> fst (flush_messages env convID conv msgs empty_batch (fl_world st1)))"

text \<open>A flush is a read followed by the work on what it answered.\<close>

lemma flushStream_acts:
  "flushStream (instance_env env name) c st =
     (case flush_do env (FRead name c) st of
        (es, st1) \<Rightarrow> if es = [] then st1 else snd (flush_do env (FHandle name c (map snd es)) st1))"
  by (simp add: flushStream_def comp_def split: prod.split)

text \<open>The rows a flush leaves.\<close>

lemma flush_batch_rows:
  "fl_events (flush_batch env c msgs st) =
     fl_events st @
     (case outcome_of env c msgs st of
        Stored \<Rightarrow> ba_events (batch_of env c msgs st)
      | InsertFailed \<Rightarrow>
          take (length (fl_events (flush_batch env c msgs st)) - length (fl_events st))
               (ba_events (batch_of env c msgs st))
      | _ \<Rightarrow> [])"
proof (cases "fe_uuid env c")
  case None
  then show ?thesis by (simp add: flush_batch_def outcome_of_def)
next
  case (Some i)
  obtain x st1 where f: "find_session env i st = (x, st1)" by (cases "find_session env i st")
  have st1: "fl_events st1 = fl_events st"
    using f by (auto simp: find_session_def on_server_def split: prod.splits option.splits)
  show ?thesis
  proof (cases x)
    case (Inl e)
    then show ?thesis using Some f st1 by (simp add: flush_batch_def outcome_of_def)
  next
    case (Inr sess)
    obtain b s2 where m: "flush_messages env c sess msgs empty_batch (fl_world st1) = (b, s2)"
      by (cases "flush_messages env c sess msgs empty_batch (fl_world st1)")
    obtain y st3 where cr: "create_in_batches env 50 (ba_events b) (st1\<lparr>fl_world := s2\<rparr>) = (y, st3)"
      by (cases "create_in_batches env 50 (ba_events b) (st1\<lparr>fl_world := s2\<rparr>)")
    show ?thesis
    proof (cases y)
      case None
      with create_in_batches_ok [of env 50 "ba_events b" "st1\<lparr>fl_world := s2\<rparr>" st3] cr
      have "fl_events st3 = fl_events st @ ba_events b" using st1 by simp
      then show ?thesis using Some f Inr m cr None by (simp add: flush_batch_def outcome_of_def batch_of_def)
    next
      case err: (Some e)
      with create_in_batches_error [of env 50 "ba_events b" "st1\<lparr>fl_world := s2\<rparr>" e st3] cr
      obtain k where k: "k * 50 < length (ba_events b)" "fl_events st3 = fl_events st @ take (k * 50) (ba_events b)"
        using st1 by auto
      then have "take (length (fl_events st3) - length (fl_events st)) (ba_events b) = take (k * 50) (ba_events b)"
        by (simp add: min_def)
      then show ?thesis using Some f Inr m cr err k(2)
        by (simp add: flush_batch_def outcome_of_def batch_of_def)
    qed
  qed
qed

context stream_groups
begin

lemma flush_do_groups:
  assumes env: "fe_redis env = r" and db: "db_apart env view"
  shows "groups_le view (\<lambda>_. UNIV) (fl_world st) (fl_world (snd (flush_do env a st)))"
proof -
  have any: "groups_le view (only_acks c ids) s s' \<Longrightarrow> groups_le view (\<lambda>_. UNIV) s s'" for c ids s s'
    by (rule groups_le_more) auto
  have ienv: "fe_redis (instance_env env n) = r" "db_apart (instance_env env n) view" for n
    using env db by (simp_all add: instance_env_def db_apart_def)
  have read: "groups_le view (\<lambda>_. UNIV) s (snd (sr_XReadGroup r (streamKey c) flusherGroup cs i n
      (snd (sr_XGroupCreateMkStream r (streamKey c) g j s))))" for s c cs i n g j
    by (rule groups_le_trans [OF any [OF stream_commands(3)] any [OF stream_commands(4)]])
  show ?thesis
  proof (cases a)
    case (FPublish c ty dat)
    obtain x s1 where x: "sr_XAdd r (streamKey c) [(''event_type'', ty), (''data'', dat)] (fl_world st) = (x, s1)"
      by (cases "sr_XAdd r (streamKey c) [(''event_type'', ty), (''data'', dat)] (fl_world st)")
    have 1: "groups_le view (\<lambda>_. UNIV) (fl_world st) s1"
      using any [OF stream_commands(5) [of c _ "fl_world st" "[(''event_type'', ty), (''data'', dat)]"]] x by simp
    have 2: "groups_le view (\<lambda>_. UNIV) s1 (snd (sr_SAdd r k v s1))" for k v
      unfolding groups_le_def
    proof (intro allI impI)
      fix d l p assume "group_of (view s1 (streamKey d)) flusherGroup = Some (l, p)"
      then show "\<exists>l' p'. group_of (view (snd (sr_SAdd r k v s1)) (streamKey d)) flusherGroup = Some (l', p') \<and>
          l \<le> l' \<and> p - UNIV \<subseteq> p'"
        using sadd_groups [of k v s1] sadd_frame [of "streamKey d" k v s1] by (cases "streamKey d = k") auto
    qed
    show ?thesis
      using FPublish env x 1 groups_le_trans [OF 1 2 [of active_key c]]
      by (auto simp: Publish_def split: sum.split prod.split)
  next
    case (FRead n c)
    then show ?thesis
      using read [of "fl_world st" c n "''>''" flushBatchSize flusherGroup "''0''"] ienv(1) [of n]
      by (auto simp: flush_read_def Let_def on_server_def prefix_is_streamKey instance_env_def env split: prod.split sum.split)
  next
    case (FHandle n c msgs)
    then show ?thesis using any [OF flush_batch_groups [OF ienv]] by simp
  next
    case (FPending n c)
    then show ?thesis
      using read [of "fl_world st" c n "''0''" flushBatchSize flusherGroup "''0''"] ienv(1) [of n]
      by (auto simp: pending_entries_def Let_def on_server_def prefix_is_streamKey instance_env_def env split: prod.split sum.split)
  qed
qed

text \<open>What a read hands out: entries above the last delivered rank, in order.\<close>

lemma flush_read_new:
  assumes env: "fe_redis env = r" and x: "flush_read env c s = (msgs, s')" and ne: "msgs \<noteq> []"
  obtains l p p' where "group_of (view (snd (sr_XGroupCreateMkStream r (streamKey c) flusherGroup ''0'' s)) (streamKey c)) flusherGroup = Some (l, p)"
    and "group_of (view s' (streamKey c)) flusherGroup = Some (rank (se_ID (last msgs)), p')" and "se_ID ` set msgs \<subseteq> p'"
    and "sorted_wrt (<) (map (rank \<circ> se_ID) msgs)" and "\<And>e. e \<in> set msgs \<Longrightarrow> l < rank (se_ID e)"
proof -
  let ?s1 = "snd (sr_XGroupCreateMkStream r (streamKey c) flusherGroup ''0'' s)"
  have "sr_XReadGroup r (streamKey c) flusherGroup (fe_consumer env) ''>'' flushBatchSize ?s1 = (Inr msgs, s')"
    using x ne by (auto simp: flush_read_def Let_def env prefix_is_streamKey split: prod.splits sum.splits)
  from xreadgroup_new [OF this] obtain l p m where g:
    "group_of (view ?s1 (streamKey c)) flusherGroup = Some (l, p)"
    "msgs = take m (filter (\<lambda>e. l < rank (se_ID e)) (entries_of (view ?s1 (streamKey c))))"
    "group_of (view s' (streamKey c)) flusherGroup = Some (if msgs = [] then l else rank (se_ID (last msgs)), p \<union> se_ID ` set msgs)"
    by blast
  have "sorted_wrt (<) (map (rank \<circ> se_ID) msgs)"
    unfolding g(2) using entries_sorted [of ?s1 "streamKey c"]
    by (simp add: take_map [symmetric] sorted_wrt_take sorted_wrt_map sorted_wrt_filter comp_def)
  moreover have "\<And>e. e \<in> set msgs \<Longrightarrow> l < rank (se_ID e)" unfolding g(2) by (auto dest: in_set_takeD)
  ultimately show ?thesis by (intro that [OF g(1), of "p \<union> se_ID ` set msgs"]) (use g(3) ne in auto)
qed

end

lemma sorted_last: "sorted_wrt (<) (map f xs) \<Longrightarrow> x \<in> set xs \<Longrightarrow> f x \<le> (f (last xs) :: nat)"
  by (induction xs) (auto simp: less_imp_le)

text \<open>All entries handed out so far lie below the last delivered rank of their stream.\<close>

definition below_group :: "('s \<Rightarrow> string \<rightharpoonup> rvalue) \<Rightarrow> (string \<Rightarrow> nat) \<Rightarrow> 's \<Rightarrow> string \<Rightarrow> nat \<Rightarrow> bool" where
  "below_group view rank s c n \<longleftrightarrow>
     (\<exists>l p. group_of (view s (streamKey c)) flusherGroup = Some (l, p) \<and> n \<le> l)"

lemma below_group_mono: "groups_le view A s s' \<Longrightarrow> below_group view rank s c n \<Longrightarrow> below_group view rank s' c n"
  unfolding below_group_def groups_le_def by (meson le_trans)

definition read_key :: "string \<times> stream_entry \<Rightarrow> string \<times> string" where
  "read_key ce = (fst ce, se_ID (snd ce))"

context stream_groups
begin

lemma flush_do_reads:
  assumes env: "fe_redis env = r" and db: "db_apart env view"
    and x: "flush_do env a st = (es, st')"
  shows "distinct (map read_key es) \<and>
    (\<forall>(c, e) \<in> set es. below_group view rank (fl_world st') c (rank (se_ID e)) \<and>
       \<not> below_group view rank (fl_world st) c (rank (se_ID e)))"
proof (cases a)
  case (FRead n c)
  have ienv: "fe_redis (instance_env env n) = r" using env by (simp add: instance_env_def)
  obtain msgs s' where m: "flush_read (instance_env env n) c (fl_world st) = (msgs, s')"
    by (cases "flush_read (instance_env env n) c (fl_world st)")
  have es: "es = map (Pair c) msgs" and st': "fl_world st' = s'" using x FRead m by (auto simp: on_server_def)
  show ?thesis
  proof (cases "msgs = []")
    case False
    from flush_read_new [OF ienv m False] obtain l p p' where g:
      "group_of (view (snd (sr_XGroupCreateMkStream r (streamKey c) flusherGroup ''0'' (fl_world st))) (streamKey c)) flusherGroup = Some (l, p)"
      "group_of (view s' (streamKey c)) flusherGroup = Some (rank (se_ID (last msgs)), p')"
      "sorted_wrt (<) (map (rank \<circ> se_ID) msgs)" "\<And>e. e \<in> set msgs \<Longrightarrow> l < rank (se_ID e)" by metis
    have "\<not> below_group view rank (fl_world st) c (rank (se_ID e))" if "e \<in> set msgs" for e
      using g(1) g(4) [OF that] xgroup_keeps [of "fl_world st" "streamKey c" flusherGroup _ flusherGroup "''0''"]
      unfolding below_group_def by fastforce
    moreover have "below_group view rank s' c (rank (se_ID e))" if "e \<in> set msgs" for e
      using sorted_last [OF g(3) that] g(2) by (simp add: below_group_def)
    moreover have "distinct (map (rank \<circ> se_ID) msgs)" using g(3) by (simp add: strict_sorted_iff)
    then have "distinct (map read_key es)"
      unfolding es by (auto simp: distinct_map inj_on_def read_key_def)
    ultimately show ?thesis unfolding es st' by auto
  qed (simp add: es)
qed (use x in auto)

lemma flush_run_reads:
  assumes env: "fe_redis env = r" and db: "db_apart env view"
  shows "flush_run env acts st = (es, st') \<Longrightarrow>
    distinct (map read_key es) \<and>
    (\<forall>(c, e) \<in> set es. \<not> below_group view rank (fl_world st) c (rank (se_ID e)))"
proof (induction acts arbitrary: st es)
  case (Cons a acts)
  obtain es1 st1 where a: "flush_do env a st = (es1, st1)" by (cases "flush_do env a st")
  obtain es2 st2 where b: "flush_run env acts st1 = (es2, st2)" by (cases "flush_run env acts st1")
  have es: "es = es1 @ es2" and st2: "st' = st2" using Cons.prems a b by auto
  note 1 = flush_do_reads [OF env db a]
  note 2 = Cons.IH [OF b [folded st2]]
  have "groups_le view (\<lambda>_. UNIV) (fl_world st) (fl_world st1)"
    using flush_do_groups [OF env db, of st a] a by simp
  from below_group_mono [OF this] have mono:
    "\<And>c n. below_group view rank (fl_world st) c n \<Longrightarrow> below_group view rank (fl_world st1) c n" .
  have "read_key ce \<noteq> read_key ce'" if "ce \<in> set es1" "ce' \<in> set es2" for ce ce'
    using 1 2 that by (fastforce simp: read_key_def)
  then have "set (map read_key es1) \<inter> set (map read_key es2) = {}" by fastforce
  then show ?case using 1 2 mono unfolding es by fastforce
qed simp

end

section \<open>What the writer guarantees\<close>


text \<open>
  C22: An entry that leaves the pending list during the work on its batch belongs to a batch whose
  rows are all stored, or to a session that could not be read.
\<close>

theorem acknowledged_when_stored:
  assumes "stream_groups r view rank" and "fe_redis env = r" and "db_apart env view"
    and "group_of (view (fl_world st) (streamKey c)) flusherGroup = Some (l, p)" and "i \<in> p"
    and "group_of (view (fl_world (flush_batch env c msgs st)) (streamKey c)) flusherGroup = Some (l', p')"
    and "i \<notin> p'"
  shows "i \<in> se_ID ` set msgs \<and>
    (outcome_of env c msgs st = NoSession \<or>
     fl_events (flush_batch env c msgs st) = fl_events st @ ba_events (batch_of env c msgs st))"
proof -
  from groups_leD [OF stream_groups.flush_batch_groups [OF assms(1-3), of c msgs st] assms(4)] assms(5-7)
  have "i \<in> only_acks c (acked_by (outcome_of env c msgs st) msgs) c" by auto
  then have "outcome_of env c msgs st \<in> {NoSession, Stored}" and "i \<in> se_ID ` set msgs"
    by (auto simp: only_acks_def acked_by_def split: if_splits)
  then show ?thesis using flush_batch_rows [of env c msgs st] by auto
qed


end
