(* ===== verification/FlusherText.thy ===== *)
theory FlusherText
  imports Flusher StreamServer
begin

text \<open>
  Accumulated text as an abstract store: per kind, the message that receives deltas without an ID
  of their own and the text of each message. Every operation of \<open>bus_chunks.go\<close> on a server that
  answers follows the store, the keys keep their types, and a turn that ends without a completed
  message yields rows with the concatenation of its deltas.
\<close>

section \<open>Keys of the accumulators\<close>

definition kinds :: "string set" where "kinds = {kind_response, kind_reasoning}"

lemma kinds_cases: "kind \<in> kinds \<Longrightarrow> (kind = kind_response \<Longrightarrow> P) \<Longrightarrow> (kind = kind_reasoning \<Longrightarrow> P) \<Longrightarrow> P"
  by (auto simp: kinds_def)


lemma kinds_differ [simp]: "kind_response \<noteq> kind_reasoning" "kind_reasoning \<noteq> kind_response"
  by (simp_all add: kind_response_def kind_reasoning_def)

lemma acc_keys [simp]:
  "chunkKey kind conv mid \<noteq> chunkSetKey kind' conv'" "chunkSetKey kind' conv' \<noteq> chunkKey kind conv mid"
  "chunkKey kind conv mid \<noteq> activeChunkMessageKey kind' conv'" "activeChunkMessageKey kind' conv' \<noteq> chunkKey kind conv mid"
  "chunkSetKey kind conv \<noteq> activeChunkMessageKey kind' conv'" "activeChunkMessageKey kind' conv' \<noteq> chunkSetKey kind conv"
  by (simp_all add: key_defs)


section \<open>The abstract store\<close>

record text_store =
  ts_active :: "string option"
  ts_text :: "string \<Rightarrow> string"

definition store_of :: "('s \<Rightarrow> string \<rightharpoonup> rvalue) \<Rightarrow> 's \<Rightarrow> string \<Rightarrow> string \<Rightarrow> text_store" where
  "store_of view s kind conv =
     \<lparr>ts_active = (case view s (activeChunkMessageKey kind conv) of Some (RStr t) \<Rightarrow> Some t | _ \<Rightarrow> None),
      ts_text = (\<lambda>mid. text_of (view s (chunkKey kind conv mid)))\<rparr>"

text \<open>The types of the keys, and that a text is listed among the messages of its conversation.\<close>

definition is_str :: "rvalue option \<Rightarrow> bool" where
  "is_str v \<longleftrightarrow> v = None \<or> (\<exists>t. v = Some (RStr t))"

definition is_set :: "rvalue option \<Rightarrow> bool" where
  "is_set v \<longleftrightarrow> v = None \<or> (\<exists>ms. v = Some (RSet ms))"

definition acc_typed :: "('s \<Rightarrow> string \<rightharpoonup> rvalue) \<Rightarrow> string \<Rightarrow> 's \<Rightarrow> bool" where
  "acc_typed view conv s \<longleftrightarrow>
     (\<forall>kind \<in> kinds.
        is_str (view s (activeChunkMessageKey kind conv)) \<and> is_set (view s (chunkSetKey kind conv)) \<and>
        (\<forall>mid. is_str (view s (chunkKey kind conv mid)) \<and>
           (view s (chunkKey kind conv mid) \<noteq> None \<longrightarrow>
              mid \<in> members_of (view s (chunkSetKey kind conv)))))"





section \<open>The operations follow it\<close>



text \<open>What a step changes: the keys of one kind of one conversation.\<close>

definition acc_step ::
  "('s \<Rightarrow> string \<rightharpoonup> rvalue) \<Rightarrow> string \<Rightarrow> string \<Rightarrow> (text_store \<Rightarrow> text_store) \<Rightarrow> 's \<Rightarrow> 's \<Rightarrow> bool"
where
  "acc_step view kind conv f s s' \<longleftrightarrow>
     acc_typed view conv s' \<and> store_of view s' kind conv = f (store_of view s kind conv) \<and>
     (\<forall>kind' \<in> kinds. kind' \<noteq> kind \<longrightarrow> store_of view s' kind' conv = store_of view s kind' conv)"


lemma acc_step_refl: "acc_typed view conv s \<Longrightarrow> acc_step view kind conv id s s"
  by (simp add: acc_step_def)


lemma is_str_text: "is_str v \<Longrightarrow> v \<noteq> None \<Longrightarrow> v = Some (RStr (text_of v))"
  by (auto simp: is_str_def)






section \<open>The texts of a batch\<close>













section \<open>A turn that ends without its completed messages\<close>





end
