(* ===== verification/CredCache.thy ===== *)
theory CredCache
  imports Prelude
begin

text \<open>
  The three tiers in front of the credentials table (\<open>internal/cache\<close>): the memory of an instance,
  redis, the database with the key service. Every request is a goroutine with a program point of
  its own, and a step is one access to a tier, so that requests, revocations and the messages
  between instances interleave freely. Decrypted keys are slices on a heap, because callers that
  share a flight are given the same slice and the proxy overwrites it after use.
\<close>

section \<open>Data\<close>

record credential =
  cr_id :: string
  cr_org :: "uuid option"
  cr_base_url :: string
  cr_auth_scheme :: string
  cr_encrypted_key :: string
  cr_wrapped_dek :: string
  cr_provider_id :: string
  cr_revoked_at :: "gotime option"

record redis_credential =
  rc_EncryptedKey :: string
  rc_WrappedDEK :: string
  rc_BaseURL :: string
  rc_AuthScheme :: string
  rc_ProviderID :: string
  rc_OrgID :: string

text \<open>\<open>cc_Enclave\<close> is the sealed content.\<close>

record cached_credential =
  cc_Enclave :: string
  cc_BaseURL :: string
  cc_AuthScheme :: string
  cc_ProviderID :: string
  cc_OrgID :: uuid
  cc_CachedAt :: gotime
  cc_HardExpiry :: gotime

text \<open>An answer; \<open>dc_APIKey\<close> is the address of the slice.\<close>

record decrypted_credential =
  dc_APIKey :: nat
  dc_BaseURL :: string
  dc_AuthScheme :: string
  dc_ProviderID :: string

text \<open>
  What the manager is configured with, the key service and the cipher. \<open>ke_ustr\<close> is
  \<open>uuid.UUID.String\<close>.
\<close>

record cache_env =
  ke_unwrap :: "string \<Rightarrow> string option"
  ke_decrypt :: "string \<Rightarrow> string \<Rightarrow> string option"
  ke_ustr :: "uuid \<Rightarrow> string"
  ke_redis_ttl :: duration
  ke_hard_expiry :: duration

definition NotFound :: string where "NotFound = ''credential not found or revoked''"

section \<open>The tiers of an instance\<close>

text \<open>
  An LRU cache with expiry keeps what was added last under a key until it drops the key, which it
  may do at any time. \<open>nd_flight\<close> is the call in progress for a key, by the request that runs it,
  and \<open>nd_inbox\<close> the invalidation messages that have not been handled.
\<close>

record node =
  nd_memory :: "string \<rightharpoonup> cached_credential"
  nd_dek :: "string \<rightharpoonup> string"
  nd_flight :: "string \<rightharpoonup> nat"
  nd_inbox :: "string list"

definition MemoryGet :: "gotime \<Rightarrow> string \<Rightarrow> node \<Rightarrow> cached_credential option \<times> node" where
  "MemoryGet now credentialID n =
     (case nd_memory n credentialID of
        None \<Rightarrow> (None, n)
      | Some entry \<Rightarrow>
          if now > cc_HardExpiry entry then (None, n\<lparr>nd_memory := (nd_memory n)(credentialID := None)\<rparr>)
          else (Some entry, n))"

definition MemorySet :: "string \<Rightarrow> cached_credential \<Rightarrow> node \<Rightarrow> node" where
  "MemorySet credentialID cred n = n\<lparr>nd_memory := (nd_memory n)(credentialID \<mapsto> cred)\<rparr>"

definition MemoryInvalidate :: "string \<Rightarrow> node \<Rightarrow> node" where
  "MemoryInvalidate credentialID n = n\<lparr>nd_memory := (nd_memory n)(credentialID := None)\<rparr>"

definition DEKSet :: "string \<Rightarrow> string \<Rightarrow> node \<Rightarrow> node" where
  "DEKSet credentialID dek n = n\<lparr>nd_dek := (nd_dek n)(credentialID \<mapsto> dek)\<rparr>"

definition DEKInvalidate :: "string \<Rightarrow> node \<Rightarrow> node" where
  "DEKInvalidate credentialID n = n\<lparr>nd_dek := (nd_dek n)(credentialID := None)\<rparr>"

definition promoteToL1 ::
  "cache_env \<Rightarrow> gotime \<Rightarrow> string \<Rightarrow> uuid \<Rightarrow> string \<Rightarrow> string \<Rightarrow> string \<Rightarrow> string \<Rightarrow> node \<Rightarrow> node"
where
  "promoteToL1 env now credentialID orgID apiKey baseURL authScheme providerID =
     MemorySet credentialID
       \<lparr>cc_Enclave = apiKey, cc_BaseURL = baseURL, cc_AuthScheme = authScheme, cc_ProviderID = providerID,
        cc_OrgID = orgID, cc_CachedAt = now, cc_HardExpiry = now + ke_hard_expiry env\<rparr>"

section \<open>Requests\<close>

text \<open>
  The points of a request. \<open>Joined\<close> waits for the call of another request, \<open>Leave\<close> ends the call
  with its result, \<open>Answered\<close> has returned to the caller, which then sends the key upstream
  (\<open>Sent\<close>) and, when it is the proxy, overwrites it. \<open>rq_flight\<close> is the request that ran the call,
  \<open>rq_started\<close> the time of the request, for the statements about it.
\<close>

type_synonym answer = "string + decrypted_credential"

datatype cred_pc =
    LookupOrg
  | LookupMemory
  | EnterFlight
  | Joined nat
  | RedisGet
  | DekLookup redis_credential
  | KmsUnwrap redis_credential
  | RedisDrop
  | DbRead
  | DbUnwrap credential
  | DbStoreDEK credential string nat
  | DbStoreRedis credential nat
  | Promote decrypted_credential
  | Leave answer
  | Answered answer
  | Sent nat
  | Finished

record request =
  rq_node :: nat
  rq_cred :: string
  rq_org :: uuid
  rq_proxied :: bool
  rq_started :: gotime
  rq_pc :: cred_pc
  rq_flight :: "nat option"
  rq_result :: "answer option"
  rq_sent :: "string option"

text \<open>Revocations of the handler, and invalidations that follow another change of a row.\<close>

datatype revoke_pc = RvUpdate uuid | RvLocal | RvRedis | RvPublish | RvDone

record revocation =
  rv_node :: nat
  rv_cred :: string
  rv_pc :: revoke_pc

text \<open>\<open>cs_past\<close> are the rows that were replaced, each with the time of its replacement.\<close>

record cache_st =
  cs_now :: gotime
  cs_rows :: "credential list"
  cs_past :: "(gotime \<times> credential) list"
  cs_redis :: "string \<rightharpoonup> redis_credential \<times> gotime"
  cs_heap :: "string list"
  cs_nodes :: "node list"
  cs_requests :: "request list"
  cs_revocations :: "revocation list"

definition on_node :: "nat \<Rightarrow> (node \<Rightarrow> node) \<Rightarrow> cache_st \<Rightarrow> cache_st" where
  "on_node n f st = st\<lparr>cs_nodes := (cs_nodes st)[n := f (cs_nodes st ! n)]\<rparr>"

definition on_request :: "nat \<Rightarrow> (request \<Rightarrow> request) \<Rightarrow> cache_st \<Rightarrow> cache_st" where
  "on_request i f st = st\<lparr>cs_requests := (cs_requests st)[i := f (cs_requests st ! i)]\<rparr>"

abbreviation goto :: "nat \<Rightarrow> cred_pc \<Rightarrow> cache_st \<Rightarrow> cache_st" where
  "goto i p \<equiv> on_request i (rq_pc_update (\<lambda>_. p))"

definition alloc :: "string \<Rightarrow> cache_st \<Rightarrow> nat \<times> cache_st" where
  "alloc bytes st = (length (cs_heap st), st\<lparr>cs_heap := cs_heap st @ [bytes]\<rparr>)"

section \<open>Redis and the database\<close>

definition RedisCacheGet :: "string \<Rightarrow> cache_st \<Rightarrow> redis_credential option" where
  "RedisCacheGet credentialID st =
     (case cs_redis st credentialID of
        None \<Rightarrow> None | Some (rc, expires) \<Rightarrow> if cs_now st < expires then Some rc else None)"

definition RedisCacheSet :: "cache_env \<Rightarrow> string \<Rightarrow> redis_credential \<Rightarrow> cache_st \<Rightarrow> cache_st" where
  "RedisCacheSet env credentialID rc st =
     st\<lparr>cs_redis := (cs_redis st)(credentialID \<mapsto> (rc, cs_now st + ke_redis_ttl env))\<rparr>"

definition RedisCacheInvalidate :: "string \<Rightarrow> cache_st \<Rightarrow> cache_st" where
  "RedisCacheInvalidate credentialID st = st\<lparr>cs_redis := (cs_redis st)(credentialID := None)\<rparr>"

text \<open>The row of an unrevoked credential, and the one an organisation may use.\<close>

definition live_row :: "string \<Rightarrow> credential \<Rightarrow> bool" where
  "live_row credentialID c \<longleftrightarrow> cr_id c = credentialID \<and> cr_revoked_at c = None"

definition org_row :: "uuid \<Rightarrow> credential \<Rightarrow> bool" where
  "org_row orgID c \<longleftrightarrow> cr_org c = (if orgID = uuid_nil then None else Some orgID)"

definition redis_of :: "cache_env \<Rightarrow> uuid \<Rightarrow> credential \<Rightarrow> redis_credential" where
  "redis_of env orgID c =
     \<lparr>rc_EncryptedKey = cr_encrypted_key c, rc_WrappedDEK = cr_wrapped_dek c, rc_BaseURL = cr_base_url c,
      rc_AuthScheme = cr_auth_scheme c, rc_ProviderID = cr_provider_id c, rc_OrgID = ke_ustr env orgID\<rparr>"

definition answer_of_redis :: "nat \<Rightarrow> redis_credential \<Rightarrow> decrypted_credential" where
  "answer_of_redis key rc =
     \<lparr>dc_APIKey = key, dc_BaseURL = rc_BaseURL rc, dc_AuthScheme = rc_AuthScheme rc, dc_ProviderID = rc_ProviderID rc\<rparr>"

definition answer_of_row :: "nat \<Rightarrow> credential \<Rightarrow> decrypted_credential" where
  "answer_of_row key c =
     \<lparr>dc_APIKey = key, dc_BaseURL = cr_base_url c, dc_AuthScheme = cr_auth_scheme c, dc_ProviderID = cr_provider_id c\<rparr>"

definition answer_of_entry :: "nat \<Rightarrow> cached_credential \<Rightarrow> decrypted_credential" where
  "answer_of_entry key e =
     \<lparr>dc_APIKey = key, dc_BaseURL = cc_BaseURL e, dc_AuthScheme = cc_AuthScheme e, dc_ProviderID = cc_ProviderID e\<rparr>"

section \<open>One request\<close>

text \<open>
  A step of request \<open>i\<close>; \<open>ok\<close> tells whether the access it makes succeeds: the database, redis, the
  key service, the opening of an enclave, or, for a caller, what it does before it uses the key.
\<close>

definition GetDecryptedCredentialByID :: "bool \<Rightarrow> nat \<Rightarrow> cache_st \<Rightarrow> cache_st" where
  "GetDecryptedCredentialByID ok i st =
     (let r = cs_requests st ! i in
      if \<not> ok then goto i (Answered (Inl ''db lookup'')) st
      else
        (case find (live_row (rq_cred r)) (cs_rows st) of
           None \<Rightarrow> goto i (Answered (Inl NotFound)) st
         | Some c \<Rightarrow>
             on_request i (\<lambda>x. x\<lparr>rq_org := (case cr_org c of None \<Rightarrow> uuid_nil | Some o' \<Rightarrow> o'),
                                rq_pc := LookupMemory\<rparr>) st))"

definition memory_lookup :: "bool \<Rightarrow> nat \<Rightarrow> cache_st \<Rightarrow> cache_st" where
  "memory_lookup ok i st =
     (let r = cs_requests st ! i in
      (case MemoryGet (cs_now st) (rq_cred r) (cs_nodes st ! rq_node r) of
         (cached, n1) \<Rightarrow>
           let st1 = on_node (rq_node r) (\<lambda>_. n1) st in
           (case cached of
              None \<Rightarrow> goto i EnterFlight st1
            | Some e \<Rightarrow>
                if cc_OrgID e \<noteq> rq_org r then goto i EnterFlight st1
                else if \<not> ok then goto i EnterFlight (on_node (rq_node r) (MemoryInvalidate (rq_cred r)) st1)
                else (case alloc (cc_Enclave e) st1 of
                        (key, st2) \<Rightarrow> goto i (Answered (Inr (answer_of_entry key e))) st2))))"

definition enter_flight :: "nat \<Rightarrow> cache_st \<Rightarrow> cache_st" where
  "enter_flight i st =
     (let r = cs_requests st ! i in
      (case nd_flight (cs_nodes st ! rq_node r) (rq_cred r) of
         Some l \<Rightarrow> on_request i (\<lambda>x. x\<lparr>rq_flight := Some l, rq_pc := Joined l\<rparr>) st
       | None \<Rightarrow>
           on_request i (\<lambda>x. x\<lparr>rq_flight := Some i, rq_pc := RedisGet\<rparr>)
             (on_node (rq_node r) (\<lambda>n. n\<lparr>nd_flight := (nd_flight n)(rq_cred r \<mapsto> i)\<rparr>) st)))"

definition redis_lookup :: "cache_env \<Rightarrow> bool \<Rightarrow> nat \<Rightarrow> cache_st \<Rightarrow> cache_st" where
  "redis_lookup env ok i st =
     (let r = cs_requests st ! i; redisCred = (if ok then RedisCacheGet (rq_cred r) st else None) in
      goto i
        (case redisCred of
           None \<Rightarrow> DbRead
         | Some rc \<Rightarrow> if rc_OrgID rc = ke_ustr env (rq_org r) then DekLookup rc else DbRead) st)"

text \<open>\<open>decryptWithDEKCache\<close>: first with the cached data key, then with the one the service unwraps.\<close>

definition dek_lookup :: "cache_env \<Rightarrow> bool \<Rightarrow> nat \<Rightarrow> redis_credential \<Rightarrow> cache_st \<Rightarrow> cache_st" where
  "dek_lookup env ok i rc st =
     (let r = cs_requests st ! i in
      (case nd_dek (cs_nodes st ! rq_node r) (rq_cred r) of
         None \<Rightarrow> goto i (KmsUnwrap rc) st
       | Some dek \<Rightarrow>
           (case (if ok then ke_decrypt env (rc_EncryptedKey rc) dek else None) of
              None \<Rightarrow> goto i (KmsUnwrap rc) (on_node (rq_node r) (DEKInvalidate (rq_cred r)) st)
            | Some apiKey \<Rightarrow>
                (case alloc apiKey st of (key, st1) \<Rightarrow> goto i (Promote (answer_of_redis key rc)) st1))))"

definition unwrap_redis :: "cache_env \<Rightarrow> bool \<Rightarrow> nat \<Rightarrow> redis_credential \<Rightarrow> cache_st \<Rightarrow> cache_st" where
  "unwrap_redis env ok i rc st =
     (let r = cs_requests st ! i in
      (case (if ok then ke_unwrap env (rc_WrappedDEK rc) else None) of
         None \<Rightarrow> goto i RedisDrop st
       | Some dek \<Rightarrow>
           (case ke_decrypt env (rc_EncryptedKey rc) dek of
              None \<Rightarrow> goto i RedisDrop st
            | Some apiKey \<Rightarrow>
                (case alloc apiKey (on_node (rq_node r) (DEKSet (rq_cred r) dek) st) of
                   (key, st1) \<Rightarrow> goto i (Promote (answer_of_redis key rc)) st1))))"

definition row_lookup :: "bool \<Rightarrow> nat \<Rightarrow> cache_st \<Rightarrow> cache_st" where
  "row_lookup ok i st =
     (let r = cs_requests st ! i in
      goto i
        (if \<not> ok then Leave (Inl ''db lookup'')
         else (case find (\<lambda>c. live_row (rq_cred r) c \<and> org_row (rq_org r) c) (cs_rows st) of
                 None \<Rightarrow> Leave (Inl NotFound)
               | Some dbCred \<Rightarrow> DbUnwrap dbCred)) st)"

definition unwrap_row :: "cache_env \<Rightarrow> bool \<Rightarrow> nat \<Rightarrow> credential \<Rightarrow> cache_st \<Rightarrow> cache_st" where
  "unwrap_row env ok i dbCred st =
     (case (if ok then ke_unwrap env (cr_wrapped_dek dbCred) else None) of
        None \<Rightarrow> goto i (Leave (Inl ''kms unwrap'')) st
      | Some dek \<Rightarrow>
          (case ke_decrypt env (cr_encrypted_key dbCred) dek of
             None \<Rightarrow> goto i (Leave (Inl ''decrypt'')) st
           | Some apiKey \<Rightarrow>
               (case alloc apiKey st of (key, st1) \<Rightarrow> goto i (DbStoreDEK dbCred dek key) st1)))"

definition promote_answer :: "cache_env \<Rightarrow> nat \<Rightarrow> decrypted_credential \<Rightarrow> cache_st \<Rightarrow> cache_st" where
  "promote_answer env i dc st =
     (let r = cs_requests st ! i in
      goto i (Leave (Inr dc))
        (on_node (rq_node r)
          (promoteToL1 env (cs_now st) (rq_cred r) (rq_org r) (cs_heap st ! dc_APIKey dc) (dc_BaseURL dc)
            (dc_AuthScheme dc) (dc_ProviderID dc)) st))"

definition leave_flight :: "nat \<Rightarrow> answer \<Rightarrow> cache_st \<Rightarrow> cache_st" where
  "leave_flight i res st =
     (let r = cs_requests st ! i in
      on_request i (\<lambda>x. x\<lparr>rq_result := Some res, rq_pc := Answered res\<rparr>)
        (on_node (rq_node r) (\<lambda>n. n\<lparr>nd_flight := (nd_flight n)(rq_cred r := None)\<rparr>) st))"

definition use_key :: "bool \<Rightarrow> nat \<Rightarrow> decrypted_credential \<Rightarrow> cache_st \<Rightarrow> cache_st" where
  "use_key ok i dc st =
     (if \<not> ok then goto i Finished st
      else on_request i (\<lambda>x. x\<lparr>rq_sent := Some (cs_heap st ! dc_APIKey dc),
                               rq_pc := (if rq_proxied x then Sent (dc_APIKey dc) else Finished)\<rparr>) st)"

definition zeros :: "string \<Rightarrow> string" where "zeros bytes = replicate (length bytes) (CHR 0x00)"

definition wipe_key :: "nat \<Rightarrow> nat \<Rightarrow> cache_st \<Rightarrow> cache_st" where
  "wipe_key i key st = goto i Finished (st\<lparr>cs_heap := (cs_heap st)[key := zeros (cs_heap st ! key)]\<rparr>)"

definition request_step :: "cache_env \<Rightarrow> bool \<Rightarrow> nat \<Rightarrow> cache_st \<Rightarrow> cache_st option" where
  "request_step env ok i st =
     (if i \<ge> length (cs_requests st) then None
      else
        let r = cs_requests st ! i in
        (case rq_pc r of
           LookupOrg \<Rightarrow> Some (GetDecryptedCredentialByID ok i st)
         | LookupMemory \<Rightarrow> Some (memory_lookup ok i st)
         | EnterFlight \<Rightarrow> Some (enter_flight i st)
         | Joined l \<Rightarrow> map_option (\<lambda>res. goto i (Answered res) st) (rq_result (cs_requests st ! l))
         | RedisGet \<Rightarrow> Some (redis_lookup env ok i st)
         | DekLookup rc \<Rightarrow> Some (dek_lookup env ok i rc st)
         | KmsUnwrap rc \<Rightarrow> Some (unwrap_redis env ok i rc st)
         | RedisDrop \<Rightarrow> Some (goto i DbRead (if ok then RedisCacheInvalidate (rq_cred r) st else st))
         | DbRead \<Rightarrow> Some (row_lookup ok i st)
         | DbUnwrap dbCred \<Rightarrow> Some (unwrap_row env ok i dbCred st)
         | DbStoreDEK dbCred dek key \<Rightarrow>
             Some (goto i (DbStoreRedis dbCred key) (on_node (rq_node r) (DEKSet (rq_cred r) dek) st))
         | DbStoreRedis dbCred key \<Rightarrow>
             Some (goto i (Promote (answer_of_row key dbCred))
               (if ok then RedisCacheSet env (rq_cred r) (redis_of env (rq_org r) dbCred) st else st))
         | Promote dc \<Rightarrow> Some (promote_answer env i dc st)
         | Leave res \<Rightarrow> Some (leave_flight i res st)
         | Answered (Inl _) \<Rightarrow> Some (goto i Finished st)
         | Answered (Inr dc) \<Rightarrow> Some (use_key ok i dc st)
         | Sent key \<Rightarrow> Some (wipe_key i key st)
         | Finished \<Rightarrow> None))"

section \<open>Revocation\<close>

text \<open>A row is replaced: by its revoked version, or by whatever an administrator writes.\<close>

definition replace_rows :: "(credential \<Rightarrow> bool) \<Rightarrow> (credential \<Rightarrow> credential) \<Rightarrow> cache_st \<Rightarrow> cache_st" where
  "replace_rows p f st =
     st\<lparr>cs_rows := map (\<lambda>c. if p c then f c else c) (cs_rows st),
        cs_past := map (Pair (cs_now st)) (filter p (cs_rows st)) @ cs_past st\<rparr>"

definition revocable :: "string \<Rightarrow> uuid \<Rightarrow> credential \<Rightarrow> bool" where
  "revocable credID org c \<longleftrightarrow> live_row credID c \<and> cr_org c = Some org"

text \<open>
  The two caches of an instance are cleared one after the other; they are one step here, as a data
  key alone answers no request.
\<close>

definition forget_local :: "string \<Rightarrow> node \<Rightarrow> node" where
  "forget_local credentialID n = DEKInvalidate credentialID (MemoryInvalidate credentialID n)"

definition publish :: "string \<Rightarrow> cache_st \<Rightarrow> cache_st" where
  "publish credentialID st =
     st\<lparr>cs_nodes := map (\<lambda>n. n\<lparr>nd_inbox := nd_inbox n @ [credentialID]\<rparr>) (cs_nodes st)\<rparr>"

definition revoke_step :: "bool \<Rightarrow> nat \<Rightarrow> cache_st \<Rightarrow> cache_st option" where
  "revoke_step ok k st =
     (if k \<ge> length (cs_revocations st) then None
      else
        let v = cs_revocations st ! k;
            to = (\<lambda>p s. s\<lparr>cs_revocations := (cs_revocations s)[k := v\<lparr>rv_pc := p\<rparr>]\<rparr>) in
        (case rv_pc v of
           RvUpdate org \<Rightarrow>
             if ok \<and> (\<exists>c \<in> set (cs_rows st). revocable (rv_cred v) org c)
             then Some (to RvLocal
               (replace_rows (revocable (rv_cred v) org) (\<lambda>c. c\<lparr>cr_revoked_at := Some (cs_now st)\<rparr>) st))
             else Some (to RvDone st)
         | RvLocal \<Rightarrow> Some (to RvRedis (on_node (rv_node v) (forget_local (rv_cred v)) st))
         | RvRedis \<Rightarrow>
             if ok then Some (to RvPublish (RedisCacheInvalidate (rv_cred v) st)) else Some (to RvDone st)
         | RvPublish \<Rightarrow> Some (to RvDone (if ok then publish (rv_cred v) st else st))
         | RvDone \<Rightarrow> None))"

section \<open>The instances together\<close>

text \<open>
  What can happen next. A message between instances can be lost, an entry can be evicted at any
  time, and rows are written by other parts of the program (\<open>DoWrite\<close>).
\<close>

datatype cache_act =
    DoProxy nat string
  | DoLookup nat string uuid
  | DoRequest nat bool
  | DoRevoke nat string uuid
  | DoInvalidate nat string
  | DoRevocation nat bool
  | DoWrite credential
  | DoMessage nat
  | DoLose nat
  | DoEvict nat string
  | DoEvictDEK nat string
  | DoWait nat

definition new_request :: "nat \<Rightarrow> string \<Rightarrow> uuid \<Rightarrow> bool \<Rightarrow> cred_pc \<Rightarrow> cache_st \<Rightarrow> cache_st" where
  "new_request n credentialID orgID proxied p st =
     st\<lparr>cs_requests := cs_requests st @
          [\<lparr>rq_node = n, rq_cred = credentialID, rq_org = orgID, rq_proxied = proxied, rq_started = cs_now st,
            rq_pc = p, rq_flight = None, rq_result = None, rq_sent = None\<rparr>]\<rparr>"

definition new_revocation :: "nat \<Rightarrow> string \<Rightarrow> revoke_pc \<Rightarrow> cache_st \<Rightarrow> cache_st" where
  "new_revocation n credentialID p st =
     st\<lparr>cs_revocations := cs_revocations st @ [\<lparr>rv_node = n, rv_cred = credentialID, rv_pc = p\<rparr>]\<rparr>"

definition write_row :: "credential \<Rightarrow> cache_st \<Rightarrow> cache_st" where
  "write_row c st =
     (if \<exists>c' \<in> set (cs_rows st). cr_id c' = cr_id c
      then replace_rows (\<lambda>c'. cr_id c' = cr_id c) (\<lambda>_. c) st
      else st\<lparr>cs_rows := cs_rows st @ [c]\<rparr>)"

definition handle_message :: "node \<Rightarrow> node" where
  "handle_message n =
     (case nd_inbox n of [] \<Rightarrow> n | credentialID # ms \<Rightarrow> forget_local credentialID n\<lparr>nd_inbox := ms\<rparr>)"

fun cache_do :: "cache_env \<Rightarrow> cache_act \<Rightarrow> cache_st \<Rightarrow> cache_st option" where
  "cache_do env (DoProxy n c) st =
     (if n < length (cs_nodes st) then Some (new_request n c uuid_nil True LookupOrg st) else None)"
| "cache_do env (DoLookup n c orgID) st =
     (if n < length (cs_nodes st) then Some (new_request n c orgID False LookupMemory st) else None)"
| "cache_do env (DoRequest i ok) st = request_step env ok i st"
| "cache_do env (DoRevoke n c org) st =
     (if n < length (cs_nodes st) then Some (new_revocation n c (RvUpdate org) st) else None)"
| "cache_do env (DoInvalidate n c) st =
     (if n < length (cs_nodes st) then Some (new_revocation n c RvLocal st) else None)"
| "cache_do env (DoRevocation k ok) st = revoke_step ok k st"
| "cache_do env (DoWrite c) st = Some (write_row c st)"
| "cache_do env (DoMessage n) st =
     (if n < length (cs_nodes st) then Some (on_node n handle_message st) else None)"
| "cache_do env (DoLose n) st =
     (if n < length (cs_nodes st) then Some (on_node n (nd_inbox_update tl) st) else None)"
| "cache_do env (DoEvict n c) st =
     (if n < length (cs_nodes st) then Some (on_node n (MemoryInvalidate c) st) else None)"
| "cache_do env (DoEvictDEK n c) st =
     (if n < length (cs_nodes st) then Some (on_node n (DEKInvalidate c) st) else None)"
| "cache_do env (DoWait d) st = Some (st\<lparr>cs_now := cs_now st + int d\<rparr>)"

definition cache_start :: "gotime \<Rightarrow> nat \<Rightarrow> cache_st" where
  "cache_start now n =
     \<lparr>cs_now = now, cs_rows = [], cs_past = [], cs_redis = Map.empty, cs_heap = [],
      cs_nodes = replicate n \<lparr>nd_memory = Map.empty, nd_dek = Map.empty, nd_flight = Map.empty, nd_inbox = []\<rparr>,
      cs_requests = [], cs_revocations = []\<rparr>"

fun cache_run :: "cache_env \<Rightarrow> cache_act list \<Rightarrow> cache_st \<Rightarrow> cache_st option" where
  "cache_run env [] st = Some st"
| "cache_run env (a # acts) st =
     (case cache_do env a st of None \<Rightarrow> None | Some st1 \<Rightarrow> cache_run env acts st1)"

end
