(* ===== verification/CredCacheInv.thy ===== *)
theory CredCacheInv
  imports CredCache
begin

text \<open>
  What every schedule of requests, revocations, messages and evictions keeps true of the tiers: an
  entry of any tier, and an answer on its way, is the decrypted content of a row the database held
  not too long ago. Times are bounded by the expiries of the tiers and by how long a request takes.
\<close>

section \<open>Rows and their content\<close>

type_synonym content = "string \<times> string \<times> string \<times> string"

definition row_content :: "cache_env \<Rightarrow> credential \<Rightarrow> content option" where
  "row_content env c =
     (case ke_unwrap env (cr_wrapped_dek c) of
        None \<Rightarrow> None
      | Some dek \<Rightarrow> map_option (\<lambda>k. (k, cr_base_url c, cr_auth_scheme c, cr_provider_id c))
                      (ke_decrypt env (cr_encrypted_key c) dek))"

definition answer_content :: "string \<Rightarrow> decrypted_credential \<Rightarrow> content" where
  "answer_content key dc = (key, dc_BaseURL dc, dc_AuthScheme dc, dc_ProviderID dc)"

definition entry_content :: "cached_credential \<Rightarrow> content" where
  "entry_content e = (cc_Enclave e, cc_BaseURL e, cc_AuthScheme e, cc_ProviderID e)"

text \<open>The database holds a row, or held it at time \<open>t\<close> or later.\<close>

definition held :: "cache_st \<Rightarrow> gotime \<Rightarrow> credential \<Rightarrow> bool" where
  "held st t c \<longleftrightarrow> c \<in> set (cs_rows st) \<or> (\<exists>e. (e, c) \<in> set (cs_past st) \<and> t \<le> e)"

definition valid_row :: "cache_st \<Rightarrow> gotime \<Rightarrow> string \<Rightarrow> uuid \<Rightarrow> credential \<Rightarrow> bool" where
  "valid_row st t i org c \<longleftrightarrow> held st t c \<and> live_row i c \<and> org_row org c"

definition genuine :: "cache_env \<Rightarrow> cache_st \<Rightarrow> gotime \<Rightarrow> string \<Rightarrow> uuid \<Rightarrow> content \<Rightarrow> bool" where
  "genuine env st t i org v \<longleftrightarrow> (\<exists>c. valid_row st t i org c \<and> row_content env c = Some v)"

definition genuine_redis :: "cache_env \<Rightarrow> cache_st \<Rightarrow> gotime \<Rightarrow> string \<Rightarrow> uuid \<Rightarrow> redis_credential \<Rightarrow> bool" where
  "genuine_redis env st t i org rc \<longleftrightarrow>
     (\<exists>c. valid_row st t i org c \<and> row_content env c \<noteq> None \<and> rc = redis_of env org c)"

text \<open>
  What the key service and the cipher promise, and the configuration: identifiers are spelled apart,
  a cipher text decrypts to at most one plain text whatever the key, expiries are not negative.
\<close>

definition env_ok :: "cache_env \<Rightarrow> bool" where
  "env_ok env \<longleftrightarrow> inj (ke_ustr env) \<and>
     (\<forall>ek d d' k k'. ke_decrypt env ek d = Some k \<longrightarrow> ke_decrypt env ek d' = Some k' \<longrightarrow> k = k') \<and>
     0 \<le> ke_redis_ttl env \<and> 0 \<le> ke_hard_expiry env"

lemma env_okD:
  assumes "env_ok env"
  shows "ke_ustr env a = ke_ustr env b \<Longrightarrow> a = b"
    and "ke_decrypt env ek d = Some k \<Longrightarrow> ke_decrypt env ek d' = Some k' \<Longrightarrow> k = k'"
    and "0 \<le> ke_redis_ttl env" and "0 \<le> ke_hard_expiry env"
  using assms unfolding env_ok_def by (auto dest: injD)

lemma row_contentI:
  assumes "env_ok env" and "row_content env c \<noteq> None" and "ke_decrypt env (cr_encrypted_key c) dek = Some k"
  shows "row_content env c = Some (k, cr_base_url c, cr_auth_scheme c, cr_provider_id c)"
  using assms(2,3) env_okD(2) [OF assms(1)] by (auto simp: row_content_def split: option.splits)

lemma row_content_key:
  "ke_unwrap env (cr_wrapped_dek c) = Some dek \<Longrightarrow> ke_decrypt env (cr_encrypted_key c) dek = Some k \<Longrightarrow>
   row_content env c = Some (k, cr_base_url c, cr_auth_scheme c, cr_provider_id c)"
  by (simp add: row_content_def)

section \<open>Steps that keep what was read\<close>

text \<open>
  The relation between a state and a later one in which no key was overwritten: replaced rows are
  remembered, addresses keep their content, requests their identity and their results.
\<close>

definition same_request :: "request \<Rightarrow> request \<Rightarrow> bool" where
  "same_request r r' \<longleftrightarrow> rq_cred r' = rq_cred r \<and> rq_node r' = rq_node r \<and> rq_started r' = rq_started r \<and>
     rq_proxied r' = rq_proxied r \<and>
     (rq_result r \<noteq> None \<longrightarrow> rq_result r' = rq_result r \<and> rq_org r' = rq_org r \<and> rq_flight r' = rq_flight r)"

definition later :: "cache_st \<Rightarrow> cache_st \<Rightarrow> bool" where
  "later st st' \<longleftrightarrow> cs_now st \<le> cs_now st' \<and> length (cs_nodes st') = length (cs_nodes st) \<and>
     (\<forall>t c. t \<le> cs_now st \<longrightarrow> held st t c \<longrightarrow> held st' t c) \<and>
     length (cs_requests st) \<le> length (cs_requests st') \<and>
     (\<forall>j < length (cs_requests st). same_request (cs_requests st ! j) (cs_requests st' ! j))"

definition heap_grows :: "cache_st \<Rightarrow> cache_st \<Rightarrow> bool" where
  "heap_grows st st' \<longleftrightarrow> length (cs_heap st) \<le> length (cs_heap st') \<and>
     (\<forall>a < length (cs_heap st). cs_heap st' ! a = cs_heap st ! a)"

lemma same_request_refl [simp]: "same_request r r"
  by (simp add: same_request_def)

lemma valid_row_later:
  "later st st' \<Longrightarrow> t \<le> cs_now st \<Longrightarrow> valid_row st t i org c \<Longrightarrow> valid_row st' t i org c"
  by (simp add: later_def valid_row_def)

lemma genuine_later: "later st st' \<Longrightarrow> t \<le> cs_now st \<Longrightarrow> genuine env st t i org v \<Longrightarrow> genuine env st' t i org v"
  unfolding genuine_def using valid_row_later by blast

lemma genuine_redis_later:
  "later st st' \<Longrightarrow> t \<le> cs_now st \<Longrightarrow> genuine_redis env st t i org v \<Longrightarrow> genuine_redis env st' t i org v"
  unfolding genuine_redis_def using valid_row_later by blast

lemma valid_row_mono: "t' \<le> t \<Longrightarrow> valid_row st t i org c \<Longrightarrow> valid_row st t' i org c"
  by (auto simp: valid_row_def held_def)

lemma genuine_mono: "t' \<le> t \<Longrightarrow> genuine env st t i org v \<Longrightarrow> genuine env st t' i org v"
  unfolding genuine_def using valid_row_mono by blast

lemma genuine_redis_mono: "t' \<le> t \<Longrightarrow> genuine_redis env st t i org v \<Longrightarrow> genuine_redis env st t' i org v"
  unfolding genuine_redis_def using valid_row_mono by blast

section \<open>The invariant\<close>

definition entry_ok :: "cache_env \<Rightarrow> int \<Rightarrow> cache_st \<Rightarrow> string \<Rightarrow> cached_credential \<Rightarrow> bool" where
  "entry_ok env D st i e \<longleftrightarrow> cc_CachedAt e \<le> cs_now st \<and> cc_HardExpiry e = cc_CachedAt e + ke_hard_expiry env \<and>
     genuine env st (cc_CachedAt e - ke_redis_ttl env - 2 * D) i (cc_OrgID e) (entry_content e)"

definition memory_ok :: "cache_env \<Rightarrow> int \<Rightarrow> cache_st \<Rightarrow> bool" where
  "memory_ok env D st \<longleftrightarrow>
     (\<forall>n \<in> set (cs_nodes st). \<forall>i e. nd_memory n i = Some e \<longrightarrow> entry_ok env D st i e)"

definition redis_ok :: "cache_env \<Rightarrow> int \<Rightarrow> cache_st \<Rightarrow> bool" where
  "redis_ok env D st \<longleftrightarrow>
     (\<forall>i rc x. cs_redis st i = Some (rc, x) \<longrightarrow>
        x \<le> cs_now st + ke_redis_ttl env \<and> (\<exists>org. genuine_redis env st (x - ke_redis_ttl env - D) i org rc))"

text \<open>The requests that run a call, and the addresses a request knows.\<close>

fun leading :: "cred_pc \<Rightarrow> bool" where
  "leading RedisGet = True" | "leading (DekLookup _) = True" | "leading (KmsUnwrap _) = True"
| "leading RedisDrop = True" | "leading DbRead = True" | "leading (DbUnwrap _) = True"
| "leading (DbStoreDEK _ _ _) = True" | "leading (DbStoreRedis _ _) = True" | "leading (Promote _) = True"
| "leading (Leave _) = True" | "leading _ = False"

fun answer_refs :: "answer \<Rightarrow> nat set" where
  "answer_refs (Inl _) = {}" | "answer_refs (Inr dc) = {dc_APIKey dc}"

fun pc_refs :: "cred_pc \<Rightarrow> nat set" where
  "pc_refs (DbStoreDEK _ _ a) = {a}" | "pc_refs (DbStoreRedis _ a) = {a}" | "pc_refs (Promote dc) = {dc_APIKey dc}"
| "pc_refs (Leave res) = answer_refs res" | "pc_refs (Answered res) = answer_refs res" | "pc_refs (Sent a) = {a}"
| "pc_refs _ = {}"

definition refs :: "request \<Rightarrow> nat set" where
  "refs r = pc_refs (rq_pc r) \<union> (case rq_result r of None \<Rightarrow> {} | Some res \<Rightarrow> answer_refs res)"

definition call_of :: "cache_st \<Rightarrow> nat \<Rightarrow> nat" where
  "call_of st i = (case rq_flight (cs_requests st ! i) of None \<Rightarrow> i | Some l \<Rightarrow> l)"

definition refs_ok :: "cache_st \<Rightarrow> bool" where
  "refs_ok st \<longleftrightarrow>
     (\<forall>i < length (cs_requests st). refs (cs_requests st ! i) \<subseteq> {..<length (cs_heap st)}) \<and>
     (\<forall>i < length (cs_requests st). \<forall>j < length (cs_requests st).
        refs (cs_requests st ! i) \<inter> refs (cs_requests st ! j) \<noteq> {} \<longrightarrow> call_of st i = call_of st j)"

text \<open>What the points of a request say about the data it carries.\<close>

definition carries_redis :: "cache_env \<Rightarrow> int \<Rightarrow> cache_st \<Rightarrow> request \<Rightarrow> redis_credential \<Rightarrow> bool" where
  "carries_redis env D st r rc \<longleftrightarrow>
     genuine_redis env st (rq_started r - ke_redis_ttl env - D) (rq_cred r) (rq_org r) rc"

definition carries_row :: "cache_st \<Rightarrow> request \<Rightarrow> credential \<Rightarrow> bool" where
  "carries_row st r c \<longleftrightarrow> valid_row st (rq_started r) (rq_cred r) (rq_org r) c"

definition carries_answer :: "cache_env \<Rightarrow> int \<Rightarrow> cache_st \<Rightarrow> request \<Rightarrow> content \<Rightarrow> bool" where
  "carries_answer env D st r v \<longleftrightarrow>
     genuine env st (rq_started r - ke_redis_ttl env - D) (rq_cred r) (rq_org r) v"

text \<open>An answer whose key may have been overwritten by one of the requests that share it.\<close>

definition shared_answer :: "cache_env \<Rightarrow> int \<Rightarrow> cache_st \<Rightarrow> request \<Rightarrow> decrypted_credential \<Rightarrow> bool" where
  "shared_answer env D st r dc \<longleftrightarrow>
     (\<exists>k. carries_answer env D st r (answer_content k dc) \<and> cs_heap st ! dc_APIKey dc \<in> {k, zeros k})"

definition stale_after :: "cache_env \<Rightarrow> int \<Rightarrow> duration" where
  "stale_after env D = ke_hard_expiry env + ke_redis_ttl env + 2 * D"

definition follows :: "int \<Rightarrow> cache_st \<Rightarrow> request \<Rightarrow> nat \<Rightarrow> bool" where
  "follows D st r l \<longleftrightarrow> rq_flight r = Some l \<and> l < length (cs_requests st) \<and>
     rq_cred (cs_requests st ! l) = rq_cred r \<and> rq_started r \<le> rq_started (cs_requests st ! l) + D"

definition got :: "cache_env \<Rightarrow> int \<Rightarrow> cache_st \<Rightarrow> request \<Rightarrow> decrypted_credential \<Rightarrow> bool" where
  "got env D st r dc \<longleftrightarrow>
     (case rq_flight r of
        None \<Rightarrow> genuine env st (rq_started r - stale_after env D) (rq_cred r) (rq_org r)
                  (answer_content (cs_heap st ! dc_APIKey dc) dc)
      | Some l \<Rightarrow> follows D st r l \<and> rq_result (cs_requests st ! l) = Some (Inr dc))"

fun pc_ok :: "cache_env \<Rightarrow> int \<Rightarrow> cache_st \<Rightarrow> request \<Rightarrow> cred_pc \<Rightarrow> bool" where
  "pc_ok env D st r (Joined l) \<longleftrightarrow> follows D st r l"
| "pc_ok env D st r (DekLookup rc) \<longleftrightarrow> carries_redis env D st r rc"
| "pc_ok env D st r (KmsUnwrap rc) \<longleftrightarrow> carries_redis env D st r rc"
| "pc_ok env D st r (DbUnwrap c) \<longleftrightarrow> carries_row st r c"
| "pc_ok env D st r (DbStoreDEK c dek a) \<longleftrightarrow>
     carries_row st r c \<and> row_content env c = Some (cs_heap st ! a, cr_base_url c, cr_auth_scheme c, cr_provider_id c)"
| "pc_ok env D st r (DbStoreRedis c a) \<longleftrightarrow>
     carries_row st r c \<and> row_content env c = Some (cs_heap st ! a, cr_base_url c, cr_auth_scheme c, cr_provider_id c)"
| "pc_ok env D st r (Promote dc) \<longleftrightarrow> carries_answer env D st r (answer_content (cs_heap st ! dc_APIKey dc) dc)"
| "pc_ok env D st r (Leave (Inr dc)) \<longleftrightarrow> carries_answer env D st r (answer_content (cs_heap st ! dc_APIKey dc) dc)"
| "pc_ok env D st r (Answered (Inr dc)) \<longleftrightarrow> got env D st r dc"
| "pc_ok env D st r (Sent a) \<longleftrightarrow>
     (\<forall>l. rq_flight r = Some l \<longrightarrow> l < length (cs_requests st) \<and> rq_result (cs_requests st ! l) \<noteq> None)"
| "pc_ok env D st r _ \<longleftrightarrow> True"

definition sent_ok :: "cache_env \<Rightarrow> int \<Rightarrow> cache_st \<Rightarrow> request \<Rightarrow> bool" where
  "sent_ok env D st r \<longleftrightarrow>
     (\<forall>key. rq_sent r = Some key \<longrightarrow>
        (\<exists>k org url scheme provider.
           genuine env st (rq_started r - stale_after env D) (rq_cred r) org (k, url, scheme, provider) \<and>
           (key = k \<or> rq_flight r \<noteq> None \<and> key = zeros k)))"

definition request_ok :: "cache_env \<Rightarrow> int \<Rightarrow> cache_st \<Rightarrow> nat \<Rightarrow> request \<Rightarrow> bool" where
  "request_ok env D st i r \<longleftrightarrow>
     rq_started r \<le> cs_now st \<and> rq_node r < length (cs_nodes st) \<and> pc_ok env D st r (rq_pc r) \<and>
     (leading (rq_pc r) \<longrightarrow> rq_flight r = Some i \<and> rq_result r = None) \<and>
     (rq_pc r \<in> {LookupOrg, LookupMemory, EnterFlight} \<longrightarrow> rq_flight r = None \<and> rq_result r = None) \<and>
     (rq_result r \<noteq> None \<longrightarrow> rq_flight r = Some i) \<and>
     (\<forall>dc. rq_result r = Some (Inr dc) \<longrightarrow> shared_answer env D st r dc) \<and>
     sent_ok env D st r"

definition requests_ok :: "cache_env \<Rightarrow> int \<Rightarrow> cache_st \<Rightarrow> bool" where
  "requests_ok env D st \<longleftrightarrow> (\<forall>i < length (cs_requests st). request_ok env D st i (cs_requests st ! i))"

definition flights_ok :: "cache_st \<Rightarrow> bool" where
  "flights_ok st \<longleftrightarrow>
     (\<forall>n < length (cs_nodes st). \<forall>i l. nd_flight (cs_nodes st ! n) i = Some l \<longrightarrow>
        l < length (cs_requests st) \<and> leading (rq_pc (cs_requests st ! l)) \<and>
        rq_cred (cs_requests st ! l) = i \<and> rq_node (cs_requests st ! l) = n)"

definition cache_inv :: "cache_env \<Rightarrow> int \<Rightarrow> cache_st \<Rightarrow> bool" where
  "cache_inv env D st \<longleftrightarrow>
     memory_ok env D st \<and> redis_ok env D st \<and> refs_ok st \<and> requests_ok env D st \<and> flights_ok st"

text \<open>Requests return within \<open>D\<close>.\<close>

definition prompt :: "int \<Rightarrow> cache_st \<Rightarrow> bool" where
  "prompt D st \<longleftrightarrow> 0 \<le> D \<and> (\<forall>r \<in> set (cs_requests st). rq_pc r \<noteq> Finished \<longrightarrow> cs_now st \<le> rq_started r + D)"

inductive cache_reachable :: "cache_env \<Rightarrow> int \<Rightarrow> cache_st \<Rightarrow> bool" for env D where
  start: "0 \<le> D \<Longrightarrow> cache_reachable env D (cache_start now n)"
| step: "cache_reachable env D st \<Longrightarrow> cache_do env a st = Some st' \<Longrightarrow> prompt D st' \<Longrightarrow> cache_reachable env D st'"


section \<open>Frames\<close>

lemma on_node_sel [simp]:
  "cs_now (on_node n f st) = cs_now st" "cs_rows (on_node n f st) = cs_rows st"
  "cs_past (on_node n f st) = cs_past st" "cs_redis (on_node n f st) = cs_redis st"
  "cs_heap (on_node n f st) = cs_heap st" "cs_requests (on_node n f st) = cs_requests st"
  "length (cs_nodes (on_node n f st)) = length (cs_nodes st)" "cs_revocations (on_node n f st) = cs_revocations st"
  "cs_nodes (on_node n f st) = (cs_nodes st)[n := f (cs_nodes st ! n)]"
  by (simp_all add: on_node_def)

lemma on_request_sel [simp]:
  "cs_now (on_request i f st) = cs_now st" "cs_rows (on_request i f st) = cs_rows st"
  "cs_past (on_request i f st) = cs_past st" "cs_redis (on_request i f st) = cs_redis st"
  "cs_heap (on_request i f st) = cs_heap st" "cs_nodes (on_request i f st) = cs_nodes st"
  "cs_requests (on_request i f st) = (cs_requests st)[i := f (cs_requests st ! i)]"
  by (simp_all add: on_request_def)

lemma held_cong: "cs_rows st' = cs_rows st \<Longrightarrow> cs_past st' = cs_past st \<Longrightarrow> held st' = held st"
  by (simp add: held_def fun_eq_iff)

lemma genuine_cong:
  assumes "cs_rows st' = cs_rows st" and "cs_past st' = cs_past st"
  shows "genuine env st' = genuine env st" and "genuine_redis env st' = genuine_redis env st"
    and "valid_row st' = valid_row st"
  using held_cong [OF assms] by (simp_all add: genuine_def genuine_redis_def valid_row_def fun_eq_iff)

lemma later_step:
  assumes "cs_now st' = cs_now st" and "cs_rows st' = cs_rows st" and "cs_past st' = cs_past st"
    and "length (cs_nodes st') = length (cs_nodes st)"
    and "cs_requests st' = (cs_requests st)[i := r']" and "same_request (cs_requests st ! i) r'"
  shows "later st st'"
proof -
  have "same_request (cs_requests st ! j) (cs_requests st' ! j)" if "j < length (cs_requests st)" for j
    using assms(5,6) that by (cases "j = i") simp_all
  then show ?thesis using assms held_cong [OF assms(2,3)] by (simp add: later_def)
qed

lemma heap_grows_refl: "cs_heap st' = cs_heap st \<Longrightarrow> heap_grows st st'"
  by (simp add: heap_grows_def)

lemma heap_grows_append: "cs_heap st' = cs_heap st @ ks \<Longrightarrow> heap_grows st st'"
  by (simp add: heap_grows_def nth_append)

lemma back_in_time:
  assumes "env_ok env" and "0 \<le> D" and "(s::int) \<le> now"
  shows "s - ke_redis_ttl env - D \<le> now" and "s - ke_redis_ttl env - 2 * D \<le> now" and "s - stale_after env D \<le> now"
  using assms env_okD(3,4) [OF assms(1)] by (simp_all add: stale_after_def)

lemma shared_answer_later:
  assumes "later st st'" and "heap_grows st st'" and "env_ok env" and "0 \<le> D" and "rq_started r \<le> cs_now st"
    and "dc_APIKey dc < length (cs_heap st)" and "shared_answer env D st r dc"
  shows "shared_answer env D st' r dc"
proof -
  obtain k where k: "carries_answer env D st r (answer_content k dc)" "cs_heap st ! dc_APIKey dc \<in> {k, zeros k}"
    using assms(7) unfolding shared_answer_def by blast
  have "carries_answer env D st' r (answer_content k dc)"
    using k(1) genuine_later [OF assms(1) back_in_time(1) [OF assms(3,4,5)]] by (simp add: carries_answer_def)
  moreover have "cs_heap st' ! dc_APIKey dc \<in> {k, zeros k}" using k(2) assms(2,6) by (simp add: heap_grows_def)
  ultimately show ?thesis unfolding shared_answer_def by blast
qed

lemma follows_later: "later st st' \<Longrightarrow> follows D st r l \<Longrightarrow> follows D st' r l"
  by (auto simp: later_def follows_def same_request_def)

lemma result_later:
  "later st st' \<Longrightarrow> l < length (cs_requests st) \<Longrightarrow> rq_result (cs_requests st ! l) = Some res \<Longrightarrow>
   rq_result (cs_requests st' ! l) = Some res"
  by (auto simp: later_def same_request_def)

lemma got_later:
  assumes l: "later st st'" and "heap_grows st st'" and "env_ok env" and "0 \<le> D" and "rq_started r \<le> cs_now st"
    and "dc_APIKey dc < length (cs_heap st)" and "got env D st r dc"
  shows "got env D st' r dc"
proof (cases "rq_flight r")
  case None
  then show ?thesis
    using assms(2,6,7) genuine_later [OF l back_in_time(3) [OF assms(3,4,5)]]
    by (simp add: got_def heap_grows_def)
next
  case (Some m)
  then show ?thesis
    using assms(7) follows_later [OF l] result_later [OF l] by (auto simp: got_def follows_def)
qed

lemma sent_ok_later:
  assumes "later st st'" and "env_ok env" and "0 \<le> D" and "rq_started r \<le> cs_now st" and "sent_ok env D st r"
  shows "sent_ok env D st' r"
  using assms(5) genuine_later [OF assms(1) back_in_time(3) [OF assms(2,3,4)]]
  unfolding sent_ok_def by blast

lemma pc_ok_later:
  assumes l: "later st st'" and g: "heap_grows st st'" and e: "env_ok env" "0 \<le> D" and s: "rq_started r \<le> cs_now st"
    and refs: "pc_refs p \<subseteq> {..<length (cs_heap st)}" and ok: "pc_ok env D st r p"
  shows "pc_ok env D st' r p"
proof -
  note t = back_in_time(1) [OF e s]
  note gen = genuine_later [OF l t] genuine_redis_later [OF l t] valid_row_later [OF l s]
  have h: "a < length (cs_heap st) \<Longrightarrow> cs_heap st' ! a = cs_heap st ! a" for a
    using g by (simp add: heap_grows_def)
  show ?thesis
  proof (cases p)
    case (Joined l)
    then show ?thesis using ok follows_later [OF assms(1)] by simp
  next
    case (Leave res)
    then show ?thesis using ok refs gen h by (cases res) (auto simp: carries_answer_def)
  next
    case (Answered res)
    then show ?thesis using ok refs got_later [OF l g e s] by (cases res) auto
  next
    case (Sent a)
    then show ?thesis using ok l by (fastforce simp: later_def same_request_def)
  qed (use ok refs gen h in \<open>auto simp: carries_redis_def carries_row_def carries_answer_def\<close>)
qed

lemma refs_parts: "pc_refs (rq_pc r) \<subseteq> refs r" "rq_result r = Some (Inr dc) \<Longrightarrow> dc_APIKey dc \<in> refs r"
  by (auto simp: refs_def)

lemma request_ok_later:
  assumes l: "later st st'" and g: "heap_grows st st'" and e: "env_ok env" "0 \<le> D"
    and refs: "refs r \<subseteq> {..<length (cs_heap st)}" and ok: "request_ok env D st i r"
  shows "request_ok env D st' i r"
proof -
  have s: "rq_started r \<le> cs_now st" using ok by (simp add: request_ok_def)
  have "pc_ok env D st' r (rq_pc r)"
    using pc_ok_later [OF l g e s _ , of "rq_pc r"] refs refs_parts(1) [of r] ok by (auto simp: request_ok_def)
  moreover have "shared_answer env D st' r dc" if "rq_result r = Some (Inr dc)" for dc
    using shared_answer_later [OF l g e s _, of dc] refs refs_parts(2) [OF that] ok that by (auto simp: request_ok_def)
  moreover have "sent_ok env D st' r" using sent_ok_later [OF l e s] ok by (simp add: request_ok_def)
  ultimately show ?thesis using ok l by (auto simp: request_ok_def later_def)
qed

section \<open>One request moves\<close>

lemma memory_ok_sub:
  assumes l: "later st st'" and e: "env_ok env" "0 \<le> D" and ok: "memory_ok env D st"
    and sub: "\<And>n i x. n < length (cs_nodes st) \<Longrightarrow> nd_memory (cs_nodes st' ! n) i = Some x \<Longrightarrow>
      nd_memory (cs_nodes st ! n) i = Some x \<or> entry_ok env D st' i x"
  shows "memory_ok env D st'"
  unfolding memory_ok_def
proof (intro ballI allI impI)
  fix n i x
  assume "n \<in> set (cs_nodes st')" and x: "nd_memory n i = Some x"
  then obtain m where m: "m < length (cs_nodes st)" "n = cs_nodes st' ! m"
    using l by (auto simp: in_set_conv_nth later_def)
  show "entry_ok env D st' i x"
  proof (cases "entry_ok env D st' i x")
    case False
    then have "nd_memory (cs_nodes st ! m) i = Some x" using sub [OF m(1)] x m(2) by blast
    then have old: "entry_ok env D st i x" using ok m(1) nth_mem unfolding memory_ok_def by blast
    then have "cc_CachedAt x \<le> cs_now st" by (simp add: entry_ok_def)
    from genuine_later [OF l back_in_time(2) [OF e this]] this
    show ?thesis using old l by (auto simp: entry_ok_def later_def)
  qed
qed

lemma redis_ok_sub:
  assumes l: "later st st'" and e: "env_ok env" "0 \<le> D" and ok: "redis_ok env D st"
    and sub: "\<And>i rc x. cs_redis st' i = Some (rc, x) \<Longrightarrow> cs_redis st i = Some (rc, x) \<or>
      x \<le> cs_now st' + ke_redis_ttl env \<and> (\<exists>org. genuine_redis env st' (x - ke_redis_ttl env - D) i org rc)"
  shows "redis_ok env D st'"
  unfolding redis_ok_def
proof (intro allI impI)
  fix i rc x
  assume x: "cs_redis st' i = Some (rc, x)"
  from sub [OF x]
  show "x \<le> cs_now st' + ke_redis_ttl env \<and> (\<exists>org. genuine_redis env st' (x - ke_redis_ttl env - D) i org rc)"
  proof
    assume "cs_redis st i = Some (rc, x)"
    then obtain org where x: "x \<le> cs_now st + ke_redis_ttl env"
        "genuine_redis env st (x - ke_redis_ttl env - D) i org rc"
      using ok unfolding redis_ok_def by metis
    then have "genuine_redis env st' (x - ke_redis_ttl env - D) i org rc"
      using genuine_redis_later [OF l] e(2) by simp
    then show ?thesis using x(1) l by (auto simp: later_def)
  qed
qed

lemma flights_ok_keep:
  assumes ok: "flights_ok st" and len: "length (cs_nodes st') = length (cs_nodes st)"
    and sub: "\<And>n i l. n < length (cs_nodes st) \<Longrightarrow> nd_flight (cs_nodes st' ! n) i = Some l \<Longrightarrow>
      nd_flight (cs_nodes st ! n) i = Some l"
    and keep: "\<And>l. l < length (cs_requests st) \<Longrightarrow> leading (rq_pc (cs_requests st ! l)) \<Longrightarrow>
      l < length (cs_requests st') \<and> leading (rq_pc (cs_requests st' ! l)) \<and>
      rq_cred (cs_requests st' ! l) = rq_cred (cs_requests st ! l) \<and>
      rq_node (cs_requests st' ! l) = rq_node (cs_requests st ! l)"
  shows "flights_ok st'"
  unfolding flights_ok_def
proof (intro allI impI)
  fix n i l
  assume "n < length (cs_nodes st')" and "nd_flight (cs_nodes st' ! n) i = Some l"
  then have n: "n < length (cs_nodes st)" and "nd_flight (cs_nodes st ! n) i = Some l"
    using sub len by auto
  then show "l < length (cs_requests st') \<and> leading (rq_pc (cs_requests st' ! l)) \<and>
      rq_cred (cs_requests st' ! l) = i \<and> rq_node (cs_requests st' ! l) = n"
    using ok keep unfolding flights_ok_def by metis
qed

lemma refs_ok_step:
  assumes ok: "refs_ok st" and i: "i < length (cs_requests st)"
    and reqs: "cs_requests st' = (cs_requests st)[i := r']" and g: "heap_grows st st'"
    and sub: "refs r' \<subseteq> refs (cs_requests st ! i) \<union> {length (cs_heap st) ..< length (cs_heap st')}"
    and flight: "rq_flight r' = rq_flight (cs_requests st ! i) \<or> refs r' = {}"
  shows "refs_ok st'"
proof -
  let ?R = "cs_requests st" and ?R' = "cs_requests st'"
  have len: "length ?R' = length ?R" using reqs by simp
  have lh: "length (cs_heap st) \<le> length (cs_heap st')" using g by (simp add: heap_grows_def)
  have below: "refs (?R ! j) \<subseteq> {..<length (cs_heap st)}" if "j < length ?R" for j
    using ok that by (simp add: refs_ok_def)
  have at: "?R' ! j = (if j = i then r' else ?R ! j)" if "j < length ?R" for j
    using reqs that i by (simp add: nth_list_update)
  have below': "refs (?R' ! j) \<subseteq> {..<length (cs_heap st')}" if "j < length ?R" for j
    using below [OF that] below [OF i] sub lh at [OF that] by (auto; force)
  have grp: "call_of st' j = call_of st j" if "j < length ?R" "refs (?R' ! j) \<noteq> {}" for j
    using flight at [OF that(1)] that(2) by (auto simp: call_of_def split: if_splits)
  have one: "call_of st' i = call_of st' j" if j: "j < length ?R" "j \<noteq> i" and meet: "refs (?R' ! i) \<inter> refs (?R' ! j) \<noteq> {}" for j
  proof -
    obtain a where a: "a \<in> refs r'" "a \<in> refs (?R ! j)" using meet at [OF i] at [OF j(1)] j(2) by auto
    then have "a < length (cs_heap st)" using below [OF j(1)] by blast
    then have "refs (?R ! i) \<inter> refs (?R ! j) \<noteq> {}" using a sub by fastforce
    then have "call_of st i = call_of st j" using ok i j by (simp add: refs_ok_def)
    moreover have "refs (?R' ! i) \<noteq> {}" "refs (?R' ! j) \<noteq> {}" using meet by blast+
    ultimately show ?thesis using grp [OF i] grp [OF j(1)] by simp
  qed
  show ?thesis
    unfolding refs_ok_def len
  proof (intro conjI allI impI)
    fix j k assume jk: "j < length ?R" "k < length ?R" "refs (?R' ! j) \<inter> refs (?R' ! k) \<noteq> {}"
    show "call_of st' j = call_of st' k"
    proof (cases "j = i \<or> k = i")
      case True
      then show ?thesis using one [of j] one [of k] jk by (metis inf_commute)
    next
      case False
      then have "call_of st j = call_of st k" using ok jk at by (simp add: refs_ok_def)
      moreover have "refs (?R' ! j) \<noteq> {}" "refs (?R' ! k) \<noteq> {}" using jk by blast+
      ultimately show ?thesis using grp [OF jk(1)] grp [OF jk(2)] by simp
    qed
  qed (use below' in auto)
qed

lemma requests_ok_step:
  assumes l: "later st st'" and g: "heap_grows st st'" and e: "env_ok env" "0 \<le> D"
    and refs: "refs_ok st" and ok: "requests_ok env D st"
    and reqs: "cs_requests st' = (cs_requests st)[i := r']" and new: "i < length (cs_requests st) \<Longrightarrow> request_ok env D st' i r'"
  shows "requests_ok env D st'"
  unfolding requests_ok_def
proof (intro allI impI)
  fix j assume "j < length (cs_requests st')"
  then have j: "j < length (cs_requests st)" using reqs by simp
  show "request_ok env D st' j (cs_requests st' ! j)"
  proof (cases "j = i")
    case True
    then show ?thesis using new j reqs by simp
  next
    case False
    then have "cs_requests st' ! j = cs_requests st ! j" using reqs by simp
    then show ?thesis using request_ok_later [OF l g e] refs ok j by (simp add: refs_ok_def requests_ok_def)
  qed
qed

text \<open>A step of a request that reads or writes the tiers, keeps its place in its flight and adds to the heap.\<close>

lemma inv_step:
  assumes inv: "cache_inv env D st" and e: "env_ok env" "0 \<le> D" and i: "i < length (cs_requests st)"
    and reqs: "cs_requests st' = (cs_requests st)[i := r']"
    and frame: "cs_now st' = cs_now st" "cs_rows st' = cs_rows st" "cs_past st' = cs_past st"
      "length (cs_nodes st') = length (cs_nodes st)" "cs_heap st' = cs_heap st @ ks"
    and same: "same_request (cs_requests st ! i) r'"
    and mem: "\<And>n k x. n < length (cs_nodes st) \<Longrightarrow> nd_memory (cs_nodes st' ! n) k = Some x \<Longrightarrow>
      nd_memory (cs_nodes st ! n) k = Some x \<or> entry_ok env D st' k x"
    and redis: "\<And>k rc x. cs_redis st' k = Some (rc, x) \<Longrightarrow> cs_redis st k = Some (rc, x) \<or>
      x \<le> cs_now st' + ke_redis_ttl env \<and> (\<exists>org. genuine_redis env st' (x - ke_redis_ttl env - D) k org rc)"
    and ok: "later st st' \<Longrightarrow> request_ok env D st' i r'"
    and refs: "refs r' \<subseteq> refs (cs_requests st ! i) \<union> {length (cs_heap st) ..< length (cs_heap st')}"
    and flight: "rq_flight r' = rq_flight (cs_requests st ! i) \<or> refs r' = {}"
    and fl: "flights_ok st'"
  shows "cache_inv env D st'"
proof -
  note l = later_step [OF frame(1-4) reqs same]
  note g = heap_grows_append [OF frame(5)]
  have "memory_ok env D st'"
    by (rule memory_ok_sub [OF l e _ mem]) (use inv in \<open>simp_all add: cache_inv_def\<close>)
  moreover have "redis_ok env D st'"
    by (rule redis_ok_sub [OF l e _ redis]) (use inv in \<open>simp_all add: cache_inv_def\<close>)
  moreover have "refs_ok st'" using refs_ok_step [OF _ i reqs g refs flight] inv by (simp add: cache_inv_def)
  moreover have "requests_ok env D st'"
    using requests_ok_step [OF l g e _ _ reqs ok [OF l]] inv by (simp add: cache_inv_def)
  ultimately show ?thesis using fl by (simp add: cache_inv_def)
qed

end
