(* ===== verification/CredCacheSteps.thy ===== *)
theory CredCacheSteps
  imports CredCacheInv
begin

text \<open>Every step of a request, of a revocation and of the world keeps the invariant of the tiers.\<close>

section \<open>Steps of a request\<close>

lemma requestD:
  "cache_inv env D st \<Longrightarrow> i < length (cs_requests st) \<Longrightarrow> request_ok env D st i (cs_requests st ! i)"
  by (simp add: cache_inv_def requests_ok_def)

lemma memoryD:
  "cache_inv env D st \<Longrightarrow> n < length (cs_nodes st) \<Longrightarrow> nd_memory (cs_nodes st ! n) k = Some x \<Longrightarrow> entry_ok env D st k x"
  unfolding cache_inv_def memory_ok_def using nth_mem by blast

lemma redisD:
  assumes "cache_inv env D st" and "cs_redis st k = Some (rc, x)"
  obtains org where "x \<le> cs_now st + ke_redis_ttl env" and "genuine_redis env st (x - ke_redis_ttl env - D) k org rc"
  using assms unfolding cache_inv_def redis_ok_def by metis

lemma cache_inv_node:
  "cache_inv env D st \<Longrightarrow> i < length (cs_requests st) \<Longrightarrow> rq_node (cs_requests st ! i) < length (cs_nodes st)"
  using requestD by (simp add: request_ok_def)

lemma entry_ok_cong:
  assumes "cs_now st' = cs_now st" "cs_rows st' = cs_rows st" "cs_past st' = cs_past st"
  shows "entry_ok env D st' = entry_ok env D st"
  by (intro ext) (simp only: entry_ok_def genuine_cong(1) [OF assms(2,3)] assms(1))

definition early :: "cred_pc \<Rightarrow> bool" where
  "early p \<longleftrightarrow> p \<in> {LookupOrg, LookupMemory, EnterFlight}"

text \<open>The point of a request moves while the tiers change.\<close>

lemma inv_goto:
  fixes st1 :: cache_st and i :: nat and p :: cred_pc
  defines "st' \<equiv> goto i p st1"
  assumes inv: "cache_inv env D st" and e: "env_ok env" "0 \<le> D" and i: "i < length (cs_requests st)"
    and r: "r = cs_requests st ! i"
    and frame: "cs_requests st1 = cs_requests st" "cs_now st1 = cs_now st" "cs_rows st1 = cs_rows st"
      "cs_past st1 = cs_past st" "length (cs_nodes st1) = length (cs_nodes st)" "cs_heap st1 = cs_heap st @ ks"
    and mem: "\<And>n k x. n < length (cs_nodes st) \<Longrightarrow> nd_memory (cs_nodes st1 ! n) k = Some x \<Longrightarrow>
      nd_memory (cs_nodes st ! n) k = Some x \<or> entry_ok env D st k x"
    and redis: "\<And>k rc x. cs_redis st1 k = Some (rc, x) \<Longrightarrow> cs_redis st k = Some (rc, x) \<or>
      x \<le> cs_now st + ke_redis_ttl env \<and> (\<exists>org. genuine_redis env st (x - ke_redis_ttl env - D) k org rc)"
    and fl: "\<And>n. n < length (cs_nodes st) \<Longrightarrow> nd_flight (cs_nodes st1 ! n) = nd_flight (cs_nodes st ! n)"
    and pc: "pc_ok env D st' (r\<lparr>rq_pc := p\<rparr>) p"
    and refs: "pc_refs p \<subseteq> refs r \<union> {length (cs_heap st) ..< length (cs_heap st) + length ks}"
    and lead: "leading p \<longleftrightarrow> leading (rq_pc r)" and early: "early p \<Longrightarrow> early (rq_pc r)"
  shows "cache_inv env D st'"
proof (rule inv_step [OF inv e i, where r' = "r\<lparr>rq_pc := p\<rparr>" and ks = ks])
  have rok: "request_ok env D st i r" using requestD [OF inv i] r by simp
  have heap: "cs_heap st' = cs_heap st @ ks" by (simp add: st'_def frame)
  have frame': "cs_now st' = cs_now st" "cs_rows st' = cs_rows st" "cs_past st' = cs_past st"
    by (simp_all add: st'_def frame)
  show "cs_requests st' = (cs_requests st)[i := r\<lparr>rq_pc := p\<rparr>]" by (simp add: st'_def frame r)
  show "cs_now st' = cs_now st" "cs_rows st' = cs_rows st" "cs_past st' = cs_past st"
    "length (cs_nodes st') = length (cs_nodes st)" "cs_heap st' = cs_heap st @ ks"
    by (simp_all add: st'_def frame)
  show "same_request (cs_requests st ! i) (r\<lparr>rq_pc := p\<rparr>)" by (simp add: r same_request_def)
  show "nd_memory (cs_nodes st ! n) k = Some x \<or> entry_ok env D st' k x"
    if "n < length (cs_nodes st)" "nd_memory (cs_nodes st' ! n) k = Some x" for n k x
    using mem [OF that(1), of k x] that(2) entry_ok_cong [OF frame'] by (auto simp: st'_def)
  show "cs_redis st k = Some (rc, x) \<or>
      x \<le> cs_now st' + ke_redis_ttl env \<and> (\<exists>org. genuine_redis env st' (x - ke_redis_ttl env - D) k org rc)"
    if "cs_redis st' k = Some (rc, x)" for k rc x
    using redis [of k rc x] that genuine_cong(2) [OF frame'(2,3)] frame'(1) by (simp add: st'_def)
  show "refs (r\<lparr>rq_pc := p\<rparr>) \<subseteq> refs (cs_requests st ! i) \<union> {length (cs_heap st)..<length (cs_heap st')}"
    using refs by (auto simp: refs_def r heap)
  show "rq_flight (r\<lparr>rq_pc := p\<rparr>) = rq_flight (cs_requests st ! i) \<or> refs (r\<lparr>rq_pc := p\<rparr>) = {}"
    by (simp add: r)
  show "flights_ok st'"
  proof (rule flights_ok_keep [of st])
    show "flights_ok st" using inv by (simp add: cache_inv_def)
    show "length (cs_nodes st') = length (cs_nodes st)" by (simp add: st'_def frame)
    show "nd_flight (cs_nodes st ! n) k = Some l"
      if "n < length (cs_nodes st)" "nd_flight (cs_nodes st' ! n) k = Some l" for n k l
      using fl [OF that(1)] that(2) by (simp add: st'_def)
    show "l < length (cs_requests st') \<and> leading (rq_pc (cs_requests st' ! l)) \<and>
        rq_cred (cs_requests st' ! l) = rq_cred (cs_requests st ! l) \<and>
        rq_node (cs_requests st' ! l) = rq_node (cs_requests st ! l)"
      if "l < length (cs_requests st)" "leading (rq_pc (cs_requests st ! l))" for l
      using that lead by (cases "l = i") (simp_all add: st'_def frame r)
  qed
  show "request_ok env D st' i (r\<lparr>rq_pc := p\<rparr>)" if l: "later st st'"
  proof -
    have "request_ok env D st' i r"
      using request_ok_later [OF l heap_grows_append [OF heap] e _ rok] inv i r
      by (simp add: cache_inv_def refs_ok_def)
    moreover have "shared_answer env D st' (r\<lparr>rq_pc := p\<rparr>) = shared_answer env D st' r"
      "sent_ok env D st' (r\<lparr>rq_pc := p\<rparr>) = sent_ok env D st' r"
      by (simp_all add: shared_answer_def carries_answer_def sent_ok_def fun_eq_iff)
    ultimately show ?thesis using pc lead early by (auto simp: request_ok_def early_def)
  qed
qed

text \<open>Rows only matter to the statements about rows.\<close>

lemma genuine_frame [simp]:
  "genuine env (on_request i f st) = genuine env st" "genuine env (on_node n g st) = genuine env st"
  "genuine env (st\<lparr>cs_heap := h\<rparr>) = genuine env st" "genuine env (st\<lparr>cs_redis := m\<rparr>) = genuine env st"
  "genuine_redis env (on_request i f st) = genuine_redis env st" "genuine_redis env (on_node n g st) = genuine_redis env st"
  "genuine_redis env (st\<lparr>cs_heap := h\<rparr>) = genuine_redis env st" "genuine_redis env (st\<lparr>cs_redis := m\<rparr>) = genuine_redis env st"
  "valid_row (on_request i f st) = valid_row st" "valid_row (on_node n g st) = valid_row st"
  "valid_row (st\<lparr>cs_heap := h\<rparr>) = valid_row st" "valid_row (st\<lparr>cs_redis := m\<rparr>) = valid_row st"
  by (intro genuine_cong; simp)+

lemma carries_frame [simp]:
  "carries_redis env D (on_request i f st) = carries_redis env D st" "carries_redis env D (on_node n g st) = carries_redis env D st"
  "carries_redis env D (st\<lparr>cs_heap := h\<rparr>) = carries_redis env D st" "carries_redis env D (st\<lparr>cs_redis := m\<rparr>) = carries_redis env D st"
  "carries_row (on_request i f st) = carries_row st" "carries_row (on_node n g st) = carries_row st"
  "carries_row (st\<lparr>cs_heap := h\<rparr>) = carries_row st" "carries_row (st\<lparr>cs_redis := m\<rparr>) = carries_row st"
  "carries_answer env D (on_request i f st) = carries_answer env D st" "carries_answer env D (on_node n g st) = carries_answer env D st"
  "carries_answer env D (st\<lparr>cs_heap := h\<rparr>) = carries_answer env D st" "carries_answer env D (st\<lparr>cs_redis := m\<rparr>) = carries_answer env D st"
  by (intro ext; simp only: carries_redis_def carries_row_def carries_answer_def genuine_frame)+

lemma carries_pc [simp]:
  "carries_redis env D st (r\<lparr>rq_pc := p\<rparr>) rc = carries_redis env D st r rc"
  "carries_row st (r\<lparr>rq_pc := p\<rparr>) c = carries_row st r c"
  "carries_answer env D st (r\<lparr>rq_pc := p\<rparr>) v = carries_answer env D st r v"
  by (simp_all add: carries_redis_def carries_row_def carries_answer_def)

lemma MemoryGet_Some:
  "MemoryGet now k n = (Some e, n') \<Longrightarrow> n' = n \<and> nd_memory n k = Some e \<and> now \<le> cc_HardExpiry e"
  by (cases "nd_memory n k") (auto simp: MemoryGet_def split: if_splits)

text \<open>Changes of an instance that only drop entries.\<close>

definition drops :: "node \<Rightarrow> node \<Rightarrow> bool" where
  "drops n n' \<longleftrightarrow> (\<forall>k x. nd_memory n' k = Some x \<longrightarrow> nd_memory n k = Some x) \<and> nd_flight n' = nd_flight n"

lemma drops [simp]:
  "drops n n" "drops n (MemoryInvalidate k n)" "drops n (DEKInvalidate k n)" "drops n (DEKSet k d n)"
  "drops n (n\<lparr>nd_memory := (nd_memory n)(k := None)\<rparr>)" "drops n (forget_local k n)"
  "drops n (n\<lparr>nd_inbox := ms\<rparr>)" "drops n (nd_inbox_update tl n)" "drops n (handle_message n)"
  by (auto simp: drops_def MemoryInvalidate_def DEKInvalidate_def DEKSet_def forget_local_def handle_message_def
      split: if_splits list.splits)

lemma MemoryGet_drops: "MemoryGet now k n = (x, n') \<Longrightarrow> drops n n'"
  by (cases "nd_memory n k") (auto simp: MemoryGet_def split: if_splits)

lemma drops_trans: "drops a b \<Longrightarrow> drops b c \<Longrightarrow> drops a c"
  by (auto simp: drops_def)

lemma inv_drop:
  assumes inv: "cache_inv env D st" and e: "env_ok env" "0 \<le> D" and i: "i < length (cs_requests st)"
    and r: "r = cs_requests st ! i"
    and st1: "cs_requests st1 = cs_requests st" "cs_now st1 = cs_now st" "cs_rows st1 = cs_rows st"
      "cs_past st1 = cs_past st" "cs_heap st1 = cs_heap st @ ks"
      "cs_nodes st1 = (cs_nodes st)[n := m]" "drops (cs_nodes st ! n) m" "cs_redis st1 = cs_redis st"
    and pc: "pc_ok env D (goto i p st1) (r\<lparr>rq_pc := p\<rparr>) p"
    and refs: "pc_refs p \<subseteq> refs r \<union> {length (cs_heap st) ..< length (cs_heap st) + length ks}"
    and lead: "leading p \<longleftrightarrow> leading (rq_pc r)" and early: "early p \<Longrightarrow> early (rq_pc r)"
  shows "cache_inv env D (goto i p st1)"
proof (rule inv_goto [OF inv e i r st1(1-4) _ st1(5) _ _ _ pc refs lead early])
  fix n' k x
  assume n': "n' < length (cs_nodes st)"
  show "nd_memory (cs_nodes st1 ! n') k = Some x \<Longrightarrow> nd_memory (cs_nodes st ! n') k = Some x \<or> entry_ok env D st k x"
    using st1(6,7) n' by (cases "n' = n") (auto simp: drops_def)
  show "nd_flight (cs_nodes st1 ! n') = nd_flight (cs_nodes st ! n')"
    using st1(6,7) n' by (cases "n' = n") (auto simp: drops_def)
qed (use st1 in simp_all)


text \<open>Steps that change nothing but the request.\<close>

lemma inv_self:
  assumes inv: "cache_inv env D st" and e: "env_ok env" "0 \<le> D" and i: "i < length (cs_requests st)"
    and r: "r = cs_requests st ! i" and same: "same_request r (f r)"
    and ok: "later st (on_request i f st) \<Longrightarrow> request_ok env D (on_request i f st) i r \<Longrightarrow>
      request_ok env D (on_request i f st) i (f r)"
    and refs: "refs (f r) \<subseteq> refs r" and flight: "rq_flight (f r) = rq_flight r \<or> refs (f r) = {}"
    and lead: "leading (rq_pc r) \<Longrightarrow> leading (rq_pc (f r))"
  shows "cache_inv env D (on_request i f st)"
proof (rule inv_step [OF inv e i, where r' = "f r" and ks = "[]"])
  show "request_ok env D (on_request i f st) i (f r)" if "later st (on_request i f st)"
  proof (rule ok [OF that])
    have "heap_grows st (on_request i f st)" by (rule heap_grows_refl) simp
    from request_ok_later [OF that this e _ requestD [OF inv i]] inv i
    show "request_ok env D (on_request i f st) i r" by (simp add: r cache_inv_def refs_ok_def)
  qed
  show "flights_ok (on_request i f st)"
  proof (rule flights_ok_keep [of st])
    show "flights_ok st" using inv by (simp add: cache_inv_def)
    show "l < length (cs_requests (on_request i f st)) \<and> leading (rq_pc (cs_requests (on_request i f st) ! l)) \<and>
        rq_cred (cs_requests (on_request i f st) ! l) = rq_cred (cs_requests st ! l) \<and>
        rq_node (cs_requests (on_request i f st) ! l) = rq_node (cs_requests st ! l)"
      if "l < length (cs_requests st)" "leading (rq_pc (cs_requests st ! l))" for l
      using that lead same by (cases "l = i") (simp_all add: r same_request_def)
  qed simp_all
  show "cs_redis st k = Some (rc, x) \<or>
      x \<le> cs_now (on_request i f st) + ke_redis_ttl env \<and>
      (\<exists>org. genuine_redis env (on_request i f st) (x - ke_redis_ttl env - D) k org rc)"
    if "cs_redis (on_request i f st) k = Some (rc, x)" for k rc x
    using that by simp
qed (use r same refs flight in simp_all)

lemma early_request:
  assumes "cache_inv env D st" and "i < length (cs_requests st)" and "early (rq_pc (cs_requests st ! i))"
  shows "rq_flight (cs_requests st ! i) = None" and "rq_result (cs_requests st ! i) = None"
    and "refs (cs_requests st ! i) = {}"
  using requestD [OF assms(1,2)] assms(3) by (auto simp: request_ok_def early_def refs_def)

lemma inv_by_id:
  assumes inv: "cache_inv env D st" and e: "env_ok env" "0 \<le> D" and i: "i < length (cs_requests st)"
    and p: "rq_pc (cs_requests st ! i) = LookupOrg"
  shows "cache_inv env D (GetDecryptedCredentialByID ok i st)"
proof -
  note early = early_request [OF inv i, unfolded early_def p, simplified]
  have answered: "cache_inv env D (goto i (Answered (Inl x)) st)" for x
    by (rule inv_drop [OF inv e i refl, where n = 0 and m = "cs_nodes st ! 0" and ks = "[]"])
       (simp_all add: p early_def)
  have move: "cache_inv env D (on_request i (\<lambda>x. x\<lparr>rq_org := org, rq_pc := LookupMemory\<rparr>) st)" for org
  proof (rule inv_self [OF inv e i refl])
    show "request_ok env D (on_request i (\<lambda>x. x\<lparr>rq_org := org, rq_pc := LookupMemory\<rparr>) st) i
        ((cs_requests st ! i)\<lparr>rq_org := org, rq_pc := LookupMemory\<rparr>)"
      if "request_ok env D (on_request i (\<lambda>x. x\<lparr>rq_org := org, rq_pc := LookupMemory\<rparr>) st) i (cs_requests st ! i)"
      using that early by (auto simp: request_ok_def sent_ok_def)
  qed (use early in \<open>simp_all add: same_request_def p refs_def\<close>)
  show ?thesis
    unfolding GetDecryptedCredentialByID_def Let_def
    using answered move by (simp split: option.split)
qed

lemma inv_memory:
  assumes inv: "cache_inv env D st" and e: "env_ok env" "0 \<le> D" and i: "i < length (cs_requests st)"
    and p: "rq_pc (cs_requests st ! i) = LookupMemory"
  shows "cache_inv env D (memory_lookup ok i st)"
proof -
  let ?r = "cs_requests st ! i"
  note node = cache_inv_node [OF inv i]
  note early = early_request [OF inv i, unfolded early_def p, simplified]
  obtain cached n1 where g: "MemoryGet (cs_now st) (rq_cred ?r) (cs_nodes st ! rq_node ?r) = (cached, n1)"
    by (cases "MemoryGet (cs_now st) (rq_cred ?r) (cs_nodes st ! rq_node ?r)")
  let ?st1 = "on_node (rq_node ?r) (\<lambda>_. n1) st"
  have miss: "cache_inv env D (goto i EnterFlight (on_node (rq_node ?r) f ?st1))" if "drops n1 (f n1)" for f
    by (rule inv_drop [OF inv e i refl, where n = "rq_node ?r" and m = "f n1" and ks = "[]"])
       (use node drops_trans [OF MemoryGet_drops [OF g] that] in \<open>simp_all add: p early_def\<close>)
  have miss': "cache_inv env D (goto i EnterFlight ?st1)"
    by (rule inv_drop [OF inv e i refl, where n = "rq_node ?r" and m = n1 and ks = "[]"])
       (use MemoryGet_drops [OF g] in \<open>simp_all add: p early_def\<close>)
  have hit: "cache_inv env D (goto i (Answered (Inr (answer_of_entry (length (cs_heap st)) x)))
      (?st1\<lparr>cs_heap := cs_heap st @ [cc_Enclave x]\<rparr>))" if x: "cached = Some x" "cc_OrgID x = rq_org ?r" for x
  proof (rule inv_drop [OF inv e i refl, where n = "rq_node ?r" and m = n1 and ks = "[cc_Enclave x]"])
    let ?st2 = "goto i (Answered (Inr (answer_of_entry (length (cs_heap st)) x))) (?st1\<lparr>cs_heap := cs_heap st @ [cc_Enclave x]\<rparr>)"
    from MemoryGet_Some [of "cs_now st"] g x
    have m: "nd_memory (cs_nodes st ! rq_node ?r) (rq_cred ?r) = Some x" "cs_now st \<le> cc_HardExpiry x" by metis+
    have ok: "entry_ok env D st (rq_cred ?r) x" by (rule memoryD [OF inv node m(1)])
    then have "cs_now st \<le> cc_CachedAt x + ke_hard_expiry env" using m(2) by (simp add: entry_ok_def)
    moreover have "rq_started ?r \<le> cs_now st" using requestD [OF inv i] by (simp add: request_ok_def)
    ultimately have "genuine env st (rq_started ?r - stale_after env D) (rq_cred ?r) (rq_org ?r) (entry_content x)"
      using ok x(2) by (auto simp: entry_ok_def stale_after_def intro: genuine_mono [rotated])
    then show "pc_ok env D ?st2 (?r\<lparr>rq_pc := Answered (Inr (answer_of_entry (length (cs_heap st)) x))\<rparr>)
        (Answered (Inr (answer_of_entry (length (cs_heap st)) x)))"
      using early by (simp add: got_def answer_content_def entry_content_def answer_of_entry_def)
  qed (use MemoryGet_drops [OF g] in \<open>simp_all add: p early_def answer_of_entry_def\<close>)
  show ?thesis
    unfolding memory_lookup_def Let_def g prod.case
    using miss [of "MemoryInvalidate (rq_cred ?r)"] miss' hit by (auto simp: alloc_def split: option.split)
qed


lemma follows_leader:
  assumes inv: "cache_inv env D st" and pr: "prompt D st" and i: "i < length (cs_requests st)"
    and l: "nd_flight (cs_nodes st ! rq_node (cs_requests st ! i)) (rq_cred (cs_requests st ! i)) = Some l"
  shows "l < length (cs_requests st)" and "rq_cred (cs_requests st ! l) = rq_cred (cs_requests st ! i)"
    and "rq_started (cs_requests st ! i) \<le> rq_started (cs_requests st ! l) + D" and "leading (rq_pc (cs_requests st ! l))"
proof -
  show l: "l < length (cs_requests st)" and lead: "leading (rq_pc (cs_requests st ! l))"
    and "rq_cred (cs_requests st ! l) = rq_cred (cs_requests st ! i)"
    using inv l cache_inv_node [OF inv i] unfolding cache_inv_def flights_ok_def by blast+
  from lead have "rq_pc (cs_requests st ! l) \<noteq> Finished" by auto
  then have "cs_now st \<le> rq_started (cs_requests st ! l) + D" using pr l by (simp add: prompt_def)
  then show "rq_started (cs_requests st ! i) \<le> rq_started (cs_requests st ! l) + D"
    using requestD [OF inv i] by (simp add: request_ok_def)
qed

lemma request_ok_move:
  assumes "request_ok env D st i r" and "rq_result r = None" and "rq_cred r' = rq_cred r" "rq_started r' = rq_started r"
    "rq_node r' = rq_node r" "rq_sent r' = rq_sent r" "rq_result r' = None" "rq_flight r = None \<or> rq_flight r' \<noteq> None"
    and "pc_ok env D st r' (rq_pc r')" and "leading (rq_pc r') \<Longrightarrow> rq_flight r' = Some i" and "\<not> early (rq_pc r')"
  shows "request_ok env D st i r'"
proof -
  have "sent_ok env D st r'" using assms(1,3-6,8) unfolding request_ok_def sent_ok_def by metis
  then show ?thesis using assms by (auto simp: request_ok_def early_def)
qed

lemma inv_enter:
  assumes inv: "cache_inv env D st" and pr: "prompt D st" and e: "env_ok env" "0 \<le> D" and i: "i < length (cs_requests st)"
    and p: "rq_pc (cs_requests st ! i) = EnterFlight"
  shows "cache_inv env D (enter_flight i st)"
proof -
  let ?r = "cs_requests st ! i"
  note early = early_request [OF inv i, unfolded early_def p, simplified]
  note node = cache_inv_node [OF inv i]
  show ?thesis
  proof (cases "nd_flight (cs_nodes st ! rq_node ?r) (rq_cred ?r)")
    case (Some l)
    let ?f = "\<lambda>x::request. x\<lparr>rq_flight := Some l, rq_pc := Joined l\<rparr>"
    have "cache_inv env D (on_request i ?f st)"
    proof (rule inv_self [OF inv e i refl])
      assume l: "later st (on_request i ?f st)" and ok: "request_ok env D (on_request i ?f st) i ?r"
      have "follows D st (?f ?r) l" using follows_leader [OF inv pr i Some] by (simp add: follows_def)
      then show "request_ok env D (on_request i ?f st) i (?f ?r)"
        by (intro request_ok_move [OF ok early(2)]) (simp_all add: early early_def follows_later [OF l])
    qed (use early in \<open>simp_all add: same_request_def p refs_def\<close>)
    then show ?thesis by (simp add: enter_flight_def Let_def Some)
  next
    case None
    let ?r' = "?r\<lparr>rq_flight := Some i, rq_pc := RedisGet\<rparr>"
    let ?st = "on_request i (\<lambda>x. x\<lparr>rq_flight := Some i, rq_pc := RedisGet\<rparr>)
      (on_node (rq_node ?r) (\<lambda>n. n\<lparr>nd_flight := (nd_flight n)(rq_cred ?r \<mapsto> i)\<rparr>) st)"
    have "cache_inv env D ?st"
    proof (rule inv_step [OF inv e i, where r' = ?r' and ks = "[]"])
      assume l: "later st ?st"
      have "request_ok env D ?st i ?r"
        using request_ok_later [OF l heap_grows_refl e _ requestD [OF inv i]] inv i
        by (simp add: cache_inv_def refs_ok_def)
      then show "request_ok env D ?st i ?r'"
        by (rule request_ok_move [OF _ early(2)]) (simp_all add: early early_def)
    next
      show "flights_ok ?st"
        unfolding flights_ok_def
      proof (intro allI impI)
        fix n k l
        assume n: "n < length (cs_nodes ?st)" and fl: "nd_flight (cs_nodes ?st ! n) k = Some l"
        show "l < length (cs_requests ?st) \<and> leading (rq_pc (cs_requests ?st ! l)) \<and>
            rq_cred (cs_requests ?st ! l) = k \<and> rq_node (cs_requests ?st ! l) = n"
        proof (cases "n = rq_node ?r \<and> k = rq_cred ?r")
          case True
          then show ?thesis using fl node i by simp
        next
          case False
          then have "nd_flight (cs_nodes st ! n) k = Some l"
            using fl n by (cases "n = rq_node ?r") (auto split: if_splits)
          moreover have "n < length (cs_nodes st)" using n by simp
          ultimately have "l < length (cs_requests st) \<and> leading (rq_pc (cs_requests st ! l)) \<and>
              rq_cred (cs_requests st ! l) = k \<and> rq_node (cs_requests st ! l) = n"
            using inv unfolding cache_inv_def flights_ok_def by blast
          then show ?thesis using p by (cases "l = i") auto
        qed
      qed
      show "nd_memory (cs_nodes st ! n) k = Some x \<or> entry_ok env D ?st k x"
        if "n < length (cs_nodes st)" "nd_memory (cs_nodes ?st ! n) k = Some x" for n k x
        using that by (cases "n = rq_node ?r") auto
    qed (use early in \<open>simp_all add: same_request_def p refs_def\<close>)
    then show ?thesis by (simp add: enter_flight_def Let_def None)
  qed
qed

text \<open>The look-ups of a call.\<close>

lemma leading_facts:
  assumes "cache_inv env D st" and "i < length (cs_requests st)" and "leading (rq_pc (cs_requests st ! i))"
  shows "rq_flight (cs_requests st ! i) = Some i" and "rq_result (cs_requests st ! i) = None"
    and "refs (cs_requests st ! i) = pc_refs (rq_pc (cs_requests st ! i))"
    and "rq_started (cs_requests st ! i) \<le> cs_now st"
    and "pc_ok env D st (cs_requests st ! i) (rq_pc (cs_requests st ! i))"
  using requestD [OF assms(1,2)] assms(3) by (auto simp: request_ok_def refs_def)

lemma inv_redis_lookup:
  assumes inv: "cache_inv env D st" and e: "env_ok env" "0 \<le> D" and i: "i < length (cs_requests st)"
    and p: "rq_pc (cs_requests st ! i) = RedisGet"
  shows "cache_inv env D (redis_lookup env ok i st)"
proof -
  let ?r = "cs_requests st ! i"
  note lead = leading_facts [OF inv i, unfolded p, simplified]
  have go: "cache_inv env D (goto i q st)" if "leading q" "pc_refs q = {}" "pc_ok env D (goto i q st) (?r\<lparr>rq_pc := q\<rparr>) q" for q
    by (rule inv_drop [OF inv e i refl, where n = 0 and m = "cs_nodes st ! 0" and ks = "[]"])
       (use that in \<open>auto simp: p early_def\<close>)
  have "carries_redis env D st ?r rc"
    if rc: "RedisCacheGet (rq_cred ?r) st = Some rc" and org: "rc_OrgID rc = ke_ustr env (rq_org ?r)" for rc
  proof -
    obtain x where x: "cs_redis st (rq_cred ?r) = Some (rc, x)" "cs_now st < x"
      using rc by (auto simp: RedisCacheGet_def split: option.splits if_splits)
    from redisD [OF inv x(1)] obtain o' where g: "genuine_redis env st (x - ke_redis_ttl env - D) (rq_cred ?r) o' rc" by metis
    then have "rc_OrgID rc = ke_ustr env o'" by (auto simp: genuine_redis_def redis_of_def)
    then have org': "o' = rq_org ?r" by (intro env_okD(1) [OF e(1)]) (simp add: org)
    have "rq_started ?r - ke_redis_ttl env - D \<le> x - ke_redis_ttl env - D" using x(2) lead(4) by simp
    from genuine_redis_mono [OF this g] show ?thesis unfolding carries_redis_def org' .
  qed
  then have "cache_inv env D (goto i (DekLookup rc) st)"
    if "RedisCacheGet (rq_cred ?r) st = Some rc" "rc_OrgID rc = ke_ustr env (rq_org ?r)" for rc
    using that by (intro go) simp_all
  then show ?thesis
    unfolding redis_lookup_def Let_def using go [of DbRead] by (simp split: option.split)
qed


text \<open>An entry of redis decrypts to the content of its row.\<close>

lemma redis_decrypts:
  assumes e: "env_ok env" and g: "carries_redis env D st r rc" and k: "ke_decrypt env (rc_EncryptedKey rc) dek = Some key"
    and dc: "answer_content key dc = answer_content key (answer_of_redis a rc)"
  shows "carries_answer env D st r (answer_content key dc)"
proof -
  from g obtain c where c: "valid_row st (rq_started r - ke_redis_ttl env - D) (rq_cred r) (rq_org r) c"
    "row_content env c \<noteq> None" "rc = redis_of env (rq_org r) c"
    by (auto simp: carries_redis_def genuine_redis_def)
  have "row_content env c = Some (key, cr_base_url c, cr_auth_scheme c, cr_provider_id c)"
    by (rule row_contentI [OF e c(2)]) (use k c(3) in \<open>simp add: redis_of_def\<close>)
  then have "row_content env c = Some (answer_content key dc)"
    unfolding dc by (simp add: answer_content_def answer_of_redis_def c(3) redis_of_def)
  then show ?thesis using c(1) unfolding carries_answer_def genuine_def by blast
qed

lemma inv_dek_lookup:
  assumes inv: "cache_inv env D st" and e: "env_ok env" "0 \<le> D" and i: "i < length (cs_requests st)"
    and p: "rq_pc (cs_requests st ! i) = DekLookup rc"
  shows "cache_inv env D (dek_lookup env ok i rc st)"
proof -
  let ?r = "cs_requests st ! i"
  note lead = leading_facts [OF inv i, unfolded p, simplified]
  note node = cache_inv_node [OF inv i]
  have 1: "cache_inv env D (goto i (KmsUnwrap rc) st)"
    by (rule inv_drop [OF inv e i refl, where n = 0 and m = "cs_nodes st ! 0" and ks = "[]"])
       (use lead in \<open>auto simp: p early_def\<close>)
  have 2: "cache_inv env D (goto i (KmsUnwrap rc) (on_node (rq_node ?r) (DEKInvalidate (rq_cred ?r)) st))"
    by (rule inv_drop [OF inv e i refl, where n = "rq_node ?r" and m = "DEKInvalidate (rq_cred ?r) (cs_nodes st ! rq_node ?r)" and ks = "[]"])
       (use lead in \<open>auto simp: p early_def\<close>)
  have 3: "cache_inv env D (goto i (Promote (answer_of_redis (length (cs_heap st)) rc)) (st\<lparr>cs_heap := cs_heap st @ [key]\<rparr>))"
    if "ke_decrypt env (rc_EncryptedKey rc) dek = Some key" for dek key
    by (rule inv_drop [OF inv e i refl, where n = 0 and m = "cs_nodes st ! 0" and ks = "[key]"])
       (use lead redis_decrypts [OF e(1) _ that, of D st ?r] in \<open>auto simp: p early_def answer_of_redis_def\<close>)
  show ?thesis
    unfolding dek_lookup_def Let_def using 1 2 3 by (auto simp: alloc_def split: option.split)
qed

lemma inv_unwrap_redis:
  assumes inv: "cache_inv env D st" and e: "env_ok env" "0 \<le> D" and i: "i < length (cs_requests st)"
    and p: "rq_pc (cs_requests st ! i) = KmsUnwrap rc"
  shows "cache_inv env D (unwrap_redis env ok i rc st)"
proof -
  let ?r = "cs_requests st ! i"
  note lead = leading_facts [OF inv i, unfolded p, simplified]
  have 1: "cache_inv env D (goto i RedisDrop st)"
    by (rule inv_drop [OF inv e i refl, where n = 0 and m = "cs_nodes st ! 0" and ks = "[]"])
       (use lead in \<open>auto simp: p early_def\<close>)
  have 2: "cache_inv env D (goto i (Promote (answer_of_redis (length (cs_heap st)) rc))
      (on_node (rq_node ?r) (DEKSet (rq_cred ?r) dek) st\<lparr>cs_heap := cs_heap st @ [key]\<rparr>))"
    if "ke_decrypt env (rc_EncryptedKey rc) dek = Some key" for dek key
    by (rule inv_drop [OF inv e i refl, where n = "rq_node ?r" and m = "DEKSet (rq_cred ?r) dek (cs_nodes st ! rq_node ?r)" and ks = "[key]"])
       (use lead redis_decrypts [OF e(1) _ that, of D st ?r] in \<open>auto simp: p early_def answer_of_redis_def\<close>)
  show ?thesis
    unfolding unwrap_redis_def Let_def using 1 2 by (auto simp: alloc_def split: option.split)
qed

lemma inv_redis_drop:
  assumes inv: "cache_inv env D st" and e: "env_ok env" "0 \<le> D" and i: "i < length (cs_requests st)"
    and p: "rq_pc (cs_requests st ! i) = RedisDrop"
  shows "cache_inv env D (goto i DbRead (if ok then RedisCacheInvalidate k st else st))"
  by (rule inv_goto [OF inv e i refl, where ks = "[]"])
     (auto simp: p early_def RedisCacheInvalidate_def split: if_splits)

lemma inv_row_lookup:
  assumes inv: "cache_inv env D st" and e: "env_ok env" "0 \<le> D" and i: "i < length (cs_requests st)"
    and p: "rq_pc (cs_requests st ! i) = DbRead"
  shows "cache_inv env D (row_lookup ok i st)"
proof -
  let ?r = "cs_requests st ! i"
  have go: "cache_inv env D (goto i q st)" if "leading q" "pc_refs q = {}" "pc_ok env D (goto i q st) (?r\<lparr>rq_pc := q\<rparr>) q" for q
    by (rule inv_drop [OF inv e i refl, where n = 0 and m = "cs_nodes st ! 0" and ks = "[]"])
       (use that in \<open>auto simp: p early_def\<close>)
  have "carries_row st ?r c"
    if "find (\<lambda>c. live_row (rq_cred ?r) c \<and> org_row (rq_org ?r) c) (cs_rows st) = Some c" for c
    using that by (auto simp: find_Some_iff carries_row_def valid_row_def held_def)
  then show ?thesis
    unfolding row_lookup_def Let_def
    using go [of "Leave (Inl ''db lookup'')"] go [of "Leave (Inl NotFound)"] go [of "DbUnwrap c" for c]
    by (simp split: option.split)
qed

lemma inv_unwrap_row:
  assumes inv: "cache_inv env D st" and e: "env_ok env" "0 \<le> D" and i: "i < length (cs_requests st)"
    and p: "rq_pc (cs_requests st ! i) = DbUnwrap c"
  shows "cache_inv env D (unwrap_row env ok i c st)"
proof -
  let ?r = "cs_requests st ! i"
  note lead = leading_facts [OF inv i, unfolded p, simplified]
  have 1: "cache_inv env D (goto i (Leave (Inl x)) st)" for x
    by (rule inv_drop [OF inv e i refl, where n = 0 and m = "cs_nodes st ! 0" and ks = "[]"])
       (use lead in \<open>auto simp: p early_def\<close>)
  have 2: "cache_inv env D (goto i (DbStoreDEK c dek (length (cs_heap st))) (st\<lparr>cs_heap := cs_heap st @ [key]\<rparr>))"
    if "ke_unwrap env (cr_wrapped_dek c) = Some dek" "ke_decrypt env (cr_encrypted_key c) dek = Some key" for dek key
    by (rule inv_drop [OF inv e i refl, where n = 0 and m = "cs_nodes st ! 0" and ks = "[key]"])
       (use lead row_content_key [OF that] in \<open>auto simp: p early_def\<close>)
  show ?thesis
    unfolding unwrap_row_def using 1 2 by (auto simp: alloc_def split: option.split)
qed

lemma inv_store_dek:
  assumes inv: "cache_inv env D st" and e: "env_ok env" "0 \<le> D" and i: "i < length (cs_requests st)"
    and p: "rq_pc (cs_requests st ! i) = DbStoreDEK c dek a"
  shows "cache_inv env D (goto i (DbStoreRedis c a) (on_node n (DEKSet k dek) st))"
  by (rule inv_drop [OF inv e i refl, where n = n and m = "DEKSet k dek (cs_nodes st ! n)" and ks = "[]"])
     (use leading_facts [OF inv i, unfolded p, simplified] in \<open>auto simp: p early_def\<close>)

lemma unfinished_prompt:
  assumes "prompt D st" and "i < length (cs_requests st)" and "rq_pc (cs_requests st ! i) \<noteq> Finished"
  shows "cs_now st - D \<le> rq_started (cs_requests st ! i)"
  using assms by (auto simp: prompt_def)

lemma inv_store_redis:
  assumes inv: "cache_inv env D st" and pr: "prompt D st" and e: "env_ok env" "0 \<le> D" and i: "i < length (cs_requests st)"
    and p: "rq_pc (cs_requests st ! i) = DbStoreRedis c a"
  shows "cache_inv env D (goto i (Promote (answer_of_row a c))
    (if ok then RedisCacheSet env (rq_cred (cs_requests st ! i)) (redis_of env (rq_org (cs_requests st ! i)) c) st else st))"
proof -
  let ?r = "cs_requests st ! i"
  note lead = leading_facts [OF inv i, unfolded p, simplified]
  have row: "valid_row st (rq_started ?r) (rq_cred ?r) (rq_org ?r) c" using lead by (simp add: carries_row_def)
  have content: "row_content env c = Some (answer_content (cs_heap st ! a) (answer_of_row a c))"
    using lead by (simp add: answer_content_def answer_of_row_def)
  have "cs_now st - D \<le> rq_started ?r" using unfinished_prompt [OF pr i] p by simp
  then have red: "genuine_redis env st (cs_now st - D) (rq_cred ?r) (rq_org ?r) (redis_of env (rq_org ?r) c)"
    using valid_row_mono [OF _ row] content unfolding genuine_redis_def by blast
  have "genuine env st (rq_started ?r - ke_redis_ttl env - D) (rq_cred ?r) (rq_org ?r) (answer_content (cs_heap st ! a) (answer_of_row a c))"
    using valid_row_mono [OF _ row, of "rq_started ?r - ke_redis_ttl env - D"] content e env_okD(3) [OF e(1)]
    unfolding genuine_def by fastforce
  then have ans: "carries_answer env D st ?r (answer_content (cs_heap st ! a) (answer_of_row a c))"
    by (simp add: carries_answer_def)
  have a: "dc_APIKey (answer_of_row a c) = a" by (simp add: answer_of_row_def)
  have 1: "cache_inv env D (goto i (Promote (answer_of_row a c)) st)"
    by (rule inv_drop [OF inv e i refl, where n = 0 and m = "cs_nodes st ! 0" and ks = "[]"])
       (use ans lead(3) in \<open>auto simp: p early_def a\<close>)
  have 2: "cache_inv env D (goto i (Promote (answer_of_row a c))
      (st\<lparr>cs_redis := (cs_redis st)(rq_cred ?r \<mapsto> (redis_of env (rq_org ?r) c, cs_now st + ke_redis_ttl env))\<rparr>))"
  proof (rule inv_goto [OF inv e i refl, where ks = "[]"])
    show "cs_redis st k = Some (rc, x) \<or>
        x \<le> cs_now st + ke_redis_ttl env \<and> (\<exists>org. genuine_redis env st (x - ke_redis_ttl env - D) k org rc)"
      if "cs_redis (st\<lparr>cs_redis := (cs_redis st)(rq_cred ?r \<mapsto> (redis_of env (rq_org ?r) c, cs_now st + ke_redis_ttl env))\<rparr>) k
        = Some (rc, x)" for k rc x
      using that red by (auto split: if_splits)
  qed (use ans lead(3) in \<open>auto simp: p early_def a\<close>)
  show ?thesis using 1 2 by (simp add: RedisCacheSet_def)
qed

lemma inv_promote:
  assumes inv: "cache_inv env D st" and pr: "prompt D st" and e: "env_ok env" "0 \<le> D" and i: "i < length (cs_requests st)"
    and p: "rq_pc (cs_requests st ! i) = Promote dc"
  shows "cache_inv env D (promote_answer env i dc st)"
proof -
  let ?r = "cs_requests st ! i"
  let ?e = "\<lparr>cc_Enclave = cs_heap st ! dc_APIKey dc, cc_BaseURL = dc_BaseURL dc, cc_AuthScheme = dc_AuthScheme dc,
    cc_ProviderID = dc_ProviderID dc, cc_OrgID = rq_org ?r, cc_CachedAt = cs_now st,
    cc_HardExpiry = cs_now st + ke_hard_expiry env\<rparr>"
  note lead = leading_facts [OF inv i, unfolded p, simplified]
  have t: "cs_now st - ke_redis_ttl env - 2 * D \<le> rq_started ?r - ke_redis_ttl env - D"
    using unfinished_prompt [OF pr i] p by simp
  have new: "entry_ok env D st (rq_cred ?r) ?e"
    using genuine_mono [OF t] lead by (simp add: entry_ok_def carries_answer_def entry_content_def answer_content_def)
  have "cache_inv env D (goto i (Leave (Inr dc)) (on_node (rq_node ?r) (MemorySet (rq_cred ?r) ?e) st))"
  proof (rule inv_goto [OF inv e i refl, where ks = "[]"])
    show "nd_memory (cs_nodes st ! n) k = Some x \<or> entry_ok env D st k x"
      if "n < length (cs_nodes st)" "nd_memory (cs_nodes (on_node (rq_node ?r) (MemorySet (rq_cred ?r) ?e) st) ! n) k = Some x" for n k x
      using that new by (cases "n = rq_node ?r") (auto simp: MemorySet_def split: if_splits)
    show "nd_flight (cs_nodes (on_node (rq_node ?r) (MemorySet (rq_cred ?r) ?e) st) ! n) = nd_flight (cs_nodes st ! n)"
      if "n < length (cs_nodes st)" for n
      using that by (cases "n = rq_node ?r") (auto simp: MemorySet_def)
  qed (use lead in \<open>auto simp: p early_def\<close>)
  then show ?thesis by (simp add: promote_answer_def promoteToL1_def Let_def)
qed


lemma flights_ok_goto:
  assumes ok: "flights_ok st" and p: "\<not> leading (rq_pc (cs_requests st ! i))"
  shows "flights_ok (goto i q st)"
proof (rule flights_ok_keep [OF ok])
  fix l assume l: "l < length (cs_requests st)" "leading (rq_pc (cs_requests st ! l))"
  then have "l \<noteq> i" using p by auto
  then show "l < length (cs_requests (goto i q st)) \<and> leading (rq_pc (cs_requests (goto i q st) ! l)) \<and>
      rq_cred (cs_requests (goto i q st) ! l) = rq_cred (cs_requests st ! l) \<and>
      rq_node (cs_requests (goto i q st) ! l) = rq_node (cs_requests st ! l)"
    using l by simp
qed simp_all

text \<open>The end of a call.\<close>

lemma request_ok_leave:
  assumes ok: "request_ok env D st i r" and i: "i < length (cs_requests st)" and now: "cs_requests st ! i = r'"
    and p: "rq_pc r = Leave res" and r': "r' = r\<lparr>rq_result := Some res, rq_pc := Answered res\<rparr>" and D: "0 \<le> D"
  shows "request_ok env D st i r'"
proof -
  have pc: "pc_ok env D st r (Leave res)" and fl: "rq_flight r = Some i" using ok p by (auto simp: request_ok_def)
  have shared: "shared_answer env D st r' dc" if "res = Inr dc" for dc
    using pc that by (auto simp: shared_answer_def carries_answer_def r')
  have "follows D st r' i" using i now fl D by (simp add: follows_def r')
  then have "pc_ok env D st r' (Answered res)"
    using now fl by (cases res) (simp_all add: got_def r')
  moreover have "sent_ok env D st r'" using ok by (simp add: request_ok_def sent_ok_def r')
  ultimately show ?thesis using ok fl shared by (auto simp: request_ok_def r')
qed

lemma inv_leave:
  assumes inv: "cache_inv env D st" and e: "env_ok env" "0 \<le> D" and i: "i < length (cs_requests st)"
    and p: "rq_pc (cs_requests st ! i) = Leave res"
  shows "cache_inv env D (leave_flight i res st)"
proof -
  let ?r = "cs_requests st ! i"
  let ?r' = "?r\<lparr>rq_result := Some res, rq_pc := Answered res\<rparr>"
  let ?st = "on_request i (\<lambda>x. x\<lparr>rq_result := Some res, rq_pc := Answered res\<rparr>)
    (on_node (rq_node ?r) (\<lambda>n. n\<lparr>nd_flight := (nd_flight n)(rq_cred ?r := None)\<rparr>) st)"
  note lead = leading_facts [OF inv i, unfolded p, simplified]
  have "cache_inv env D ?st"
  proof (rule inv_step [OF inv e i, where r' = ?r' and ks = "[]"])
    assume l: "later st ?st"
    have "request_ok env D ?st i ?r"
      using request_ok_later [OF l heap_grows_refl e _ requestD [OF inv i]] inv i
      by (simp add: cache_inv_def refs_ok_def)
    then show "request_ok env D ?st i ?r'"
      by (rule request_ok_leave [OF _ _ _ p refl e(2)]) (use i in simp_all)
  next
    show "flights_ok ?st"
      unfolding flights_ok_def
    proof (intro allI impI)
      fix n k l
      assume n: "n < length (cs_nodes ?st)" and fl: "nd_flight (cs_nodes ?st ! n) k = Some l"
      then have old: "nd_flight (cs_nodes st ! n) k = Some l"
        by (cases "n = rq_node ?r") (auto split: if_splits)
      have other: "n \<noteq> rq_node ?r \<or> k \<noteq> rq_cred ?r"
        using fl n by (cases "n = rq_node ?r") auto
      from old have "l < length (cs_requests st) \<and> leading (rq_pc (cs_requests st ! l)) \<and>
          rq_cred (cs_requests st ! l) = k \<and> rq_node (cs_requests st ! l) = n"
        using inv n unfolding cache_inv_def flights_ok_def by simp
      then show "l < length (cs_requests ?st) \<and> leading (rq_pc (cs_requests ?st ! l)) \<and>
          rq_cred (cs_requests ?st ! l) = k \<and> rq_node (cs_requests ?st ! l) = n"
        using other by (cases "l = i") auto
    qed
    show "nd_memory (cs_nodes st ! n) k = Some x \<or> entry_ok env D ?st k x"
      if "n < length (cs_nodes st)" "nd_memory (cs_nodes ?st ! n) k = Some x" for n k x
      using that by (cases "n = rq_node ?r") auto
  qed (use lead in \<open>auto simp: same_request_def p refs_def\<close>)
  then show ?thesis by (simp add: leave_flight_def Let_def)
qed

lemma inv_joined:
  assumes inv: "cache_inv env D st" and e: "env_ok env" "0 \<le> D" and i: "i < length (cs_requests st)"
    and p: "rq_pc (cs_requests st ! i) = Joined l" and res: "rq_result (cs_requests st ! l) = Some res"
  shows "cache_inv env D (goto i (Answered res) st)"
proof -
  let ?r = "cs_requests st ! i"
  let ?r' = "?r\<lparr>rq_pc := Answered res\<rparr>"
  let ?st = "goto i (Answered res) st"
  have ok: "request_ok env D st i ?r" by (rule requestD [OF inv i])
  then have fol: "follows D st ?r l" using p by (simp add: request_ok_def)
  then have l: "l < length (cs_requests st)" and fl: "rq_flight ?r = Some l" by (simp_all add: follows_def)
  have same: "same_request ?r ?r'" by (simp add: same_request_def)
  have lat: "later st ?st" by (rule later_step [OF _ _ _ _ _ same]) simp_all
  have grow: "heap_grows st ?st" by (rule heap_grows_refl) simp
  have ok': "request_ok env D ?st i ?r'"
  proof -
    have r: "request_ok env D ?st i ?r"
      using request_ok_later [OF lat grow e _ ok] inv i by (simp add: cache_inv_def refs_ok_def)
    have "pc_ok env D ?st ?r' (Answered res)"
      using follows_later [OF lat fol] result_later [OF lat l res] fl
      by (cases res) (simp_all add: got_def follows_def)
    moreover have "sent_ok env D ?st ?r'" "shared_answer env D ?st ?r' = shared_answer env D ?st ?r"
      using r by (simp_all add: request_ok_def sent_ok_def shared_answer_def fun_eq_iff)
    ultimately show ?thesis using r by (auto simp: request_ok_def)
  qed
  have lfl: "call_of st l = l"
    using requestD [OF inv l] res by (auto simp: request_ok_def call_of_def)
  have sub: "refs ?r' \<subseteq> refs ?r \<union> refs (cs_requests st ! l)" using res by (auto simp: refs_def)
  have "refs_ok ?st"
    unfolding refs_ok_def
  proof (intro conjI allI impI)
    fix j assume j: "j < length (cs_requests ?st)"
    show "refs (cs_requests ?st ! j) \<subseteq> {..<length (cs_heap ?st)}"
      using inv i l j sub by (cases "j = i") (auto simp: cache_inv_def refs_ok_def)
  next
    fix j k assume jk: "j < length (cs_requests ?st)" "k < length (cs_requests ?st)"
      and meet: "refs (cs_requests ?st ! j) \<inter> refs (cs_requests ?st ! k) \<noteq> {}"
    have grp: "call_of ?st m = call_of st m" if "m < length (cs_requests st)" for m
      using that by (cases "m = i") (simp_all add: call_of_def)
    have ci: "call_of st i = l" using fl by (simp add: call_of_def)
    have all: "call_of st a = call_of st b"
      if "a < length (cs_requests st)" "b < length (cs_requests st)"
        "refs (cs_requests st ! a) \<inter> refs (cs_requests st ! b) \<noteq> {}" for a b
      using inv that by (simp add: cache_inv_def refs_ok_def)
    have one: "call_of st m = l"
      if m: "m < length (cs_requests st)" "m \<noteq> i" "refs ?r' \<inter> refs (cs_requests st ! m) \<noteq> {}" for m
    proof -
      from m(3) sub consider "refs ?r \<inter> refs (cs_requests st ! m) \<noteq> {}" | "refs (cs_requests st ! l) \<inter> refs (cs_requests st ! m) \<noteq> {}"
        by blast
      then show ?thesis using all [OF i m(1)] all [OF l m(1)] ci lfl by cases simp_all
    qed
    have j: "j < length (cs_requests st)" and k: "k < length (cs_requests st)" using jk by simp_all
    have at: "cs_requests ?st ! m = (if m = i then ?r' else cs_requests st ! m)" if "m < length (cs_requests st)" for m
      using that by simp
    consider "j = i" "k = i" | "j = i" "k \<noteq> i" | "j \<noteq> i" "k = i" | "j \<noteq> i" "k \<noteq> i" by blast
    then have "call_of st j = call_of st k"
    proof cases
      case 2
      then have "refs ?r' \<inter> refs (cs_requests st ! k) \<noteq> {}" using meet unfolding at [OF j] at [OF k] by simp
      from one [OF k 2(2) this] show ?thesis using 2 ci by simp
    next
      case 3
      then have "refs ?r' \<inter> refs (cs_requests st ! j) \<noteq> {}"
        using meet unfolding at [OF j] at [OF k] by (simp add: Int_commute)
      from one [OF j 3(1) this] show ?thesis using 3 ci by simp
    next
      case 4
      then have "refs (cs_requests st ! j) \<inter> refs (cs_requests st ! k) \<noteq> {}"
        using meet unfolding at [OF j] at [OF k] by simp
      from all [OF j k this] show ?thesis .
    qed simp
    then show "call_of ?st j = call_of ?st k" unfolding grp [OF j] grp [OF k] .
  qed
  moreover have "requests_ok env D ?st"
    by (rule requests_ok_step [OF lat grow e _ _ _ ok']) (use inv in \<open>simp_all add: cache_inv_def\<close>)
  moreover have "memory_ok env D ?st"
    by (rule memory_ok_sub [OF lat e]) (use inv in \<open>simp_all add: cache_inv_def\<close>)
  moreover have "redis_ok env D ?st"
    by (rule redis_ok_sub [OF lat e]) (use inv in \<open>simp_all add: cache_inv_def\<close>)
  moreover have "flights_ok ?st"
    by (rule flights_ok_goto) (use inv p in \<open>simp_all add: cache_inv_def\<close>)
  ultimately show ?thesis by (simp add: cache_inv_def)
qed

lemma inv_finish:
  assumes inv: "cache_inv env D st" and e: "env_ok env" "0 \<le> D" and i: "i < length (cs_requests st)"
    and p: "\<not> leading (rq_pc (cs_requests st ! i))"
  shows "cache_inv env D (goto i Finished st)"
  by (rule inv_drop [OF inv e i refl, where n = 0 and m = "cs_nodes st ! 0" and ks = "[]"])
     (use p in \<open>simp_all add: early_def\<close>)

text \<open>What a caller sends is genuine, or overwritten by another that got the same slice.\<close>

lemma got_key:
  assumes inv: "cache_inv env D st" and e: "env_ok env" "0 \<le> D" and got: "got env D st r dc"
  obtains k org where "genuine env st (rq_started r - stale_after env D) (rq_cred r) org (answer_content k dc)"
    and "cs_heap st ! dc_APIKey dc = k \<or> rq_flight r \<noteq> None \<and> cs_heap st ! dc_APIKey dc = zeros k"
proof (cases "rq_flight r")
  case None
  with got that show ?thesis by (auto simp: got_def)
next
  case (Some l)
  then have fol: "follows D st r l" and res: "rq_result (cs_requests st ! l) = Some (Inr dc)"
    using got by (simp_all add: got_def)
  let ?l = "cs_requests st ! l"
  have "shared_answer env D st ?l dc"
    using requestD [OF inv, of l] fol res by (simp add: request_ok_def follows_def)
  then obtain k where k: "genuine env st (rq_started ?l - ke_redis_ttl env - D) (rq_cred ?l) (rq_org ?l) (answer_content k dc)"
    "cs_heap st ! dc_APIKey dc \<in> {k, zeros k}"
    unfolding shared_answer_def carries_answer_def by blast
  have "rq_started r - stale_after env D \<le> rq_started ?l - ke_redis_ttl env - D"
    using fol env_okD(4) [OF e(1)] by (simp add: follows_def stale_after_def)
  from genuine_mono [OF this k(1)] fol k(2) Some that show ?thesis by (auto simp: follows_def)
qed

lemma inv_use_key:
  assumes inv: "cache_inv env D st" and e: "env_ok env" "0 \<le> D" and i: "i < length (cs_requests st)"
    and p: "rq_pc (cs_requests st ! i) = Answered (Inr dc)"
  shows "cache_inv env D (use_key ok i dc st)"
proof (cases ok)
  case True
  let ?r = "cs_requests st ! i"
  let ?f = "\<lambda>x::request. x\<lparr>rq_sent := Some (cs_heap st ! dc_APIKey dc),
    rq_pc := (if rq_proxied x then Sent (dc_APIKey dc) else Finished)\<rparr>"
  have got: "got env D st ?r dc" using requestD [OF inv i] p by (simp add: request_ok_def)
  have "cache_inv env D (on_request i ?f st)"
  proof (rule inv_self [OF inv e i refl])
    assume l: "later st (on_request i ?f st)" and ok: "request_ok env D (on_request i ?f st) i ?r"
    from got_key [OF inv e got] obtain k org where k:
      "genuine env st (rq_started ?r - stale_after env D) (rq_cred ?r) org (answer_content k dc)"
      "cs_heap st ! dc_APIKey dc = k \<or> rq_flight ?r \<noteq> None \<and> cs_heap st ! dc_APIKey dc = zeros k" by metis
    have "\<exists>k org url scheme provider.
        genuine env st (rq_started ?r - stale_after env D) (rq_cred ?r) org (k, url, scheme, provider) \<and>
        (cs_heap st ! dc_APIKey dc = k \<or> rq_flight ?r \<noteq> None \<and> cs_heap st ! dc_APIKey dc = zeros k)"
      using k unfolding answer_content_def by blast
    then have sent: "sent_ok env D (on_request i ?f st) (?f ?r)"
      by (simp add: sent_ok_def)
    have "pc_ok env D (on_request i ?f st) (?f ?r) (rq_pc (?f ?r))"
    proof (cases "rq_proxied ?r")
      case True
      have "m < length (cs_requests st) \<and> rq_result (cs_requests st ! m) = Some (Inr dc)" if "rq_flight ?r = Some m" for m
        using got that by (simp add: got_def follows_def)
      then show ?thesis using True result_later [OF l] by fastforce
    qed simp
    moreover have "shared_answer env D (on_request i ?f st) (?f ?r) = shared_answer env D (on_request i ?f st) ?r"
      by (simp add: shared_answer_def carries_answer_def fun_eq_iff)
    ultimately show "request_ok env D (on_request i ?f st) i (?f ?r)"
      using ok sent by (auto simp: request_ok_def)
  qed (auto simp: same_request_def p refs_def)
  then show ?thesis using True by (simp add: use_key_def)
qed (simp add: use_key_def inv_finish [OF inv e i] p)


text \<open>A slice is overwritten: nobody who still needs it refers to it.\<close>

lemma zeros_zeros [simp]: "zeros (zeros k) = zeros k"
  by (simp add: zeros_def)

lemma wiped_unneeded:
  assumes inv: "cache_inv env D st" and i: "i < length (cs_requests st)" and j: "j < length (cs_requests st)"
    and p: "rq_pc (cs_requests st ! i) = Sent a" and ne: "j \<noteq> i"
    and need: "leading (rq_pc (cs_requests st ! j)) \<or> rq_flight (cs_requests st ! j) = None"
  shows "a \<notin> refs (cs_requests st ! j)"
proof
  assume "a \<in> refs (cs_requests st ! j)"
  moreover have "a \<in> refs (cs_requests st ! i)" using p by (simp add: refs_def)
  ultimately have "refs (cs_requests st ! i) \<inter> refs (cs_requests st ! j) \<noteq> {}" by blast
  then have "call_of st i = call_of st j" using inv i j by (simp add: cache_inv_def refs_ok_def)
  moreover have "call_of st j = j" using need requestD [OF inv j] by (auto simp: call_of_def request_ok_def)
  ultimately have fl: "rq_flight (cs_requests st ! i) = Some j"
    using ne by (auto simp: call_of_def split: option.splits)
  then have "rq_result (cs_requests st ! j) \<noteq> None" using requestD [OF inv i] p by (simp add: request_ok_def)
  then show False using need requestD [OF inv j] by (auto simp: request_ok_def)
qed

lemma request_ok_wiped:
  fixes st :: cache_st and a :: nat
  defines "st' \<equiv> st\<lparr>cs_heap := (cs_heap st)[a := zeros (cs_heap st ! a)]\<rparr>"
  assumes ok: "request_ok env D st j r" and need: "leading (rq_pc r) \<or> rq_flight r = None \<Longrightarrow> a \<notin> refs r"
  shows "request_ok env D st' j r"
proof -
  have heap: "cs_heap st' ! b = cs_heap st ! b" if "b \<noteq> a" for b using that by (simp add: st'_def)
  have shared: "shared_answer env D st' r dc" if "shared_answer env D st r dc" for dc
  proof -
    from that obtain k where k: "carries_answer env D st r (answer_content k dc)" "cs_heap st ! dc_APIKey dc \<in> {k, zeros k}"
      unfolding shared_answer_def by blast
    have "cs_heap st' ! dc_APIKey dc \<in> {cs_heap st ! dc_APIKey dc, zeros (cs_heap st ! dc_APIKey dc)}"
      by (cases "dc_APIKey dc = a"; cases "a < length (cs_heap st)") (simp_all add: st'_def not_less list_update_beyond)
    then have "cs_heap st' ! dc_APIKey dc \<in> {k, zeros k}" using k(2) by auto
    then show ?thesis using k(1) unfolding shared_answer_def by (auto simp: st'_def)
  qed
  have fol: "follows D st' r = follows D st r" by (simp add: st'_def follows_def fun_eq_iff)
  have pc: "pc_ok env D st' r (rq_pc r)"
  proof (cases "leading (rq_pc r)")
    case True
    then have "a \<notin> pc_refs (rq_pc r)" using need by (auto simp: refs_def)
    moreover have "pc_ok env D st r (rq_pc r)" using ok by (simp add: request_ok_def)
    ultimately show ?thesis
    proof (cases "rq_pc r")
      case (Leave res)
      then show ?thesis using \<open>a \<notin> pc_refs (rq_pc r)\<close> \<open>pc_ok env D st r (rq_pc r)\<close> heap
        by (cases res) (auto simp: st'_def)
    qed (use True heap in \<open>auto simp: st'_def\<close>)
  next
    case False
    have old: "pc_ok env D st r (rq_pc r)" using ok by (simp add: request_ok_def)
    show ?thesis
    proof (cases "rq_pc r")
      case (Answered res)
      show ?thesis
      proof (cases res)
        case (Inr dc)
        have "dc_APIKey dc \<noteq> a" if "rq_flight r = None" using need that Answered Inr by (auto simp: refs_def)
        then show ?thesis using old Answered Inr heap fol by (auto simp: got_def st'_def split: option.splits)
      qed (simp add: Answered)
    qed (use False old fol in \<open>auto simp: st'_def\<close>)
  qed
  have "sent_ok env D st' r" using ok by (simp add: request_ok_def sent_ok_def st'_def)
  then show ?thesis using ok pc shared by (auto simp: request_ok_def st'_def)
qed

lemma inv_wipe:
  assumes inv: "cache_inv env D st" and e: "env_ok env" "0 \<le> D" and i: "i < length (cs_requests st)"
    and p: "rq_pc (cs_requests st ! i) = Sent a"
  shows "cache_inv env D (wipe_key i a st)"
proof -
  let ?st1 = "goto i Finished st"
  let ?st2 = "?st1\<lparr>cs_heap := (cs_heap ?st1)[a := zeros (cs_heap ?st1 ! a)]\<rparr>"
  have inv1: "cache_inv env D ?st1" by (rule inv_finish [OF inv e i]) (simp add: p)
  have ok: "request_ok env D ?st2 j (cs_requests ?st1 ! j)" if j: "j < length (cs_requests ?st1)" for j
  proof (rule request_ok_wiped [OF requestD [OF inv1 j]])
    assume need: "leading (rq_pc (cs_requests ?st1 ! j)) \<or> rq_flight (cs_requests ?st1 ! j) = None"
    show "a \<notin> refs (cs_requests ?st1 ! j)"
    proof (cases "j = i")
      case True
      have "rq_result (cs_requests ?st1 ! i) = None"
        using need True requestD [OF inv1, of i] i by (auto simp: request_ok_def)
      then show ?thesis using True i by (simp add: refs_def)
    next
      case False
      then show ?thesis using wiped_unneeded [OF inv i _ p, of j] need j by simp
    qed
  qed
  have "memory_ok env D ?st2" "redis_ok env D ?st2" "flights_ok ?st2" "refs_ok ?st2"
    using inv1 by (simp_all add: cache_inv_def memory_ok_def redis_ok_def flights_ok_def refs_ok_def entry_ok_def call_of_def)
  moreover have "requests_ok env D ?st2" using ok by (simp add: requests_ok_def)
  ultimately have "cache_inv env D ?st2" by (simp add: cache_inv_def)
  moreover have "?st2 = wipe_key i a st" by (simp add: wipe_key_def on_request_def)
  ultimately show ?thesis by simp
qed

theorem inv_request:
  assumes "cache_inv env D st" and "prompt D st" and "env_ok env" and "0 \<le> D" and step: "request_step env ok i st = Some st'"
  shows "cache_inv env D st'"
proof -
  have i: "i < length (cs_requests st)" using step by (auto simp: request_step_def split: if_splits)
  note rules = inv_by_id inv_memory inv_redis_lookup inv_dek_lookup inv_unwrap_redis inv_redis_drop inv_row_lookup
    inv_unwrap_row inv_store_dek inv_leave inv_use_key inv_wipe
  note rules = rules [OF assms(1,3,4) i]
  note prompt = inv_enter inv_store_redis inv_promote
  note prompt = prompt [OF assms(1-4) i]
  show ?thesis
  proof (cases "rq_pc (cs_requests st ! i)")
    case (Joined l)
    then show ?thesis using step i inv_joined [OF assms(1,3,4) i Joined] by (auto simp: request_step_def)
  next
    case (Answered res)
    then show ?thesis using step i rules(11) [of _ ok] inv_finish [OF assms(1,3,4) i]
      by (cases res) (auto simp: request_step_def)
  qed (use step i rules prompt in \<open>auto simp: request_step_def Let_def\<close>)
qed

section \<open>The other steps\<close>

lemma later_refl_world:
  assumes "cs_now st \<le> cs_now st'" and "length (cs_nodes st') = length (cs_nodes st)"
    and "\<And>t c. t \<le> cs_now st \<Longrightarrow> held st t c \<Longrightarrow> held st' t c"
    and "cs_requests st' = cs_requests st @ rs"
  shows "later st st'"
  using assms by (simp add: later_def nth_append)

text \<open>Steps of the world: requests are untouched, entries are only dropped, replaced rows remembered.\<close>

lemma inv_world:
  assumes inv: "cache_inv env D st" and e: "env_ok env" "0 \<le> D"
    and now: "cs_now st \<le> cs_now st'" and reqs: "cs_requests st' = cs_requests st" and heap: "cs_heap st' = cs_heap st"
    and held: "\<And>t c. t \<le> cs_now st \<Longrightarrow> held st t c \<Longrightarrow> held st' t c"
    and nodes: "length (cs_nodes st') = length (cs_nodes st)"
      "\<And>n. n < length (cs_nodes st) \<Longrightarrow> drops (cs_nodes st ! n) (cs_nodes st' ! n)"
    and redis: "\<And>k v. cs_redis st' k = Some v \<Longrightarrow> cs_redis st k = Some v"
  shows "cache_inv env D st'"
proof -
  have l: "later st st'" by (rule later_refl_world [OF now nodes(1) held, where rs = "[]"]) (simp_all add: reqs)
  have g: "heap_grows st st'" by (rule heap_grows_refl [OF heap])
  have "memory_ok env D st'"
    by (rule memory_ok_sub [OF l e]) (use inv nodes(2) in \<open>auto simp: cache_inv_def drops_def\<close>)
  moreover have "redis_ok env D st'"
    by (rule redis_ok_sub [OF l e]) (use inv redis in \<open>auto simp: cache_inv_def\<close>)
  moreover have "refs_ok st'" using inv by (simp add: cache_inv_def refs_ok_def reqs heap call_of_def)
  moreover have "requests_ok env D st'"
    using inv request_ok_later [OF l g e] by (simp add: cache_inv_def requests_ok_def refs_ok_def reqs)
  moreover have "flights_ok st'"
    by (rule flights_ok_keep [of st]) (use inv nodes in \<open>auto simp: cache_inv_def drops_def reqs\<close>)
  ultimately show ?thesis by (simp add: cache_inv_def)
qed

lemma inv_new_request:
  assumes inv: "cache_inv env D st" and e: "env_ok env" "0 \<le> D" and n: "n < length (cs_nodes st)"
    and p: "p \<in> {LookupOrg, LookupMemory}"
  shows "cache_inv env D (new_request n c orgID proxied p st)"
proof -
  let ?st = "new_request n c orgID proxied p st"
  let ?r = "\<lparr>rq_node = n, rq_cred = c, rq_org = orgID, rq_proxied = proxied, rq_started = cs_now st, rq_pc = p,
    rq_flight = None, rq_result = None, rq_sent = None\<rparr>"
  have reqs: "cs_requests ?st = cs_requests st @ [?r]" by (simp add: new_request_def)
  have l: "later st ?st"
    by (rule later_refl_world [OF _ _ _ reqs]) (simp_all add: new_request_def held_def)
  have g: "heap_grows st ?st" by (rule heap_grows_refl) (simp add: new_request_def)
  have new: "request_ok env D ?st i ?r" for i
    using n p by (auto simp: request_ok_def sent_ok_def new_request_def)
  have r0: "refs ?r = {}" using p by (auto simp: refs_def)
  have "memory_ok env D ?st"
    by (rule memory_ok_sub [OF l e]) (use inv in \<open>auto simp: cache_inv_def new_request_def\<close>)
  moreover have "redis_ok env D ?st"
    by (rule redis_ok_sub [OF l e]) (use inv in \<open>auto simp: cache_inv_def new_request_def\<close>)
  moreover have "refs_ok ?st"
    unfolding refs_ok_def reqs
  proof (intro conjI allI impI)
    fix i assume "i < length (cs_requests st @ [?r])"
    then show "refs ((cs_requests st @ [?r]) ! i) \<subseteq> {..<length (cs_heap ?st)}"
      using inv r0 by (cases "i < length (cs_requests st)") (auto simp: cache_inv_def refs_ok_def nth_append new_request_def)
  next
    fix i j assume ij: "i < length (cs_requests st @ [?r])" "j < length (cs_requests st @ [?r])"
      and meet: "refs ((cs_requests st @ [?r]) ! i) \<inter> refs ((cs_requests st @ [?r]) ! j) \<noteq> {}"
    then have "i < length (cs_requests st)" "j < length (cs_requests st)"
      using r0 by (cases "i < length (cs_requests st)"; cases "j < length (cs_requests st)"; simp add: nth_append)+
    then show "call_of ?st i = call_of ?st j"
      using inv meet by (simp add: cache_inv_def refs_ok_def call_of_def reqs nth_append)
  qed
  moreover have "requests_ok env D ?st"
    unfolding requests_ok_def
  proof (intro allI impI)
    fix i assume i: "i < length (cs_requests ?st)"
    show "request_ok env D ?st i (cs_requests ?st ! i)"
    proof (cases "i < length (cs_requests st)")
      case True
      then show ?thesis using request_ok_later [OF l g e _ requestD [OF inv True]] inv
        by (simp add: reqs nth_append cache_inv_def refs_ok_def)
    next
      case False
      then show ?thesis using new i by (simp add: reqs nth_append)
    qed
  qed
  moreover have "flights_ok ?st"
    by (rule flights_ok_keep [of st]) (use inv in \<open>auto simp: cache_inv_def reqs nth_append new_request_def\<close>)
  ultimately show ?thesis by (simp add: cache_inv_def)
qed

lemma held_replace: "t \<le> cs_now st \<Longrightarrow> held st t c \<Longrightarrow> held (replace_rows p f st) t c"
  by (cases "p c") (force simp: held_def replace_rows_def)+

lemma held_write: "t \<le> cs_now st \<Longrightarrow> held st t c \<Longrightarrow> held (write_row x st) t c"
  using held_replace unfolding write_row_def by (auto simp: held_def)

lemma replace_rows_sel [simp]:
  "cs_now (replace_rows p f st) = cs_now st" "cs_requests (replace_rows p f st) = cs_requests st"
  "cs_heap (replace_rows p f st) = cs_heap st" "cs_nodes (replace_rows p f st) = cs_nodes st"
  "cs_redis (replace_rows p f st) = cs_redis st" "cs_revocations (replace_rows p f st) = cs_revocations st"
  by (simp_all add: replace_rows_def)

lemma write_row_sel [simp]:
  "cs_now (write_row c st) = cs_now st" "cs_requests (write_row c st) = cs_requests st"
  "cs_heap (write_row c st) = cs_heap st" "cs_nodes (write_row c st) = cs_nodes st"
  "cs_redis (write_row c st) = cs_redis st" "cs_revocations (write_row c st) = cs_revocations st"
  by (simp_all add: write_row_def)

lemma held_revocations [simp]: "held (st\<lparr>cs_revocations := vs\<rparr>) = held st"
  by (simp add: held_def fun_eq_iff)

lemma inv_revocation:
  assumes inv: "cache_inv env D st" and e: "env_ok env" "0 \<le> D" and step: "revoke_step ok k st = Some st'"
  shows "cache_inv env D st'"
proof -
  have plain: "cache_inv env D (st\<lparr>cs_revocations := vs\<rparr>)" for vs
    by (rule inv_world [OF inv e]) simp_all
  have rows: "cache_inv env D (replace_rows q f st\<lparr>cs_revocations := vs\<rparr>)" for q f vs
    by (rule inv_world [OF inv e]) (simp_all add: held_replace)
  have local: "cache_inv env D (on_node n (forget_local c) st\<lparr>cs_revocations := vs\<rparr>)" for n c vs
  proof (rule inv_world [OF inv e])
    fix m assume "m < length (cs_nodes st)"
    then show "drops (cs_nodes st ! m) (cs_nodes (on_node n (forget_local c) st\<lparr>cs_revocations := vs\<rparr>) ! m)"
      by (cases "m = n") simp_all
  qed (simp_all add: held_def)
  have redis: "cache_inv env D (RedisCacheInvalidate c st\<lparr>cs_revocations := vs\<rparr>)" for c vs
    by (rule inv_world [OF inv e]) (auto simp: RedisCacheInvalidate_def held_def split: if_splits)
  have pub: "cache_inv env D (publish c st\<lparr>cs_revocations := vs\<rparr>)" for c vs
    by (rule inv_world [OF inv e]) (auto simp: publish_def held_def drops_def)
  show ?thesis
    using step plain rows local redis pub
    by (cases "rv_pc (cs_revocations st ! k)")
       (auto simp: revoke_step_def Let_def on_node_def replace_rows_def RedisCacheInvalidate_def publish_def split: if_splits)
qed

theorem inv_do:
  assumes inv: "cache_inv env D st" and pr: "prompt D st" and e: "env_ok env" "0 \<le> D" and step: "cache_do env a st = Some st'"
  shows "cache_inv env D st'"
proof -
  have node: "cache_inv env D (on_node n f st)" if f: "\<And>x. drops x (f x)" for n f
  proof (rule inv_world [OF inv e])
    fix m assume "m < length (cs_nodes st)"
    then show "drops (cs_nodes st ! m) (cs_nodes (on_node n f st) ! m)" using f by (cases "m = n") simp_all
  qed (simp_all add: held_def)
  have wr: "cache_inv env D (write_row c st)" for c
    by (rule inv_world [OF inv e]) (simp_all add: held_write)
  have revocation: "cache_inv env D (new_revocation n c q st)" for n c q
    by (rule inv_world [OF inv e]) (simp_all add: new_revocation_def)
  have wait: "cache_inv env D (st\<lparr>cs_now := cs_now st + int d\<rparr>)" for d
    by (rule inv_world [OF inv e]) (simp_all add: held_def)
  show ?thesis
    using step inv_new_request [OF inv e] node wr revocation wait inv_request [OF inv pr e] inv_revocation [OF inv e]
    by (cases a) (auto split: if_splits)
qed

lemma inv_start: "0 \<le> D \<Longrightarrow> cache_inv env D (cache_start now n)"
  by (auto simp: cache_inv_def cache_start_def memory_ok_def redis_ok_def refs_ok_def requests_ok_def flights_ok_def)

theorem inv_reachable:
  assumes "cache_reachable env D st" and "env_ok env"
  shows "cache_inv env D st \<and> prompt D st \<and> 0 \<le> D"
  using assms
proof (induction rule: cache_reachable.induct)
  case (start now n)
  then show ?case by (simp add: inv_start) (simp add: prompt_def cache_start_def)
next
  case (step st a st')
  then show ?case using inv_do [of env D st a st'] by (simp add: prompt_def)
qed

end
