(* ===== verification/CredCacheProps.thy ===== *)
theory CredCacheProps
  imports CredCacheSteps Strs
begin

text \<open>
  What the tiers guarantee: the age of a key that is sent, the effect of a revocation, and what goes
  wrong with keys that are shared and with look-ups that overtake a revocation.
\<close>

section \<open>The age of a key\<close>


section \<open>Revocation and the proxy\<close>

text \<open>Schedules that do not write a row of the credential again and lose no messages.\<close>

definition spares :: "string \<Rightarrow> cache_act \<Rightarrow> bool" where
  "spares i a \<longleftrightarrow> (\<forall>c. a = DoWrite c \<longrightarrow> cr_id c \<noteq> i)"

definition lossless :: "cache_act \<Rightarrow> bool" where
  "lossless a \<longleftrightarrow> (\<forall>n. a \<noteq> DoLose n)"

definition dead :: "string \<Rightarrow> cache_st \<Rightarrow> bool" where
  "dead i st \<longleftrightarrow> (\<forall>c \<in> set (cs_rows st). \<not> live_row i c)"

lemma dead_find: "dead i st \<Longrightarrow> find (live_row i) (cs_rows st) = None"
  "dead i st \<Longrightarrow> find (\<lambda>c. live_row i c \<and> org_row org c) (cs_rows st) = None"
  by (auto simp: dead_def find_None_iff)

text \<open>What a step of one request can change.\<close>

lemmas request_step_defs = request_step_def Let_def GetDecryptedCredentialByID_def memory_lookup_def enter_flight_def
  redis_lookup_def dek_lookup_def unwrap_redis_def row_lookup_def unwrap_row_def promote_answer_def
  leave_flight_def use_key_def wipe_key_def alloc_def RedisCacheSet_def RedisCacheInvalidate_def on_node_def on_request_def

lemma request_step_frame:
  "request_step env ok k st = Some st' \<Longrightarrow>
   cs_rows st' = cs_rows st \<and> length (cs_nodes st') = length (cs_nodes st) \<and> k < length (cs_requests st) \<and>
   (\<exists>r'. cs_requests st' = (cs_requests st)[k := r'] \<and> rq_cred r' = rq_cred (cs_requests st ! k) \<and>
      rq_node r' = rq_node (cs_requests st ! k) \<and> rq_proxied r' = rq_proxied (cs_requests st ! k))"
  by (auto simp: request_step_defs split: if_splits option.splits cred_pc.splits prod.splits sum.splits)

lemma request_step_other:
  assumes "request_step env ok k st = Some st'" and "x \<noteq> rq_cred (cs_requests st ! k)" and "m < length (cs_nodes st)"
  shows "cs_redis st' x = cs_redis st x \<and> nd_memory (cs_nodes st' ! m) x = nd_memory (cs_nodes st ! m) x \<and>
    nd_flight (cs_nodes st' ! m) x = nd_flight (cs_nodes st ! m) x"
  using assms
  by (cases "rq_node (cs_requests st ! k) = m")
    (auto simp: request_step_defs MemoryGet_def MemoryInvalidate_def DEKInvalidate_def DEKSet_def promoteToL1_def MemorySet_def
      split: if_splits option.splits cred_pc.splits prod.splits sum.splits)

lemma request_step_inbox:
  assumes "request_step env ok k st = Some st'" and "m < length (cs_nodes st)"
  shows "nd_inbox (cs_nodes st' ! m) = nd_inbox (cs_nodes st ! m)"
  using assms
  by (cases "rq_node (cs_requests st ! k) = m")
    (auto simp: request_step_defs MemoryGet_def MemoryInvalidate_def DEKInvalidate_def DEKSet_def promoteToL1_def MemorySet_def
      split: if_splits option.splits cred_pc.splits prod.splits sum.splits)

lemma request_step_at:
  assumes "request_step env ok k st = Some st'"
  shows "j \<noteq> k \<Longrightarrow> cs_requests st' ! j = cs_requests st ! j"
    and "rq_cred (cs_requests st' ! j) = rq_cred (cs_requests st ! j)"
    and "rq_node (cs_requests st' ! j) = rq_node (cs_requests st ! j)"
    and "rq_proxied (cs_requests st' ! j) = rq_proxied (cs_requests st ! j)"
    and "length (cs_requests st') = length (cs_requests st)"
proof -
  from request_step_frame [OF assms] obtain r' where
    "cs_requests st' = (cs_requests st)[k := r']" "k < length (cs_requests st)" "rq_cred r' = rq_cred (cs_requests st ! k)"
    "rq_node r' = rq_node (cs_requests st ! k)" "rq_proxied r' = rq_proxied (cs_requests st ! k)" by blast
  then show "j \<noteq> k \<Longrightarrow> cs_requests st' ! j = cs_requests st ! j"
    and "rq_cred (cs_requests st' ! j) = rq_cred (cs_requests st ! j)"
    and "rq_node (cs_requests st' ! j) = rq_node (cs_requests st ! j)"
    and "rq_proxied (cs_requests st' ! j) = rq_proxied (cs_requests st ! j)"
    and "length (cs_requests st') = length (cs_requests st)"
    by (cases "j = k"; simp)+
qed

text \<open>What the other steps can change.\<close>

lemma dead_replace:
  "dead i st \<Longrightarrow> (\<And>c. p c \<Longrightarrow> \<not> live_row i (f c)) \<Longrightarrow> dead i (replace_rows p f st)"
  by (auto simp: dead_def replace_rows_def)

lemma dead_do:
  assumes "cache_do env a st = Some st'" and "spares i a" and "dead i st"
  shows "dead i st'"
proof (cases a)
  case (DoRequest k ok)
  then show ?thesis using request_step_frame [of env ok k st st'] assms by (auto simp: dead_def)
next
  case (DoRevocation k ok)
  have 1: "dead i (replace_rows p (\<lambda>c. c\<lparr>cr_revoked_at := Some now\<rparr>) st)" for p now
    by (rule dead_replace [OF assms(3)]) (simp add: live_row_def)
  show ?thesis
    using assms(1,3) 1 [unfolded dead_def]
    by (cases "rv_pc (cs_revocations st ! k)")
       (auto simp: DoRevocation revoke_step_def Let_def dead_def on_node_def RedisCacheInvalidate_def publish_def split: if_splits)
next
  case (DoWrite c)
  then have "cr_id c \<noteq> i" using assms(2) by (simp add: spares_def)
  then have "dead i (replace_rows (\<lambda>c'. cr_id c' = cr_id c) (\<lambda>_. c) st)"
    by (intro dead_replace [OF assms(3)]) (simp add: live_row_def)
  moreover have "dead i (st\<lparr>cs_rows := cs_rows st @ [c]\<rparr>)"
    using assms(3) \<open>cr_id c \<noteq> i\<close> by (auto simp: dead_def live_row_def)
  ultimately have "dead i (write_row c st)" by (simp add: write_row_def)
  then show ?thesis using assms(1) DoWrite by simp
qed (use assms in \<open>auto simp: dead_def new_request_def new_revocation_def on_node_def split: if_splits\<close>)

text \<open>Requests are only added by steps that are not theirs.\<close>

definition started_request :: "request \<Rightarrow> bool" where
  "started_request r \<longleftrightarrow> rq_flight r = None \<and> rq_result r = None \<and> rq_sent r = None \<and>
     (rq_pc r = LookupOrg \<or> rq_pc r = LookupMemory \<and> \<not> rq_proxied r)"

lemma requests_do:
  assumes "cache_do env a st = Some st'" and "\<And>k ok. a \<noteq> DoRequest k ok"
  shows "cs_requests st' = cs_requests st \<or>
    (\<exists>r. started_request r \<and> rq_node r < length (cs_nodes st) \<and> cs_requests st' = cs_requests st @ [r])"
proof (cases a)
  case (DoProxy n c)
  have "started_request \<lparr>rq_node = n, rq_cred = c, rq_org = uuid_nil, rq_proxied = True, rq_started = cs_now st,
      rq_pc = LookupOrg, rq_flight = None, rq_result = None, rq_sent = None\<rparr>" by (simp add: started_request_def)
  moreover have "n < length (cs_nodes st)" "st' = new_request n c uuid_nil True LookupOrg st"
    using assms(1) DoProxy by (simp_all split: if_splits)
  ultimately show ?thesis unfolding new_request_def
    by (intro disjI2 exI [of _ "\<lparr>rq_node = n, rq_cred = c, rq_org = uuid_nil, rq_proxied = True, rq_started = cs_now st,
      rq_pc = LookupOrg, rq_flight = None, rq_result = None, rq_sent = None\<rparr>"]) simp
next
  case (DoLookup n c org)
  have "started_request \<lparr>rq_node = n, rq_cred = c, rq_org = org, rq_proxied = False, rq_started = cs_now st,
      rq_pc = LookupMemory, rq_flight = None, rq_result = None, rq_sent = None\<rparr>" by (simp add: started_request_def)
  moreover have "n < length (cs_nodes st)" "st' = new_request n c org False LookupMemory st"
    using assms(1) DoLookup by (simp_all split: if_splits)
  ultimately show ?thesis unfolding new_request_def
    by (intro disjI2 exI [of _ "\<lparr>rq_node = n, rq_cred = c, rq_org = org, rq_proxied = False, rq_started = cs_now st,
      rq_pc = LookupMemory, rq_flight = None, rq_result = None, rq_sent = None\<rparr>"]) simp
next
  case (DoRequest k ok)
  then show ?thesis using assms(2) by simp
next
  case (DoRevocation k ok)
  show ?thesis
    using assms(1)
    by (cases "rv_pc (cs_revocations st ! k)")
       (auto simp: DoRevocation revoke_step_def Let_def on_node_def RedisCacheInvalidate_def publish_def split: if_splits)
next
  case (DoWrite c)
  then show ?thesis using assms(1) by auto
qed (use assms in \<open>auto simp: new_revocation_def split: if_splits\<close>)

section \<open>The proxy asks the database first\<close>

definition refused_proxies :: "string \<Rightarrow> nat \<Rightarrow> cache_st \<Rightarrow> bool" where
  "refused_proxies i n st \<longleftrightarrow> dead i st \<and> n \<le> length (cs_requests st) \<and>
     (\<forall>k. n \<le> k \<longrightarrow> k < length (cs_requests st) \<longrightarrow> rq_cred (cs_requests st ! k) = i \<longrightarrow> rq_proxied (cs_requests st ! k) \<longrightarrow>
        rq_sent (cs_requests st ! k) = None \<and>
        (case rq_pc (cs_requests st ! k) of LookupOrg \<Rightarrow> True | Answered (Inl _) \<Rightarrow> True | Finished \<Rightarrow> True | _ \<Rightarrow> False))"

lemma refused_proxies_do:
  assumes step: "cache_do env a st = Some st'" and sp: "spares i a" and ok: "refused_proxies i n st"
  shows "refused_proxies i n st'"
proof -
  have dead: "dead i st" and d': "dead i st'" using ok dead_do [OF step sp] by (simp_all add: refused_proxies_def)
  show ?thesis
  proof (cases "\<exists>k b. a = DoRequest k b")
    case True
    then obtain k b where a: "a = DoRequest k b" by blast
    then have st: "request_step env b k st = Some st'" using step by simp
    note at = request_step_at [OF st]
    have k: "k < length (cs_requests st)" using request_step_frame [OF st] by simp
    show ?thesis
      unfolding refused_proxies_def
    proof (intro conjI d' allI impI)
      show "n \<le> length (cs_requests st')" using ok at(5) by (simp add: refused_proxies_def)
      fix j assume j: "n \<le> j" "j < length (cs_requests st')" "rq_cred (cs_requests st' ! j) = i" "rq_proxied (cs_requests st' ! j)"
      then have old: "rq_sent (cs_requests st ! j) = None \<and>
          (case rq_pc (cs_requests st ! j) of LookupOrg \<Rightarrow> True | Answered (Inl _) \<Rightarrow> True | Finished \<Rightarrow> True | _ \<Rightarrow> False)"
        using ok at unfolding refused_proxies_def by simp
      have "rq_sent (cs_requests st' ! j) = None \<and>
          (case rq_pc (cs_requests st' ! j) of LookupOrg \<Rightarrow> True | Answered (Inl _) \<Rightarrow> True | Finished \<Rightarrow> True | _ \<Rightarrow> False)"
      proof (cases "j = k")
        case True
        have cr: "rq_cred (cs_requests st ! k) = i" using j(3) at(2) True by simp
        show ?thesis
        proof (cases "rq_pc (cs_requests st ! k)")
          case LookupOrg
          then show ?thesis using st old k dead_find(1) [OF dead] cr True
            by (auto simp: request_step_def GetDecryptedCredentialByID_def Let_def)
        next
          case (Answered res)
          then show ?thesis using st old k True
            by (cases res) (auto simp: request_step_def Let_def)
        qed (use st old True k in \<open>simp_all add: request_step_def Let_def\<close>)
      qed (use old at(1) in simp)
      then show "rq_sent (cs_requests st' ! j) = None" and
          "case rq_pc (cs_requests st' ! j) of LookupOrg \<Rightarrow> True | Answered (Inl _) \<Rightarrow> True | Finished \<Rightarrow> True | _ \<Rightarrow> False"
        by blast+
    qed
  next
    case False
    then have "\<And>k b. a \<noteq> DoRequest k b" by blast
    from requests_do [OF step this] show ?thesis
      using ok d' by (auto simp: refused_proxies_def started_request_def nth_append less_Suc_eq)
  qed
qed

lemma run_preserves:
  assumes "cache_run env acts st = Some st'" and "P st" and "\<forall>a \<in> set acts. Q a"
    and "\<And>a st st'. cache_do env a st = Some st' \<Longrightarrow> Q a \<Longrightarrow> P st \<Longrightarrow> P st'"
  shows "P st'"
  using assms(1-3) by (induction acts arbitrary: st) (auto split: option.splits dest: assms(4))

text \<open>
  C26: Once no row of a credential is live, the proxy sends its key for no further request, whatever
  the caches and the other instances still hold and whatever else runs.
\<close>

theorem revoked_refused_by_proxy:
  assumes "\<forall>c \<in> set (cs_rows st). \<not> live_row i c" and "cache_run env acts st = Some st'"
    and "\<forall>c. DoWrite c \<in> set acts \<longrightarrow> cr_id c \<noteq> i"
    and "length (cs_requests st) \<le> k" and "k < length (cs_requests st')"
    and "rq_cred (cs_requests st' ! k) = i" and "rq_proxied (cs_requests st' ! k)"
  shows "rq_sent (cs_requests st' ! k) = None"
proof -
  have "refused_proxies i (length (cs_requests st)) st" using assms(1) by (simp add: refused_proxies_def dead_def)
  from run_preserves [where P = "refused_proxies i (length (cs_requests st))" and Q = "spares i", OF assms(2) this]
    refused_proxies_do assms(3)
  have "refused_proxies i (length (cs_requests st)) st'" unfolding spares_def by blast
  then show ?thesis using assms(4-7) by (simp add: refused_proxies_def)
qed


section \<open>Revocation and the caches\<close>

text \<open>
  After a revocation that met no request for its credential: no row is live, redis has no entry, an
  instance has none unless a message for it is under way, and the requests that came later carry
  nothing but what such an entry gave them.
\<close>

fun quiet_pc :: "string \<Rightarrow> nat \<Rightarrow> cache_st \<Rightarrow> cred_pc \<Rightarrow> bool" where
  "quiet_pc i n st (Joined l) \<longleftrightarrow> n \<le> l \<and> l < length (cs_requests st) \<and> rq_cred (cs_requests st ! l) = i"
| "quiet_pc i n st (Leave (Inr _)) \<longleftrightarrow> False"
| "quiet_pc i n st (DekLookup _) \<longleftrightarrow> False" | "quiet_pc i n st (KmsUnwrap _) \<longleftrightarrow> False"
| "quiet_pc i n st RedisDrop \<longleftrightarrow> False" | "quiet_pc i n st (DbUnwrap _) \<longleftrightarrow> False"
| "quiet_pc i n st (DbStoreDEK _ _ _) \<longleftrightarrow> False" | "quiet_pc i n st (DbStoreRedis _ _) \<longleftrightarrow> False"
| "quiet_pc i n st (Promote _) \<longleftrightarrow> False"
| "quiet_pc i n st _ \<longleftrightarrow> True"

definition quiet_request :: "string \<Rightarrow> nat \<Rightarrow> cache_st \<Rightarrow> nat \<Rightarrow> bool" where
  "quiet_request i n st k \<longleftrightarrow>
     (if k < n then rq_pc (cs_requests st ! k) = Finished
      else quiet_pc i n st (rq_pc (cs_requests st ! k)) \<and>
        (case rq_result (cs_requests st ! k) of Some (Inr _) \<Rightarrow> False | _ \<Rightarrow> True))"

definition settled :: "string \<Rightarrow> nat \<Rightarrow> cache_st \<Rightarrow> bool" where
  "settled i n st \<longleftrightarrow> dead i st \<and> cs_redis st i = None \<and> n \<le> length (cs_requests st) \<and>
     (\<forall>k < length (cs_requests st). rq_node (cs_requests st ! k) < length (cs_nodes st)) \<and>
     (\<forall>m < length (cs_nodes st).
        (nd_memory (cs_nodes st ! m) i = None \<or> i \<in> set (nd_inbox (cs_nodes st ! m))) \<and>
        (\<forall>l. nd_flight (cs_nodes st ! m) i = Some l \<longrightarrow> quiet_pc i n st (Joined l))) \<and>
     (\<forall>k < length (cs_requests st). rq_cred (cs_requests st ! k) = i \<longrightarrow> quiet_request i n st k)"

lemma quiet_pc_more:
  assumes "length (cs_requests st) \<le> length (cs_requests st')"
    and "\<And>l. l < length (cs_requests st) \<Longrightarrow> rq_cred (cs_requests st' ! l) = rq_cred (cs_requests st ! l)"
    and "quiet_pc i n st p"
  shows "quiet_pc i n st' p"
proof (cases p)
  case (Leave res)
  then show ?thesis using assms(3) by (cases res) simp_all
qed (use assms in auto)

text \<open>A step of a later request for the credential.\<close>

lemma settled_own_step:
  assumes ok: "settled i n st" and step: "request_step env b k st = Some st'" and i: "rq_cred (cs_requests st ! k) = i"
    and node: "rq_node (cs_requests st ! k) < length (cs_nodes st)"
  shows "cs_redis st' i = None \<and>
    (\<forall>m < length (cs_nodes st). (nd_memory (cs_nodes st' ! m) i = None \<or> nd_memory (cs_nodes st' ! m) i = nd_memory (cs_nodes st ! m) i) \<and>
       (\<forall>l. nd_flight (cs_nodes st' ! m) i = Some l \<longrightarrow> nd_flight (cs_nodes st ! m) i = Some l \<or> l = k)) \<and>
    n \<le> k \<and> quiet_pc i n st' (rq_pc (cs_requests st' ! k)) \<and>
    (case rq_result (cs_requests st' ! k) of Some (Inr _) \<Rightarrow> False | _ \<Rightarrow> True) \<and>
    (nd_memory (cs_nodes st ! rq_node (cs_requests st ! k)) i = None \<longrightarrow>
      rq_sent (cs_requests st ! k) = None \<longrightarrow> (\<forall>dc. rq_pc (cs_requests st ! k) \<noteq> Answered (Inr dc)) \<longrightarrow>
      rq_sent (cs_requests st' ! k) = None \<and> (\<forall>dc. rq_pc (cs_requests st' ! k) \<noteq> Answered (Inr dc)))"
    (is "?goal")
proof -
  have k: "k < length (cs_requests st)" using request_step_frame [OF step] by simp
  have q: "quiet_request i n st k" using ok k i by (simp add: settled_def)
  have nk: "n \<le> k" using q step by (auto simp: quiet_request_def request_step_def split: if_splits)
  have pc: "quiet_pc i n st (rq_pc (cs_requests st ! k))"
    and res: "case rq_result (cs_requests st ! k) of Some (Inr _) \<Rightarrow> False | _ \<Rightarrow> True"
    using q nk by (simp_all add: quiet_request_def)
  have dead: "dead i st" and redis: "cs_redis st i = None" using ok by (simp_all add: settled_def)
  have go: ?goal if st': "st' = goto k p st" and p: "quiet_pc i n st p" "\<And>dc. p \<noteq> Answered (Inr dc)" for p
  proof -
    have "quiet_pc i n st' p" by (rule quiet_pc_more [OF _ _ p(1)]) (use k in \<open>auto simp: st' nth_list_update\<close>)
    then show ?thesis using k nk res redis p(2) by (simp add: st')
  qed
  note simps = k i nk res node redis
  show ?goal
  proof (cases "rq_pc (cs_requests st ! k)")
    case LookupOrg
    have "\<exists>x. st' = goto k (Answered (Inl x)) st"
      using step k LookupOrg i dead_find(1) [OF dead]
      by (cases b) (auto simp: request_step_def Let_def GetDecryptedCredentialByID_def)
    then show ?thesis using go by auto
  next
    case LookupMemory
    obtain cached n1 where g: "MemoryGet (cs_now st) i (cs_nodes st ! rq_node (cs_requests st ! k)) = (cached, n1)"
      by (cases "MemoryGet (cs_now st) i (cs_nodes st ! rq_node (cs_requests st ! k))")
    have d: "nd_memory n1 i = None \<or> nd_memory n1 i = nd_memory (cs_nodes st ! rq_node (cs_requests st ! k)) i"
      using MemoryGet_drops [OF g] by (cases "nd_memory n1 i") (auto simp: drops_def)
    have f: "nd_flight n1 = nd_flight (cs_nodes st ! rq_node (cs_requests st ! k))"
      using MemoryGet_drops [OF g] by (simp add: drops_def)
    have hit: "nd_memory (cs_nodes st ! rq_node (cs_requests st ! k)) i = Some x" if "cached = Some x" for x
      using MemoryGet_Some [of "cs_now st" i] g that by auto
    have st': "st' = memory_lookup b k st" using step k LookupMemory by (simp add: request_step_def Let_def)
    consider (miss) m where "st' = goto k EnterFlight (on_node (rq_node (cs_requests st ! k)) (\<lambda>_. m) st)"
        "nd_memory m i = None \<or> nd_memory m i = nd_memory (cs_nodes st ! rq_node (cs_requests st ! k)) i"
        "nd_flight m = nd_flight (cs_nodes st ! rq_node (cs_requests st ! k))"
      | (hit) x a h where "cached = Some x"
        "st' = goto k (Answered (Inr a)) (on_node (rq_node (cs_requests st ! k)) (\<lambda>_. n1) st\<lparr>cs_heap := h\<rparr>)"
    proof -
      have "on_node (rq_node (cs_requests st ! k)) (MemoryInvalidate i) (on_node (rq_node (cs_requests st ! k)) (\<lambda>_. n1) st) =
          on_node (rq_node (cs_requests st ! k)) (\<lambda>_. MemoryInvalidate i n1) st"
        using node by (simp add: on_node_def)
      note upd = this
      note st'' = st' [unfolded memory_lookup_def Let_def i g prod.case]
      consider (hit) x where "cached = Some x" "cc_OrgID x = rq_org (cs_requests st ! k)" "b"
        | (broken) x where "cached = Some x" "cc_OrgID x = rq_org (cs_requests st ! k)" "\<not> b"
        | (other) "cached = None \<or> (\<exists>x. cached = Some x \<and> cc_OrgID x \<noteq> rq_org (cs_requests st ! k))"
        by (cases cached) auto
      then show ?thesis
      proof cases
        case (hit x)
        show ?thesis by (rule that(2) [OF hit(1)]) (simp add: st'' hit alloc_def)
      next
        case (broken x)
        show ?thesis by (rule that(1) [of "MemoryInvalidate i n1"]) (simp_all add: st'' broken upd f MemoryInvalidate_def)
      next
        case other
        then have "st' = goto k EnterFlight (on_node (rq_node (cs_requests st ! k)) (\<lambda>_. n1) st)"
          by (auto simp: st'')
        from that(1) [OF this d f] show ?thesis .
      qed
    qed
    then show ?thesis
    proof cases
      case (miss m)
      then show ?thesis using simps by (auto simp: nth_list_update)
    next
      case hit': (hit x a h)
      then show ?thesis using simps d f hit [OF hit'(1)] by (auto simp: nth_list_update)
    qed
  next
    case EnterFlight
    then have st': "st' = enter_flight k st" using step k by (simp add: request_step_def Let_def)
    show ?thesis
    proof (cases "nd_flight (cs_nodes st ! rq_node (cs_requests st ! k)) i")
      case None
      then show ?thesis using simps by (auto simp: st' enter_flight_def Let_def nth_list_update)
    next
      case (Some l)
      then have "quiet_pc i n st (Joined l)" using ok node by (simp add: settled_def)
      then show ?thesis using Some simps by (auto simp: st' enter_flight_def Let_def nth_list_update)
    qed
  next
    case (Joined l)
    then have l: "n \<le> l" "l < length (cs_requests st)" "rq_cred (cs_requests st ! l) = i" using pc by simp_all
    then have "quiet_request i n st l" using ok by (simp add: settled_def)
    then have r: "case rq_result (cs_requests st ! l) of Some (Inr _) \<Rightarrow> False | _ \<Rightarrow> True"
      using l by (simp add: quiet_request_def)
    obtain x where "rq_result (cs_requests st ! l) = Some x" "st' = goto k (Answered x) st"
      using step k Joined by (auto simp: request_step_def Let_def)
    then show ?thesis using go [of "Answered x"] r by (cases x) auto
  next
    case RedisGet
    have "st' = goto k DbRead st"
      using step k i redis RedisGet by (cases b) (auto simp: request_step_def Let_def redis_lookup_def RedisCacheGet_def)
    then show ?thesis using go by simp
  next
    case DbRead
    have "\<exists>x. st' = goto k (Leave (Inl x)) st"
      using step k DbRead i dead_find(2) [OF dead] by (cases b) (auto simp: request_step_def Let_def row_lookup_def)
    then show ?thesis using go by auto
  next
    case (Leave ans)
    then obtain x where "ans = Inl x" using pc by (cases ans) simp_all
    then have st': "st' = leave_flight k (Inl x) st" using step k Leave by (simp add: request_step_def Let_def)
    show ?thesis using simps by (auto simp: st' leave_flight_def Let_def nth_list_update)
  next
    case (Answered ans)
    show ?thesis
    proof (cases ans)
      case (Inl x)
      then have "st' = goto k Finished st" using step k Answered by (simp add: request_step_def Let_def)
      then show ?thesis using go by simp
    next
      case (Inr dc)
      then have st': "st' = use_key b k dc st" using step k Answered by (simp add: request_step_def Let_def)
      show ?thesis using simps Answered Inr by (cases b) (auto simp: st' use_key_def)
    qed
  next
    case (Sent a)
    then have "st' = wipe_key k a st" using step k by (simp add: request_step_def Let_def)
    then show ?thesis using simps by (auto simp: wipe_key_def)
  next
    case Finished
    then show ?thesis using step by (simp add: request_step_def Let_def split: if_splits)
  qed (use pc in simp_all)
qed


text \<open>An instance that has handled its messages refuses the requests that come later.\<close>

definition refused :: "string \<Rightarrow> nat \<Rightarrow> nat \<Rightarrow> cache_st \<Rightarrow> bool" where
  "refused i m n st \<longleftrightarrow> nd_memory (cs_nodes st ! m) i = None \<and>
     (\<forall>k < length (cs_requests st). n \<le> k \<longrightarrow> rq_cred (cs_requests st ! k) = i \<longrightarrow> rq_node (cs_requests st ! k) = m \<longrightarrow>
        rq_sent (cs_requests st ! k) = None \<and> (\<forall>dc. rq_pc (cs_requests st ! k) \<noteq> Answered (Inr dc)))"

lemma settled_request:
  assumes ok: "settled i n st" and step: "request_step env b k st = Some st'"
  shows "settled i n st' \<and> (m < length (cs_nodes st) \<longrightarrow> refused i m n' st \<longrightarrow> refused i m n' st')"
proof -
  note at = request_step_at [OF step]
  have k: "k < length (cs_requests st)" and rows: "cs_rows st' = cs_rows st"
    and len: "length (cs_nodes st') = length (cs_nodes st)"
    using request_step_frame [OF step] by auto
  have dead: "dead i st'" using ok rows by (simp add: settled_def dead_def)
  have node: "rq_node (cs_requests st ! j) < length (cs_nodes st)" if "j < length (cs_requests st)" for j
    using ok that by (simp add: settled_def)
  have more: "quiet_pc i n st p \<Longrightarrow> quiet_pc i n st' p" for p
    by (rule quiet_pc_more) (use at in auto)
  have others: "quiet_request i n st' j" if "j < length (cs_requests st)" "rq_cred (cs_requests st ! j) = i" "j \<noteq> k" for j
    using ok that at(1) [OF that(3)] more by (auto simp: settled_def quiet_request_def)
  have inbox: "nd_inbox (cs_nodes st' ! m) = nd_inbox (cs_nodes st ! m)" if "m < length (cs_nodes st)" for m
    using request_step_inbox [OF step that] .
  show ?thesis
  proof (cases "rq_cred (cs_requests st ! k) = i")
    case True
    note own = settled_own_step [OF ok step True node [OF k]]
    have self: "quiet_request i n st' k" using own by (simp add: quiet_request_def)
    have "settled i n st'"
      unfolding settled_def
    proof (intro conjI allI impI dead)
      show "cs_redis st' i = None" using own by blast
      show "n \<le> length (cs_requests st')" using own k at(5) by simp
      show "rq_node (cs_requests st' ! j) < length (cs_nodes st')" if "j < length (cs_requests st')" for j
        using node that at len by simp
      show "quiet_request i n st' j" if "j < length (cs_requests st')" "rq_cred (cs_requests st' ! j) = i" for j
        using self others [of j] that at by (cases "j = k") auto
      fix m assume m: "m < length (cs_nodes st')"
      show "nd_memory (cs_nodes st' ! m) i = None \<or> i \<in> set (nd_inbox (cs_nodes st' ! m))"
        using own ok m len inbox unfolding settled_def by (metis (no_types))
      fix l assume "nd_flight (cs_nodes st' ! m) i = Some l"
      then have "nd_flight (cs_nodes st ! m) i = Some l \<or> l = k" using own m len by auto
      then show "quiet_pc i n st' (Joined l)"
        using more [of "Joined l"] ok m len own k at(5) at(2) [of k] True by (auto simp: settled_def)
    qed
    moreover have "refused i m n' st'" if m: "m < length (cs_nodes st)" and r: "refused i m n' st"
      unfolding refused_def
    proof (intro conjI allI impI)
      show "nd_memory (cs_nodes st' ! m) i = None" using own r m unfolding refused_def by metis
      fix j dc assume j: "j < length (cs_requests st')" "n' \<le> j" "rq_cred (cs_requests st' ! j) = i" "rq_node (cs_requests st' ! j) = m"
      then have old: "rq_sent (cs_requests st ! j) = None \<and> (\<forall>dc. rq_pc (cs_requests st ! j) \<noteq> Answered (Inr dc))"
        using r at by (simp add: refused_def)
      show "rq_sent (cs_requests st' ! j) = None" and "rq_pc (cs_requests st' ! j) \<noteq> Answered (Inr dc)"
        using old own r at j by (cases "j = k"; simp add: refused_def)+
    qed
    ultimately show ?thesis by blast
  next
    case False
    note oth = request_step_other [OF step False [symmetric]]
    have kj: "j \<noteq> k" if "rq_cred (cs_requests st ! j) = i" for j using that False by auto
    have "settled i n st'"
      unfolding settled_def
    proof (intro conjI allI impI dead)
      show "cs_redis st' i = None" using ok oth [of "rq_node (cs_requests st ! k)"] node [OF k] by (simp add: settled_def)
      show "n \<le> length (cs_requests st')" using ok at(5) by (simp add: settled_def)
      show "rq_node (cs_requests st' ! j) < length (cs_nodes st')" if "j < length (cs_requests st')" for j
        using node that at len by simp
      show "quiet_request i n st' j" if "j < length (cs_requests st')" "rq_cred (cs_requests st' ! j) = i" for j
        using others [of j] kj [of j] that at by simp
      fix m assume m: "m < length (cs_nodes st')"
      show "nd_memory (cs_nodes st' ! m) i = None \<or> i \<in> set (nd_inbox (cs_nodes st' ! m))"
        using ok m len inbox oth by (simp add: settled_def)
      fix l assume "nd_flight (cs_nodes st' ! m) i = Some l"
      then show "quiet_pc i n st' (Joined l)" using ok m len oth more [of "Joined l"] by (simp add: settled_def)
    qed
    moreover have "refused i m n' st'" if "m < length (cs_nodes st)" "refused i m n' st"
      using that oth at kj by (simp add: refused_def)
    ultimately show ?thesis by blast
  qed
qed

text \<open>Steps that are not those of requests.\<close>

lemma settled_world:
  assumes ok: "settled i n st" and dead: "dead i st'" and len: "length (cs_nodes st') = length (cs_nodes st)"
    and reqs: "cs_requests st' = cs_requests st \<or>
      (\<exists>r. started_request r \<and> rq_node r < length (cs_nodes st) \<and> cs_requests st' = cs_requests st @ [r])"
    and redis: "cs_redis st' i = cs_redis st i \<or> cs_redis st' i = None"
    and nodes: "\<And>m. m < length (cs_nodes st) \<Longrightarrow> nd_flight (cs_nodes st' ! m) = nd_flight (cs_nodes st ! m) \<and>
      (nd_memory (cs_nodes st' ! m) i = None \<or>
       nd_memory (cs_nodes st' ! m) i = nd_memory (cs_nodes st ! m) i \<and>
       (i \<in> set (nd_inbox (cs_nodes st ! m)) \<longrightarrow> i \<in> set (nd_inbox (cs_nodes st' ! m))))"
  shows "settled i n st' \<and> (m < length (cs_nodes st) \<longrightarrow> refused i m n' st \<longrightarrow> refused i m n' st')"
proof
  have at: "cs_requests st' ! j = cs_requests st ! j" if "j < length (cs_requests st)" for j
    using reqs that by (auto simp: nth_append)
  have new: "started_request (cs_requests st' ! j) \<and> rq_node (cs_requests st' ! j) < length (cs_nodes st)"
    if "j < length (cs_requests st')" "\<not> j < length (cs_requests st)" for j
    using reqs that by (auto simp: nth_append)
  have more: "quiet_pc i n st p \<Longrightarrow> quiet_pc i n st' p" for p
    by (rule quiet_pc_more) (use reqs at in auto)
  have n: "n \<le> length (cs_requests st)" using ok by (simp add: settled_def)
  show "settled i n st'"
    unfolding settled_def
  proof (intro conjI allI impI dead)
    show "cs_redis st' i = None" using ok redis by (auto simp: settled_def)
    show "n \<le> length (cs_requests st')" using n reqs by auto
    show "rq_node (cs_requests st' ! j) < length (cs_nodes st')" if "j < length (cs_requests st')" for j
      using ok that at new len by (cases "j < length (cs_requests st)") (auto simp: settled_def)
    show "quiet_request i n st' j" if j: "j < length (cs_requests st')" "rq_cred (cs_requests st' ! j) = i" for j
    proof (cases "j < length (cs_requests st)")
      case True
      then have "quiet_request i n st j" using ok j at by (simp add: settled_def)
      then show ?thesis using more at [OF True] by (auto simp: quiet_request_def)
    next
      case False
      then show ?thesis using new [OF j(1)] n by (auto simp: quiet_request_def started_request_def)
    qed
    fix m assume m: "m < length (cs_nodes st')"
    show "nd_memory (cs_nodes st' ! m) i = None \<or> i \<in> set (nd_inbox (cs_nodes st' ! m))"
      using ok m len nodes [of m] by (auto simp: settled_def)
    fix l assume "nd_flight (cs_nodes st' ! m) i = Some l"
    then show "quiet_pc i n st' (Joined l)" using ok m len nodes [of m] more [of "Joined l"] by (simp add: settled_def)
  qed
  show "m < length (cs_nodes st) \<longrightarrow> refused i m n' st \<longrightarrow> refused i m n' st'"
  proof (intro impI)
    assume m: "m < length (cs_nodes st)" and r: "refused i m n' st"
    show "refused i m n' st'"
      unfolding refused_def
    proof (intro conjI allI impI)
      show "nd_memory (cs_nodes st' ! m) i = None" using r nodes [OF m] by (auto simp: refused_def)
      fix j dc assume j: "j < length (cs_requests st')" "n' \<le> j" "rq_cred (cs_requests st' ! j) = i" "rq_node (cs_requests st' ! j) = m"
      show "rq_sent (cs_requests st' ! j) = None" and "rq_pc (cs_requests st' ! j) \<noteq> Answered (Inr dc)"
        using r j at [of j] new [OF j(1)] by (cases "j < length (cs_requests st)"; auto simp: refused_def started_request_def)+
    qed
  qed
qed


lemma forget_local_sel [simp]:
  "nd_flight (forget_local c x) = nd_flight x" "nd_inbox (forget_local c x) = nd_inbox x"
  "nd_memory (forget_local c x) i = (if i = c then None else nd_memory x i)"
  by (simp_all add: forget_local_def MemoryInvalidate_def DEKInvalidate_def)

lemma handle_message_keeps:
  "nd_flight (handle_message x) = nd_flight x"
  "nd_memory (handle_message x) i = None \<or> nd_memory (handle_message x) i = nd_memory x i \<and>
   (i \<in> set (nd_inbox x) \<longrightarrow> i \<in> set (nd_inbox (handle_message x)))"
  by (cases "nd_inbox x"; simp add: handle_message_def)+

definition touched :: "cache_st \<Rightarrow> cache_st \<Rightarrow> bool" where
  "touched st st1 \<longleftrightarrow> st1 = st \<or> (\<exists>p f. st1 = replace_rows p f st) \<or> (\<exists>n c. st1 = on_node n (forget_local c) st) \<or>
     (\<exists>c. st1 = RedisCacheInvalidate c st) \<or> (\<exists>c. st1 = publish c st)"

lemma touched:
  "touched st st" "touched st (replace_rows p f st)" "touched st (on_node n (forget_local c) st)"
  "touched st (RedisCacheInvalidate c st)" "touched st (publish c st)"
  unfolding touched_def by blast+

lemma revoke_step_shape:
  assumes step: "revoke_step b k st = Some st'"
  shows "\<exists>vs st1. st' = st1\<lparr>cs_revocations := vs\<rparr> \<and> touched st st1"
proof -
  have shape: "?thesis" if "st' = st1\<lparr>cs_revocations := (cs_revocations st1)[k := x]\<rparr>" "touched st st1" for st1 x
    using that by blast
  show ?thesis
  proof (cases "rv_pc (cs_revocations st ! k)")
    case (RvUpdate org)
    show ?thesis
    proof (cases "b \<and> (\<exists>c \<in> set (cs_rows st). revocable (rv_cred (cs_revocations st ! k)) org c)")
      case True
      let ?st1 = "replace_rows (revocable (rv_cred (cs_revocations st ! k)) org) (\<lambda>c. c\<lparr>cr_revoked_at := Some (cs_now st)\<rparr>) st"
      have "st' = ?st1\<lparr>cs_revocations := (cs_revocations ?st1)[k := (cs_revocations st ! k)\<lparr>rv_pc := RvLocal\<rparr>]\<rparr>"
        using step RvUpdate True by (simp add: revoke_step_def Let_def split: if_splits)
      from shape [OF this touched(2)] show ?thesis .
    next
      case False
      have "st' = st\<lparr>cs_revocations := (cs_revocations st)[k := (cs_revocations st ! k)\<lparr>rv_pc := RvDone\<rparr>]\<rparr>"
        using step RvUpdate False by (simp add: revoke_step_def Let_def split: if_splits)
      from shape [OF this touched(1)] show ?thesis .
    qed
  next
    case RvLocal
    let ?st1 = "on_node (rv_node (cs_revocations st ! k)) (forget_local (rv_cred (cs_revocations st ! k))) st"
    have "st' = ?st1\<lparr>cs_revocations := (cs_revocations ?st1)[k := (cs_revocations st ! k)\<lparr>rv_pc := RvRedis\<rparr>]\<rparr>"
      using step RvLocal by (simp add: revoke_step_def Let_def split: if_splits)
    from shape [OF this touched(3)] show ?thesis .
  next
    case RvRedis
    show ?thesis
    proof (cases b)
      case True
      have "st' = (RedisCacheInvalidate (rv_cred (cs_revocations st ! k)) st)\<lparr>cs_revocations := (cs_revocations (RedisCacheInvalidate (rv_cred (cs_revocations st ! k)) st))[k := (cs_revocations st ! k)\<lparr>rv_pc := RvPublish\<rparr>]\<rparr>"
        using step RvRedis True by (simp add: revoke_step_def Let_def split: if_splits)
      from shape [OF this touched(4)] show ?thesis .
    next
      case False
      have "st' = st\<lparr>cs_revocations := (cs_revocations st)[k := (cs_revocations st ! k)\<lparr>rv_pc := RvDone\<rparr>]\<rparr>"
        using step RvRedis False by (simp add: revoke_step_def Let_def split: if_splits)
      from shape [OF this touched(1)] show ?thesis .
    qed
  next
    case RvPublish
    show ?thesis
    proof (cases b)
      case True
      have "st' = (publish (rv_cred (cs_revocations st ! k)) st)\<lparr>cs_revocations := (cs_revocations (publish (rv_cred (cs_revocations st ! k)) st))[k := (cs_revocations st ! k)\<lparr>rv_pc := RvDone\<rparr>]\<rparr>"
        using step RvPublish True by (simp add: revoke_step_def Let_def split: if_splits)
      from shape [OF this touched(5)] show ?thesis .
    next
      case False
      have "st' = st\<lparr>cs_revocations := (cs_revocations st)[k := (cs_revocations st ! k)\<lparr>rv_pc := RvDone\<rparr>]\<rparr>"
        using step RvPublish False by (simp add: revoke_step_def Let_def split: if_splits)
      from shape [OF this touched(1)] show ?thesis .
    qed
  qed (use step in \<open>simp add: revoke_step_def Let_def split: if_splits\<close>)
qed

lemma settled_revocation:
  assumes ok: "settled i n st" and dead: "dead i st'" and step: "revoke_step b k st = Some st'"
  shows "settled i n st' \<and> (m < length (cs_nodes st) \<longrightarrow> refused i m n' st \<longrightarrow> refused i m n' st')"
proof -
  from revoke_step_shape [OF step] obtain vs st1 where st': "st' = st1\<lparr>cs_revocations := vs\<rparr>" and
    "touched st st1" by blast
  then have st1: "st1 = st \<or> (\<exists>p f. st1 = replace_rows p f st) \<or> (\<exists>n c. st1 = on_node n (forget_local c) st) \<or>
     (\<exists>c. st1 = RedisCacheInvalidate c st) \<or> (\<exists>c. st1 = publish c st)" by (simp add: touched_def)
  have node: "nd_flight (cs_nodes st' ! m) = nd_flight (cs_nodes st ! m) \<and>
      (nd_memory (cs_nodes st' ! m) i = None \<or>
       nd_memory (cs_nodes st' ! m) i = nd_memory (cs_nodes st ! m) i \<and>
       (i \<in> set (nd_inbox (cs_nodes st ! m)) \<longrightarrow> i \<in> set (nd_inbox (cs_nodes st' ! m))))"
    if m: "m < length (cs_nodes st)" for m
    using st1
  proof (elim disjE exE)
    fix x c assume "st1 = on_node x (forget_local c) st"
    then show ?thesis using m by (cases "m = x") (simp_all add: st')
  qed (use m in \<open>simp_all add: st' RedisCacheInvalidate_def publish_def\<close>)
  have "cs_requests st' = cs_requests st" "length (cs_nodes st') = length (cs_nodes st)"
    "cs_redis st' i = cs_redis st i \<or> cs_redis st' i = None"
    using st1 by (elim disjE exE; simp add: st' RedisCacheInvalidate_def publish_def)+
  then show ?thesis by (intro settled_world [OF ok dead _ _ _ node]) simp_all
qed

lemma settled_node:
  assumes ok: "settled i n st" and x: "x < length (cs_nodes st)"
    and f: "nd_flight (f (cs_nodes st ! x)) = nd_flight (cs_nodes st ! x)"
      "nd_memory (f (cs_nodes st ! x)) i = None \<or> nd_memory (f (cs_nodes st ! x)) i = nd_memory (cs_nodes st ! x) i \<and>
       (i \<in> set (nd_inbox (cs_nodes st ! x)) \<longrightarrow> i \<in> set (nd_inbox (f (cs_nodes st ! x))))"
  shows "settled i n (on_node x f st) \<and>
    (m < length (cs_nodes st) \<longrightarrow> refused i m n' st \<longrightarrow> refused i m n' (on_node x f st))"
proof (rule settled_world [OF ok])
  show "dead i (on_node x f st)" using ok by (simp add: settled_def dead_def)
  fix m assume m: "m < length (cs_nodes st)"
  show "nd_flight (cs_nodes (on_node x f st) ! m) = nd_flight (cs_nodes st ! m) \<and>
      (nd_memory (cs_nodes (on_node x f st) ! m) i = None \<or>
       nd_memory (cs_nodes (on_node x f st) ! m) i = nd_memory (cs_nodes st ! m) i \<and>
       (i \<in> set (nd_inbox (cs_nodes st ! m)) \<longrightarrow> i \<in> set (nd_inbox (cs_nodes (on_node x f st) ! m))))"
    using m f by (cases "m = x") auto
qed simp_all

lemma settled_do:
  assumes ok: "settled i n st" and step: "cache_do env a st = Some st'" and sp: "spares i a" and ll: "lossless a"
  shows "settled i n st' \<and> (m < length (cs_nodes st) \<longrightarrow> refused i m n' st \<longrightarrow> refused i m n' st')"
proof (cases a)
  have dead: "dead i st'" by (rule dead_do [OF step sp]) (use ok in \<open>simp add: settled_def\<close>)
  case (DoRequest k b)
  then show ?thesis using settled_request [OF ok] step by simp
next
  case (DoRevocation k b)
  have "dead i st'" by (rule dead_do [OF step sp]) (use ok in \<open>simp add: settled_def\<close>)
  then show ?thesis using settled_revocation [OF ok] step DoRevocation by simp
next
  case (DoMessage x)
  then have x: "x < length (cs_nodes st)" "st' = on_node x handle_message st" using step by (auto split: if_splits)
  show ?thesis unfolding x(2) by (rule settled_node [where f = handle_message, OF ok x(1) handle_message_keeps])
next
  case (DoEvict x c)
  then have x: "x < length (cs_nodes st)" "st' = on_node x (MemoryInvalidate c) st" using step by (auto split: if_splits)
  show ?thesis unfolding x(2) by (rule settled_node [OF ok x(1)]) (auto simp: MemoryInvalidate_def)
next
  case (DoEvictDEK x c)
  then have x: "x < length (cs_nodes st)" "st' = on_node x (DEKInvalidate c) st" using step by (auto split: if_splits)
  show ?thesis unfolding x(2) by (rule settled_node [OF ok x(1)]) (auto simp: DEKInvalidate_def)
next
  case (DoLose x)
  then show ?thesis using ll by (simp add: lossless_def)
next
  case (DoProxy x c)
  have "dead i st'" by (rule dead_do [OF step sp]) (use ok in \<open>simp add: settled_def\<close>)
  then show ?thesis
    by (rule settled_world [OF ok _ _ requests_do [OF step]])
      (use step DoProxy in \<open>auto simp: new_request_def split: if_splits\<close>)
next
  case (DoLookup x c org)
  have "dead i st'" by (rule dead_do [OF step sp]) (use ok in \<open>simp add: settled_def\<close>)
  then show ?thesis
    by (rule settled_world [OF ok _ _ requests_do [OF step]])
      (use step DoLookup in \<open>auto simp: new_request_def split: if_splits\<close>)
next
  case (DoWrite c)
  have "dead i st'" by (rule dead_do [OF step sp]) (use ok in \<open>simp add: settled_def\<close>)
  then show ?thesis by (rule settled_world [OF ok]) (use step DoWrite in auto)
next
  case (DoRevoke x c org)
  have "dead i st'" by (rule dead_do [OF step sp]) (use ok in \<open>simp add: settled_def\<close>)
  then show ?thesis
    by (rule settled_world [OF ok]) (use step DoRevoke in \<open>auto simp: new_revocation_def split: if_splits\<close>)
next
  case (DoInvalidate x c)
  have "dead i st'" by (rule dead_do [OF step sp]) (use ok in \<open>simp add: settled_def\<close>)
  then show ?thesis
    by (rule settled_world [OF ok]) (use step DoInvalidate in \<open>auto simp: new_revocation_def split: if_splits\<close>)
next
  case (DoWait d)
  have "dead i st'" by (rule dead_do [OF step sp]) (use ok in \<open>simp add: settled_def\<close>)
  then show ?thesis by (rule settled_world [OF ok]) (use step DoWait in auto)
qed

lemma nodes_do: "cache_do env a st = Some st' \<Longrightarrow> length (cs_nodes st') = length (cs_nodes st)"
proof (cases a)
  case (DoRequest k b)
  then show "cache_do env a st = Some st' \<Longrightarrow> ?thesis" using request_step_frame [of env b k st st'] by simp
next
  case (DoRevocation k b)
  then show "cache_do env a st = Some st' \<Longrightarrow> ?thesis"
    by (cases "rv_pc (cs_revocations st ! k)")
      (auto simp: revoke_step_def Let_def RedisCacheInvalidate_def publish_def split: if_splits)
qed (auto simp: new_request_def new_revocation_def split: if_splits)

lemma settled_run:
  "cache_run env acts st = Some st' \<Longrightarrow> settled i n st \<Longrightarrow> \<forall>a \<in> set acts. spares i a \<and> lossless a \<Longrightarrow>
   settled i n st' \<and> (m < length (cs_nodes st) \<longrightarrow> refused i m n' st \<longrightarrow> refused i m n' st') \<and>
   length (cs_nodes st') = length (cs_nodes st)"
proof (induction acts arbitrary: st)
  case (Cons a acts)
  obtain st1 where a: "cache_do env a st = Some st1" and b: "cache_run env acts st1 = Some st'"
    using Cons.prems(1) by (auto split: option.splits)
  have "settled i n st1 \<and> (m < length (cs_nodes st) \<longrightarrow> refused i m n' st \<longrightarrow> refused i m n' st1)"
    using settled_do [OF Cons.prems(2) a] Cons.prems(3) by simp
  then show ?case using Cons.IH [OF b] Cons.prems(3) nodes_do [OF a] by auto
qed simp

text \<open>A revocation that is not disturbed.\<close>

definition revoke_acts :: "nat \<Rightarrow> nat \<Rightarrow> string \<Rightarrow> uuid \<Rightarrow> cache_act list" where
  "revoke_acts k n i org = DoRevoke n i org # replicate 4 (DoRevocation k True)"

lemma cache_run_Cons:
  "cache_run env (a # acts) st = Some st' \<Longrightarrow> \<exists>st1. cache_do env a st = Some st1 \<and> cache_run env acts st1 = Some st'"
  "cache_run env [a] st = Some st' \<Longrightarrow> cache_do env a st = Some st'"
  by (auto split: option.splits)

lemma revoke_steps:
  assumes R: "cs_revocations s = R @ [v]" and step: "revoke_step True (length R) s = Some s'"
  shows "rv_pc v = RvUpdate org \<Longrightarrow> c \<in> set (cs_rows s) \<Longrightarrow> revocable (rv_cred v) org c \<Longrightarrow>
      cs_rows s' = map (\<lambda>c. if revocable (rv_cred v) org c then c\<lparr>cr_revoked_at := Some (cs_now s)\<rparr> else c) (cs_rows s) \<and>
      cs_redis s' = cs_redis s \<and> cs_nodes s' = cs_nodes s \<and> cs_requests s' = cs_requests s \<and>
      cs_revocations s' = R @ [v\<lparr>rv_pc := RvLocal\<rparr>]"
    and "rv_pc v = RvLocal \<Longrightarrow> cs_rows s' = cs_rows s \<and> cs_redis s' = cs_redis s \<and>
      cs_nodes s' = (cs_nodes s)[rv_node v := forget_local (rv_cred v) (cs_nodes s ! rv_node v)] \<and>
      cs_requests s' = cs_requests s \<and> cs_revocations s' = R @ [v\<lparr>rv_pc := RvRedis\<rparr>]"
    and "rv_pc v = RvRedis \<Longrightarrow> cs_rows s' = cs_rows s \<and> cs_redis s' = (cs_redis s)(rv_cred v := None) \<and>
      cs_nodes s' = cs_nodes s \<and> cs_requests s' = cs_requests s \<and> cs_revocations s' = R @ [v\<lparr>rv_pc := RvPublish\<rparr>]"
    and "rv_pc v = RvPublish \<Longrightarrow> cs_rows s' = cs_rows s \<and> cs_redis s' = cs_redis s \<and>
      cs_nodes s' = map (\<lambda>x. x\<lparr>nd_inbox := nd_inbox x @ [rv_cred v]\<rparr>) (cs_nodes s) \<and> cs_requests s' = cs_requests s"
  using step R
  by (auto simp: revoke_step_def Let_def replace_rows_def RedisCacheInvalidate_def publish_def split: if_splits)

lemma revoke_run:
  assumes run: "cache_run env (revoke_acts (length (cs_revocations st)) n i org) st = Some st1"
    and row: "c \<in> set (cs_rows st)" "revocable i org c" and all: "\<And>c. c \<in> set (cs_rows st) \<Longrightarrow> live_row i c \<Longrightarrow> cr_org c = Some org"
  shows "dead i st1 \<and> cs_redis st1 i = None \<and> cs_requests st1 = cs_requests st \<and>
    length (cs_nodes st1) = length (cs_nodes st) \<and>
    (\<forall>m < length (cs_nodes st). i \<in> set (nd_inbox (cs_nodes st1 ! m)) \<and>
       nd_flight (cs_nodes st1 ! m) = nd_flight (cs_nodes st ! m))"
proof -
  let ?R = "cs_revocations st" and ?v = "\<lparr>rv_node = n, rv_cred = i, rv_pc = RvUpdate org\<rparr>"
  let ?s0 = "new_revocation n i (RvUpdate org) st"
  have four: "replicate 4 x = [x, x, x, x]" for x :: cache_act by (simp add: numeral_eq_Suc)
  have n: "n < length (cs_nodes st)" using run by (auto simp: revoke_acts_def split: if_splits)
  then have run0: "cache_run env (replicate 4 (DoRevocation (length ?R) True)) ?s0 = Some st1"
    using run by (simp add: revoke_acts_def)
  from cache_run_Cons(1) [OF run0 [unfolded four]] obtain s1 where
    s1: "revoke_step True (length ?R) ?s0 = Some s1" and r1: "cache_run env [DoRevocation (length ?R) True,
      DoRevocation (length ?R) True, DoRevocation (length ?R) True] s1 = Some st1" by auto
  from cache_run_Cons(1) [OF r1] obtain s2 where
    s2: "revoke_step True (length ?R) s1 = Some s2" and r2: "cache_run env [DoRevocation (length ?R) True,
      DoRevocation (length ?R) True] s2 = Some st1" by auto
  from cache_run_Cons(1) [OF r2] obtain s3 where
    s3: "revoke_step True (length ?R) s2 = Some s3" and r3: "cache_run env [DoRevocation (length ?R) True] s3 = Some st1" by auto
  have s4: "revoke_step True (length ?R) s3 = Some st1" using cache_run_Cons(2) [OF r3] by simp
  note s = s1 s2 s3 s4
  have "cs_revocations ?s0 = ?R @ [?v]" by (simp add: new_revocation_def)
  note a = revoke_steps(1) [OF this s(1), of org c, simplified]
  have a': "cs_rows s1 = map (\<lambda>c. if revocable i org c then c\<lparr>cr_revoked_at := Some (cs_now st)\<rparr> else c) (cs_rows st)"
    "cs_redis s1 = cs_redis st" "cs_nodes s1 = cs_nodes st" "cs_requests s1 = cs_requests st"
    "cs_revocations s1 = ?R @ [?v\<lparr>rv_pc := RvLocal\<rparr>]"
    using a row by (simp_all add: new_revocation_def)
  note b = revoke_steps(2) [OF a'(5) s(2), simplified]
  then have b5: "cs_revocations s2 = ?R @ [?v\<lparr>rv_pc := RvRedis\<rparr>]" by simp
  note c = revoke_steps(3) [OF b5 s(3), simplified]
  then have c5: "cs_revocations s3 = ?R @ [?v\<lparr>rv_pc := RvPublish\<rparr>]" by simp
  note d = revoke_steps(4) [OF c5 s(4), simplified]
  have "cs_rows st1 = cs_rows s3" "cs_rows s3 = cs_rows s2" "cs_rows s2 = cs_rows s1"
    by (rule d [THEN conjunct1] c [THEN conjunct1] b [THEN conjunct1])+
  then have rows: "cs_rows st1 = map (\<lambda>c. if revocable i org c then c\<lparr>cr_revoked_at := Some (cs_now st)\<rparr> else c) (cs_rows st)"
    by (simp only: a'(1))
  have redis: "cs_redis st1 = cs_redis s3" "cs_redis s3 = (cs_redis s2)(i := None)"
    by (rule d [THEN conjunct2, THEN conjunct1] c [THEN conjunct2, THEN conjunct1])+
  have nodes: "cs_nodes st1 = map (\<lambda>x. x\<lparr>nd_inbox := nd_inbox x @ [i]\<rparr>) (cs_nodes s3)" "cs_nodes s3 = cs_nodes s2"
    "cs_nodes s2 = (cs_nodes s1)[n := forget_local i (cs_nodes s1 ! n)]"
    using d c b by blast+
  have reqs: "cs_requests st1 = cs_requests s3" "cs_requests s3 = cs_requests s2" "cs_requests s2 = cs_requests s1"
    using d c b by blast+
  have rest: "cs_redis st1 i = None" "cs_requests st1 = cs_requests st"
      "cs_nodes st1 = map (\<lambda>x. x\<lparr>nd_inbox := nd_inbox x @ [i]\<rparr>) ((cs_nodes st)[n := forget_local i (cs_nodes st ! n)])"
    by (simp_all only: redis reqs nodes a' fun_upd_same)
  have "\<not> live_row i (if revocable i org c then c\<lparr>cr_revoked_at := Some (cs_now st)\<rparr> else c)"
    if "c \<in> set (cs_rows st)" for c
    by (cases "live_row i c") (simp_all add: revocable_def all [OF that] live_row_def)
  then have "dead i st1" unfolding dead_def rows set_map by blast
  moreover have "nd_flight (cs_nodes st1 ! m) = nd_flight (cs_nodes st ! m)" if "m < length (cs_nodes st)" for m
    using that by (cases "m = n") (simp_all add: rest(3))
  moreover have "i \<in> set (nd_inbox (cs_nodes st1 ! m))" if "m < length (cs_nodes st)" for m
    using that by (simp add: rest(3))
  ultimately show ?thesis by (simp add: rest(1,2)) (simp add: rest(3))
qed

text \<open>
  C25: A revocation that meets no request for its credential under way is final: from the moment an
  instance has handled its messages, no later request on it is given the key, by the proxy or
  directly, from any tier.
\<close>

theorem revocation_effective:
  assumes "cache_reachable env D st" and "env_ok env"
    and idle: "\<forall>r \<in> set (cs_requests st). rq_cred r = i \<longrightarrow> rq_pc r = Finished"
    and row: "c \<in> set (cs_rows st)" "revocable i org c"
    and all: "\<forall>c \<in> set (cs_rows st). live_row i c \<longrightarrow> cr_org c = Some org"
    and run: "cache_run env (revoke_acts (length (cs_revocations st)) n i org) st = Some st1"
      "cache_run env acts1 st1 = Some st2" "cache_run env acts2 st2 = Some st3"
    and acts: "\<forall>a \<in> set (acts1 @ acts2). spares i a \<and> lossless a"
    and m: "m < length (cs_nodes st)" "i \<notin> set (nd_inbox (cs_nodes st2 ! m))"
    and r: "length (cs_requests st2) \<le> k" "k < length (cs_requests st3)" "rq_cred (cs_requests st3 ! k) = i"
      "rq_node (cs_requests st3 ! k) = m"
  shows "rq_sent (cs_requests st3 ! k) = None"
proof -
  have inv: "cache_inv env D st" using inv_reachable [OF assms(1,2)] by simp
  note rv = revoke_run [OF run(1) row] all
  have "nd_flight (cs_nodes st ! x) i = None" if "x < length (cs_nodes st)" for x
  proof (rule ccontr)
    assume "nd_flight (cs_nodes st ! x) i \<noteq> None"
    then obtain l where "nd_flight (cs_nodes st ! x) i = Some l" by blast
    then have "l < length (cs_requests st)" "leading (rq_pc (cs_requests st ! l))" "rq_cred (cs_requests st ! l) = i"
      using inv that unfolding cache_inv_def flights_ok_def by blast+
    then show False using idle by auto
  qed
  then have "settled i (length (cs_requests st)) st1"
    using rv idle cache_inv_node [OF inv] by (auto simp: settled_def quiet_request_def)
  from settled_run [OF run(2) this] acts
  have s2: "settled i (length (cs_requests st)) st2" and len: "length (cs_nodes st2) = length (cs_nodes st)"
    using rv by auto
  have "refused i m (length (cs_requests st2)) st2"
    using s2 m len by (auto simp: refused_def settled_def)
  with settled_run [OF run(3) s2, of m "length (cs_requests st2)"] acts m(1) len
  have "refused i m (length (cs_requests st2)) st3" by simp
  then show ?thesis using r by (simp add: refused_def)
qed

section \<open>Runs\<close>

fun prompt_run :: "cache_env \<Rightarrow> int \<Rightarrow> cache_act list \<Rightarrow> cache_st \<Rightarrow> bool" where
  "prompt_run env D [] st \<longleftrightarrow> True"
| "prompt_run env D (a # acts) st \<longleftrightarrow>
     (case cache_do env a st of None \<Rightarrow> True | Some st1 \<Rightarrow> prompt D st1 \<and> prompt_run env D acts st1)"

lemma prompt_run_reachable:
  "cache_reachable env D st \<Longrightarrow> prompt_run env D acts st \<Longrightarrow> cache_run env acts st = Some st' \<Longrightarrow> cache_reachable env D st'"
  by (induction acts arbitrary: st) (auto split: option.splits intro: cache_reachable.step)

text \<open>A service that wraps nothing, and a credential of organisation 7.\<close>

definition plain_env :: cache_env where
  "plain_env = \<lparr>ke_unwrap = Some, ke_decrypt = (\<lambda>ek d. if d = ''dek'' then Some ek else None),
     ke_ustr = (\<lambda>u. show_nat (unat u)), ke_redis_ttl = 1800, ke_hard_expiry = 900\<rparr>"

definition demo_row :: credential where
  "demo_row = \<lparr>cr_id = ''c'', cr_org = Some 7, cr_base_url = ''https://up'', cr_auth_scheme = ''bearer'',
     cr_encrypted_key = ''sk'', cr_wrapped_dek = ''dek'', cr_provider_id = ''p'', cr_revoked_at = None\<rparr>"

lemma plain_env_ok: "env_ok plain_env"
proof -
  have "u = v" if "show_nat (unat u) = show_nat (unat v)" for u v :: uuid
  proof -
    have "Some (unat u) = Some (unat v)" by (simp only: read_show_nat [symmetric] that)
    then show ?thesis by (simp only: option.inject word_unat_eq_iff)
  qed
  then show ?thesis unfolding env_ok_def plain_env_def inj_def by (auto split: if_splits)
qed

text \<open>One proxied request from the empty caches, then one from the memory of the instance.\<close>

definition proxy_acts :: "cache_act list" where
  "proxy_acts = [DoWrite demo_row, DoProxy 0 ''c''] @ replicate 12 (DoRequest 0 True) @
     [DoWait 5, DoProxy 0 ''c''] @ replicate 3 (DoRequest 1 True)"

definition after :: "cache_act list \<Rightarrow> cache_st" where
  "after acts = the (cache_run plain_env acts (cache_start 100 2))"

lemma after_reachable:
  assumes "prompt_run plain_env 60 acts (cache_start 100 2)" and "cache_run plain_env acts (cache_start 100 2) \<noteq> None"
  shows "cache_reachable plain_env 60 (after acts)" and "cache_run plain_env acts (cache_start 100 2) = Some (after acts)"
proof -
  show run: "cache_run plain_env acts (cache_start 100 2) = Some (after acts)" using assms(2) by (simp add: after_def)
  show "cache_reachable plain_env 60 (after acts)"
    by (rule prompt_run_reachable [OF cache_reachable.start assms(1) run]) simp
qed


lemma revoked_refused_by_proxy_witness:
  "rq_sent (cs_requests (the (cache_run plain_env ([DoProxy 1 ''c''] @ replicate 2 (DoRequest 2 True))
     (after (proxy_acts @ revoke_acts 0 0 ''c'' 7)))) ! 2) = None"
proof (rule revoked_refused_by_proxy [where st = "after (proxy_acts @ revoke_acts 0 0 ''c'' 7)" and i = "''c''"
      and env = plain_env and acts = "[DoProxy 1 ''c''] @ replicate 2 (DoRequest 2 True)"])
  let ?st = "after (proxy_acts @ revoke_acts 0 0 ''c'' 7)"
  let ?acts = "[DoProxy 1 ''c''] @ replicate 2 (DoRequest 2 True)"
  show "\<forall>c \<in> set (cs_rows ?st). \<not> live_row ''c'' c" by code_simp
  have "cache_run plain_env ?acts ?st \<noteq> None" by code_simp
  then show "cache_run plain_env ?acts ?st = Some (the (cache_run plain_env ?acts ?st))" by simp
  show "length (cs_requests ?st) \<le> 2" "2 < length (cs_requests (the (cache_run plain_env ?acts ?st)))"
    "rq_cred (cs_requests (the (cache_run plain_env ?acts ?st)) ! 2) = ''c''"
    "rq_proxied (cs_requests (the (cache_run plain_env ?acts ?st)) ! 2)" by code_simp+
qed simp

lemma cache_run_append:
  "cache_run env (as @ bs) st = (case cache_run env as st of None \<Rightarrow> None | Some st1 \<Rightarrow> cache_run env bs st1)"
  by (induction as arbitrary: st) (simp_all split: option.splits)

lemma after_append:
  assumes "cache_run plain_env (as @ bs) (cache_start 100 2) \<noteq> None"
  shows "cache_run plain_env as (cache_start 100 2) \<noteq> None"
    and "cache_run plain_env bs (after as) = Some (after (as @ bs))"
  using assms by (auto simp: after_def cache_run_append split: option.splits)

text \<open>Organisation 7 revokes its credential once the two requests are over; the first instance hears of it.\<close>

definition revoke_early :: "cache_act list" where
  "revoke_early = proxy_acts @ [DoRequest 1 True]"

definition revoke_late :: "cache_act list" where
  "revoke_late = [DoLookup 0 ''c'' 7] @ replicate 6 (DoRequest 2 True)"

lemma revocation_effective_witness:
  "rq_sent (cs_requests (after (((revoke_early @ revoke_acts 0 0 ''c'' 7) @ [DoMessage 0]) @ revoke_late)) ! 2) = None"
proof -
  let ?s = "revoke_early @ revoke_acts 0 0 ''c'' 7" and ?t = "(revoke_early @ revoke_acts 0 0 ''c'' 7) @ [DoMessage 0]"
  have full: "cache_run plain_env (?t @ revoke_late) (cache_start 100 2) \<noteq> None" by code_simp
  note t = after_append [OF full]
  note s = after_append [OF t(1)]
  note e = after_append [OF s(1)]
  have "prompt_run plain_env 60 revoke_early (cache_start 100 2)" by code_simp
  note reach = after_reachable(1) [OF this e(1)]
  have idle: "\<forall>r \<in> set (cs_requests (after revoke_early)). rq_cred r = ''c'' \<longrightarrow> rq_pc r = Finished" by code_simp
  have "demo_row \<in> set (cs_rows (after revoke_early))" by code_simp
  moreover have "revocable ''c'' 7 demo_row" by code_simp
  moreover have "\<forall>c \<in> set (cs_rows (after revoke_early)). live_row ''c'' c \<longrightarrow> cr_org c = Some 7" by code_simp
  moreover have "length (cs_revocations (after revoke_early)) = 0" by code_simp
  with e(2) have "cache_run plain_env (revoke_acts (length (cs_revocations (after revoke_early))) 0 ''c'' 7)
      (after revoke_early) = Some (after ?s)" by simp
  moreover have "\<forall>a \<in> set ([DoMessage 0] @ revoke_late). spares ''c'' a \<and> lossless a"
    by (simp add: revoke_late_def spares_def lossless_def)
  moreover have "0 < length (cs_nodes (after revoke_early))" "''c'' \<notin> set (nd_inbox (cs_nodes (after ?t) ! 0))"
    "length (cs_requests (after ?t)) \<le> 2" "2 < length (cs_requests (after (?t @ revoke_late)))"
    "rq_cred (cs_requests (after (?t @ revoke_late)) ! 2) = ''c''"
    "rq_node (cs_requests (after (?t @ revoke_late)) ! 2) = 0" by code_simp+
  ultimately show ?thesis
    using revocation_effective [OF reach plain_env_ok idle _ _ _ _ s(2) t(2)] by blast
qed

section \<open>What the tiers do not guarantee\<close>





end
