(* ===== verification/Upkeep.thy ===== *)
theory Upkeep
  imports Ingest "HOL-Library.List_Lexorder" "HOL-Library.Char_ord"
begin

text \<open>
  The other tasks of a knowledge source: pruning (\<open>internal/rag/tasks/prune.go\<close>) deletes the points
  of documents the source no longer lists, the permission sync (\<open>perm_sync.go\<close>) rewrites the access
  lists of its points, and the goroutine of \<open>heartbeat.go\<close> reports that a worker is alive. The
  commands of the vector index (\<open>internal/rag/qdrant\<close>) and the listings of a connector are functions
  of \<open>upkeep_env\<close>.
\<close>

section \<open>The environment\<close>

text \<open>What a listing channel carries; an item may have neither a document nor a failure.\<close>

datatype slim_item = SlimFailure ConnectorFailure | SlimDoc string | SlimEmpty

record ExternalAccess =
  xa_Emails :: "string list"
  xa_IsPublic :: bool

datatype access_item =
    AccessFailure ConnectorFailure
  | AccessDoc string "ExternalAccess option"
  | AccessEmpty

record ScrolledPoint =
  sp_ID :: string
  sp_Payload :: "(string \<times> json) list"

record ScrollPage =
  pg_Points :: "ScrolledPoint list"
  pg_NextOffset :: "string option"

record ScrollRequest =
  sq_Filter :: "(string \<times> string) list"
  sq_Limit :: nat
  sq_Offset :: "string option"

text \<open>
  A connector without the capability has no listing. \<open>uk_order\<close> is the order in which the runtime
  walks over the keys of a map.
\<close>

record ('v, 'w) upkeep_env =
  uk_rag :: "('v, 'w) rag_env"
  uk_slim :: "rag_source \<Rightarrow> ('w \<Rightarrow> (string + slim_item list) \<times> 'w) option"
  uk_access :: "rag_source \<Rightarrow> ('w \<Rightarrow> (string + access_item list) \<times> 'w) option"
  uk_scroll :: "ScrollRequest \<Rightarrow> 'w \<Rightarrow> (string + ScrollPage) \<times> 'w"
  uk_delete_ids :: "string list \<Rightarrow> 'w \<Rightarrow> string option \<times> 'w"
  uk_set_payload :: "string list \<Rightarrow> (string \<times> json) list \<Rightarrow> 'w \<Rightarrow> string option \<times> 'w"
  uk_order :: "string list \<Rightarrow> 'w \<Rightarrow> string list"

definition DeleteByIDs :: "('v, 'w) upkeep_env \<Rightarrow> string list \<Rightarrow> 'w \<Rightarrow> string option \<times> 'w" where
  "DeleteByIDs env ids w = (if ids = [] then (None, w) else uk_delete_ids env ids w)"

definition SetPayload ::
  "('v, 'w) upkeep_env \<Rightarrow> string list \<Rightarrow> (string \<times> json) list \<Rightarrow> 'w \<Rightarrow> string option \<times> 'w" where
  "SetPayload env ids payload w = (if ids = [] then (None, w) else uk_set_payload env ids payload w)"

definition Scroll :: "('v, 'w) upkeep_env \<Rightarrow> ScrollRequest \<Rightarrow> 'w \<Rightarrow> (string + ScrollPage) \<times> 'w" where
  "Scroll env req w = uk_scroll env (if sq_Limit req = 0 then req\<lparr>sq_Limit := 256\<rparr> else req) w"

definition BuildSourceFilter :: "string \<Rightarrow> string \<Rightarrow> (string \<times> string) list" where
  "BuildSourceFilter orgID sourceID = [(''org_id'', orgID), (''rag_source_id'', sourceID)]"

section \<open>Pruning\<close>

fun drain_slim :: "slim_item list \<Rightarrow> string list \<Rightarrow> string + string list" where
  "drain_slim [] keep = Inr keep"
| "drain_slim (SlimFailure f # items) keep = Inl (''slim listing failure: '' @ cf_Message f)"
| "drain_slim (SlimEmpty # items) keep = drain_slim items keep"
| "drain_slim (SlimDoc i # items) keep = drain_slim items (keep @ [i])"

definition drainSlim ::
  "('w \<Rightarrow> (string + slim_item list) \<times> 'w) \<Rightarrow> 'w \<Rightarrow> (string + string list) \<times> 'w" where
  "drainSlim listing w =
     (case listing w of
        (Inl e, w1) \<Rightarrow> (Inl e, w1)
      | (Inr items, w1) \<Rightarrow> (drain_slim items [], w1))"

definition doc_id_of :: "(string \<times> json) list \<Rightarrow> string" where
  "doc_id_of payload = (case map_of payload ''doc_id'' of Some (JStr s) \<Rightarrow> s | _ \<Rightarrow> [])"

definition stale_points :: "string set \<Rightarrow> ScrolledPoint list \<Rightarrow> string list" where
  "stale_points keepSet points =
     map sp_ID (filter (\<lambda>p. doc_id_of (sp_Payload p) \<notin> keepSet \<and> sp_ID p \<noteq> []) points)"

text \<open>The loop over the pages, which ends when the index says so.\<close>

partial_function (option) scroll_pages ::
  "('v, 'w) upkeep_env \<Rightarrow> (string \<times> string) list \<Rightarrow> string set \<Rightarrow> string option \<Rightarrow> string list \<Rightarrow> 'w
     \<Rightarrow> ((string + string list) \<times> 'w) option"
where
  "scroll_pages env filt keepSet offset stale w =
     (case Scroll env \<lparr>sq_Filter = filt, sq_Limit = 512, sq_Offset = offset\<rparr> w of
        (Inl e, w1) \<Rightarrow> Some (Inl e, w1)
      | (Inr page, w1) \<Rightarrow>
          (case pg_NextOffset page of
             None \<Rightarrow> Some (Inr (stale @ stale_points keepSet (pg_Points page)), w1)
           | Some next \<Rightarrow>
               scroll_pages env filt keepSet (Some next) (stale @ stale_points keepSet (pg_Points page)) w1))"

declare scroll_pages.simps [code]

definition scrollStalePoints ::
  "('v, 'w) upkeep_env \<Rightarrow> rag_source \<Rightarrow> string set \<Rightarrow> 'w \<Rightarrow> ((string + string list) \<times> 'w) option" where
  "scrollStalePoints env src keepSet w =
     scroll_pages env
       (BuildSourceFilter (re_ustr (uk_rag env) (rs_org src)) (re_ustr (uk_rag env) (rs_id src)))
       keepSet None [] w"

definition touchLastPruned :: "uuid \<Rightarrow> 'w rag_db \<Rightarrow> 'w rag_db" where
  "touchLastPruned sourceID d = update_source sourceID (\<lambda>s. s\<lparr>rs_last_pruned := Some (db_now d)\<rparr>) d"

text \<open>The part of the task that follows the listing.\<close>

definition prune_index ::
  "('v, 'w) upkeep_env \<Rightarrow> rag_source \<Rightarrow> string list \<Rightarrow> 'w rag_db \<Rightarrow> (string option \<times> 'w rag_db) option" where
  "prune_index env src keep d =
     (let prune = ''prune '' @ re_ustr (uk_rag env) (rs_id src) in
      (case scrollStalePoints env src (set keep) (rd_world d) of
         None \<Rightarrow> None
       | Some (Inl e, w1) \<Rightarrow> Some (Some (prune @ '': scroll stale points: '' @ e), d\<lparr>rd_world := w1\<rparr>)
       | Some (Inr stalePointIDs, w1) \<Rightarrow>
           (case DeleteByIDs env stalePointIDs w1 of
              (Some e, w2) \<Rightarrow> Some (Some (prune @ '': qdrant delete: '' @ e), d\<lparr>rd_world := w2\<rparr>)
            | (None, w2) \<Rightarrow> Some (None, touchLastPruned (rs_id src) (d\<lparr>rd_world := w2\<rparr>)))))"

definition no_capability :: "string \<Rightarrow> ('v, 'w) upkeep_env \<Rightarrow> rag_source \<Rightarrow> string \<Rightarrow> string" where
  "no_capability task env src capability =
     task @ '' '' @ re_ustr (uk_rag env) (rs_id src) @ '': connector kind '' @ CHR 0x22 # rs_kind src @ [CHR 0x22]
       @ '' does not implement '' @ capability"

definition HandlePrune ::
  "('v, 'w) upkeep_env \<Rightarrow> uuid \<Rightarrow> 'w rag_db \<Rightarrow> (string option \<times> 'w rag_db) option" where
  "HandlePrune env sourceID d =
     (if sourceID = uuid_nil then Some (Some ''rag:prune: rag_source_id required'', d)
      else (case find_source d sourceID of
        None \<Rightarrow> Some (Some (''ingest: source '' @ re_ustr (uk_rag env) sourceID @ '': skip retry for the task''), d)
      | Some src \<Rightarrow>
          (case on_world (re_build (uk_rag env) src) d of
             (Inl e, d1) \<Rightarrow> Some (Some e, d1)
           | (Inr _, d1) \<Rightarrow>
               (case uk_slim env src of
                  None \<Rightarrow> Some (Some (no_capability ''prune'' env src ''SlimConnector''), d1)
                | Some listing \<Rightarrow>
                    (case on_world (drainSlim listing) d1 of
                       (Inl e, d2) \<Rightarrow>
                         Some (Some (''prune '' @ re_ustr (uk_rag env) (rs_id src) @ '': list slim docs: '' @ e), d2)
                     | (Inr keep, d2) \<Rightarrow> prune_index env src keep d2)))))"

section \<open>Permission sync\<close>

record aclUpdate =
  au_docID :: string
  au_acl :: "string list"
  au_isPublic :: bool

text \<open>
  \<open>joinSorted\<close>: an insertion sort on a copy of the slice, then every element followed by a comma.
  \<open>sift_down\<close> is its inner loop at position \<open>j\<close>.
\<close>

fun sift_down :: "nat \<Rightarrow> string list \<Rightarrow> string list" where
  "sift_down 0 cp = cp"
| "sift_down (Suc j) cp =
     (if cp ! Suc j < cp ! j then sift_down j (cp[Suc j := cp ! j, j := cp ! Suc j]) else cp)"

definition insertion_sorted :: "string list \<Rightarrow> string list" where
  "insertion_sorted ss = fold sift_down [1 ..< length ss] ss"

definition joinSorted :: "string list \<Rightarrow> string" where
  "joinSorted ss = concat (map (\<lambda>s. s @ '','') (insertion_sorted ss))"

definition acl_key :: "aclUpdate \<Rightarrow> string" where
  "acl_key u = (if au_isPublic u then ''true'' else ''false'') @ ''|'' @ joinSorted (au_acl u)"

definition acl_payload :: "aclUpdate \<Rightarrow> (string \<times> json) list" where
  "acl_payload u = [(''acl'', JArr (map JStr (au_acl u))), (''is_public'', JBool (au_isPublic u))]"

text \<open>The identifiers collected under a key, and the update that was stored last under it.\<close>

definition acl_group :: "('v, 'w) upkeep_env \<Rightarrow> rag_source \<Rightarrow> aclUpdate list \<Rightarrow> string \<Rightarrow> string list" where
  "acl_group env src batch key =
     map (\<lambda>u. ix_point_id (re_index (uk_rag env)) (re_ustr (uk_rag env) (rs_org src)) (re_ustr (uk_rag env) (rs_id src))
                (au_docID u))
       (filter (\<lambda>u. acl_key u = key) batch)"

definition acl_spec :: "aclUpdate list \<Rightarrow> string \<Rightarrow> aclUpdate" where
  "acl_spec batch key = last (filter (\<lambda>u. acl_key u = key) batch)"

fun push_groups ::
  "('v, 'w) upkeep_env \<Rightarrow> rag_source \<Rightarrow> aclUpdate list \<Rightarrow> string list \<Rightarrow> 'w \<Rightarrow> string option \<times> 'w" where
  "push_groups env src batch [] w = (None, w)"
| "push_groups env src batch (key # keys) w =
     (let ids = acl_group env src batch key in
      (case SetPayload env ids (acl_payload (acl_spec batch key)) w of
         (Some e, w1) \<Rightarrow> (Some (''set_payload ('' @ show_int (int (length ids)) @ '' docs): '' @ e), w1)
       | (None, w1) \<Rightarrow> push_groups env src batch keys w1))"

definition pushACLToQdrant ::
  "('v, 'w) upkeep_env \<Rightarrow> rag_source \<Rightarrow> aclUpdate list \<Rightarrow> 'w \<Rightarrow> string option \<times> 'w" where
  "pushACLToQdrant env src batch w =
     push_groups env src batch (uk_order env (remdups (map acl_key batch)) w) w"

definition perm_batch_size :: nat where "perm_batch_size = 200"

definition flush_access ::
  "('v, 'w) upkeep_env \<Rightarrow> rag_source \<Rightarrow> aclUpdate list \<Rightarrow> 'w \<Rightarrow> string option \<times> 'w" where
  "flush_access env src batch w = (if batch = [] then (None, w) else pushACLToQdrant env src batch w)"

fun drainPermSyncStream ::
  "('v, 'w) upkeep_env \<Rightarrow> rag_source \<Rightarrow> access_item list \<Rightarrow> aclUpdate list \<Rightarrow> 'w \<Rightarrow> string option \<times> 'w" where
  "drainPermSyncStream env src [] batch w = flush_access env src batch w"
| "drainPermSyncStream env src (AccessFailure f # items) batch w = drainPermSyncStream env src items batch w"
| "drainPermSyncStream env src (AccessEmpty # items) batch w = drainPermSyncStream env src items batch w"
| "drainPermSyncStream env src (AccessDoc i None # items) batch w = drainPermSyncStream env src items batch w"
| "drainPermSyncStream env src (AccessDoc i (Some a) # items) batch w =
     (let batch1 = batch @ [\<lparr>au_docID = i, au_acl = xa_Emails a, au_isPublic = xa_IsPublic a\<rparr>] in
      if length batch1 \<ge> perm_batch_size then
        (case flush_access env src batch1 w of
           (Some e, w1) \<Rightarrow> (Some e, w1)
         | (None, w1) \<Rightarrow> drainPermSyncStream env src items [] w1)
      else drainPermSyncStream env src items batch1 w)"

definition HandlePermSync ::
  "('v, 'w) upkeep_env \<Rightarrow> uuid \<Rightarrow> 'w rag_db \<Rightarrow> string option \<times> 'w rag_db" where
  "HandlePermSync env sourceID d =
     (if sourceID = uuid_nil then (Some ''rag:perm_sync: rag_source_id required'', d)
      else (case find_source d sourceID of
        None \<Rightarrow> (Some (''ingest: source '' @ re_ustr (uk_rag env) sourceID @ '': skip retry for the task''), d)
      | Some src \<Rightarrow>
          (case on_world (re_build (uk_rag env) src) d of
             (Inl e, d1) \<Rightarrow> (Some e, d1)
           | (Inr _, d1) \<Rightarrow>
               (case uk_access env src of
                  None \<Rightarrow> (Some (no_capability ''perm_sync'' env src ''PermSyncConnector''), d1)
                | Some listing \<Rightarrow>
                    (case on_world listing d1 of
                       (Inl e, d2) \<Rightarrow>
                         (Some (''perm_sync '' @ re_ustr (uk_rag env) (rs_id src) @ '': SyncDocPermissions: '' @ e), d2)
                     | (Inr items, d2) \<Rightarrow>
                         (case on_world (drainPermSyncStream env src items []) d2 of
                            (Some e, d3) \<Rightarrow> (Some e, d3)
                          | (None, d3) \<Rightarrow>
                              (None, update_source (rs_id src) (\<lambda>s. s\<lparr>rs_last_perm_sync := Some (db_now d3)\<rparr>) d3)))))))"

section \<open>The heartbeat\<close>

text \<open>
  The goroutine of an attempt: the worker sets \<open>hb_progress\<close> after a batch, a tick writes it and
  clears it, and after \<open>stop\<close> no tick writes.
\<close>

record heartbeatHandle =
  hb_attempt :: uuid
  hb_progress :: bool
  hb_running :: bool

definition startHeartbeat :: "uuid \<Rightarrow> heartbeatHandle" where
  "startHeartbeat attemptID = \<lparr>hb_attempt = attemptID, hb_progress = False, hb_running = True\<rparr>"

definition touchProgress :: "heartbeatHandle \<Rightarrow> heartbeatHandle" where
  "touchProgress h = h\<lparr>hb_progress := True\<rparr>"

definition stop_heartbeat :: "heartbeatHandle \<Rightarrow> heartbeatHandle" where
  "stop_heartbeat h = h\<lparr>hb_running := False\<rparr>"

definition heartbeat_tick :: "heartbeatHandle \<Rightarrow> 'w rag_db \<Rightarrow> heartbeatHandle \<times> 'w rag_db" where
  "heartbeat_tick h d =
     (if hb_running h then (h\<lparr>hb_progress := False\<rparr>, writeHeartbeat (hb_attempt h) (hb_progress h) d) else (h, d))"

end
