(* ===== verification/UpkeepProps.thy ===== *)
theory UpkeepProps
  imports Upkeep
begin

text \<open>
  What pruning and the permission sync do to the points of a vector index. The locale
  \<open>vector_index\<close> states the documented effects of the index's commands on its points.
\<close>

section \<open>Insertion sort\<close>









section \<open>The vector index\<close>

definition matches :: "(string \<times> string) list \<Rightarrow> 'v point \<Rightarrow> bool" where
  "matches filt p \<longleftrightarrow> list_all (\<lambda>(k, v). map_of (pt_Payload p) k = Some (JStr v)) filt"

definition scrolled :: "'v point \<Rightarrow> ScrolledPoint" where
  "scrolled p = \<lparr>sp_ID = pt_ID p, sp_Payload = pt_Payload p\<rparr>"

definition page_of :: "nat \<Rightarrow> 'v point list \<Rightarrow> ScrollPage" where
  "page_of n ps = \<lparr>pg_Points = map scrolled (take n ps),
     pg_NextOffset = (case drop n ps of [] \<Rightarrow> None | p # _ \<Rightarrow> Some (pt_ID p))\<rparr>"

definition from_offset :: "string option \<Rightarrow> 'v point list \<Rightarrow> 'v point list" where
  "from_offset offset ps = (case offset of None \<Rightarrow> ps | Some i \<Rightarrow> dropWhile (\<lambda>p. pt_ID p \<noteq> i) ps)"

definition merged :: "(string \<times> json) list \<Rightarrow> 'v point \<Rightarrow> 'v point" where
  "merged payload p = p\<lparr>pt_Payload := payload @ filter (\<lambda>(k, _). k \<notin> fst ` set payload) (pt_Payload p)\<rparr>"

definition of_source :: "('v, 'w) upkeep_env \<Rightarrow> rag_source \<Rightarrow> 'v point \<Rightarrow> bool" where
  "of_source env src =
     matches (BuildSourceFilter (re_ustr (uk_rag env) (rs_org src)) (re_ustr (uk_rag env) (rs_id src)))"

text \<open>
  \<open>pts\<close> are the points in the order of a scroll. A command that fails changes at most the points it
  names; connectors, the tokenizer and the embedding service change none. Identifiers are UUIDs.
\<close>

locale vector_index =
  fixes env :: "('v, 'w) upkeep_env" and pts :: "'w \<Rightarrow> 'v point list"
  assumes build_pts: "pts (snd (re_build (uk_rag env) src w)) = pts w"
    and slim_pts: "uk_slim env src = Some listing \<Longrightarrow> pts (snd (listing w)) = pts w"
    and access_pts: "uk_access env src = Some alisting \<Longrightarrow> pts (snd (alisting w)) = pts w"
    and post_pts: "pts (snd (ix_post (re_index (uk_rag env)) inputs w)) = pts w"
    and distinct_pts: "distinct (map pt_ID (pts w))"
    and named_pts: "p \<in> set (pts w) \<Longrightarrow> pt_ID p \<noteq> []"
    and order_perm: "mset (uk_order env ks w) = mset ks"
    and scroll_pts: "pts (snd (uk_scroll env req w)) = pts w"
    and scroll_page: "uk_scroll env req w = (Inr page, w') \<Longrightarrow> 0 < sq_Limit req \<Longrightarrow>
          sq_Offset req \<in> insert None (Some ` pt_ID ` set (pts w)) \<Longrightarrow>
          page = page_of (sq_Limit req) (from_offset (sq_Offset req) (filter (matches (sq_Filter req)) (pts w)))"
    and delete_ids: "uk_delete_ids env ids w = (None, w') \<Longrightarrow> pts w' = filter (\<lambda>p. pt_ID p \<notin> set ids) (pts w)"
    and set_payload: "uk_set_payload env ids payload w = (None, w') \<Longrightarrow>
          pts w' = map (\<lambda>p. if pt_ID p \<in> set ids then merged payload p else p) (pts w)"
    and set_payload_fails: "uk_set_payload env ids payload w = (Some e, w') \<Longrightarrow>
          \<exists>f. (\<forall>p. pt_ID (f p) = pt_ID p) \<and> pts w' = map (\<lambda>p. if pt_ID p \<in> set ids then f p else p) (pts w)"
    and delete_docs: "ix_delete (re_index (uk_rag env)) source docs w = (None, w') \<Longrightarrow>
          pts w' = filter (\<lambda>p. \<not> (map_of (pt_Payload p) ''rag_source_id'' = Some (JStr source) \<and>
                                (\<exists>i \<in> set docs. map_of (pt_Payload p) ''doc_id'' = Some (JStr i)))) (pts w)"
    and upsert: "ix_upsert (re_index (uk_rag env)) ps w = (None, w') \<Longrightarrow>
          set (pts w') \<subseteq> set ps \<union> {p \<in> set (pts w). pt_ID p \<notin> pt_ID ` set ps} \<and>
          pt_ID ` set (pts w') = pt_ID ` set ps \<union> pt_ID ` set (pts w)"
begin

text \<open>The scroll over the pages collects the stale points of the whole source.\<close>

lemma scroll_pages_all:
  assumes "filter (matches filt) (pts w) = pre @ rest"
    and "offset = None \<and> pre = [] \<or> rest \<noteq> [] \<and> offset = Some (pt_ID (hd rest))"
  shows "\<exists>r w'. scroll_pages env filt keep offset stale w = Some (r, w') \<and> pts w' = pts w \<and>
    (\<forall>ids. r = Inr ids \<longrightarrow> ids = stale @ stale_points keep (map scrolled rest))"
  using assms
proof (induction "length rest" arbitrary: pre rest offset stale w rule: less_induct)
  case less
  let ?req = "\<lparr>sq_Filter = filt, sq_Limit = 512, sq_Offset = offset\<rparr>"
  obtain r1 w1 where sc: "uk_scroll env ?req w = (r1, w1)" by fastforce
  have w1: "pts w1 = pts w" using scroll_pts [of ?req w] sc by simp
  have Sc: "Scroll env ?req w = (r1, w1)" using sc by (simp add: Scroll_def)
  show ?case
  proof (cases r1)
    case (Inl e)
    then show ?thesis using Sc w1 by (simp add: scroll_pages.simps)
  next
    case (Inr page)
    have "rest \<noteq> [] \<Longrightarrow> hd rest \<in> set (pts w)"
      using less.prems(1) by (metis filter_is_subset hd_in_set in_set_conv_decomp set_append subsetD UnI2)
    then have off: "offset \<in> insert None (Some ` pt_ID ` set (pts w))" using less.prems(2) by auto
    have "distinct (map pt_ID (pre @ rest))"
      using distinct_pts [of w] less.prems(1) by (metis distinct_map_filter)
    then have "pt_ID p \<noteq> pt_ID (hd rest)" if "p \<in> set pre" "rest \<noteq> []" for p
    proof -
      have "pt_ID (hd rest) \<notin> pt_ID ` set pre" using \<open>distinct (map pt_ID (pre @ rest))\<close> that(2) by (cases rest) auto
      then show ?thesis using that(1) by (metis image_eqI)
    qed
    then have "from_offset offset (pre @ rest) = rest"
      using less.prems(2) by (cases rest) (auto simp: from_offset_def dropWhile_append)
    then have page: "page = page_of 512 rest"
      using scroll_page [OF sc [unfolded Inr]] off less.prems(1) by simp
    show ?thesis
    proof (cases "drop 512 rest")
      case Nil
      then have "pg_NextOffset page = None" "map scrolled rest = pg_Points page" by (simp_all add: page page_of_def)
      then show ?thesis using Sc w1 Inr by (simp add: scroll_pages.simps)
    next
      case (Cons p ps)
      then have next': "pg_NextOffset page = Some (pt_ID (hd (drop 512 rest)))" by (simp add: page page_of_def)
      have len: "length (drop 512 rest) < length rest" using Cons by (metis diff_less length_drop length_greater_0_conv list.discI zero_less_numeral drop_Nil)
      have split: "filter (matches filt) (pts w1) = (pre @ take 512 rest) @ drop 512 rest"
        using less.prems(1) w1 by simp
      have "drop 512 rest \<noteq> []" using Cons by simp
      then have "\<exists>r w'. scroll_pages env filt keep (Some (pt_ID (hd (drop 512 rest))))
            (stale @ stale_points keep (pg_Points page)) w1 = Some (r, w') \<and> pts w' = pts w1 \<and>
          (\<forall>ids. r = Inr ids \<longrightarrow>
             ids = (stale @ stale_points keep (pg_Points page)) @ stale_points keep (map scrolled (drop 512 rest)))"
        by (intro less.hyps [OF len split]) simp
      then obtain r w' where
        r: "scroll_pages env filt keep (Some (pt_ID (hd (drop 512 rest))))
              (stale @ stale_points keep (pg_Points page)) w1 = Some (r, w')" "pts w' = pts w1"
          "\<And>ids. r = Inr ids \<Longrightarrow> ids = (stale @ stale_points keep (pg_Points page)) @ stale_points keep (map scrolled (drop 512 rest))"
        by blast
      have "stale_points keep (pg_Points page) @ stale_points keep (map scrolled (drop 512 rest)) =
          stale_points keep (map scrolled rest)"
        by (simp add: page page_of_def stale_points_def flip: map_append filter_append)
      then show ?thesis using Sc w1 Inr next' r by (simp add: scroll_pages.simps)
    qed
  qed
qed

lemma stale_ids:
  "i \<in> set (stale_points keep (map scrolled (filter M (pts w)))) \<longleftrightarrow>
   (\<exists>p \<in> set (pts w). M p \<and> doc_id_of (pt_Payload p) \<notin> keep \<and> i = pt_ID p)"
proof -
  have "stale_points keep (map scrolled (filter M (pts w))) =
      map pt_ID (filter (\<lambda>p. doc_id_of (pt_Payload p) \<notin> keep) (filter M (pts w)))"
    using named_pts [of _ w]
    by (simp add: stale_points_def scrolled_def filter_map comp_def cong: filter_cong)
  then show ?thesis by auto
qed

lemma pt_ID_inj: "p \<in> set (pts w) \<Longrightarrow> q \<in> set (pts w) \<Longrightarrow> pt_ID p = pt_ID q \<Longrightarrow> p = q"
  using distinct_pts [of w] by (auto simp: distinct_map dest: inj_onD)

text \<open>The task after the listing returns; without an error it keeps exactly the listed documents.\<close>

lemma prune_index_result:
  "\<exists>r d'. prune_index env src keep d = Some (r, d') \<and>
     (r = None \<longrightarrow>
       pts (rd_world d') = filter (\<lambda>p. of_source env src p \<longrightarrow> doc_id_of (pt_Payload p) \<in> set keep) (pts (rd_world d)) \<and>
       d' = touchLastPruned (rs_id src) (d\<lparr>rd_world := rd_world d'\<rparr>))"
proof -
  let ?w = "rd_world d" and ?F = "of_source env src"
  have "\<exists>r w'. scrollStalePoints env src (set keep) ?w = Some (r, w') \<and> pts w' = pts ?w \<and>
      (\<forall>ids. r = Inr ids \<longrightarrow> ids = [] @ stale_points (set keep) (map scrolled (filter ?F (pts ?w))))"
    unfolding scrollStalePoints_def of_source_def by (rule scroll_pages_all [where pre = "[]"]) simp_all
  then obtain r w1 where sc: "scrollStalePoints env src (set keep) ?w = Some (r, w1)" "pts w1 = pts ?w"
    "\<And>ids. r = Inr ids \<Longrightarrow> ids = stale_points (set keep) (map scrolled (filter ?F (pts ?w)))" by auto
  show ?thesis
  proof (cases r)
    case (Inl e)
    then show ?thesis using sc(1) by (simp add: prune_index_def)
  next
    case (Inr ids)
    obtain r2 w2 where del: "DeleteByIDs env ids w1 = (r2, w2)" by fastforce
    show ?thesis
    proof (cases r2)
      case (Some e)
      then show ?thesis using sc(1) Inr del by (simp add: prune_index_def Let_def)
    next
      case None
      have "pts w2 = filter (\<lambda>p. pt_ID p \<notin> set ids) (pts w1)"
        using del None delete_ids by (auto simp: DeleteByIDs_def split: if_splits)
      also have "\<dots> = filter (\<lambda>p. ?F p \<longrightarrow> doc_id_of (pt_Payload p) \<in> set keep) (pts ?w)"
        using sc(2,3) Inr stale_ids [of _ "set keep" ?F ?w] pt_ID_inj [of _ ?w] by (auto intro!: filter_cong)
      finally show ?thesis
        using sc(1) Inr del None
        by (simp add: prune_index_def Let_def) (simp add: touchLastPruned_def update_source_def)
    qed
  qed
qed

end

lemma drain_slim_keep:
  "drain_slim items keep = Inr keep' \<Longrightarrow>
   (\<forall>f. SlimFailure f \<notin> set items) \<and> set keep' = set keep \<union> {i. SlimDoc i \<in> set items}"
  by (induction items keep rule: drain_slim.induct) auto

lemma find_source_id: "find_source d i = Some src \<Longrightarrow> rs_id src = i"
  by (auto simp: find_source_def find_Some_iff)

text \<open>
  C35: Pruning is exact: after a run without error a point is gone exactly when it belongs to the source
  and its document was not listed; the other sources keep theirs, and only the source's time of the
  last pruning changes in the tables.
\<close>

theorem prune_exact:
  assumes "vector_index env pts" and "find_source d i = Some src" and "HandlePrune env i d = Some (None, d')"
  shows "\<exists>listing items.
    uk_slim env src = Some listing \<and> fst (listing (snd (re_build (uk_rag env) src (rd_world d)))) = Inr items \<and>
    (\<forall>f. SlimFailure f \<notin> set items) \<and>
    pts (rd_world d') =
      filter (\<lambda>p. of_source env src p \<longrightarrow> SlimDoc (doc_id_of (pt_Payload p)) \<in> set items) (pts (rd_world d)) \<and>
    d' = update_source i (\<lambda>s. s\<lparr>rs_last_pruned := Some (db_now d)\<rparr>) (d\<lparr>rd_world := rd_world d'\<rparr>)"
proof -
  obtain r1 w1 where b: "re_build (uk_rag env) src (rd_world d) = (r1, w1)" by fastforce
  obtain x where "r1 = Inr x" using assms(2,3) b by (cases r1) (auto simp: HandlePrune_def on_world_def split: if_splits)
  then have b: "re_build (uk_rag env) src (rd_world d) = (Inr x, w1)" using b by simp
  obtain listing where l: "uk_slim env src = Some listing"
    using assms(2,3) b by (auto simp: HandlePrune_def on_world_def split: if_splits option.splits)
  obtain r2 w2 where li: "listing w1 = (r2, w2)" by fastforce
  obtain items keep where it: "r2 = Inr items" "drain_slim items [] = Inr keep"
    and p: "prune_index env src keep (d\<lparr>rd_world := w2\<rparr>) = Some (None, d')"
    using assms(2,3) b l li
    by (auto simp: HandlePrune_def on_world_def drainSlim_def split: if_splits option.splits sum.splits)
  have w2: "pts w2 = pts (rd_world d)"
    using vector_index.build_pts [OF assms(1), of src "rd_world d"] vector_index.slim_pts [OF assms(1) l, of w1] b li by simp
  from vector_index.prune_index_result [OF assms(1), of src keep "d\<lparr>rd_world := w2\<rparr>"] p
  have "pts (rd_world d') = filter (\<lambda>p. of_source env src p \<longrightarrow> doc_id_of (pt_Payload p) \<in> set keep) (pts (rd_world d))"
    and d': "d' = touchLastPruned (rs_id src) (d\<lparr>rd_world := rd_world d'\<rparr>)"
    by (auto simp: w2)
  moreover have "touchLastPruned (rs_id src) (d\<lparr>rd_world := rd_world d'\<rparr>) =
      update_source i (\<lambda>s. s\<lparr>rs_last_pruned := Some (db_now d)\<rparr>) (d\<lparr>rd_world := rd_world d'\<rparr>)"
    by (simp add: touchLastPruned_def find_source_id [OF assms(2)])
  ultimately show ?thesis using l b li it drain_slim_keep [OF it(2)] by auto
qed

text \<open>
  Pruning returns: whatever the size of the index, the scroll over its pages ends.
\<close>

theorem prune_returns:
  assumes "vector_index env pts"
  shows "\<exists>r d'. HandlePrune env i d = Some (r, d')"
proof -
  have "\<exists>r d'. prune_index env src keep d1 = Some (r, d')" for src keep d1
    using vector_index.prune_index_result [OF assms, of src keep d1] by blast
  then show ?thesis
    unfolding HandlePrune_def by (auto split: option.splits sum.splits prod.splits)
qed

section \<open>What ingest writes\<close>

context vector_index
begin

text \<open>Requests to the embedding service leave the points alone.\<close>

lemma embed_tries_pts: "pts (snd (embed_tries (re_index (uk_rag env)) inputs n e w)) = pts w"
proof (induction n arbitrary: e w)
  case (Suc n)
  obtain t w1 where p: "ix_post (re_index (uk_rag env)) inputs w = (t, w1)" by fastforce
  have "pts w1 = pts w" using post_pts [of inputs w] p by simp
  then show ?case using p Suc.IH by (cases t) (simp_all add: Let_def)
qed simp

lemma Embed_pts: "pts (snd (Embed (re_index (uk_rag env)) inputs w)) = pts w"
  by (simp add: Embed_def embed_tries_pts del: embed_tries.simps)

lemma embed_groups_pts:
  "e = re_index (uk_rag env) \<Longrightarrow> pts (snd (embedInBudgetedGroups e parts out w)) = pts w"
proof (induction e parts out w rule: embedInBudgetedGroups.induct)
  case (2 e p ps out w)
  obtain r w1 where r: "Embed e (map dp_content (fst (take_group True 0 (p # ps)))) w = (r, w1)" by fastforce
  have w1: "pts w1 = pts w" using Embed_pts 2(2) r by (metis snd_conv)
  show ?case
  proof (cases r)
    case (Inr vecs)
    show ?thesis using 2(1) [OF r [unfolded Inr, symmetric]] r Inr w1 2(2)
      by (simp add: embedInBudgetedGroups.simps del: take_group.simps)
  qed (simp add: embedInBudgetedGroups.simps r w1 del: take_group.simps)
qed (simp add: embedInBudgetedGroups.simps)

end

lemma embed_groups_length:
  "embedInBudgetedGroups e parts out w = (Inr vecs, w1) \<Longrightarrow> length vecs = length out + length parts"
proof (induction e parts out w rule: embedInBudgetedGroups.induct)
  case (2 e p ps out w)
  obtain g rest where g: "take_group True 0 (p # ps) = (g, rest)" by fastforce
  obtain vs w2 where e: "Embed e (map dp_content g) w = (Inr vs, w2)" and rec: "embedInBudgetedGroups e rest (out @ vs) w2 = (Inr vecs, w1)"
    using "2.prems" g by (auto simp: embedInBudgetedGroups.simps simp del: take_group.simps split: prod.splits sum.splits)
  have "length vecs = length (out @ vs) + length rest" using "2.IH" [of "Inr vs" w2 vs] e rec g by simp
  moreover have "length vs = length g" using Embed_length [OF e] by simp
  moreover have "length g + length rest = length (p # ps)" using take_group_append [OF g] by (metis length_append)
  ultimately show ?case by simp
qed (simp add: embedInBudgetedGroups.simps)

text \<open>The name of a part determines its document and its number.\<close>

definition part_name :: "string \<Rightarrow> nat \<Rightarrow> string" where
  "part_name i k = i @ ''-part-'' @ show_int (int k)"

lemma show_int_digits: "list_all is_digit (show_int (int k))"
  by (simp add: show_int_def show_nat_digits)

lemma part_name_inj:
  assumes "part_name i k = part_name j l"
  shows "i = j"
proof -
  have digits: "takeWhile is_digit (rev (part_name i k)) = rev (show_int (int k))" for i k
  proof -
    have "rev (part_name i k) = rev (show_int (int k)) @ CHR ''-'' # (''trap-'' @ rev i)" by (simp add: part_name_def)
    moreover have "\<forall>c \<in> set (rev (show_int (int k))). is_digit c" using show_int_digits [of k] by (simp add: list_all_iff)
    moreover have "\<not> is_digit (CHR ''-'')" by code_simp
    ultimately show ?thesis by (simp add: takeWhile_append)
  qed
  have "rev (show_int (int k)) = rev (show_int (int l))" using digits [of i k] digits [of j l] assms by simp
  then show ?thesis using assms by (simp add: part_name_def)
qed

lemma chunk_tokens_nonempty: "tokens \<noteq> [] \<Longrightarrow> 0 < m \<Longrightarrow> chunk_tokens dec m tokens \<noteq> []"
  by (subst chunk_tokens.simps) simp

lemma splitByTokens_nonempty: "splitByTokens e s m = Inr cs \<Longrightarrow> 0 < m \<Longrightarrow> cs \<noteq> []"
  using chunk_tokens_nonempty [of "ix_encode e s" m "ix_decode e"]
  by (cases "ix_encode e s = []") (auto simp: splitByTokens_def Let_def split: option.splits if_splits)

lemma splitDocument_parts:
  assumes "splitDocument e d = Inr ps"
  shows "p \<in> set ps \<Longrightarrow> dp_doc p = d \<and> dp_pointDocID p = part_name (dc_DocID d) (dp_partIndex p)"
    and "renderContent d \<noteq> [] \<Longrightarrow> ps \<noteq> []"
  using assms splitByTokens_nonempty [of e "renderContent d" embedTokenLimit]
  by (auto simp: splitDocument_def Let_def part_of_def part_name_def embedTokenLimit_def enumerate_eq_zip
      split: if_splits sum.splits)

lemma split_documents_parts:
  assumes "split_documents e docs parts ids = Inr (parts', ids')"
  shows "\<forall>p \<in> set parts'. p \<in> set parts \<or> dp_doc p \<in> set docs \<and> dp_pointDocID p = part_name (dc_DocID (dp_doc p)) (dp_partIndex p)"
    and "set parts \<subseteq> set parts'" and "\<forall>d \<in> set docs. renderContent d \<noteq> [] \<longrightarrow> (\<exists>p \<in> set parts'. dp_doc p = d)"
proof -
  have "(\<forall>p \<in> set parts'. p \<in> set parts \<or> dp_doc p \<in> set docs \<and> dp_pointDocID p = part_name (dc_DocID (dp_doc p)) (dp_partIndex p))
      \<and> set parts \<subseteq> set parts' \<and> (\<forall>d \<in> set docs. renderContent d \<noteq> [] \<longrightarrow> (\<exists>p \<in> set parts'. dp_doc p = d))"
    using assms
  proof (induction docs arbitrary: parts ids)
    case (Cons d docs)
    then obtain ps where ps: "splitDocument e d = Inr ps" by (auto split: sum.splits)
    from Cons.IH [of "parts @ ps"] Cons.prems ps
    have IH: "\<forall>p \<in> set parts'. p \<in> set (parts @ ps) \<or> dp_doc p \<in> set docs \<and> dp_pointDocID p = part_name (dc_DocID (dp_doc p)) (dp_partIndex p)"
      "set (parts @ ps) \<subseteq> set parts'" "\<forall>d \<in> set docs. renderContent d \<noteq> [] \<longrightarrow> (\<exists>p \<in> set parts'. dp_doc p = d)"
      by simp_all
    have "\<exists>p \<in> set parts'. dp_doc p = d" if "renderContent d \<noteq> []"
    proof -
      have "hd ps \<in> set ps" using splitDocument_parts(2) [OF ps that] by simp
      then show ?thesis using splitDocument_parts(1) [OF ps] IH(2) by (intro bexI [of _ "hd ps"]) auto
    qed
    moreover have "p \<in> set parts \<or> dp_doc p \<in> set (d # docs) \<and> dp_pointDocID p = part_name (dc_DocID (dp_doc p)) (dp_partIndex p)"
      if "p \<in> set parts'" for p
      using IH(1) that splitDocument_parts(1) [OF ps, of p] by (cases "p \<in> set ps") auto
    ultimately show ?case using IH(2,3) by simp
  qed simp
  then show "\<forall>p \<in> set parts'. p \<in> set parts \<or> dp_doc p \<in> set docs \<and> dp_pointDocID p = part_name (dc_DocID (dp_doc p)) (dp_partIndex p)"
    "set parts \<subseteq> set parts'" "\<forall>d \<in> set docs. renderContent d \<noteq> [] \<longrightarrow> (\<exists>p \<in> set parts'. dp_doc p = d)" by simp_all
qed

definition doc_point :: "('v, 'w) upkeep_env \<Rightarrow> rag_source \<Rightarrow> string \<Rightarrow> string" where
  "doc_point env src =
     ix_point_id (re_index (uk_rag env)) (re_ustr (uk_rag env) (rs_org src)) (re_ustr (uk_rag env) (rs_id src))"

text \<open>The points a flush writes for its documents.\<close>

definition flushed_points :: "('v, 'w) upkeep_env \<Rightarrow> rag_source \<Rightarrow> document list \<Rightarrow> 'v point set \<Rightarrow> bool" where
  "flushed_points env src docs P \<longleftrightarrow>
     (\<forall>p \<in> P. \<exists>d \<in> set docs. \<exists>k content.
        pt_ID p = doc_point env src (part_name (dc_DocID d) k) \<and>
        pt_Payload p = buildPayload (source_ref_of (uk_rag env) src) d content k)"

context vector_index
begin

lemma flush_points:
  assumes "flushBatch (re_index (uk_rag env)) (source_ref_of (uk_rag env) src) docs w = (None, w')"
  shows "\<exists>P. flushed_points env src docs P \<and>
    set (pts w') \<subseteq> P \<union> {p \<in> set (pts w). pt_ID p \<notin> pt_ID ` P} \<and>
    (\<forall>d \<in> set docs. renderContent d \<noteq> [] \<longrightarrow>
       (\<exists>k. doc_point env src (part_name (dc_DocID d) k) \<in> pt_ID ` P \<inter> pt_ID ` set (pts w')))"
proof -
  let ?e = "re_index (uk_rag env)" and ?s = "source_ref_of (uk_rag env) src"
  have unwritten: ?thesis if "w' = w" "\<forall>d \<in> set docs. renderContent d = []"
    using that by (intro exI [of _ "{}"]) (simp add: flushed_points_def)
  show ?thesis
  proof (cases "docs = []")
    case True
    have "w' = w" using assms True by (simp add: flushBatch_def)
    have "\<forall>d \<in> set docs. renderContent d = []" using True by simp
    note unwritten [OF \<open>w' = w\<close> this]
    then show ?thesis .
  next
    case False
    then obtain parts ids where sp: "split_documents ?e docs [] [] = Inr (parts, ids)"
      using assms by (auto simp: flushBatch_def split: sum.splits)
    note parts = split_documents_parts [OF sp]
    show ?thesis
    proof (cases "parts = []")
      case True
      then show ?thesis using assms unwritten parts(3) False sp by (auto simp: flushBatch_def)
    next
      case ne: False
      obtain w1 where w1: "ix_delete ?e (sr_ID ?s) ids w = (None, w1)"
        using assms False sp ne by (auto simp: flushBatch_def split: prod.splits option.splits)
      obtain vs w2 where em: "embedInBudgetedGroups ?e parts [] w1 = (Inr vs, w2)"
        using assms False sp ne w1 by (auto simp: flushBatch_def split: prod.splits sum.splits)
      let ?ps = "map (point_of ?e ?s parts vs) [0 ..< length parts]"
      have up: "ix_upsert ?e ?ps w2 = (None, w')"
        using assms False sp ne w1 em by (auto simp: flushBatch_def Let_def split: prod.splits option.splits)
      have "pts w2 = pts w1" using embed_groups_pts [OF refl, of parts "[]" w1] em by simp
      moreover have "set (pts w1) \<subseteq> set (pts w)" using delete_docs [OF w1] by auto
      ultimately have old: "set (pts w2) \<subseteq> set (pts w)" by simp
      have new: "flushed_points env src docs (set ?ps)"
        unfolding flushed_points_def
      proof (rule ballI)
        fix p assume "p \<in> set ?ps"
        then obtain i where i: "i < length parts" "p = point_of ?e ?s parts vs i" by auto
        have "dp_doc (parts ! i) \<in> set docs" "dp_pointDocID (parts ! i) = part_name (dc_DocID (dp_doc (parts ! i))) (dp_partIndex (parts ! i))"
          using parts(1) i(1) nth_mem by fastforce+
        then show "\<exists>d \<in> set docs. \<exists>k content. pt_ID p = doc_point env src (part_name (dc_DocID d) k) \<and>
            pt_Payload p = buildPayload ?s d content k"
          using i(2) by (auto simp: point_of_def doc_point_def source_ref_of_def)
      qed
      have found: "\<exists>k. doc_point env src (part_name (dc_DocID d) k) \<in> pt_ID ` set ?ps"
        if d: "d \<in> set docs" "renderContent d \<noteq> []" for d
      proof -
        obtain i where i: "i < length parts" "dp_doc (parts ! i) = d"
          using bspec [OF parts(3) d(1)] d(2) by (auto simp: in_set_conv_nth)
        have "parts ! i \<in> set parts" using i(1) by simp
        then have "dp_pointDocID (parts ! i) = part_name (dc_DocID d) (dp_partIndex (parts ! i))"
          using bspec [OF parts(1)] i(2) by fastforce
        then have "doc_point env src (part_name (dc_DocID d) (dp_partIndex (parts ! i))) = pt_ID (point_of ?e ?s parts vs i)"
          by (simp add: point_of_def doc_point_def source_ref_of_def)
        moreover have "point_of ?e ?s parts vs i \<in> set ?ps" using i(1) by simp
        ultimately show ?thesis by (metis imageI)
      qed
      have "set (pts w') \<subseteq> set ?ps \<union> {p \<in> set (pts w). pt_ID p \<notin> pt_ID ` set ?ps}"
        by (rule order_trans [OF conjunct1 [OF upsert [OF up]]]) (use old in blast)
      moreover have "pt_ID ` set ?ps \<subseteq> pt_ID ` set (pts w')" using conjunct2 [OF upsert [OF up]] by simp
      then have "\<exists>k. doc_point env src (part_name (dc_DocID d) k) \<in> pt_ID ` set ?ps \<inter> pt_ID ` set (pts w')"
        if d: "d \<in> set docs" "renderContent d \<noteq> []" for d
        using found [OF d] by (meson IntI subsetD)
      ultimately show ?thesis using new by (intro exI [of _ "set ?ps"] conjI ballI impI)
    qed
  qed
qed

text \<open>A permission sync writes nowhere but at the identifiers of whole documents.\<close>

definition misses :: "rag_source \<Rightarrow> string set \<Rightarrow> 'v point list \<Rightarrow> bool" where
  "misses src ids ps \<longleftrightarrow> (\<forall>p \<in> set ps. \<forall>i \<in> ids. pt_ID p \<noteq> doc_point env src i)"

lemma misses_mono: "misses src I ps \<Longrightarrow> J \<subseteq> I \<Longrightarrow> misses src J ps"
  by (auto simp: misses_def)

lemma SetPayload_frame:
  assumes "\<forall>p \<in> set (pts w). pt_ID p \<notin> set ids"
  shows "pts (snd (SetPayload env ids payload w)) = pts w"
proof -
  obtain r w1 where x: "uk_set_payload env ids payload w = (r, w1)" by fastforce
  have "pts w1 = pts w"
  proof (cases r)
    case None
    then show ?thesis using set_payload [of ids payload w w1] x assms by (auto intro!: map_idI)
  next
    case (Some e)
    then show ?thesis using set_payload_fails [of ids payload w e w1] x assms by (auto intro!: map_idI)
  qed
  then show ?thesis using x by (simp add: SetPayload_def)
qed

lemma push_groups_frame:
  "misses src (au_docID ` set batch) (pts w) \<Longrightarrow> pts (snd (push_groups env src batch keys w)) = pts w"
proof (induction keys arbitrary: w)
  case (Cons key keys)
  have "\<forall>p \<in> set (pts w). pt_ID p \<notin> set (acl_group env src batch key)"
    using Cons.prems by (auto simp: misses_def acl_group_def doc_point_def)
  from SetPayload_frame [OF this, of "acl_payload (acl_spec batch key)"]
  obtain r w1 where x: "SetPayload env (acl_group env src batch key) (acl_payload (acl_spec batch key)) w = (r, w1)" "pts w1 = pts w"
    by (metis prod.collapse)
  then show ?case using Cons.IH [of w1] Cons.prems by (cases r) (simp_all add: Let_def)
qed simp

lemma flush_access_frame:
  "misses src (au_docID ` set batch) (pts w) \<Longrightarrow> pts (snd (flush_access env src batch w)) = pts w"
  by (simp add: flush_access_def pushACLToQdrant_def push_groups_frame)

lemma drain_access_frame:
  "misses src (au_docID ` set batch \<union> {i. \<exists>a. AccessDoc i a \<in> set items}) (pts w) \<Longrightarrow>
   pts (snd (drainPermSyncStream env src items batch w)) = pts w"
proof (induction items arbitrary: batch w)
  case Nil
  then show ?case by (simp add: flush_access_frame misses_def)
next
  case (Cons item items)
  show ?case
  proof (cases item)
    case (AccessDoc i x)
    show ?thesis
    proof (cases x)
      case (Some a)
      let ?b = "batch @ [\<lparr>au_docID = i, au_acl = xa_Emails a, au_isPublic = xa_IsPublic a\<rparr>]"
      have m: "misses src (au_docID ` set ?b \<union> {i. \<exists>a. AccessDoc i a \<in> set items}) (pts w)"
        using Cons.prems AccessDoc by (auto simp: misses_def)
      obtain r w1 where f: "flush_access env src ?b w = (r, w1)" by fastforce
      have "pts w1 = pts w" using flush_access_frame [of src ?b w] m f by (simp add: misses_def)
      moreover have "misses src (au_docID ` set [] \<union> {i. \<exists>a. AccessDoc i a \<in> set items}) (pts w)"
        using m by (simp add: misses_def)
      ultimately show ?thesis using AccessDoc Some f Cons.IH [of ?b w] Cons.IH [of "[]" w1] m
        by (cases r) (simp_all add: Let_def)
    next
      case None
      have "misses src (au_docID ` set batch \<union> {i. \<exists>a. AccessDoc i a \<in> set items}) (pts w)"
        by (rule misses_mono [OF Cons.prems]) auto
      then show ?thesis using AccessDoc None Cons.IH [of batch w] by simp
    qed
  qed (use Cons.IH [of batch w] Cons.prems in \<open>simp_all add: misses_def\<close>)
qed

lemma HandlePermSync_frame:
  assumes "\<And>src listing w items. find_source d i = Some src \<Longrightarrow> uk_access env src = Some listing \<Longrightarrow>
      fst (listing w) = Inr items \<Longrightarrow> misses src {i. \<exists>a. AccessDoc i a \<in> set items} (pts (rd_world d))"
  shows "pts (rd_world (snd (HandlePermSync env i d))) = pts (rd_world d)"
proof (cases "i = uuid_nil \<or> find_source d i = None")
  case False
  then obtain src where src: "i \<noteq> uuid_nil" "find_source d i = Some src" by auto
  obtain r1 w1 where b: "re_build (uk_rag env) src (rd_world d) = (r1, w1)" by fastforce
  have w1: "pts w1 = pts (rd_world d)" using build_pts [of src "rd_world d"] b by simp
  show ?thesis
  proof (cases r1)
    case (Inr y)
    show ?thesis
    proof (cases "uk_access env src")
      case (Some listing)
      obtain r2 w2 where l: "listing w1 = (r2, w2)" by fastforce
      have w2: "pts w2 = pts (rd_world d)" using access_pts [OF Some, of w1] l w1 by simp
      show ?thesis
      proof (cases r2)
        case r2: (Inr items)
        obtain r3 w3 where dr: "drainPermSyncStream env src items [] w2 = (r3, w3)" by fastforce
        have "misses src {i. \<exists>a. AccessDoc i a \<in> set items} (pts w2)"
          using assms [OF src(2) Some, of w1 items] l r2 w2 by simp
        then have "pts w3 = pts w2" using drain_access_frame [of src "[]" items w2] dr by simp
        then show ?thesis using src b Inr Some l r2 dr w2
          by (cases r3) (simp_all add: HandlePermSync_def on_world_def update_source_def)
      qed (use src b Inr Some l w2 in \<open>simp add: HandlePermSync_def on_world_def\<close>)
    qed (use src b Inr w1 in \<open>simp add: HandlePermSync_def on_world_def\<close>)
  qed (use src b w1 in \<open>simp add: HandlePermSync_def on_world_def\<close>)
qed (auto simp: HandlePermSync_def)

text \<open>One document's point while the groups of a batch are pushed, in whatever order.\<close>

definition says :: "aclUpdate \<Rightarrow> (string \<times> json) list \<Rightarrow> bool" where
  "says u payload \<longleftrightarrow> map_of payload ''acl'' = Some (JArr (map JStr (au_acl u))) \<and>
     map_of payload ''is_public'' = Some (JBool (au_isPublic u))"

definition updated :: "rag_source \<Rightarrow> aclUpdate \<Rightarrow> aclUpdate \<Rightarrow> 'w \<Rightarrow> bool" where
  "updated src u v w \<longleftrightarrow> (\<forall>p \<in> set (pts w). pt_ID p = doc_point env src (au_docID u) \<longrightarrow> says v (pt_Payload p))"

lemma merged_ID [simp]: "pt_ID (merged payload p) = pt_ID p"
  by (simp add: merged_def)

lemma says_merged: "says v (pt_Payload (merged (acl_payload v) p))"
  by (simp add: says_def merged_def acl_payload_def)

lemma SetPayload_ok:
  "SetPayload env ids payload w = (None, w') \<Longrightarrow>
   pts w' = map (\<lambda>p. if pt_ID p \<in> set ids then merged payload p else p) (pts w)"
  using set_payload [of ids payload w w'] by (cases "ids = []") (auto simp: SetPayload_def intro!: map_idI [symmetric])

lemma push_groups_updates:
  assumes "push_groups env src batch keys w = (None, w')" and "u \<in> set batch" and "distinct (map au_docID batch)"
    and "inj (doc_point env src)" and "acl_key u \<in> set keys \<or> updated src u (acl_spec batch (acl_key u)) w"
  shows "updated src u (acl_spec batch (acl_key u)) w'"
  using assms(1,5)
proof (induction keys arbitrary: w)
  case (Cons key keys)
  let ?v = "acl_spec batch (acl_key u)" and ?ids = "acl_group env src batch key"
  obtain w1 where w1: "SetPayload env ?ids (acl_payload (acl_spec batch key)) w = (None, w1)" and
    rest: "push_groups env src batch keys w1 = (None, w')"
    using Cons.prems(1) by (auto simp: Let_def split: prod.splits option.splits)
  note p1 = SetPayload_ok [OF w1]
  have "acl_key u \<in> set keys \<or> updated src u ?v w1"
  proof (cases "key = acl_key u")
    case True
    have "doc_point env src (au_docID u) \<in> set ?ids"
      using assms(2) by (auto simp: acl_group_def doc_point_def True)
    then have "updated src u ?v w1" by (auto simp: updated_def p1 True says_merged)
    then show ?thesis ..
  next
    case False
    have "doc_point env src (au_docID u) \<notin> set ?ids"
    proof
      assume "doc_point env src (au_docID u) \<in> set ?ids"
      then obtain x where x: "x \<in> set batch" "acl_key x = key" "doc_point env src (au_docID u) = doc_point env src (au_docID x)"
        by (auto simp: acl_group_def doc_point_def)
      then have "au_docID u = au_docID x" using assms(4) by (simp add: inj_eq)
      then have "u = x" using assms(2,3) x(1) by (metis distinct_map inj_on_eq_iff)
      then show False using x(2) False by simp
    qed
    then have "updated src u ?v w \<Longrightarrow> updated src u ?v w1" by (auto simp: updated_def p1)
    then show ?thesis using Cons.prems(2) False by auto
  qed
  then show ?case by (rule Cons.IH [OF rest])
qed simp

end

section \<open>Properties of the two tasks together with ingest\<close>

definition part_points :: "('v, 'w) upkeep_env \<Rightarrow> 'v point list \<Rightarrow> bool" where
  "part_points env ps \<longleftrightarrow> (\<forall>p \<in> set ps. \<exists>org source i k.
     pt_ID p = ix_point_id (re_index (uk_rag env)) (re_ustr (uk_rag env) org) (re_ustr (uk_rag env) source) (part_name i k))"

text \<open>The hash tells documents apart, whatever their organisation and source.\<close>

definition ids_apart :: "('v, 'w) upkeep_env \<Rightarrow> bool" where
  "ids_apart env \<longleftrightarrow> (\<forall>org source org' source' i j.
     ix_point_id (re_index (uk_rag env)) (re_ustr (uk_rag env) org) (re_ustr (uk_rag env) source) i =
     ix_point_id (re_index (uk_rag env)) (re_ustr (uk_rag env) org') (re_ustr (uk_rag env) source') j \<longrightarrow> i = j)"

lemma flushed_part_points:
  assumes "vector_index env pts" and "part_points env (pts w)"
    and "flushBatch (re_index (uk_rag env)) (source_ref_of (uk_rag env) src) docs w = (None, w1)"
  shows "part_points env (pts w1)"
proof -
  obtain P where P: "flushed_points env src docs P" "set (pts w1) \<subseteq> P \<union> set (pts w)"
    using vector_index.flush_points [OF assms(1,3)] by blast
  show ?thesis
    unfolding part_points_def
  proof (rule ballI)
    fix p assume "p \<in> set (pts w1)"
    then show "\<exists>org source i k. pt_ID p = ix_point_id (re_index (uk_rag env)) (re_ustr (uk_rag env) org)
        (re_ustr (uk_rag env) source) (part_name i k)"
      using P assms(2) unfolding part_points_def flushed_points_def doc_point_def by blast
  qed
qed

text \<open>Of the documents of a batch, the flushed points carry the content: one of them for each document.\<close>

lemma flushed_document:
  assumes "vector_index env pts" and "ids_apart env"
    and "flushBatch (re_index (uk_rag env)) (source_ref_of (uk_rag env) src) docs w = (None, w1)"
    and "d \<in> set docs" and "renderContent d \<noteq> []"
  shows "\<exists>p \<in> set (pts w1). \<exists>d' \<in> set docs. \<exists>k content. dc_DocID d' = dc_DocID d \<and>
    pt_Payload p = buildPayload (source_ref_of (uk_rag env) src) d' content k"
proof -
  obtain P k where P: "flushed_points env src docs P" "set (pts w1) \<subseteq> P \<union> {p \<in> set (pts w). pt_ID p \<notin> pt_ID ` P}"
    "doc_point env src (part_name (dc_DocID d) k) \<in> pt_ID ` P \<inter> pt_ID ` set (pts w1)"
    using vector_index.flush_points [OF assms(1,3)] assms(4,5) by blast
  then obtain p where p: "p \<in> set (pts w1)" "pt_ID p = doc_point env src (part_name (dc_DocID d) k)" "p \<in> P" by auto
  then obtain d' l content where d': "d' \<in> set docs" "pt_ID p = doc_point env src (part_name (dc_DocID d') l)"
    "pt_Payload p = buildPayload (source_ref_of (uk_rag env) src) d' content l"
    using P(1) unfolding flushed_points_def by blast
  have "part_name (dc_DocID d) k = part_name (dc_DocID d') l"
    using assms(2) p(2) d'(2) unfolding ids_apart_def doc_point_def by metis
  then have "dc_DocID d' = dc_DocID d" by (rule part_name_inj [symmetric])
  then show ?thesis using p(1) d' by blast
qed

text \<open>
  C36: A permission sync changes nothing that was ingested: it addresses the points of whole documents,
  while ingest stores every document under the names of its parts. After a batch was stored, a sync
  with whatever access lists, and whatever it answers, leaves every point as it was, and each document
  of the batch keeps the access list it was ingested with.
\<close>

theorem perm_sync_misses_parts:
  assumes "vector_index env pts" and "ids_apart env" and "part_points env (pts (rd_world d))"
    and "distinct (map dc_DocID docs)"
    and "flushBatch (re_index (uk_rag env)) (source_ref_of (uk_rag env) src) docs (rd_world d) = (None, w1)"
    and "\<And>s listing w items doc k a. find_source d i = Some s \<Longrightarrow> uk_access env s = Some listing \<Longrightarrow>
      fst (listing w) = Inr items \<Longrightarrow> AccessDoc (part_name doc k) a \<notin> set items"
  shows "pts (rd_world (snd (HandlePermSync env i (d\<lparr>rd_world := w1\<rparr>)))) = pts w1 \<and>
    (\<forall>doc \<in> set docs. renderContent doc \<noteq> [] \<longrightarrow>
      (\<exists>p \<in> set (pts (rd_world (snd (HandlePermSync env i (d\<lparr>rd_world := w1\<rparr>))))).
        doc_id_of (pt_Payload p) = dc_DocID doc \<and> map_of (pt_Payload p) ''acl'' = Some (JArr (map JStr (dc_ACL doc)))))"
proof -
  let ?d = "d\<lparr>rd_world := w1\<rparr>"
  have parts: "part_points env (pts w1)" by (rule flushed_part_points [OF assms(1,3,5)])
  have "pts (rd_world (snd (HandlePermSync env i ?d))) = pts (rd_world ?d)"
  proof (rule vector_index.HandlePermSync_frame [OF assms(1)])
    fix s listing w items
    assume s: "find_source ?d i = Some s" "uk_access env s = Some listing" "fst (listing w) = Inr items"
    have "find_source d i = Some s" using s(1) by (simp add: find_source_def)
    then have whole: "AccessDoc (part_name doc k) a \<notin> set items" for doc k a by (rule assms(6) [OF _ s(2,3)])
    have "pt_ID p \<noteq> doc_point env s j" if p: "p \<in> set (pts w1)" and j: "AccessDoc j a \<in> set items" for p j a
    proof
      assume "pt_ID p = doc_point env s j"
      moreover obtain org source x k where "pt_ID p = ix_point_id (re_index (uk_rag env)) (re_ustr (uk_rag env) org)
          (re_ustr (uk_rag env) source) (part_name x k)" using parts p unfolding part_points_def by blast
      ultimately have "j = part_name x k" using assms(2) unfolding ids_apart_def doc_point_def by metis
      then show False using j whole by simp
    qed
    then show "vector_index.misses env s {j. \<exists>a. AccessDoc j a \<in> set items} (pts (rd_world ?d))"
      by (auto simp: vector_index.misses_def [OF assms(1)])
  qed
  then have same: "pts (rd_world (snd (HandlePermSync env i ?d))) = pts w1" by simp
  have "\<exists>p \<in> set (pts w1). doc_id_of (pt_Payload p) = dc_DocID doc \<and>
      map_of (pt_Payload p) ''acl'' = Some (JArr (map JStr (dc_ACL doc)))" if doc: "doc \<in> set docs" "renderContent doc \<noteq> []" for doc
  proof -
    obtain p d' k content where p: "p \<in> set (pts w1)" "d' \<in> set docs" "dc_DocID d' = dc_DocID doc"
      "pt_Payload p = buildPayload (source_ref_of (uk_rag env) src) d' content k"
      using flushed_document [OF assms(1,2,5) doc] by blast
    have "d' = doc" using assms(4) p(2,3) doc(1) by (metis distinct_map inj_on_eq_iff)
    then show ?thesis using p(1,4) by (intro bexI [of _ p]) (simp_all add: buildPayload_def doc_id_of_def)
  qed
  then show ?thesis by (simp only: same) blast
qed



end
