(* ===== verification/VectorIndex.thy ===== *)
theory VectorIndex
  imports UpkeepProps
begin

text \<open>
  A vector index as its manual documents it, with connectors whose listings are given: the
  interpretation of \<open>vector_index\<close>, and runs of the two tasks on it.
\<close>

section \<open>The points of a collection\<close>

text \<open>An identifier names one point, and every point has one.\<close>

fun tidy :: "'v point list \<Rightarrow> 'v point list" where
  "tidy [] = []"
| "tidy (p # ps) = (if pt_ID p = [] \<or> pt_ID p \<in> pt_ID ` set ps then tidy ps else p # tidy ps)"

lemma tidy_ids: "pt_ID ` set (tidy ps) = pt_ID ` set ps - {[]}"
  by (induction ps) auto

lemma tidy_subset: "set (tidy ps) \<subseteq> set ps"
  by (induction ps) auto

lemma tidy_distinct: "distinct (map pt_ID (tidy ps))"
  by (induction ps) (auto simp: tidy_ids)

lemma tidy_named: "p \<in> set (tidy ps) \<Longrightarrow> pt_ID p \<noteq> []"
  by (induction ps) (auto split: if_splits)

lemma tidy_idem: "distinct (map pt_ID ps) \<Longrightarrow> [] \<notin> pt_ID ` set ps \<Longrightarrow> tidy ps = ps"
  by (induction ps) auto

lemma tidy_tidy [simp]: "tidy (tidy ps) = tidy ps"
  by (rule tidy_idem) (auto simp: tidy_distinct dest: tidy_named)

lemma tidy_filter [simp]: "tidy (filter P (tidy ps)) = filter P (tidy ps)"
  by (rule tidy_idem) (auto simp: distinct_map_filter tidy_distinct dest: tidy_named)

lemma image_replaced: "pt_ID ` ({p \<in> A. pt_ID p \<notin> pt_ID ` B} \<union> B) = pt_ID ` B \<union> pt_ID ` A"
  by auto

lemma tidy_map: "(\<And>p. pt_ID (f p) = pt_ID p) \<Longrightarrow> tidy (map f (tidy ps)) = map f (tidy ps)"
  by (rule tidy_idem) (auto simp: comp_def tidy_distinct dest: tidy_named)

definition vec_scroll :: "ScrollRequest \<Rightarrow> 'v point list \<Rightarrow> (string + ScrollPage) \<times> 'v point list" where
  "vec_scroll req w =
     (Inr (page_of (sq_Limit req) (from_offset (sq_Offset req) (filter (matches (sq_Filter req)) (tidy w)))), w)"

definition vec_delete_ids :: "string list \<Rightarrow> 'v point list \<Rightarrow> string option \<times> 'v point list" where
  "vec_delete_ids ids w = (None, filter (\<lambda>p. pt_ID p \<notin> set ids) (tidy w))"

text \<open>A payload for a point that does not exist is refused; the others may have been written.\<close>

definition vec_set_payload ::
  "string list \<Rightarrow> (string \<times> json) list \<Rightarrow> 'v point list \<Rightarrow> string option \<times> 'v point list" where
  "vec_set_payload ids payload w =
     (if set ids \<subseteq> pt_ID ` set (tidy w) then None else Some ''point not found'',
      map (\<lambda>p. if pt_ID p \<in> set ids then merged payload p else p) (tidy w))"

definition vec_delete_docs :: "string \<Rightarrow> string list \<Rightarrow> 'v point list \<Rightarrow> string option \<times> 'v point list" where
  "vec_delete_docs source docs w =
     (None, filter (\<lambda>p. \<not> (map_of (pt_Payload p) ''rag_source_id'' = Some (JStr source) \<and>
                        (\<exists>i \<in> set docs. map_of (pt_Payload p) ''doc_id'' = Some (JStr i)))) (tidy w))"

definition vec_upsert :: "'v point list \<Rightarrow> 'v point list \<Rightarrow> string option \<times> 'v point list" where
  "vec_upsert ps w =
     (if [] \<in> pt_ID ` set ps then (Some ''bad identifier'', w)
      else (None, tidy (filter (\<lambda>p. pt_ID p \<notin> pt_ID ` set ps) (tidy w) @ ps)))"

definition vec_count :: "string \<Rightarrow> 'v point list \<Rightarrow> (string + int) \<times> 'v point list" where
  "vec_count source w = (Inr (int (length (filter (matches [(''rag_source_id'', source)]) (tidy w)))), w)"

section \<open>Connectors with given listings\<close>

text \<open>One token for each character, and a service that answers one vector for each input.\<close>

definition vec_index :: "(unit, unit point list) index_env" where
  "vec_index = \<lparr>ix_tokenizer = None, ix_encode = map of_char, ix_decode = map char_of,
     ix_post = (\<lambda>inputs w. (HttpResponse 200 (replicate (length inputs) (CHR ''v'')), w)),
     ix_body = (\<lambda>body. Inr (None, map (\<lambda>_. ()) body)), ix_status_text = (\<lambda>_. []), ix_max_retries = 0,
     ix_delete = vec_delete_docs, ix_upsert = vec_upsert, ix_count = vec_count,
     ix_point_id = (\<lambda>org source i. org @ ''/'' @ source @ ''/'' @ i)\<rparr>"

definition vec_rag :: "(unit, unit point list) rag_env" where
  "vec_rag = \<lparr>re_index = vec_index, re_ustr = (\<lambda>u. show_nat (unat u)), re_build = (\<lambda>_ w. (Inr True, w)),
     re_estimate = (\<lambda>_ w. (None, w)), re_run = (\<lambda>_ _ _ _ w. (Inr [], w)), re_checkpoint = (\<lambda>_ w. (Inr [], w)),
     re_enqueue = (\<lambda>_ w. (None, w)), re_credits = False, re_batch_size = 100\<rparr>"

definition vec_env ::
  "slim_item list \<Rightarrow> access_item list \<Rightarrow> (unit, unit point list) upkeep_env" where
  "vec_env slims accesses = \<lparr>uk_rag = vec_rag, uk_slim = (\<lambda>_. Some (\<lambda>w. (Inr slims, w))),
     uk_access = (\<lambda>_. Some (\<lambda>w. (Inr accesses, w))), uk_scroll = vec_scroll, uk_delete_ids = vec_delete_ids,
     uk_set_payload = vec_set_payload, uk_order = (\<lambda>keys _. keys)\<rparr>"

interpretation vec: vector_index "vec_env slims accesses" tidy for slims accesses
proof unfold_locales
  fix ids payload e and w w' :: "unit point list"
  assume "uk_set_payload (vec_env slims accesses) ids payload w = (Some e, w')"
  then have "tidy w' = map (\<lambda>p. if pt_ID p \<in> set ids then merged payload p else p) (tidy w)"
    by (auto simp: vec_env_def vec_set_payload_def merged_def tidy_map split: if_splits)
  then show "\<exists>f. (\<forall>p. pt_ID (f p) = pt_ID p) \<and> tidy w' = map (\<lambda>p. if pt_ID p \<in> set ids then f p else p) (tidy w)"
    by (intro exI [of _ "merged payload"]) (simp add: merged_def)
next
  fix ps w w' :: "unit point list"
  assume "ix_upsert (re_index (uk_rag (vec_env slims accesses))) ps w = (None, w')"
  then have ps: "[] \<notin> pt_ID ` set ps" and w': "w' = tidy (filter (\<lambda>p. pt_ID p \<notin> pt_ID ` set ps) (tidy w) @ ps)"
    by (auto simp: vec_env_def vec_rag_def vec_index_def vec_upsert_def split: if_splits)
  have "set (tidy w') \<subseteq> set ps \<union> {p \<in> set (tidy w). pt_ID p \<notin> pt_ID ` set ps}"
    using tidy_subset [of "filter (\<lambda>p. pt_ID p \<notin> pt_ID ` set ps) (tidy w) @ ps"] by (auto simp: w')
  moreover have "pt_ID ` set (tidy w') = pt_ID ` set ps \<union> pt_ID ` set (tidy w)"
  proof -
    have "pt_ID ` set (tidy w') = pt_ID ` ({p \<in> set (tidy w). pt_ID p \<notin> pt_ID ` set ps} \<union> set ps) - {[]}"
      using tidy_ids [of "filter (\<lambda>p. pt_ID p \<notin> pt_ID ` set ps) (tidy w) @ ps"] by (simp add: w')
    moreover have "[] \<notin> pt_ID ` set (tidy w)" by (simp add: tidy_ids)
    ultimately show ?thesis using ps by (simp only: image_replaced) simp
  qed
  ultimately show "set (tidy w') \<subseteq> set ps \<union> {p \<in> set (tidy w). pt_ID p \<notin> pt_ID ` set ps} \<and>
      pt_ID ` set (tidy w') = pt_ID ` set ps \<union> pt_ID ` set (tidy w)" ..
qed (auto simp: vec_env_def vec_rag_def vec_index_def vec_scroll_def vec_delete_ids_def vec_set_payload_def
    vec_delete_docs_def tidy_distinct merged_def tidy_map dest: tidy_named split: if_splits)

lemma slash_split:
  assumes "show_nat m @ ''/'' @ x = show_nat n @ ''/'' @ y"
  shows "x = y"
proof -
  have "dropWhile (\<lambda>c. c \<noteq> CHR ''/'') (show_nat n @ ''/'' @ y) = ''/'' @ y" for n y
  proof -
    have "c \<noteq> CHR ''/''" if "c \<in> set (show_nat n)" for c
      using show_nat_digits [of n] that by (auto simp: list_all_iff is_digit_def)
    then show ?thesis by (simp add: dropWhile_append)
  qed
  from this [of m x] this [of n y] show ?thesis using assms by simp
qed

lemma vec_ids_apart: "ids_apart (vec_env slims accesses)"
proof -
  have "i = j" if "show_nat org @ ''/'' @ show_nat source @ ''/'' @ i = show_nat org' @ ''/'' @ show_nat source' @ ''/'' @ j"
    for org source org' source' i j
    using slash_split [OF slash_split [OF that]] .
  then show ?thesis by (simp add: ids_apart_def vec_env_def vec_rag_def vec_index_def)
qed

section \<open>Runs\<close>

definition demo_source :: rag_source where
  "demo_source = \<lparr>rs_id = 2, rs_org = 1, rs_kind = ''GITHUB'', rs_name = ''code'', rs_source_kind = ''github'',
     rs_connection = None, rs_status = RAGSourceStatusActive, rs_enabled = True, rs_access = AccessTypeSync,
     rs_indexing_start = None, rs_last_index = None, rs_last_perm_sync = None, rs_last_pruned = None,
     rs_refresh_freq = None, rs_prune_freq = None, rs_perm_freq = None, rs_total_docs = 0\<rparr>"

definition demo_doc :: "string \<Rightarrow> document" where
  "demo_doc i = \<lparr>dc_DocID = i, dc_SemanticID = ''a text'', dc_Link = [], dc_Sections = [], dc_ACL = [''old@x''],
     dc_IsPublic = False, dc_UpdatedAt = None, dc_Metadata = None, dc_PrimaryOwners = []\<rparr>"

definition demo_db :: "unit point list \<Rightarrow> unit point list rag_db" where
  "demo_db w = \<lparr>db_orgs = [], db_ledger = [], db_gen = of_nat, db_drawn = 0, db_now = 50,
     rd_sources = [demo_source], rd_attempts = [], rd_errors = [], rd_world = w\<rparr>"

text \<open>The index after a batch with the documents \<open>a\<close> and \<open>b\<close>.\<close>

definition demo_flush :: "string list \<Rightarrow> unit point list \<Rightarrow> string option \<times> unit point list" where
  "demo_flush ids = flushBatch vec_index (source_ref_of vec_rag demo_source) (map demo_doc ids)"

definition demo_point :: "string \<Rightarrow> unit point" where
  "demo_point i = \<lparr>pt_ID = ''1/2/'' @ i @ ''-part-0'', pt_Vector = (),
     pt_Payload = buildPayload (source_ref_of vec_rag demo_source) (demo_doc i) ''a text'' 0\<rparr>"

definition demo_stored :: "unit point list" where
  "demo_stored = [demo_point ''a'', demo_point ''b'']"

lemma demo_split: "splitDocument vec_index (demo_doc i) =
    Inr [\<lparr>dp_doc = demo_doc i, dp_pointDocID = i @ ''-part-0'', dp_content = ''a text'', dp_partIndex = 0, dp_tokens = 6\<rparr>]"
proof -
  have "renderContent (demo_doc i) = ''a text''" by (simp add: renderContent_def demo_doc_def)
  moreover have "show_int 0 = ''0''" by code_simp
  ultimately show ?thesis
    by (simp add: splitDocument_def splitByTokens_def vec_index_def embedTokenLimit_def part_of_def demo_doc_def
        enumerate_eq_zip Let_def numeral_eq_Suc)
qed

lemma demo_flush_env:
  "flushBatch (re_index (uk_rag (vec_env slims accesses))) (source_ref_of (uk_rag (vec_env slims accesses)) demo_source)
     (map demo_doc ids) w = demo_flush ids w"
  by (simp add: demo_flush_def vec_env_def vec_rag_def)

lemma demo_flush_ok: "demo_flush [''a'', ''b''] [] = (None, demo_stored)"
proof -
  let ?p = "\<lambda>i n. \<lparr>dp_doc = demo_doc i, dp_pointDocID = n, dp_content = ''a text'', dp_partIndex = 0, dp_tokens = 6\<rparr>"
  let ?src = "source_ref_of vec_rag demo_source"
  have split: "split_documents vec_index [demo_doc ''a'', demo_doc ''b''] [] [] = Inr ([?p ''a'' ''a-part-0'', ?p ''b'' ''b-part-0''], [''a'', ''b''])"
    by (simp add: demo_split) (simp add: demo_doc_def)
  have del: "ix_delete vec_index source ids [] = (None, [])" for source ids
    by (simp add: vec_index_def vec_delete_docs_def)
  have emb: "embedInBudgetedGroups vec_index [?p ''a'' ''a-part-0'', ?p ''b'' ''b-part-0''] [] [] = (Inr [(), ()], [])"
  proof -
    have "take_group True 0 [?p ''a'' ''a-part-0'', ?p ''b'' ''b-part-0''] = ([?p ''a'' ''a-part-0'', ?p ''b'' ''b-part-0''], [])" by (simp add: embedRequestTokenLimit_def)
    moreover have "Embed vec_index [''a text'', ''a text''] [] = (Inr [(), ()], [])"
      by (simp add: Embed_def vec_index_def decode_embedding_def)
    ultimately show ?thesis by (simp add: embedInBudgetedGroups.simps del: take_group.simps)
  qed
  have "show_nat 1 = ''1''" "show_nat 2 = ''2''" by code_simp+
  then have point: "point_of vec_index ?src ps [(), ()] j = demo_point i" if "ps ! j = ?p i (i @ ''-part-0'')" for ps i j
    by (simp add: point_of_def that demo_point_def source_ref_of_def vec_index_def vec_rag_def demo_source_def)
  have "map (point_of vec_index ?src [?p ''a'' ''a-part-0'', ?p ''b'' ''b-part-0''] [(), ()]) [0 ..< length [?p ''a'' ''a-part-0'', ?p ''b'' ''b-part-0'']] = demo_stored"
    by (simp add: upt_rec point demo_stored_def)
  moreover have "ix_upsert vec_index demo_stored [] = (None, demo_stored)"
    by (simp add: vec_index_def vec_upsert_def demo_stored_def demo_point_def)
  ultimately show ?thesis by (simp add: demo_flush_def flushBatch_def split del emb Let_def del: split_documents.simps)
qed

lemma demo_found: "find_source (demo_db w) 2 = Some demo_source"
  by (simp add: find_source_def demo_db_def demo_source_def)

lemma prune_exact_witness:
  "tidy (rd_world (snd (the (HandlePrune (vec_env [SlimDoc ''a''] []) 2 (demo_db demo_stored))))) =
     filter (\<lambda>p. of_source (vec_env [SlimDoc ''a''] []) demo_source p \<longrightarrow>
                 SlimDoc (doc_id_of (pt_Payload p)) \<in> {SlimDoc ''a''}) (tidy demo_stored) \<and>
   map pt_ID (tidy demo_stored) = [''1/2/a-part-0'', ''1/2/b-part-0''] \<and>
   map pt_ID (rd_world (snd (the (HandlePrune (vec_env [SlimDoc ''a''] []) 2 (demo_db demo_stored))))) = [''1/2/a-part-0'']"
proof (intro conjI)
  let ?e = "vec_env [SlimDoc ''a''] []" and ?d = "demo_db demo_stored"
  have "map_option fst (HandlePrune ?e 2 ?d) = Some None" by code_simp
  then have "HandlePrune ?e 2 ?d = Some (None, snd (the (HandlePrune ?e 2 ?d)))" by auto
  from prune_exact [OF vec.vector_index_axioms demo_found this]
  show "tidy (rd_world (snd (the (HandlePrune ?e 2 ?d)))) =
     filter (\<lambda>p. of_source ?e demo_source p \<longrightarrow> SlimDoc (doc_id_of (pt_Payload p)) \<in> {SlimDoc ''a''}) (tidy demo_stored)"
    by (auto simp: vec_env_def demo_db_def)
  show "map pt_ID (tidy demo_stored) = [''1/2/a-part-0'', ''1/2/b-part-0'']" by code_simp
  show "map pt_ID (rd_world (snd (the (HandlePrune ?e 2 ?d)))) = [''1/2/a-part-0'']" by code_simp
qed

lemma prune_returns_witness:
  "\<exists>r d'. HandlePrune (vec_env [SlimDoc ''a''] []) 2 (demo_db demo_stored) = Some (r, d')"
  by (rule prune_returns [OF vec.vector_index_axioms])

lemma perm_sync_misses_parts_witness:
  "(let e = vec_env [] [AccessDoc ''a'' (Some \<lparr>xa_Emails = [''new@x''], xa_IsPublic = True\<rparr>)] in
    tidy (rd_world (snd (HandlePermSync e 2 ((demo_db [])\<lparr>rd_world := demo_stored\<rparr>)))) = tidy demo_stored)"
  unfolding Let_def
proof (rule conjunct1 [OF perm_sync_misses_parts [where src = demo_source and docs = "map demo_doc [''a'', ''b'']"]])
  let ?e = "vec_env [] [AccessDoc ''a'' (Some \<lparr>xa_Emails = [''new@x''], xa_IsPublic = True\<rparr>)]"
  show "vector_index ?e tidy" by (rule vec.vector_index_axioms)
  show "ids_apart ?e" by (rule vec_ids_apart)
  show "part_points ?e (tidy (rd_world (demo_db [])))" by (simp add: part_points_def demo_db_def)
  show "distinct (map dc_DocID (map demo_doc [''a'', ''b'']))" by code_simp
  show "flushBatch (re_index (uk_rag ?e)) (source_ref_of (uk_rag ?e) demo_source) (map demo_doc [''a'', ''b''])
      (rd_world (demo_db [])) = (None, demo_stored)" by (simp only: demo_flush_env) (simp add: demo_db_def demo_flush_ok)
  fix s listing w items doc k a
  assume "uk_access ?e s = Some listing" "fst (listing w) = Inr items"
  then have "items = [AccessDoc ''a'' (Some \<lparr>xa_Emails = [''new@x''], xa_IsPublic = True\<rparr>)]" by (auto simp: vec_env_def)
  moreover have "part_name doc k \<noteq> ''a''" by (cases doc) (simp_all add: part_name_def)
  ultimately show "AccessDoc (part_name doc k) a \<notin> set items" by auto
qed



definition whole_points :: "unit point list" where
  "whole_points = map (\<lambda>i. \<lparr>pt_ID = ''1/2/'' @ i, pt_Vector = (), pt_Payload = []\<rparr>) [''a'', ''b'', ''c'']"

definition pushed :: "aclUpdate list \<Rightarrow> unit point list" where
  "pushed batch = snd (pushACLToQdrant (vec_env [] []) demo_source batch whole_points)"


text \<open>Addresses with a comma merge two groups: the first document is given the access list of the second.\<close>

lemma comma_merges_permissions:
  "map (\<lambda>p. map_of (pt_Payload p) ''acl'')
     (take 2 (pushed [\<lparr>au_docID = ''a'', au_acl = [''u,v''], au_isPublic = False\<rparr>,
                \<lparr>au_docID = ''b'', au_acl = [''u'', ''v''], au_isPublic = False\<rparr>])) =
   [Some (JArr [JStr ''u'', JStr ''v'']), Some (JArr [JStr ''u'', JStr ''v''])]"
  by code_simp

end
