(* ===== verification/Spec2Isabelle.thy ===== *)
theory Spec2Isabelle
  imports LedgerProps ProrationProps Lifecycle GateProps DispatchProps WarmPoolProps BatchProps IngestRuns StrandedProps
    TapsProps StreamProps CredCacheProps VectorIndex
begin

text \<open>
  Hivy's back end (Go, \<open>internal/\<close>): a verification library of its billing core and of the
  services around it that carry state machines of their own.

  \<^bold>\<open>The program.\<close> Organisations hold credits in an append-only ledger
  (\<open>internal/billing/credits*.go\<close>) and a subscription to a plan (\<open>internal/billing/subscription\<close>).
  A worker renews due subscriptions (\<open>internal/tasks/billing_renewal.go\<close>), another bills metered
  inference against the ledger (\<open>internal/tasks/billing_batch_*.go\<close>). The proxy in front of the
  language models admits a call through two gates (\<open>internal/middleware/remaining.go\<close>,
  \<open>require_credits.go\<close>), the first on counters in a key-value server (\<open>internal/counter\<close>). Webhook
  payloads are matched and rendered by \<open>internal/trigger/dispatch\<close>. Sandboxes are handed out of a
  pool of warm ones (\<open>internal/sandbox/warm_pool*.go\<close>), and knowledge sources are indexed by
  workers a scheduler starts (\<open>internal/rag/scheduler\<close>, \<open>internal/rag/tasks\<close>), whose website crawls
  are charged to the same ledger. The orchestrator (\<open>internal/sandbox/orchestrator*.go\<close>) creates,
  starts, stops and wakes the sandboxes of employees, and a task replaces an employee's sandbox by a
  new one with its data (\<open>internal/tasks/employee_sandbox_upgrade*.go\<close>). The events of a conversation
  go through streams in redis to the browsers that follow it and to a writer that stores them
  (\<open>internal/streaming\<close>). The keys of the model providers are decrypted through three tiers of caches
  shared by the instances of the server (\<open>internal/cache\<close>).

  \<^bold>\<open>Theories and code.\<close> Each component has a theory of its definitions, named as in the source, and
  a theory of its properties:
  \<^item> \<open>Prelude\<close>, \<open>Strs\<close>: Go's integers, times, identifiers, stable sorting, strings; the locale
    \<open>op_system\<close> of systems that serve a stream of operations.
  \<^item> \<open>Ledger\<close>, \<open>Buckets\<close>, \<open>Sweep\<close>, \<open>Credits\<close>, \<open>LedgerProps\<close>: the ledger, the attribution of spends to
    grants, the expiry sweeps, their stream of operations.
  \<^item> \<open>Proration\<close>, \<open>ProrationProps\<close>: previews of a plan change, exact fractions, the renewal decision.
  \<^item> \<open>Subscription\<close>, \<open>Renewal\<close>, \<open>SubFacts\<close>, \<open>SubProps\<close>, \<open>RenewalProps\<close>, \<open>Lifecycle\<close>: the service, the
    renewal worker and the transition system of both.
  \<^item> \<open>Counter\<close>, \<open>Middleware\<close>, \<open>GateProps\<close>: request counters and the two gates.
  \<^item> \<open>Dispatch\<close>, \<open>DispatchProps\<close>: references, conditions, templates.
  \<^item> \<open>WarmPool\<close>, \<open>WarmPoolProps\<close>: the pool, its checks, claims and tasks.
  \<^item> \<open>Orchestrator\<close>, \<open>Upgrade\<close>, \<open>UpgradeProps\<close>, \<open>RollbackProps\<close>, \<open>StrandedProps\<close>: sandboxes and their
    states, the upgrade task with its rollback, the retirement of the old sandbox, the handler that
    queues an upgrade. Each database statement asks \<open>oe_db\<close> first whether it fails.
  \<^item> \<open>Streams\<close>, \<open>StreamServer\<close>: the commands the bus sends and the documented answers of redis; the locales
    \<open>stream_view\<close>, \<open>stream_reads\<close>, \<open>stream_groups\<close> and \<open>stream_texts\<close> state what the code relies on and
    are interpreted on that server. \<open>Taps\<close>, \<open>TapsInv\<close>, \<open>TapsProps\<close>: the goroutines that hand entries to
    subscribers. \<open>Json\<close>, \<open>Flusher\<close>, \<open>FlusherProps\<close>, \<open>FlusherText\<close>, \<open>StreamProps\<close>: the writer, the texts
    of unfinished messages, the sweep of idle streams.
  \<^item> \<open>CredCache\<close>, \<open>CredCacheInv\<close>, \<open>CredCacheSteps\<close>, \<open>CredCacheProps\<close>: look-ups through memory, redis
    and the database, shared flights, revocations and the messages between instances.
  \<^item> \<open>BillingBatch\<close>, \<open>BatchProps\<close>: prices and the billing batch.
  \<^item> \<open>Documents\<close>, \<open>Ingest\<close>, \<open>Scheduler\<close>, \<open>IngestProps\<close>, \<open>IngestRuns\<close>: documents on their way into the
    vector index, index attempts and their workers, the scheduler, and the steps of all of them.
    \<open>Upkeep\<close>, \<open>UpkeepProps\<close>, \<open>VectorIndex\<close>: pruning and permission syncs; the locale \<open>vector_index\<close> states
    what the index promises.

  \<^bold>\<open>State and faults.\<close> A database is a record of tables in insertion order, a row a record of the
  columns the code reads or writes; components that share tables extend the record of the ledger. A
  transaction, and a single statement, is one step: it returns an error and the old tables, or the
  new tables. Errors the code distinguishes are constructors of a sum; a database that does not
  answer is modelled with sandboxes, upgrades, the event writer and the credential cache only; the
  unique constraints and missing rows the code handles are modelled throughout. Identifiers
  come from a sequence of generated values, times from the clock in the state. Payment providers,
  the key-value server, the task queue, the sandbox provider, the cipher, connectors, the embedding
  service, the tokenizer, the vector index, the model registry and the regular-expression engine
  are functions given to the definitions; what a property needs of them is a hypothesis or a locale
  (\<open>redis_kv\<close>, \<open>redis_up\<close>), interpreted on the documented commands of the server. Amounts are
  \<open>int64\<close> with the range tests written out where the code depends on them; costs in dollars are
  rational numbers; instants are nanoseconds since Go's zero time.

  \<^bold>\<open>Interleavings.\<close> \<open>Lifecycle.sub_step\<close>, \<open>WarmPoolProps.pool_step\<close> and \<open>IngestProps.ingest_step\<close>
  are step relations whose steps are the transactions of the handlers, so their invariants hold for
  every order of concurrent requests; in \<open>Taps.bus_do\<close> and \<open>CredCache.cache_do\<close> a step is one access of
  one goroutine to what it shares with others; where the code reads in one transaction and writes in
  another (\<open>CheckWarmSlot\<close>, the ingest worker, a renewal that charges before it locks) the two
  halves are separate definitions.

  \<^bold>\<open>What is shown.\<close> Invariants: balances never go negative, subscription rows and quotes
  stay consistent, a source has one active attempt, counters are taken together or not at all, an entry is
  acknowledged once it is stored. Safety: upgrades are paid for and applied once, renewals advance and grant
  once, a slot is handed out once, a crawl is charged once, pruning removes what is not listed, an event is
  stored once, a subscriber is given a stream in order and without repetition, the proxy no longer sends a
  revoked key. Functional behaviour of sweeps, attribution, renewals, upgrades, the billing batch, ingest tasks,
  gates and substitution, with their error answers. Exactness and bounds of proration, retries, caps, embedding
  requests and the age of a cached key. Some properties and lemmas state what the code does where its comments
  say otherwise or where it goes wrong: a revived subscription that is never charged again, a late check that
  hands out a slot twice, a reservation that is never recovered, an upgrade that stays running, a batch of
  events that is never retried, an event lost while a subscriber attaches, a key overwritten while another
  request uses it, a revocation undone by a look-up that it overtook, and a permission sync that changes
  nothing.

  \<^bold>\<open>Bounds.\<close> The recursions follow the data, except \<open>claim_loop\<close>
  (by the time left until its deadline), \<open>replace_refs\<close> (by the text left),
  \<open>chunk_tokens\<close> and \<open>embedInBudgetedGroups\<close> (by the tokens and parts
  left), \<open>wait_live\<close> (by the time left) and \<open>create_in_batches\<close> (by the
  rows left); \<open>scroll_pages\<close> is partial and returns on every index. There is no fuel.
  The age of a key is bounded by its expiries and by \<open>D\<close>, the longest duration of a
  request, which runs of \<open>cache_reachable\<close> respect. The keys of the accumulators do not
  expire during a flush. The embedding client's retries are its configured number plus one.

  \<^bold>\<open>Not modelled.\<close> HTTP handlers apart from those named, clients of external services, cryptography,
  generated tables and the front end; in the modelled parts the floating-point rounding of costs,
  cancelled contexts (other than the waits named), and logging. Next in the plan: argument
  validation and the registry of system tasks, the plan catalogue, token scopes and triggers.
\<close>

end
